(* ===== verification/Codecalc_Prelude.thy ===== *)
theory Codecalc_Prelude
  imports Complex_Main "HOL-Library.AList" "HOL-Library.Sublist"
begin

text \<open>
  Shared vocabulary of the codecalc development: Python values and dictionaries, text
  operations of \<open>str\<close>, the error monad every fallible operation returns in, and the generic
  lemmas on them that the component theories use through the simpset and through the
  collections declared here.

  A Python \<open>str\<close> is a HOL \<open>string\<close>: one \<open>char\<close> per code point, for code points below
  256. A \<open>dict\<close> is an association list in insertion order, with \<open>d.get(k)\<close> as
  \<open>dget\<close> and \<open>d[k] = v\<close> as \<open>dset\<close>.
\<close>

named_theorems dict_simps
  \<open>evaluation of dictionary reads after dictionary writes\<close>

section \<open>Python values\<close>

text \<open>A finite float carries its value and its \<open>repr\<close>; \<open>PInf\<close> is an infinity, with its sign.\<close>

datatype pyval =
    PNone
  | PBool bool
  | PInt int
  | PFloat rat string
  | PInf bool
  | PStr string
  | PList "pyval list"
  | PDict "(string \<times> pyval) list"

type_synonym dict = "(string \<times> pyval) list"

text \<open>Truth value testing, as \<open>if v:\<close> and \<open>not v\<close> do it.\<close>

fun truthy :: "pyval \<Rightarrow> bool" where
  "truthy PNone = False"
| "truthy (PBool b) = b"
| "truthy (PInt i) = (i \<noteq> 0)"
| "truthy (PFloat q r) = (q \<noteq> 0)"
| "truthy (PInf neg) = True"
| "truthy (PStr s) = (s \<noteq> [])"
| "truthy (PList xs) = (xs \<noteq> [])"
| "truthy (PDict d) = (d \<noteq> [])"

text \<open>The name of the type of a value.\<close>

fun type_name :: "pyval \<Rightarrow> string" where
  "type_name PNone = ''NoneType''"
| "type_name (PBool b) = ''bool''"
| "type_name (PInt i) = ''int''"
| "type_name (PFloat q r) = ''float''"
| "type_name (PInf n) = ''float''"
| "type_name (PStr s) = ''str''"
| "type_name (PList xs) = ''list''"
| "type_name (PDict d) = ''dict''"

text \<open>\<open>d.get(k)\<close> (with the default \<open>None\<close>), \<open>d[k] = v\<close>, \<open>{**d, **e}\<close>.\<close>

definition dget :: "dict \<Rightarrow> string \<Rightarrow> pyval" where
  "dget d k = (case map_of d k of None \<Rightarrow> PNone | Some v \<Rightarrow> v)"

definition has_key :: "dict \<Rightarrow> string \<Rightarrow> bool" where
  "has_key d k = (map_of d k \<noteq> None)"

definition dset :: "string \<Rightarrow> pyval \<Rightarrow> dict \<Rightarrow> dict" where
  "dset k v d = AList.update k v d"

definition dmerge :: "dict \<Rightarrow> dict \<Rightarrow> dict" where
  "dmerge d e = fold (\<lambda>(k, v) acc. dset k v acc) e d"

lemma dget_Nil [simp, dict_simps]: "dget [] k = PNone"
  by (simp add: dget_def)

lemma dget_Cons [simp, dict_simps]: "dget ((k, v) # d) k' = (if k' = k then v else dget d k')"
  by (simp add: dget_def)

lemma has_key_Cons [simp, dict_simps]: "has_key [] k' = False" "has_key ((k, v) # d) k' \<longleftrightarrow> k' = k \<or> has_key d k'"
  by (simp_all add: has_key_def)

lemma map_of_dset [dict_simps]: "map_of (dset k v d) = (map_of d)(k \<mapsto> v)"
  by (simp add: dset_def update_conv')

lemma dget_dset [simp, dict_simps]: "dget (dset k v d) k' = (if k' = k then v else dget d k')"
  by (simp add: dget_def map_of_dset)

lemma has_key_dset [simp, dict_simps]: "has_key (dset k v d) k' \<longleftrightarrow> k' = k \<or> has_key d k'"
  by (simp add: has_key_def map_of_dset)

lemma map_of_dmerge: "distinct (map fst e) \<Longrightarrow> map_of (dmerge d e) = map_of d ++ map_of e"
proof (induction e arbitrary: d)
  case Nil
  then show ?case by (simp add: dmerge_def)
next
  case (Cons p e)
  obtain k v where p: "p = (k, v)" by fastforce
  from Cons.prems p have k: "k \<notin> fst ` set e" and d': "distinct (map fst e)" by auto
  from k have k': "map_of e k = None" by (simp add: map_of_eq_None_iff)
  have "map_of (dmerge d (p # e)) = map_of (dmerge (dset k v d) e)"
    by (simp add: dmerge_def p)
  also have "\<dots> = (map_of d)(k \<mapsto> v) ++ map_of e"
    using Cons.IH [OF d', of "dset k v d"] by (simp only: map_of_dset)
  also have "\<dots> = map_of d ++ map_of (p # e)"
    using k' by (auto simp: p map_add_def fun_eq_iff split: option.splits)
  finally show ?case .
qed

lemma dget_dmerge_new: "k \<notin> fst ` set e \<Longrightarrow> dget (dmerge d e) k = dget d k"
proof (induction e arbitrary: d)
  case Nil
  then show ?case by (simp add: dmerge_def)
next
  case (Cons p e)
  obtain k' v where p: "p = (k', v)" by fastforce
  have "dget (dmerge d (p # e)) k = dget (dmerge (dset k' v d) e) k"
    by (simp add: dmerge_def p)
  with Cons p show ?case by auto
qed

section \<open>Errors as values\<close>

text \<open>
  An operation that may raise returns \<open>'e + 'a\<close>: \<open>Inl\<close> the exception, \<open>Inr\<close> the value.
\<close>

primrec rbind :: "'e + 'a \<Rightarrow> ('a \<Rightarrow> 'e + 'b) \<Rightarrow> 'e + 'b" where
  "rbind (Inl e) f = Inl e"
| "rbind (Inr x) f = f x"

lemma rbind_eq_Inr: "rbind m f = Inr y \<longleftrightarrow> (\<exists>x. m = Inr x \<and> f x = Inr y)"
  by (cases m) auto

lemma rbind_eq_Inl: "rbind m f = Inl e \<longleftrightarrow> m = Inl e \<or> (\<exists>x. m = Inr x \<and> f x = Inl e)"
  by (cases m) auto

primrec rmap :: "('a \<Rightarrow> 'e + 'b) \<Rightarrow> 'a list \<Rightarrow> 'e + 'b list" where
  "rmap f [] = Inr []"
| "rmap f (x # xs) = rbind (f x) (\<lambda>y. rbind (rmap f xs) (\<lambda>ys. Inr (y # ys)))"

lemma rmap_length: "rmap f xs = Inr ys \<Longrightarrow> length ys = length xs"
  by (induction xs arbitrary: ys) (auto simp: rbind_eq_Inr)

section \<open>Text\<close>

text \<open>\<open>p in s\<close>.\<close>

fun contains :: "string \<Rightarrow> string \<Rightarrow> bool" where
  "contains p [] = (p = [])"
| "contains p (c # cs) = (prefix p (c # cs) \<or> contains p cs)"

lemma contains_iff_sublist: "contains p s \<longleftrightarrow> sublist p s"
  by (induction p s rule: contains.induct) (auto simp: sublist_Cons_right)

text \<open>\<open>s.lower()\<close> on code points below 256.\<close>

definition lower_char :: "char \<Rightarrow> char" where
  "lower_char c = (let n = (of_char c :: nat) in
     if (65 \<le> n \<and> n \<le> 90) \<or> (192 \<le> n \<and> n \<le> 222 \<and> n \<noteq> 215) then char_of (n + 32) else c)"

definition lower :: "string \<Rightarrow> string" where
  "lower s = map lower_char s"

text \<open>White space of \<open>str.strip\<close> on code points below 256.\<close>

definition is_space :: "char \<Rightarrow> bool" where
  "is_space c = (let n = (of_char c :: nat) in
     (9 \<le> n \<and> n \<le> 13) \<or> (28 \<le> n \<and> n \<le> 32) \<or> n = 133 \<or> n = 160)"

definition lstrip :: "('a \<Rightarrow> bool) \<Rightarrow> 'a list \<Rightarrow> 'a list" where
  "lstrip p s = dropWhile p s"

definition rstrip :: "('a \<Rightarrow> bool) \<Rightarrow> 'a list \<Rightarrow> 'a list" where
  "rstrip p s = rev (dropWhile p (rev s))"

definition strip :: "('a \<Rightarrow> bool) \<Rightarrow> 'a list \<Rightarrow> 'a list" where
  "strip p s = rstrip p (lstrip p s)"

lemma rstrip_idem [simp]: "rstrip p (rstrip p s) = rstrip p s"
  by (simp add: rstrip_def dropWhile_idem)

lemma rstrip_append_last: "\<not> p x \<Longrightarrow> rstrip p (s @ [x]) = s @ [x]"
  by (simp add: rstrip_def)

lemma rstrip_nil_iff: "rstrip p s = [] \<longleftrightarrow> (\<forall>c\<in>set s. p c)"
  by (simp add: rstrip_def)

lemma rstrip_prefix: "prefix (rstrip p s) s"
proof -
  have "rev s = takeWhile p (rev s) @ dropWhile p (rev s)" by simp
  then have "s = rev (dropWhile p (rev s)) @ rev (takeWhile p (rev s))"
    by (metis rev_append rev_rev_ident)
  then show ?thesis by (metis rstrip_def prefixI)
qed

lemma set_rstrip: "set (rstrip p s) \<subseteq> set s"
  using set_mono_prefix [OF rstrip_prefix] .

section \<open>Decimal text of integers\<close>

text \<open>\<open>str(n)\<close> for a natural number, and for an integer.\<close>

definition digit_char :: "nat \<Rightarrow> char" where
  "digit_char d = char_of (48 + d)"

function nat_str :: "nat \<Rightarrow> string" where
  "nat_str n = (if n < 10 then [digit_char n] else nat_str (n div 10) @ [digit_char (n mod 10)])"
  by pat_completeness auto
termination
  by (relation "measure id") auto

declare nat_str.simps [simp del]

definition int_str :: "int \<Rightarrow> string" where
  "int_str i = (if i < 0 then ''-'' @ nat_str (nat (- i)) else nat_str (nat i))"

definition is_digit :: "char \<Rightarrow> bool" where
  "is_digit c = (let n = (of_char c :: nat) in 48 \<le> n \<and> n \<le> 57)"

definition digit_val :: "char \<Rightarrow> nat" where
  "digit_val c = of_char c - 48"

definition nat_of_digits :: "string \<Rightarrow> nat" where
  "nat_of_digits s = foldl (\<lambda>a c. 10 * a + digit_val c) 0 s"

lemma digit_char_props [simp]:
  assumes "d < 10"
  shows "is_digit (digit_char d)" and "digit_val (digit_char d) = d"
proof -
  have "of_char (digit_char d) = 48 + d" using assms
    by (simp add: digit_char_def)
  then show "is_digit (digit_char d)" and "digit_val (digit_char d) = d"
    using assms by (simp_all add: is_digit_def digit_val_def)
qed

lemma nat_of_digits_snoc [simp]: "nat_of_digits (s @ [c]) = 10 * nat_of_digits s + digit_val c"
  by (simp add: nat_of_digits_def)

lemma nat_str_digits: "list_all is_digit (nat_str n)"
proof (induction n rule: nat_str.induct)
  case (1 n)
  then show ?case by (subst nat_str.simps) (auto simp: list_all_append)
qed

lemma nat_str_not_Nil [simp]: "nat_str n \<noteq> []"
  by (subst nat_str.simps) simp

lemma nat_of_digits_nat_str [simp]: "nat_of_digits (nat_str n) = n"
proof (induction n rule: nat_str.induct)
  case (1 n)
  show ?case
  proof (cases "n < 10")
    case True
    then show ?thesis by (subst nat_str.simps) (simp add: nat_of_digits_def)
  next
    case False
    with 1 have "nat_of_digits (nat_str (n div 10)) = n div 10" by simp
    with False show ?thesis by (subst nat_str.simps) simp
  qed
qed

text \<open>The number of decimal digits of a value is the length of its text.\<close>

lemma nat_str_length_bound: "n < 10 ^ length (nat_str n)"
proof (induction n rule: nat_str.induct)
  case (1 n)
  show ?case
  proof (cases "n < 10")
    case True
    then show ?thesis by (subst nat_str.simps) simp
  next
    case False
    with 1 have "n div 10 < 10 ^ length (nat_str (n div 10))" by simp
    then have "n div 10 + 1 \<le> 10 ^ length (nat_str (n div 10))" by simp
    then have "10 * (n div 10 + 1) \<le> 10 * 10 ^ length (nat_str (n div 10))"
      by (rule mult_le_mono2)
    then have "n < 10 * 10 ^ length (nat_str (n div 10))" by simp
    with False show ?thesis by (subst nat_str.simps) simp
  qed
qed

section \<open>The text of a value\<close>

text \<open>\<open>sep.join(parts)\<close>.\<close>

fun join :: "'a list \<Rightarrow> 'a list list \<Rightarrow> 'a list" where
  "join sep [] = []"
| "join sep [x] = x"
| "join sep (x # y # ys) = x @ sep @ join sep (y # ys)"

text \<open>
  \<open>repr(s)\<close> of a string: single quotes unless the text holds one and no double quote;
  backslash, the quote and unprintable characters escaped.
\<close>

definition hex_digit :: "nat \<Rightarrow> char" where
  "hex_digit d = (if d < 10 then char_of (48 + d) else char_of (87 + d))"

definition repr_char :: "char \<Rightarrow> char \<Rightarrow> string" where
  "repr_char q c = (let n = (of_char c :: nat) in
     if c = q \<or> n = 92 then [char_of (92::nat), c]
     else if n = 9 then [char_of (92::nat), CHR ''t'']
     else if n = 10 then [char_of (92::nat), CHR ''n'']
     else if n = 13 then [char_of (92::nat), CHR ''r'']
     else if n < 32 \<or> (127 \<le> n \<and> n \<le> 160) \<or> n = 173
       then [char_of (92::nat), CHR ''x'', hex_digit (n div 16), hex_digit (n mod 16)]
     else [c])"

definition repr_str :: "string \<Rightarrow> string" where
  "repr_str s = (let sq = char_of (39::nat); dq = char_of (34::nat);
                     q = (if sq \<in> set s \<and> dq \<notin> set s then dq else sq)
                 in [q] @ concat (map (repr_char q) s) @ [q])"

text \<open>\<open>repr(v)\<close> and \<open>str(v)\<close>.\<close>

fun py_repr :: "pyval \<Rightarrow> string" where
  "py_repr PNone = ''None''"
| "py_repr (PBool b) = (if b then ''True'' else ''False'')"
| "py_repr (PInt i) = int_str i"
| "py_repr (PFloat q r) = r"
| "py_repr (PInf neg) = (if neg then ''-inf'' else ''inf'')"
| "py_repr (PStr s) = repr_str s"
| "py_repr (PList xs) = ''['' @ join '', '' (map py_repr xs) @ '']''"
| "py_repr (PDict d) =
     ''{'' @ join '', '' (map (\<lambda>(k, v). repr_str k @ '': '' @ py_repr v) d) @ ''}''"

definition py_str :: "pyval \<Rightarrow> string" where
  "py_str v = (case v of PStr s \<Rightarrow> s | _ \<Rightarrow> py_repr v)"

lemma py_str_PStr [simp]: "py_str (PStr s) = s"
  by (simp add: py_str_def)

section \<open>Rounding\<close>

text \<open>\<open>round(q)\<close> of a rational: to the nearest integer, ties to the even one.\<close>

definition round_half_even :: "rat \<Rightarrow> int" where
  "round_half_even q =
     (let f = \<lfloor>q\<rfloor>; r = q - of_int f
      in if r < 1 / 2 then f else if r > 1 / 2 then f + 1 else if even f then f else f + 1)"

lemma round_half_even_int [simp]: "round_half_even (of_int i) = i"
  by (simp add: round_half_even_def)

lemma round_half_even_error: "\<bar>of_int (round_half_even q) - q\<bar> \<le> 1 / 2"
proof -
  have "of_int \<lfloor>q\<rfloor> \<le> q" and "q < of_int \<lfloor>q\<rfloor> + 1" by linarith+
  then show ?thesis by (auto simp: round_half_even_def Let_def abs_le_iff)
qed

lemma round_half_even_mono: "p \<le> q \<Longrightarrow> round_half_even p \<le> round_half_even q"
proof (rule ccontr)
  assume pq: "p \<le> q" and "\<not> round_half_even p \<le> round_half_even q"
  then have lt: "round_half_even q + 1 \<le> round_half_even p" by simp
  have "of_int (round_half_even p) - p \<le> 1 / 2" and "q - of_int (round_half_even q) \<le> 1 / 2"
    using round_half_even_error [of p] round_half_even_error [of q] by linarith+
  moreover have "(of_int (round_half_even q) :: rat) + 1 \<le> of_int (round_half_even p)"
    using lt by (metis of_int_1 of_int_add of_int_le_iff)
  ultimately have "p = q" using pq by linarith
  with lt show False by simp
qed

section \<open>Interface of a printer and its reader\<close>

text \<open>
  What a client of a printed form relies on: the reader takes back whatever the printer prints
  (the printer may refuse).
\<close>

locale text_codec =
  fixes print :: "'a \<Rightarrow> 'e + string"
    and read :: "string \<Rightarrow> 'e + 'a"
  assumes read_print: "print x = Inr t \<Longrightarrow> read t = Inr x"
begin

lemma print_inject: "print x = Inr t \<Longrightarrow> print y = Inr t \<Longrightarrow> x = y"
  by (metis read_print Inr_inject)

lemma read_bind_print: "rbind (print x) (\<lambda>t. Inr (f t)) = Inr y \<Longrightarrow> \<exists>t. y = f t \<and> read t = Inr x"
  using read_print by (auto simp: rbind_eq_Inr)

end

end
