(* ===== verification/Errors.thy ===== *)
theory Errors
  imports Codecalc_Prelude
begin

text \<open>
  \<open>codecalc/errors.py\<close>: the closed taxonomy of error codes, the classification of
  exceptions (by type first) and of messages (the transitional fallback), and the two
  functions every failing result passes through on its way out, \<open>error_result\<close> and
  \<open>ensure_code\<close>, with its row-level form \<open>stamp_row\<close>.
\<close>

section \<open>The taxonomy\<close>

abbreviation VALIDATION :: string where "VALIDATION \<equiv> ''validation''"
abbreviation RUNTIME_UNAVAILABLE :: string where "RUNTIME_UNAVAILABLE \<equiv> ''runtime_unavailable''"
abbreviation TIMEOUT :: string where "TIMEOUT \<equiv> ''timeout''"
abbreviation RESOURCE_EXHAUSTED :: string where "RESOURCE_EXHAUSTED \<equiv> ''resource_exhausted''"
abbreviation PERMISSION_DENIED :: string where "PERMISSION_DENIED \<equiv> ''permission_denied''"
abbreviation DEPENDENCY_MISSING :: string where "DEPENDENCY_MISSING \<equiv> ''dependency_missing''"
abbreviation WORKER_FAILURE :: string where "WORKER_FAILURE \<equiv> ''worker_failure''"
abbreviation INTERNAL :: string where "INTERNAL \<equiv> ''internal''"

definition ALL_CODES :: "string list" where
  "ALL_CODES = [VALIDATION, RUNTIME_UNAVAILABLE, TIMEOUT, RESOURCE_EXHAUSTED,
                PERMISSION_DENIED, DEPENDENCY_MISSING, WORKER_FAILURE, INTERNAL]"

definition REMEDIES :: "(string \<times> string) list" where
  "REMEDIES =
    [(VALIDATION, ''fix the arguments and retry; the message names the field''),
     (RUNTIME_UNAVAILABLE, ''install the runtime, or call list_languages to see what this host has''),
     (TIMEOUT, ''raise `timeout`, or reduce the work; a partial result is not returned''),
     (RESOURCE_EXHAUSTED, ''raise the relevant ceiling (max_memory_mb, max_output_kb) or reduce the work''),
     (PERMISSION_DENIED, ''the path or operation is outside what this server permits; it will not succeed on retry''),
     (DEPENDENCY_MISSING, ''install the named extra; the message gives the exact pip command''),
     (WORKER_FAILURE, ''the session is unusable '' @ [char_of (226::nat), char_of (128::nat), char_of (148::nat)] @ '' call session_stop and start a new one''),
     (INTERNAL, ''a defect in codecalc; the message is worth reporting verbatim'')]"

text \<open>The dash of the worker remedy is written as its UTF-8 bytes.\<close>

definition remedy_for :: "string \<Rightarrow> pyval" where
  "remedy_for code = (case map_of REMEDIES code of Some r \<Rightarrow> PStr r | None \<Rightarrow> PNone)"

section \<open>Exceptions\<close>

text \<open>
  The exception classes the package raises or catches, each with its method resolution
  order, so that \<open>isinstance\<close> is membership. \<open>OtherExn\<close> stands for any class with no
  more informative base than \<open>Exception\<close>.
\<close>

datatype exn_class =
    MissingExtra | TimeoutErr | MemoryErr | RecursionErr | PermissionErr | FileNotFoundErr
  | ImportErr | ValueErr | TypeErr | KeyErr | IndexErr | LookupErr | ArithmeticErr
  | ZeroDivisionErr | OverflowErr | OSErr | RuntimeErr | CeilingExceeded
  | UnsupportedCapabilityExn | UnknownProviderExn | OtherExn

fun mro :: "exn_class \<Rightarrow> exn_class list" where
  "mro MissingExtra = [MissingExtra, ImportErr]"
| "mro TimeoutErr = [TimeoutErr, OSErr]"
| "mro RecursionErr = [RecursionErr, RuntimeErr]"
| "mro PermissionErr = [PermissionErr, OSErr]"
| "mro FileNotFoundErr = [FileNotFoundErr, OSErr]"
| "mro KeyErr = [KeyErr, LookupErr]"
| "mro IndexErr = [IndexErr, LookupErr]"
| "mro ZeroDivisionErr = [ZeroDivisionErr, ArithmeticErr]"
| "mro OverflowErr = [OverflowErr, ArithmeticErr]"
| "mro CeilingExceeded = [CeilingExceeded, ValueErr]"
| "mro UnsupportedCapabilityExn = [UnsupportedCapabilityExn, RuntimeErr]"
| "mro UnknownProviderExn = [UnknownProviderExn, LookupErr]"
| "mro c = [c]"

datatype exn = Exn (exn_class: exn_class) (exn_msg: string)

definition isinstance :: "exn \<Rightarrow> exn_class \<Rightarrow> bool" where
  "isinstance e c = List.member (mro (exn_class e)) c"

section \<open>Classification by message\<close>

definition MESSAGE_HINTS :: "(string \<times> string) list" where
  "MESSAGE_HINTS =
    [(''timed out'', TIMEOUT), (''timeout'', TIMEOUT),
     (''memory ceiling'', RESOURCE_EXHAUSTED), (''memory'', RESOURCE_EXHAUSTED),
     (''too long'', RESOURCE_EXHAUSTED), (''too deeply nested'', RESOURCE_EXHAUSTED),
     (''too many'', RESOURCE_EXHAUSTED), (''resource limit'', RESOURCE_EXHAUSTED),
     (''exceeded'', RESOURCE_EXHAUSTED), (''stack overflow'', RESOURCE_EXHAUSTED),
     (''not installed'', DEPENDENCY_MISSING), (''ships in the'', DEPENDENCY_MISSING),
     (''permission'', PERMISSION_DENIED), (''escapes'', PERMISSION_DENIED),
     (''outside'', PERMISSION_DENIED), (''refus'', PERMISSION_DENIED),
     (''worker'', WORKER_FAILURE), (''session is'', WORKER_FAILURE),
     (''desync'', WORKER_FAILURE),
     (''runtime unavailable'', RUNTIME_UNAVAILABLE), (''not found in path'', RUNTIME_UNAVAILABLE),
     (''unknown language'', VALIDATION), (''unknown session'', VALIDATION),
     (''no such file'', VALIDATION), (''no such directory'', VALIDATION),
     (''parse error'', VALIDATION), (''could not parse'', VALIDATION),
     (''could not be tokenised'', VALIDATION), (''sympify'', VALIDATION),
     (''unexpected character'', VALIDATION), (''invalid'', VALIDATION),
     (''must be'', VALIDATION), (''empty'', VALIDATION),
     (''at least'', VALIDATION), (''is zero'', VALIDATION), (''negative'', VALIDATION),
     (''>='', VALIDATION), (''unknown'', VALIDATION)]"

text \<open>The loop over the hints: the first needle found decides.\<close>

fun first_hint :: "(string \<times> string) list \<Rightarrow> string \<Rightarrow> string" where
  "first_hint [] low = INTERNAL"
| "first_hint ((needle, code) # hs) low = (if contains needle low then code else first_hint hs low)"

definition from_message :: "string \<Rightarrow> string" where
  "from_message message = first_hint MESSAGE_HINTS (lower message)"

section \<open>Classification by exception type\<close>

definition digit_limit_message :: "string \<Rightarrow> bool" where
  "digit_limit_message m =
     (contains ''integer string conversion'' m \<and> contains ''int_max_str_digits'' m)"

definition classify :: "exn \<Rightarrow> string" where
  "classify exc =
    (if isinstance exc MissingExtra then DEPENDENCY_MISSING
     else if isinstance exc TimeoutErr then TIMEOUT
     else if isinstance exc MemoryErr then RESOURCE_EXHAUSTED
     else if isinstance exc RecursionErr then RESOURCE_EXHAUSTED
     else if isinstance exc PermissionErr then PERMISSION_DENIED
     else if isinstance exc FileNotFoundErr then RUNTIME_UNAVAILABLE
     else if isinstance exc ImportErr then DEPENDENCY_MISSING
     else if isinstance exc ValueErr \<and> digit_limit_message (exn_msg exc) then RESOURCE_EXHAUSTED
     else if isinstance exc ValueErr \<or> isinstance exc TypeErr \<or> isinstance exc KeyErr
             \<or> isinstance exc IndexErr \<or> isinstance exc ArithmeticErr then VALIDATION
     else if isinstance exc OSErr then INTERNAL
     else from_message (exn_msg exc))"

definition code_for_safe_expr_category :: "string \<Rightarrow> string" where
  "code_for_safe_expr_category category =
     (case map_of [(''security'', PERMISSION_DENIED), (''ceiling'', RESOURCE_EXHAUSTED),
                   (''validation'', VALIDATION)] category
      of Some c \<Rightarrow> c | None \<Rightarrow> INTERNAL)"

section \<open>Failing results\<close>

definition error_result :: "string \<Rightarrow> string \<Rightarrow> dict \<Rightarrow> dict" where
  "error_result code message extra =
     (let known = List.member ALL_CODES code;
          message' = (if known then message
                      else ''[unclassified code '' @ repr_str code @ ''] '' @ message);
          code' = (if known then code else INTERNAL)
      in dmerge [(''ok'', PBool False), (''code'', PStr code'), (''error'', PStr message'),
                 (''remedy'', remedy_for code')] extra)"

definition set_inferred_code :: "string \<Rightarrow> dict \<Rightarrow> dict" where
  "set_inferred_code code result =
     dset ''code_inferred'' (PBool True)
       (dset ''remedy'' (remedy_for code) (dset ''code'' (PStr code) result))"

definition ensure_code :: "dict \<Rightarrow> dict" where
  "ensure_code result =
    (if dget result ''ok'' \<noteq> PBool False then result
     else if truthy (dget result ''code'') then result
     else if \<not> truthy (dget result ''error'') \<and> dget result ''verdict'' \<noteq> PNone
       then (if truthy (dget result ''timed_out'') \<or> dget result ''verdict'' = PStr ''TLE''
             then set_inferred_code TIMEOUT result else result)
     else set_inferred_code
            (from_message (if truthy (dget result ''error'')
                           then py_str (dget result ''error'') else '''')) result)"

definition stamp_row :: "dict \<Rightarrow> bool \<Rightarrow> string option \<Rightarrow> dict" where
  "stamp_row row timed_out timeout_message =
    (if dget row ''ok'' \<noteq> PBool False then row
     else let row' = (case timeout_message of
                        Some m \<Rightarrow> if \<not> truthy (dget row ''error'') \<and> timed_out \<and> m \<noteq> []
                                  then dset ''error'' (PStr m) row else row
                      | None \<Rightarrow> row)
          in if truthy (dget row' ''error'') then ensure_code row' else row')"

section \<open>Lemmas\<close>

lemma first_hint_codes:
  "set (map snd hs) \<subseteq> set ALL_CODES \<Longrightarrow> first_hint hs low \<in> set ALL_CODES"
  by (induction hs low rule: first_hint.induct) (auto simp: ALL_CODES_def)

lemma from_message_codes [simp]: "from_message m \<in> set ALL_CODES"
  unfolding from_message_def
  by (rule first_hint_codes) (simp add: MESSAGE_HINTS_def ALL_CODES_def)

lemma classify_codes [simp]: "classify e \<in> set ALL_CODES"
proof -
  have "{VALIDATION, RUNTIME_UNAVAILABLE, TIMEOUT, RESOURCE_EXHAUSTED, PERMISSION_DENIED,
         DEPENDENCY_MISSING, INTERNAL} \<subseteq> set ALL_CODES"
    by (simp add: ALL_CODES_def)
  then show ?thesis unfolding classify_def by auto
qed

lemma category_codes [simp]: "code_for_safe_expr_category c \<in> set ALL_CODES"
  by (simp add: code_for_safe_expr_category_def ALL_CODES_def)

lemma remedy_for_known: "c \<in> set ALL_CODES \<Longrightarrow> \<exists>r. remedy_for c = PStr r \<and> map_of REMEDIES c = Some r"
  by (auto simp: ALL_CODES_def remedy_for_def REMEDIES_def)

lemma codes_not_empty: "c \<in> set ALL_CODES \<Longrightarrow> c \<noteq> []"
  by (auto simp: ALL_CODES_def)

lemma set_inferred_code_get [simp]:
  "dget (set_inferred_code c r) k =
     (if k = ''code_inferred'' then PBool True else if k = ''remedy'' then remedy_for c
      else if k = ''code'' then PStr c else dget r k)"
  by (simp add: set_inferred_code_def)

lemma ensure_code_ok [simp]: "dget r ''ok'' \<noteq> PBool False \<Longrightarrow> ensure_code r = r"
  by (simp add: ensure_code_def)

lemma ensure_code_coded [simp]: "truthy (dget r ''code'') \<Longrightarrow> ensure_code r = r"
  by (simp add: ensure_code_def)

end
