(* ===== verification/Guarded.thy ===== *)
theory Guarded
  imports Errors
begin

text \<open>
  \<open>codecalc/guarded.py\<close>: a tool function run in a killable child. What the operating
  system does with the child (it answers, the parent's wall clock kills it, a resource limit
  kills it, its answer is unusable) is the \<open>fate\<close> argument; \<open>run_guarded\<close> and
  \<open>guarded_call\<close> are what the parent makes of it.
\<close>

abbreviation UNENFORCED_NO_FORK :: string where
  "UNENFORCED_NO_FORK \<equiv> ''expression_bound_not_enforced_without_fork''"

datatype fate = Answers | DeadlineExpires | DiesSilently | AnswersGarbage

fun exn_name :: "exn_class \<Rightarrow> string" where
  "exn_name MissingExtra = ''MissingExtra''"
| "exn_name TimeoutErr = ''TimeoutError''"
| "exn_name MemoryErr = ''MemoryError''"
| "exn_name RecursionErr = ''RecursionError''"
| "exn_name PermissionErr = ''PermissionError''"
| "exn_name FileNotFoundErr = ''FileNotFoundError''"
| "exn_name ImportErr = ''ImportError''"
| "exn_name ValueErr = ''ValueError''"
| "exn_name TypeErr = ''TypeError''"
| "exn_name KeyErr = ''KeyError''"
| "exn_name IndexErr = ''IndexError''"
| "exn_name LookupErr = ''LookupError''"
| "exn_name ArithmeticErr = ''ArithmeticError''"
| "exn_name ZeroDivisionErr = ''ZeroDivisionError''"
| "exn_name OverflowErr = ''OverflowError''"
| "exn_name OSErr = ''OSError''"
| "exn_name RuntimeErr = ''RuntimeError''"
| "exn_name CeilingExceeded = ''_CeilingExceeded''"
| "exn_name UnsupportedCapabilityExn = ''UnsupportedCapability''"
| "exn_name UnknownProviderExn = ''UnknownProvider''"
| "exn_name OtherExn = ''Exception''"

definition exn_report :: "exn \<Rightarrow> string" where
  "exn_report e = take 2000 (exn_name (exn_class e) @ '': '' @ exn_msg e)"

text \<open>The child: the outcome it serialises for what the function returned or raised.\<close>

definition child_payload :: "exn + dict \<Rightarrow> dict" where
  "child_payload r =
     (case r of
        Inr v \<Rightarrow> [(''ok'', PBool True), (''value'', PDict v)]
      | Inl e \<Rightarrow> if exn_class e = MemoryErr
                then error_result RESOURCE_EXHAUSTED ''expression exhausted the memory ceiling'' []
                else error_result (classify e) (exn_report e) [])"

definition run_guarded :: "bool \<Rightarrow> nat \<Rightarrow> nat \<Rightarrow> nat \<Rightarrow> fate \<Rightarrow> exn + dict \<Rightarrow> dict" where
  "run_guarded can_fork cpu_seconds memory_mb wall_seconds fate r =
    (if \<not> can_fork then
       (case r of
          Inr v \<Rightarrow> [(''ok'', PBool True), (''value'', PDict v),
                    (''unenforced'', PList [PStr UNENFORCED_NO_FORK])]
        | Inl e \<Rightarrow> error_result (classify e) (exn_report e)
                    [(''unenforced'', PList [PStr UNENFORCED_NO_FORK])])
     else case fate of
       DeadlineExpires \<Rightarrow> error_result TIMEOUT
         (''expression exceeded the '' @ nat_str wall_seconds
          @ ''s evaluation limit and was killed'') []
     | DiesSilently \<Rightarrow> error_result RESOURCE_EXHAUSTED
         (''expression was terminated by a resource limit (CPU '' @ nat_str cpu_seconds
          @ ''s / memory '' @ nat_str memory_mb @ ''MB) before producing a result'') []
     | AnswersGarbage \<Rightarrow> error_result INTERNAL
         ''the guarded evaluation returned no usable result'' []
     | Answers \<Rightarrow> child_payload r)"

abbreviation CARRIED_ON_FAILURE :: "string list" where
  "CARRIED_ON_FAILURE \<equiv> [''ok'', ''code'', ''error'', ''remedy'', ''code_inferred'']"

definition list_or_empty :: "pyval \<Rightarrow> pyval list" where
  "list_or_empty v = (case v of PList xs \<Rightarrow> xs | _ \<Rightarrow> [])"

text \<open>\<open>guarded_call\<close>, from the outcome \<open>run_guarded\<close> hands back.\<close>

definition unwrap_outcome :: "dict \<Rightarrow> dict" where
  "unwrap_outcome outcome =
    (let result =
       (if truthy (dget outcome ''ok'')
        then (case dget outcome ''value'' of PDict v \<Rightarrow> v | _ \<Rightarrow> [])
        else let carried = map (\<lambda>k. (k, dget outcome k)) (filter (has_key outcome) CARRIED_ON_FAILURE);
                 r = dset ''ok'' (PBool False) carried
             in if has_key r ''error'' then r else dset ''error'' (PStr ''evaluation failed'') r)
     in if truthy (dget outcome ''unenforced'')
        then dset ''unenforced'' (PList (list_or_empty (dget result ''unenforced'')
                                         @ list_or_empty (dget outcome ''unenforced''))) result
        else result)"

definition guarded_call :: "bool \<Rightarrow> fate \<Rightarrow> exn + dict \<Rightarrow> dict" where
  "guarded_call can_fork fate r = unwrap_outcome (run_guarded can_fork 10 2048 15 fate r)"

section \<open>Lemmas\<close>

lemma error_result_get:
  assumes "code \<in> set ALL_CODES" and "fst ` set extra \<inter> {''ok'', ''code'', ''error'', ''remedy''} = {}"
  shows "dget (error_result code m extra) ''ok'' = PBool False"
    and "dget (error_result code m extra) ''code'' = PStr code"
    and "dget (error_result code m extra) ''error'' = PStr m"
    and "dget (error_result code m extra) ''remedy'' = remedy_for code"
proof -
  have no: "k \<notin> fst ` set extra" if "k \<in> {''ok'', ''code'', ''error'', ''remedy''}" for k
    using assms(2) that by blast
  have known: "List.member ALL_CODES code" using assms(1) by simp
  show "dget (error_result code m extra) ''ok'' = PBool False"
    and "dget (error_result code m extra) ''code'' = PStr code"
    and "dget (error_result code m extra) ''error'' = PStr m"
    and "dget (error_result code m extra) ''remedy'' = remedy_for code"
    using no known by (simp_all add: error_result_def dget_dmerge_new Let_def)
qed

lemma guarded_call_answer:
  "guarded_call True Answers (Inr v) = v"
  by (simp add: guarded_call_def run_guarded_def child_payload_def unwrap_outcome_def dget_def
      has_key_def)

lemma error_result_no_extra:
  "code \<in> set ALL_CODES \<Longrightarrow>
     error_result code m [] = [(''ok'', PBool False), (''code'', PStr code),
       (''error'', PStr m), (''remedy'', remedy_for code)]"
  by (simp add: error_result_def dmerge_def)

lemma unwrap_error_result:
  "code \<in> set ALL_CODES \<Longrightarrow> unwrap_outcome (error_result code m []) = error_result code m []"
  by (simp add: error_result_no_extra unwrap_outcome_def dget_def has_key_def dset_def)

text \<open>A key of the tool's own answer: the guard never invents it and never changes it.\<close>

definition own_key :: "string \<Rightarrow> bool" where
  "own_key k \<longleftrightarrow> k \<notin> {''ok'', ''code'', ''error'', ''remedy'', ''code_inferred'', ''unenforced''}"

lemma dget_map_keys: "dget (map (\<lambda>k. (k, f k)) ks) k' = (if k' \<in> set ks then f k' else PNone)"
  by (induction ks) (auto simp: dget_def)

lemma unwrap_failure_own:
  assumes "\<not> truthy (dget d ''ok'')" and "own_key k"
  shows "dget (unwrap_outcome d) k = PNone"
  using assms by (simp add: unwrap_outcome_def own_key_def Let_def dget_map_keys del: list.map)

lemma error_result_failure:
  "code \<in> set ALL_CODES \<Longrightarrow> fst ` set extra \<inter> {''ok'', ''code'', ''error'', ''remedy''} = {} \<Longrightarrow>
     \<not> truthy (dget (error_result code m extra) ''ok'')"
  by (simp add: error_result_get)

lemma guard_codes [simp]: "TIMEOUT \<in> set ALL_CODES" "RESOURCE_EXHAUSTED \<in> set ALL_CODES"
  "INTERNAL \<in> set ALL_CODES" "VALIDATION \<in> set ALL_CODES" "PERMISSION_DENIED \<in> set ALL_CODES"
  "WORKER_FAILURE \<in> set ALL_CODES" "DEPENDENCY_MISSING \<in> set ALL_CODES" "RUNTIME_UNAVAILABLE \<in> set ALL_CODES"
  by (simp_all add: ALL_CODES_def)

lemma guarded_call_own:
  assumes "own_key k" and "dget (guarded_call can_fork fate r) k \<noteq> PNone"
  shows "\<exists>d. r = Inr d \<and> dget (guarded_call can_fork fate r) k = dget d k
    \<and> (\<not> can_fork \<or> fate = Answers)"
proof (cases r)
  case (Inl e)
  have "\<not> truthy (dget (run_guarded can_fork 10 2048 15 fate r) ''ok'')"
    using Inl by (auto simp: run_guarded_def child_payload_def error_result_failure split: fate.splits)
  then show ?thesis using assms unwrap_failure_own by (simp add: guarded_call_def)
next
  case (Inr d)
  show ?thesis
  proof (cases "can_fork \<and> fate \<noteq> Answers")
    case True
    then have "\<not> truthy (dget (run_guarded can_fork 10 2048 15 fate r) ''ok'')"
      by (cases fate) (auto simp: run_guarded_def error_result_failure)
    then show ?thesis using assms unwrap_failure_own by (simp add: guarded_call_def)
  next
    case False
    then show ?thesis using assms(1) Inr guarded_call_answer [of d]
      by (cases can_fork) (auto simp: guarded_call_def run_guarded_def unwrap_outcome_def own_key_def
          dget_def [of "(''ok'', _) # _"] Let_def)
  qed
qed

lemma guarded_call_value:
  "\<not> can_fork \<or> fate = Answers \<Longrightarrow> k \<noteq> ''unenforced'' \<Longrightarrow> dget (guarded_call can_fork fate (Inr d)) k = dget d k"
  using guarded_call_answer [of d]
  by (cases can_fork) (auto simp: guarded_call_def run_guarded_def unwrap_outcome_def
      dget_def [of "(''ok'', _) # _"] Let_def)

section \<open>Failures carry a code of the taxonomy\<close>

text \<open>
  What a client of a classifier relies on: every code it gives is one of the taxonomy, so the
  result built with it keeps its code and carries that code's remedy.
\<close>

locale error_coder =
  fixes code_of :: "'x \<Rightarrow> string"
  assumes known: "code_of x \<in> set ALL_CODES"
begin

lemma reported:
  "fst ` set extra \<inter> {''ok'', ''code'', ''error'', ''remedy''} = {} \<Longrightarrow>
    dget (error_result (code_of x) m extra) ''code'' = PStr (code_of x)
    \<and> dget (error_result (code_of x) m extra) ''remedy'' = remedy_for (code_of x)
    \<and> dget (error_result (code_of x) m extra) ''ok'' = PBool False"
  by (intro conjI error_result_get [OF known])

lemma remedied: "\<exists>r. remedy_for (code_of x) = PStr r \<and> map_of REMEDIES (code_of x) = Some r"
  by (rule remedy_for_known [OF known])

end

interpretation by_exception: error_coder classify
  by unfold_locales (rule classify_codes)

interpretation by_message: error_coder from_message
  by unfold_locales (rule from_message_codes)

interpretation by_category: error_coder code_for_safe_expr_category
  by unfold_locales (rule category_codes)

lemma ensure_code_cases: "ensure_code r = r \<or> (\<exists>c \<in> set ALL_CODES. ensure_code r = set_inferred_code c r)"
proof -
  consider "ensure_code r = r" | "ensure_code r = set_inferred_code TIMEOUT r"
    | "ensure_code r = set_inferred_code (from_message (if truthy (dget r ''error'') then py_str (dget r ''error'') else '''')) r"
    by (cases "dget r ''ok'' \<noteq> PBool False"; cases "truthy (dget r ''code'')";
        cases "\<not> truthy (dget r ''error'') \<and> dget r ''verdict'' \<noteq> PNone";
        cases "truthy (dget r ''timed_out'') \<or> dget r ''verdict'' = PStr ''TLE''")
      (simp_all only: ensure_code_def if_True if_False simp_thms)
  then show ?thesis using by_message.known guard_codes(1) by cases blast+
qed

lemma inferred_code_truthy: "c \<in> set ALL_CODES \<Longrightarrow> truthy (dget (set_inferred_code c r) ''code'')"
  using codes_not_empty by simp

text \<open>The failure of the program that was run, as opposed to a failure to run it.\<close>

definition program_failure :: "dict \<Rightarrow> bool" where
  "program_failure r \<longleftrightarrow> \<not> truthy (dget r ''error'') \<and> dget r ''verdict'' \<noteq> PNone
     \<and> \<not> truthy (dget r ''timed_out'') \<and> dget r ''verdict'' \<noteq> PStr ''TLE''"



lemma unwrap_failure:
  assumes "code \<in> set ALL_CODES" and "extra \<in> {[], [(''unenforced'', PList [PStr u])]}"
  shows "dget (unwrap_outcome (error_result code m extra)) ''ok'' = PBool False
    \<and> dget (unwrap_outcome (error_result code m extra)) ''code'' = PStr code
    \<and> dget (unwrap_outcome (error_result code m extra)) ''remedy'' = remedy_for code"
proof -
  have fresh: "fst ` set extra \<inter> {''ok'', ''code'', ''error'', ''remedy''} = {}" using assms(2) by auto
  have keys: "has_key (error_result code m extra) ''code''" "has_key (error_result code m extra) ''remedy''"
    "has_key (error_result code m extra) ''ok''"
    using assms by (auto simp: error_result_def dmerge_def)
  show ?thesis
    using keys by (simp add: unwrap_outcome_def error_result_get [OF assms(1) fresh] Let_def)
qed

text \<open>
  The guard reports every failure it sees: an exception of the tool, a deadline, a silent
  death and an unusable answer each give a failing result with a code of the taxonomy and that
  code's remedy; a deadline is always a timeout and a silent death always resource exhaustion.
\<close>

theorem guarded_failure_coded:
  assumes "(\<exists>e. r = Inl e) \<or> can_fork \<and> fate \<noteq> Answers"
  shows "\<exists>c \<in> set ALL_CODES. dget (guarded_call can_fork fate r) ''ok'' = PBool False
    \<and> dget (guarded_call can_fork fate r) ''code'' = PStr c
    \<and> dget (guarded_call can_fork fate r) ''remedy'' = remedy_for c
    \<and> (can_fork \<and> fate = DeadlineExpires \<longrightarrow> c = TIMEOUT)
    \<and> (can_fork \<and> fate = DiesSilently \<longrightarrow> c = RESOURCE_EXHAUSTED)"
proof -
  have "\<exists>c \<in> set ALL_CODES. \<exists>m extra. run_guarded can_fork 10 2048 15 fate r = error_result c m extra
      \<and> extra \<in> {[], [(''unenforced'', PList [PStr UNENFORCED_NO_FORK])]}
      \<and> (can_fork \<and> fate = DeadlineExpires \<longrightarrow> c = TIMEOUT)
      \<and> (can_fork \<and> fate = DiesSilently \<longrightarrow> c = RESOURCE_EXHAUSTED)"
  proof (cases can_fork)
    case False
    then obtain e where "r = Inl e" using assms by auto
    with False show ?thesis
      unfolding run_guarded_def using by_exception.known by (auto intro!: bexI [OF _ by_exception.known])
  next
    case True
    show ?thesis
    proof (cases "fate = Answers")
      case False
      then consider "fate = DeadlineExpires" | "fate = DiesSilently" | "fate = AnswersGarbage" by (cases fate) auto
      then show ?thesis
        by cases (use True guard_codes(1,2,3) in \<open>unfold run_guarded_def, simp_all, blast+\<close>)
    next
      case a: True
      then obtain e where r: "r = Inl e" using assms by auto
      have "\<exists>c \<in> set ALL_CODES. \<exists>m. child_payload (Inl e) = error_result c m []"
        by (rule bexI [of _ "if exn_class e = MemoryErr then RESOURCE_EXHAUSTED else classify e"])
          (auto simp: child_payload_def)
      then show ?thesis using a True by (auto simp: run_guarded_def r)
    qed
  qed
  then show ?thesis unfolding guarded_call_def using unwrap_failure by metis
qed

theorem guarded_failure_coded_witness:
  "\<exists>c \<in> set ALL_CODES. dget (guarded_call True DeadlineExpires (Inr [(''ok'', PBool True)])) ''ok'' = PBool False
    \<and> dget (guarded_call True DeadlineExpires (Inr [(''ok'', PBool True)])) ''code'' = PStr c
    \<and> dget (guarded_call True DeadlineExpires (Inr [(''ok'', PBool True)])) ''remedy'' = remedy_for c
    \<and> (True \<and> DeadlineExpires = DeadlineExpires \<longrightarrow> c = TIMEOUT)
    \<and> (True \<and> DeadlineExpires = DiesSilently \<longrightarrow> c = RESOURCE_EXHAUSTED)"
  by (rule guarded_failure_coded) simp

end
