(* ===== verification/Fraction_Text.thy ===== *)
theory Fraction_Text
  imports Errors
begin

text \<open>
  The text forms of exact values that \<open>codecalc/exact.py\<close> reads and writes through the
  standard library: \<open>str(int)\<close> with the interpreter's digit ceiling, \<open>str(Fraction)\<close>,
  \<open>Fraction(str)\<close> with its whole grammar, and the 50-digit \<open>Decimal\<close> quotient printed
  with twelve decimals. The digit ceiling is CPython's default of 4300.
\<close>

definition MAX_STR_DIGITS :: nat where "MAX_STR_DIGITS = 4300"

definition digit_limit_exn :: exn where
  "digit_limit_exn = Exn ValueErr
     ''Exceeds the limit (4300 digits) for integer string conversion; use sys.set_int_max_str_digits() to increase the limit''"

lemma digit_limit_exhausted: "classify digit_limit_exn = RESOURCE_EXHAUSTED"
  by (simp add: digit_limit_exn_def classify_def isinstance_def digit_limit_message_def
      contains_iff_sublist [symmetric])

section \<open>Printing\<close>

text \<open>\<open>str(n)\<close> for an int; the ceiling is on the number of digits.\<close>

definition fmt_int :: "int \<Rightarrow> exn + string" where
  "fmt_int n = (if length (nat_str (nat \<bar>n\<bar>)) > MAX_STR_DIGITS then Inl digit_limit_exn
                else Inr (int_str n))"

text \<open>\<open>str(q)\<close> for a Fraction: the numerator alone when the denominator is one.\<close>

definition fmt_frac :: "rat \<Rightarrow> exn + string" where
  "fmt_frac q = (case quotient_of q of (n, d) \<Rightarrow>
     if d = 1 then fmt_int n
     else rbind (fmt_int n) (\<lambda>ns. rbind (fmt_int d) (\<lambda>ds. Inr (ns @ ''/'' @ ds))))"

section \<open>Parsing\<close>

text \<open>
  \<open>Fraction(s)\<close>: optional white space and sign, then an integer, a quotient of two
  integers, or a decimal with an optional exponent; single underscores may separate digits.
\<close>

definition run_char :: "char \<Rightarrow> bool" where
  "run_char c = (is_digit c \<or> c = CHR ''_'')"

fun valid_run :: "string \<Rightarrow> bool" where
  "valid_run [] = False"
| "valid_run [c] = is_digit c"
| "valid_run (c # d # cs) =
     (is_digit c \<and> (if d = CHR ''_'' then valid_run cs else valid_run (d # cs)))"

definition int_of_run :: "string \<Rightarrow> exn + nat" where
  "int_of_run s = (let ds = filter is_digit s in
     if length ds > MAX_STR_DIGITS then Inl digit_limit_exn else Inr (nat_of_digits ds))"

definition invalid_fraction :: "string \<Rightarrow> exn" where
  "invalid_fraction s = Exn ValueErr (''Invalid literal for Fraction: '' @ repr_str s)"

definition take_sign :: "string \<Rightarrow> bool \<times> string" where
  "take_sign s = (case s of c # cs \<Rightarrow>
       if c = CHR ''-'' then (True, cs) else if c = CHR ''+'' then (False, cs) else (False, s)
     | [] \<Rightarrow> (False, []))"

definition starts_number :: "string \<Rightarrow> bool" where
  "starts_number s = (case s of [] \<Rightarrow> False
     | c # cs \<Rightarrow> is_digit c \<or> (c = CHR ''.'' \<and> (case cs of [] \<Rightarrow> False | d # _ \<Rightarrow> is_digit d)))"

definition signed :: "bool \<Rightarrow> rat \<Rightarrow> rat" where
  "signed neg q = (if neg then - q else q)"

text \<open>The exponent part and the trailing white space, after the mantissa.\<close>

definition parse_exponent :: "string \<Rightarrow> string \<Rightarrow> exn + int" where
  "parse_exponent whole s =
    (case s of
       c # cs \<Rightarrow>
         if c = CHR ''e'' \<or> c = CHR ''E'' then
           (case take_sign cs of (neg, t) \<Rightarrow>
              let ex = takeWhile run_char t; rest = dropWhile run_char t
              in if \<not> valid_run ex \<or> \<not> list_all is_space rest then Inl (invalid_fraction whole)
                 else rbind (int_of_run ex) (\<lambda>e. Inr (if neg then - int e else int e)))
         else if list_all is_space s then Inr 0 else Inl (invalid_fraction whole)
     | [] \<Rightarrow> Inr 0)"

definition pow10 :: "int \<Rightarrow> rat" where
  "pow10 e = (if e \<ge> 0 then 10 ^ nat e else 1 / 10 ^ nat (- e))"

definition parse_decimal :: "string \<Rightarrow> bool \<Rightarrow> string \<Rightarrow> string \<Rightarrow> exn + rat" where
  "parse_decimal whole neg num s =
    (let (dec, rest) = (case s of
           c # cs \<Rightarrow> if c = CHR ''.'' then (takeWhile run_char cs, dropWhile run_char cs) else ([], s)
         | [] \<Rightarrow> ([], []))
     in if dec \<noteq> [] \<and> \<not> valid_run dec then Inl (invalid_fraction whole)
        else case parse_exponent whole rest of
          Inl e \<Rightarrow> Inl e
        | Inr ex \<Rightarrow>
            rbind (int_of_run num) (\<lambda>n. rbind (int_of_run dec) (\<lambda>d.
              let scale = length (filter is_digit dec)
              in Inr (signed neg ((of_nat n * 10 ^ scale + of_nat d) / 10 ^ scale * pow10 ex)))))"

definition fraction_of_str :: "string \<Rightarrow> exn + rat" where
  "fraction_of_str s =
    (case take_sign (dropWhile is_space s) of (neg, body) \<Rightarrow>
       if \<not> starts_number body then Inl (invalid_fraction s)
       else let num = takeWhile run_char body; rest = dropWhile run_char body
         in if num \<noteq> [] \<and> \<not> valid_run num then Inl (invalid_fraction s)
            else case rest of
              c # t \<Rightarrow>
                if c = CHR ''/'' then
                  let den = takeWhile run_char t; tl' = dropWhile run_char t
                  in if \<not> valid_run den \<or> \<not> list_all is_space tl' then Inl (invalid_fraction s)
                     else rbind (int_of_run num) (\<lambda>n. rbind (int_of_run den) (\<lambda>d.
                       if d = 0 then Inl (Exn ZeroDivisionErr
                              (''Fraction('' @ int_str (if neg then - int n else int n) @ '', 0)''))
                       else Inr (signed neg (of_nat n / of_nat d))))
                else parse_decimal s neg num rest
            | [] \<Rightarrow> parse_decimal s neg num [])"

section \<open>Decimal approximation\<close>

text \<open>\<open>Decimal(n) / Decimal(d)\<close> at 50 significant digits, rounded half to even.\<close>

definition floor_log10 :: "rat \<Rightarrow> int" where
  "floor_log10 q = (case quotient_of q of (n, d) \<Rightarrow>
     let e = int (length (nat_str (nat n))) - int (length (nat_str (nat d)))
     in if pow10 e \<le> q then e else e - 1)"

definition dec_quot :: "rat \<Rightarrow> exn + rat" where
  "dec_quot q =
    (if q = 0 then Inr 0
     else let e = floor_log10 \<bar>q\<bar>; k = min (49 - e) 1000048
          in if e > 999999 then Inl (Exn ArithmeticErr ''decimal.Overflow'')
             else Inr (sgn q * of_int (round_half_even (\<bar>q\<bar> * pow10 k)) / pow10 k))"

text \<open>\<open>f"{d:.12f}".rstrip("0").rstrip(".")\<close>.\<close>

definition pad_zeros :: "nat \<Rightarrow> string \<Rightarrow> string" where
  "pad_zeros w s = replicate (w - length s) (CHR ''0'') @ s"

definition fmt_fixed12 :: "rat \<Rightarrow> string" where
  "fmt_fixed12 q =
    (let m = nat (round_half_even (\<bar>q\<bar> * 10 ^ 12))
     in (if q < 0 then ''-'' else '''') @ nat_str (m div 10 ^ 12) @ ''.''
        @ pad_zeros 12 (nat_str (m mod 10 ^ 12)))"

definition fmt_approx :: "rat \<Rightarrow> string" where
  "fmt_approx q = rstrip (\<lambda>c. c = CHR ''.'') (rstrip (\<lambda>c. c = CHR ''0'') (fmt_fixed12 q))"

section \<open>Round trip\<close>

lemma digit_not_special:
  assumes "is_digit c"
  shows "c \<noteq> CHR ''-''" "c \<noteq> CHR ''+''" "c \<noteq> CHR ''.''" "c \<noteq> CHR ''/''" "c \<noteq> CHR ''_''"
    "c \<noteq> CHR ''e''" "c \<noteq> CHR ''E''" "\<not> is_space c"
  using assms by (auto simp: is_digit_def is_space_def Let_def)

lemma digits_valid_run: "list_all is_digit s \<Longrightarrow> s \<noteq> [] \<Longrightarrow> valid_run s"
  by (induction s rule: valid_run.induct) (auto dest: digit_not_special)

lemma digits_filter: "list_all is_digit s \<Longrightarrow> filter is_digit s = s"
  by (simp add: filter_id_conv list_all_iff)

lemma digits_run: "list_all is_digit s \<Longrightarrow> takeWhile run_char s = s \<and> dropWhile run_char s = []"
  by (simp add: list_all_iff run_char_def takeWhile_eq_all_conv)

lemma digits_run_append:
  assumes "list_all is_digit s" and "\<not> run_char c"
  shows "takeWhile run_char (s @ c # t) = s" and "dropWhile run_char (s @ c # t) = c # t"
  using assms by (auto simp: list_all_iff run_char_def takeWhile_append2 dropWhile_append2)

lemma int_of_run_nat_str:
  "length (nat_str n) \<le> MAX_STR_DIGITS \<Longrightarrow> int_of_run (nat_str n) = Inr n"
  using digits_filter [OF nat_str_digits] by (simp add: int_of_run_def)

lemma nat_str_Cons: "\<exists>c cs. nat_str n = c # cs \<and> is_digit c"
  using nat_str_digits [of n] by (cases "nat_str n") auto

lemma starts_number_nat_str [simp]: "starts_number (nat_str n @ t)"
  using nat_str_Cons [of n] by (auto simp: starts_number_def)

lemma take_sign_int_str:
  "take_sign (dropWhile is_space (int_str n @ t)) = (n < 0, nat_str (nat \<bar>n\<bar>) @ t)"
proof -
  obtain c cs where c: "nat_str (nat \<bar>n\<bar>) = c # cs" "is_digit c" using nat_str_Cons by blast
  have sp: "\<not> is_space (CHR ''-'')" by (simp add: is_space_def)
  show ?thesis
    using c digit_not_special [OF c(2)] sp by (auto simp: int_str_def take_sign_def)
qed

lemma signed_abs [simp]: "signed (n < 0) \<bar>of_int n\<bar> = of_int n"
  by (simp add: signed_def)

lemma fraction_of_int_str:
  assumes "length (nat_str (nat \<bar>n\<bar>)) \<le> MAX_STR_DIGITS"
  shows "fraction_of_str (int_str n) = Inr (of_int n)"
proof -
  let ?d = "nat_str (nat \<bar>n\<bar>)"
  have ts: "take_sign (dropWhile is_space (int_str n)) = (n < 0, ?d)"
    using take_sign_int_str [of n "[]"] by simp
  have run: "takeWhile run_char ?d = ?d" "dropWhile run_char ?d = []"
    using digits_run [OF nat_str_digits] by auto
  have v: "valid_run ?d" by (rule digits_valid_run [OF nat_str_digits]) simp
  have i: "int_of_run ?d = Inr (nat \<bar>n\<bar>)" using assms by (rule int_of_run_nat_str)
  have i0: "int_of_run [] = Inr 0" by (simp add: int_of_run_def nat_of_digits_def)
  have st: "starts_number ?d" using starts_number_nat_str [of _ "[]"] by simp
  show ?thesis
    using i i0 v st
    by (simp add: fraction_of_str_def ts run parse_decimal_def parse_exponent_def Let_def pow10_def)
qed

lemma not_run_char_slash: "\<not> run_char (CHR ''/'')"
  by (simp add: run_char_def is_digit_def)

lemma fraction_of_quotient_str:
  assumes "length (nat_str (nat \<bar>n\<bar>)) \<le> MAX_STR_DIGITS"
    and "length (nat_str (nat d)) \<le> MAX_STR_DIGITS" and "0 < d"
  shows "fraction_of_str (int_str n @ ''/'' @ int_str d) = Inr (of_int n / of_int d)"
proof -
  let ?n = "nat_str (nat \<bar>n\<bar>)" and ?d = "nat_str (nat d)"
  have d: "int_str d = ?d" using assms(3) by (simp add: int_str_def)
  have ts: "take_sign (dropWhile is_space (int_str n @ CHR ''/'' # ?d)) = (n < 0, ?n @ CHR ''/'' # ?d)"
    by (rule take_sign_int_str)
  note runs = digits_run_append [OF nat_str_digits not_run_char_slash]
  have rd: "takeWhile run_char ?d = ?d" "dropWhile run_char ?d = []"
    using digits_run [OF nat_str_digits] by auto
  have vs: "valid_run ?n" "valid_run ?d" by (rule digits_valid_run [OF nat_str_digits]; simp)+
  have ir: "int_of_run ?n = Inr (nat \<bar>n\<bar>)" "int_of_run ?d = Inr (nat d)"
    using assms int_of_run_nat_str by auto
  have dn: "(of_nat (nat d) :: rat) = of_int d" using assms(3) by simp
  have sg: "signed (n < 0) (\<bar>of_int n\<bar> / of_int d) = of_int n / of_int d"
    by (auto simp: signed_def)
  show ?thesis
    using ir vs assms(3)
    by (simp add: fraction_of_str_def d ts runs rd Let_def dn sg)
qed

lemma fmt_int_Inr: "fmt_int n = Inr t \<longleftrightarrow> length (nat_str (nat \<bar>n\<bar>)) \<le> MAX_STR_DIGITS \<and> t = int_str n"
  by (auto simp: fmt_int_def)

text \<open>What \<open>str\<close> prints of a Fraction, \<open>Fraction\<close> reads back as the same value.\<close>

lemma fraction_of_fmt_frac: "fmt_frac q = Inr t \<Longrightarrow> fraction_of_str t = Inr q"
proof -
  assume t: "fmt_frac q = Inr t"
  obtain n d where qd: "quotient_of q = (n, d)" by fastforce
  have d: "0 < d" and q: "q = of_int n / of_int d"
    using quotient_of_denom_pos [OF qd] quotient_of_div [OF qd] by auto
  show ?thesis
  proof (cases "d = 1")
    case True
    with t qd q show ?thesis by (auto simp: fmt_frac_def fmt_int_Inr fraction_of_int_str)
  next
    case False
    then show ?thesis
      using t qd d q fraction_of_quotient_str [of n d]
      by (auto simp: fmt_frac_def rbind_eq_Inr fmt_int_Inr)
  qed
qed

lemma fraction_of_fmt_int: "fmt_int n = Inr t \<Longrightarrow> fraction_of_str t = Inr (of_int n)"
  by (auto simp: fmt_int_Inr fraction_of_int_str)

interpretation frac: text_codec fmt_frac fraction_of_str
  by unfold_locales (rule fraction_of_fmt_frac)

end
