(* ===== verification/Exact_Eval.thy ===== *)
theory Exact_Eval
  imports Guarded Fraction_Text "HOL-Library.Char_ord" "HOL-Library.List_Lexorder"
begin

unbundle bit_operations_syntax

text \<open>
  \<open>codecalc/exact.py\<close>, the exact evaluator: a walk over a closed set of Python AST nodes
  in exact rational arithmetic, with the ceilings on \<open>**\<close> and \<open><<\<close>, and the two
  provenance lists (approximate constants, float-path calls) that decide whether a result may
  be labelled exact.

  The C library behind \<open>math.*\<close> and \<open>float()\<close> is the argument \<open>lib\<close>; the Python
  parser and the expression screen of \<open>safe_expr.py\<close> are arguments of \<open>eval_exact_raw\<close>.
\<close>

section \<open>The syntax tree\<close>

datatype unop = UAdd | USub | Invert | UNot

datatype binop =
    Add | Sub | Mult | Div | FloorDiv | Mod | Pow
  | BitAnd | BitOr | BitXor | LShift | RShift | MatMult

datatype cmpop = Gt | GtE | Lt | LtE | Eq | NotEq | Is | IsNot | In | NotIn

record span =
  lineno :: nat
  col_offset :: nat
  end_lineno :: "nat option"
  end_col_offset :: "nat option"

datatype const = CInt int | CFloat | COther string

datatype node =
    Expression node
  | Constant const span
  | Name string
  | UnaryOp unop node
  | BinOp node binop node
  | Compare node "cmpop list" "node list"
  | Call node "node list"
  | OtherNode string

text \<open>\<open>COther\<close> carries the \<open>repr\<close> of a bool, string or other literal, \<open>OtherNode\<close> the type name.\<close>

section \<open>Values, provenance, and the library\<close>

datatype val = VFrac rat | VBool bool | VInt int

record ev_log =
  approx_consts :: "string list"
  float_funcs :: "string list"

datatype marg = AFloat rat | AInt int | AFrac rat

datatype mres = RFloat string | RNonFinite | RInt int | RBool bool | ROther

text \<open>
  \<open>math_names\<close> are the public callables of \<open>math\<close>; \<open>float_of\<close> is \<open>float(q)\<close>;
  \<open>math_call\<close> applies a function; \<open>RFloat\<close> carries the \<open>repr\<close> of a finite float result.
  \<open>const_val\<close> is the rational value of the binary64 \<open>pi\<close>, \<open>e\<close> and \<open>tau\<close>.
\<close>

record mathlib =
  math_names :: "string \<Rightarrow> bool"
  float_of :: "rat \<Rightarrow> exn + rat"
  math_call :: "string \<Rightarrow> marg list \<Rightarrow> exn + mres"
  const_val :: "string \<Rightarrow> rat"

type_synonym 'a ev = "ev_log \<Rightarrow> (exn + 'a) \<times> ev_log"

definition ev_return :: "'a \<Rightarrow> 'a ev" where
  "ev_return x = (\<lambda>l. (Inr x, l))"

definition ev_raise :: "exn \<Rightarrow> 'a ev" where
  "ev_raise e = (\<lambda>l. (Inl e, l))"

definition ev_lift :: "exn + 'a \<Rightarrow> 'a ev" where
  "ev_lift r = (\<lambda>l. (r, l))"

definition ev_bind :: "'a ev \<Rightarrow> ('a \<Rightarrow> 'b ev) \<Rightarrow> 'b ev" where
  "ev_bind m f = (\<lambda>l. case m l of (Inl e, l') \<Rightarrow> (Inl e, l') | (Inr x, l') \<Rightarrow> f x l')"

definition log_const :: "string \<Rightarrow> unit ev" where
  "log_const n = (\<lambda>l. (Inr (), l\<lparr>approx_consts := approx_consts l @ [n]\<rparr>))"

definition log_float :: "string \<Rightarrow> unit ev" where
  "log_float n = (\<lambda>l. (Inr (), l\<lparr>float_funcs := float_funcs l @ [n]\<rparr>))"

section \<open>Integers\<close>

fun bit_len :: "nat \<Rightarrow> nat" where
  "bit_len n = (if n = 0 then 0 else Suc (bit_len (n div 2)))"

declare bit_len.simps [simp del]

definition bit_length :: "int \<Rightarrow> nat" where
  "bit_length i = bit_len (nat \<bar>i\<bar>)"

fun isqrt :: "nat \<Rightarrow> nat" where
  "isqrt n = (if n = 0 then 0
              else let r = 2 * isqrt (n div 4) in if (r + 1) * (r + 1) \<le> n then r + 1 else r)"

declare isqrt.simps [simp del]

abbreviation numer :: "rat \<Rightarrow> int" where "numer q \<equiv> fst (quotient_of q)"
abbreviation denom :: "rat \<Rightarrow> int" where "denom q \<equiv> snd (quotient_of q)"

definition is_whole :: "rat \<Rightarrow> bool" where
  "is_whole q = (denom q = 1)"

definition MAX_POW_EXPONENT :: nat where "MAX_POW_EXPONENT = 10000"
definition MAX_POW_RESULT_BITS :: nat where "MAX_POW_RESULT_BITS = 50000"

text \<open>Raising with a formatted message: formatting itself may hit the digit ceiling.\<close>

definition fmt_exn :: "(string \<Rightarrow> exn) \<Rightarrow> exn + string \<Rightarrow> exn" where
  "fmt_exn mk t = (case t of Inl e \<Rightarrow> e | Inr s \<Rightarrow> mk s)"

definition as_int :: "rat \<Rightarrow> string \<Rightarrow> string \<Rightarrow> exn + int" where
  "as_int v op place =
    (if denom v \<noteq> 1
     then Inl (fmt_exn (\<lambda>t. Exn ValueErr (''bitwise '' @ op @ '' needs integers; '' @ place @ '' is '' @ t))
                       (fmt_frac v))
     else Inr (numer v))"

definition raw_int_op :: "binop \<Rightarrow> int \<Rightarrow> int \<Rightarrow> int" where
  "raw_int_op op a b =
    (case op of LShift \<Rightarrow> push_bit (nat b) a | RShift \<Rightarrow> drop_bit (nat b) a
     | BitAnd \<Rightarrow> a AND b | BitOr \<Rightarrow> a OR b | _ \<Rightarrow> a XOR b)"

definition op_text :: "binop \<Rightarrow> string" where
  "op_text op = (case op of LShift \<Rightarrow> ''<<'' | RShift \<Rightarrow> ''>>'' | BitAnd \<Rightarrow> ''&'' | BitOr \<Rightarrow> ''|'' | _ \<Rightarrow> ''^'')"

definition int_op :: "rat \<Rightarrow> rat \<Rightarrow> binop \<Rightarrow> exn + rat" where
  "int_op a b op =
    rbind (as_int a (op_text op) ''left operand'') (\<lambda>ai.
    rbind (as_int b (op_text op) ''right operand'') (\<lambda>bi.
      if (op = LShift \<or> op = RShift) \<and> bi < 0
      then Inl (fmt_exn (\<lambda>t. Exn ValueErr (''negative shift count '' @ t)) (fmt_int bi))
      else let predicted_bits = bit_length ai + nat bi
        in if op = LShift \<and> ai \<noteq> 0 \<and> predicted_bits > MAX_POW_RESULT_BITS
        then Inl (fmt_exn (\<lambda>t. Exn CeilingExceeded t)
               (rbind (fmt_int ai) (\<lambda>as. rbind (fmt_int bi) (\<lambda>bs. rbind (fmt_int (int predicted_bits)) (\<lambda>ps.
                 Inr (as @ '' << '' @ bs @ '' would need ~'' @ ps
                      @ '' bits to represent, exceeding the limit (50000) for exact arithmetic''))))))
        else Inr (of_int (raw_int_op op ai bi))))"

section \<open>Powers\<close>

definition rat_powi :: "rat \<Rightarrow> int \<Rightarrow> rat" where
  "rat_powi a n = (if n \<ge> 0 then a ^ nat n else 1 / a ^ nat (- n))"

definition exact_sqrt :: "rat \<Rightarrow> rat option" where
  "exact_sqrt a =
    (if a < 0 then None
     else let n = isqrt (nat (numer a)); d = isqrt (nat (denom a))
          in if int (n * n) = numer a \<and> int (d * d) = denom a then Some (of_nat n / of_nat d) else None)"

definition exponent_ceiling :: "rat \<Rightarrow> exn" where
  "exponent_ceiling b = fmt_exn (\<lambda>t. Exn CeilingExceeded
     (''exponent '' @ t @ '' exceeds the limit (10000) for exact exponentiation'')) (fmt_frac b)"

definition result_ceiling :: "rat \<Rightarrow> rat \<Rightarrow> nat \<Rightarrow> exn" where
  "result_ceiling a b bits = fmt_exn (\<lambda>t. Exn CeilingExceeded t)
     (rbind (fmt_frac a) (\<lambda>as. rbind (fmt_frac b) (\<lambda>bs. rbind (fmt_int (int bits)) (\<lambda>ps.
        Inr (as @ ''**'' @ bs @ '' would need ~'' @ ps
             @ '' bits to represent, exceeding the limit (50000) for exact exponentiation'')))))"

definition base_bits :: "rat \<Rightarrow> nat" where
  "base_bits a = max (bit_length (numer a)) (bit_length (denom a))"

text \<open>\<open>_pow_exact(a, b)\<close> for a whole exponent, and in general.\<close>

definition pow_whole :: "rat \<Rightarrow> int \<Rightarrow> exn + rat" where
  "pow_whole a n =
    (if \<bar>n\<bar> > int MAX_POW_EXPONENT then Inl (exponent_ceiling (of_int n))
     else let predicted_bits = base_bits a * nat \<bar>n\<bar>
       in if a \<noteq> 0 \<and> predicted_bits > MAX_POW_RESULT_BITS then Inl (result_ceiling a (of_int n) predicted_bits)
          else if a = 0 \<and> n < 0 then Inl (Exn ZeroDivisionErr ''Fraction(1, 0)'')
          else Inr (rat_powi a n))"

definition frac_of_float :: "mres \<Rightarrow> exn + rat" where
  "frac_of_float r =
    (case r of RFloat t \<Rightarrow> fraction_of_str t
     | RNonFinite \<Rightarrow> Inl (invalid_fraction ''inf'')
     | RInt i \<Rightarrow> Inr (of_int i)
     | RBool b \<Rightarrow> Inr (if b then 1 else 0)
     | ROther \<Rightarrow> Inl (Exn TypeErr ''argument should be a string or a Rational instance''))"

definition pow_float :: "mathlib \<Rightarrow> rat \<Rightarrow> rat \<Rightarrow> exn + rat" where
  "pow_float lib a b =
    rbind (float_of lib a) (\<lambda>x. rbind (float_of lib b) (\<lambda>y.
    rbind (math_call lib ''pow'' [AFloat x, AFloat y]) frac_of_float))"

definition pow_exact :: "mathlib \<Rightarrow> rat \<Rightarrow> rat \<Rightarrow> rat ev" where
  "pow_exact lib a b =
    (if \<bar>b\<bar> > of_nat MAX_POW_EXPONENT then ev_raise (exponent_ceiling b)
     else if denom b = 1 then ev_lift (pow_whole a (numer b))
     else case (if denom b = 2 then exact_sqrt a else None) of
       Some rt \<Rightarrow> ev_lift (pow_whole rt (numer b))
     | None \<Rightarrow> ev_bind (log_float ''**'') (\<lambda>_. ev_lift (pow_float lib a b)))"

section \<open>Operators\<close>

definition num :: "val \<Rightarrow> exn + rat" where
  "num v = (case v of VBool b \<Rightarrow> Inr (if b then 1 else 0) | VFrac q \<Rightarrow> Inr q
     | VInt i \<Rightarrow> Inl (Exn TypeErr ''internal: expected an exact rational, got int''))"

definition zero_div :: exn where "zero_div = Exn ZeroDivisionErr ''division by zero''"

definition bin_op :: "mathlib \<Rightarrow> binop \<Rightarrow> rat \<Rightarrow> rat \<Rightarrow> val ev" where
  "bin_op lib op a b =
    (case op of
       Add \<Rightarrow> ev_return (VFrac (a + b))
     | Sub \<Rightarrow> ev_return (VFrac (a - b))
     | Mult \<Rightarrow> ev_return (VFrac (a * b))
     | Div \<Rightarrow> if b = 0 then ev_raise zero_div else ev_return (VFrac (a / b))
     | FloorDiv \<Rightarrow> if b = 0 then ev_raise zero_div else ev_return (VInt \<lfloor>a / b\<rfloor>)
     | Mod \<Rightarrow> if b = 0 then ev_raise zero_div else ev_return (VFrac (a - b * of_int \<lfloor>a / b\<rfloor>))
     | Pow \<Rightarrow> ev_bind (pow_exact lib a b) (\<lambda>q. ev_return (VFrac q))
     | MatMult \<Rightarrow> ev_raise (Exn ValueErr ''unsupported operator MatMult'')
     | _ \<Rightarrow> ev_lift (rbind (int_op a b op) (\<lambda>q. Inr (VFrac q))))"

definition numeric :: "val \<Rightarrow> rat" where
  "numeric v = (case v of VBool b \<Rightarrow> (if b then 1 else 0) | VFrac q \<Rightarrow> q | VInt i \<Rightarrow> of_int i)"

definition cmp_op :: "cmpop \<Rightarrow> (rat \<Rightarrow> rat \<Rightarrow> bool) option" where
  "cmp_op op = (case op of Gt \<Rightarrow> Some (\<lambda>a b. a > b) | GtE \<Rightarrow> Some (\<lambda>a b. a \<ge> b)
     | Lt \<Rightarrow> Some (\<lambda>a b. a < b) | LtE \<Rightarrow> Some (\<lambda>a b. a \<le> b)
     | Eq \<Rightarrow> Some (\<lambda>a b. a = b) | NotEq \<Rightarrow> Some (\<lambda>a b. a \<noteq> b) | _ \<Rightarrow> None)"

definition cmp_name :: "cmpop \<Rightarrow> string" where
  "cmp_name op = (case op of Is \<Rightarrow> ''Is'' | IsNot \<Rightarrow> ''IsNot'' | In \<Rightarrow> ''In'' | NotIn \<Rightarrow> ''NotIn''
     | Gt \<Rightarrow> ''Gt'' | GtE \<Rightarrow> ''GtE'' | Lt \<Rightarrow> ''Lt'' | LtE \<Rightarrow> ''LtE'' | Eq \<Rightarrow> ''Eq'' | NotEq \<Rightarrow> ''NotEq'')"

section \<open>Calls\<close>

definition BUILTIN_FUNCS :: "string list" where
  "BUILTIN_FUNCS = [''abs'', ''min'', ''max'', ''round'', ''int'', ''float'']"

definition EXACT_FUNCS :: "string list" where
  "EXACT_FUNCS = [''abs'', ''min'', ''max'', ''int'', ''round'', ''floor'', ''ceil'', ''trunc'']"

definition INT_FUNCS :: "string list" where
  "INT_FUNCS = [''factorial'', ''comb'', ''perm'', ''gcd'', ''lcm'', ''isqrt'']"

definition trunc :: "rat \<Rightarrow> int" where
  "trunc q = (if q \<ge> 0 then \<lfloor>q\<rfloor> else \<lceil>q\<rceil>)"

definition arity_exn :: "string \<Rightarrow> exn" where
  "arity_exn name = Exn TypeErr (name @ ''() called with the wrong number of arguments'')"

definition exact_fn :: "string \<Rightarrow> rat list \<Rightarrow> exn + rat" where
  "exact_fn name args =
    (if name = ''min'' then
       (case args of a # b # r \<Rightarrow> Inr (fold min (b # r) a) | _ \<Rightarrow> Inl (arity_exn name))
     else if name = ''max'' then
       (case args of a # b # r \<Rightarrow> Inr (fold max (b # r) a) | _ \<Rightarrow> Inl (arity_exn name))
     else if name = ''int'' \<and> args = [] then Inr 0
     else case args of
       [a] \<Rightarrow> if name = ''abs'' then Inr \<bar>a\<bar>
              else if name = ''round'' then Inr (of_int (round_half_even a))
              else if name = ''floor'' then Inr (of_int \<lfloor>a\<rfloor>)
              else if name = ''ceil'' then Inr (of_int \<lceil>a\<rceil>)
              else Inr (of_int (trunc a))
     | _ \<Rightarrow> Inl (arity_exn name))"

definition LLONG_MAX :: int where "LLONG_MAX = 2 ^ 63 - 1"

definition int_fn :: "string \<Rightarrow> int list \<Rightarrow> exn + int" where
  "int_fn name args =
    (if name = ''gcd'' then Inr (fold gcd args 0)
     else if name = ''lcm'' then Inr (fold lcm args 1)
     else case args of
       [n] \<Rightarrow>
         if name = ''factorial'' \<or> name = ''perm'' then
           if n < 0 then Inl (Exn ValueErr ''factorial() not defined for negative values'')
           else if n > LLONG_MAX then Inl (Exn OverflowErr ''factorial() argument should not exceed 9223372036854775807'')
           else Inr (fact (nat n))
         else if name = ''isqrt'' then
           if n < 0 then Inl (Exn ValueErr ''isqrt() argument must be nonnegative'')
           else Inr (int (isqrt (nat n)))
         else Inl (arity_exn name)
     | [n, k] \<Rightarrow>
         if name = ''comb'' \<or> name = ''perm'' then
           if n < 0 then Inl (Exn ValueErr ''n must be a non-negative integer'')
           else if k < 0 then Inl (Exn ValueErr ''k must be a non-negative integer'')
           else if k > n then Inr 0
           else if name = ''comb'' then
             if min k (n - k) > LLONG_MAX then Inl (Exn OverflowErr ''min(n - k, k) must not exceed 9223372036854775807'')
             else Inr (int (nat n choose nat k))
           else if k > LLONG_MAX then Inl (Exn OverflowErr ''k must not exceed 9223372036854775807'')
           else Inr (int (fact (nat n) div fact (nat (n - k))))
         else Inl (arity_exn name)
     | _ \<Rightarrow> Inl (arity_exn name))"

definition coerce_arg :: "rat \<Rightarrow> marg" where
  "coerce_arg a = (if denom a = 1 then AInt (numer a) else AFrac a)"

definition float_call :: "mathlib \<Rightarrow> string \<Rightarrow> rat list \<Rightarrow> exn + mres" where
  "float_call lib name args =
    (case rbind (rmap (float_of lib) args) (\<lambda>xs. math_call lib name (map AFloat xs)) of
       Inr r \<Rightarrow> Inr r
     | Inl e \<Rightarrow> if isinstance e TypeErr \<or> isinstance e ValueErr \<or> isinstance e OverflowErr
                then math_call lib name (map coerce_arg args) else Inl e)"

definition float_result :: "string \<Rightarrow> mres \<Rightarrow> exn + rat" where
  "float_result name r =
    (case r of RNonFinite \<Rightarrow> Inl (Exn ValueErr (name @ '' produced non-finite result''))
     | _ \<Rightarrow> frac_of_float r)"

definition call_fn :: "mathlib \<Rightarrow> string \<Rightarrow> rat list \<Rightarrow> val ev" where
  "call_fn lib name args =
    (if name = ''round'' \<and> length args = 2 then
       if denom (args ! 1) \<noteq> 1 then ev_raise (Exn TypeErr ''round() ndigits must be an integer'')
       else let scale = pow10 (numer (args ! 1))
            in ev_return (VFrac (of_int (round_half_even (args ! 0 * scale)) / scale))
     else if List.member EXACT_FUNCS name then ev_lift (rbind (exact_fn name args) (\<lambda>q. Inr (VFrac q)))
     else if List.member INT_FUNCS name \<and> list_all is_whole args
       then ev_lift (rbind (int_fn name (map numer args)) (\<lambda>i. Inr (VFrac (of_int i))))
     else case (if name = ''sqrt'' \<and> length args = 1 then exact_sqrt (args ! 0) else None) of
       Some rt \<Rightarrow> ev_return (VFrac rt)
     | None \<Rightarrow> ev_bind (log_float name) (\<lambda>_.
         ev_lift (rbind (float_call lib name args) (\<lambda>r. rbind (float_result name r) (\<lambda>q. Inr (VFrac q))))))"

section \<open>Literals\<close>

definition index_exn :: exn where "index_exn = Exn IndexErr ''list index out of range''"

definition slice :: "nat \<Rightarrow> nat \<Rightarrow> 'a list \<Rightarrow> 'a list" where
  "slice i j s = take (j - i) (drop i s)"

text \<open>The source text of a literal, cut out of the expression's UTF-8 lines.\<close>

definition literal_text :: "span \<Rightarrow> string list \<Rightarrow> exn + string" where
  "literal_text sp lines =
    (case (end_lineno sp, end_col_offset sp) of
       (Some el, Some ec) \<Rightarrow>
         if lineno sp = 0 \<or> el = 0 \<or> lineno sp > length lines \<or> el > length lines then Inl index_exn
         else if lineno sp = el then Inr (slice (col_offset sp) ec (lines ! (lineno sp - 1)))
         else let text = concat (slice (lineno sp - 1) el lines);
                  stop = length text - length (lines ! (el - 1)) + ec
              in Inr (slice (col_offset sp) stop text)
     | _ \<Rightarrow> Inl (Exn ValueErr ''float literal has no source text''))"

definition ev_literal :: "const \<Rightarrow> span \<Rightarrow> string list \<Rightarrow> exn + rat" where
  "ev_literal c sp lines =
    (case c of
       COther r \<Rightarrow> Inl (Exn TypeErr (''unsupported literal '' @ r))
     | CFloat \<Rightarrow> rbind (literal_text sp lines) (\<lambda>t. fraction_of_str (filter (\<lambda>ch. ch \<noteq> CHR ''_'') t))
     | CInt i \<Rightarrow> rbind (fmt_int i) fraction_of_str)"

section \<open>The walk\<close>

definition CONSTS :: "string list" where "CONSTS = [''pi'', ''e'', ''tau'']"

fun ev :: "mathlib \<Rightarrow> string list \<Rightarrow> node \<Rightarrow> val ev"
  and ev_args :: "mathlib \<Rightarrow> string list \<Rightarrow> node list \<Rightarrow> rat list ev" where
  "ev lib lines (Expression body) = ev lib lines body"
| "ev lib lines (Constant c sp) = ev_lift (rbind (ev_literal c sp lines) (\<lambda>q. Inr (VFrac q)))"
| "ev lib lines (Name n) =
     (if List.member CONSTS n
      then ev_bind (log_const n) (\<lambda>_. ev_return (VFrac (const_val lib n)))
      else ev_raise (Exn ValueErr (''unknown name '' @ repr_str n)))"
| "ev lib lines (UnaryOp op x) =
     (case op of
        UAdd \<Rightarrow> ev_bind (ev lib lines x) (\<lambda>v. ev_lift (rbind (num v) (\<lambda>q. Inr (VFrac q))))
      | USub \<Rightarrow> ev_bind (ev lib lines x) (\<lambda>v. ev_lift (rbind (num v) (\<lambda>q. Inr (VFrac (- q)))))
      | Invert \<Rightarrow> ev_bind (ev lib lines x) (\<lambda>v. ev_lift (rbind (num v) (\<lambda>q.
                   rbind (as_int q ''~'' ''operand'') (\<lambda>i. Inr (VFrac (of_int (NOT i)))))))
      | UNot \<Rightarrow> ev_raise (Exn ValueErr ''unsupported unary op''))"
| "ev lib lines (BinOp l op r) =
     (if op = MatMult then ev_raise (Exn ValueErr ''unsupported operator MatMult'')
      else ev_bind (ev lib lines l) (\<lambda>lv. ev_bind (ev_lift (num lv)) (\<lambda>a.
           ev_bind (ev lib lines r) (\<lambda>rv. ev_bind (ev_lift (num rv)) (\<lambda>b. bin_op lib op a b)))))"
| "ev lib lines (Compare l ops rs) =
     (case ops of
        [op] \<Rightarrow>
          (case cmp_op op of
             None \<Rightarrow> ev_raise (Exn ValueErr (''unsupported comparison '' @ cmp_name op))
           | Some f \<Rightarrow>
               (case rs of
                  [] \<Rightarrow> ev_raise index_exn
                | r # rest \<Rightarrow> ev_bind (ev lib lines l) (\<lambda>lv. ev_bind (ev lib lines r) (\<lambda>rv.
                    ev_return (VBool (f (numeric lv) (numeric rv)))))))
      | _ \<Rightarrow> ev_raise (Exn ValueErr ''chained comparisons not supported''))"
| "ev lib lines (Call fn args) =
     (case fn of
        Name name \<Rightarrow>
          if List.member BUILTIN_FUNCS name \<or> math_names lib name
          then ev_bind (ev_args lib lines args) (call_fn lib name)
          else ev_raise (Exn ValueErr ''only whitelisted math functions are callable'')
      | _ \<Rightarrow> ev_raise (Exn ValueErr ''only whitelisted math functions are callable''))"
| "ev lib lines (OtherNode t) = ev_raise (Exn ValueErr (''unsupported syntax: '' @ t))"
| "ev_args lib lines [] = ev_return []"
| "ev_args lib lines (n # ns) =
     ev_bind (ev lib lines n) (\<lambda>v. ev_bind (ev_lift (num v)) (\<lambda>q.
       ev_bind (ev_args lib lines ns) (\<lambda>qs. ev_return (q # qs))))"

end
