(* ===== verification/Exact_Props.thy ===== *)
theory Exact_Props
  imports Exact_Eval
begin

unbundle bit_operations_syntax

text \<open>
  What the exact evaluator computes. \<open>denotes\<close> is the mathematical value of an
  expression, with no ceilings, no library and no provenance lists; the evaluator refines it
  whenever it leaves the provenance lists alone. The ceilings are shown to bound the size of
  what \<open>**\<close> and \<open><<\<close> build.
\<close>

section \<open>Bit lengths and integer roots\<close>

lemma bit_len_upper: "n < 2 ^ bit_len n"
proof (induction n rule: bit_len.induct)
  case (1 n)
  show ?case
  proof (cases "n = 0")
    case True
    then show ?thesis by (simp add: bit_len.simps)
  next
    case False
    with 1 have "n div 2 < 2 ^ bit_len (n div 2)" by simp
    then have "n < 2 * 2 ^ bit_len (n div 2)" by linarith
    with False show ?thesis by (subst bit_len.simps) simp
  qed
qed

lemma bit_len_le_iff: "bit_len n \<le> k \<longleftrightarrow> n < 2 ^ k"
proof (induction k arbitrary: n)
  case 0
  then show ?case by (subst bit_len.simps) simp
next
  case (Suc k)
  show ?case
  proof (cases "n = 0")
    case True
    then show ?thesis by (simp add: bit_len.simps)
  next
    case False
    have "bit_len n \<le> Suc k \<longleftrightarrow> n div 2 < 2 ^ k"
      using False Suc.IH [of "n div 2"] by (subst bit_len.simps) simp
    also have "\<dots> \<longleftrightarrow> n < 2 ^ Suc k" by (auto simp: div_less_iff_less_mult)
    finally show ?thesis .
  qed
qed

lemma bit_length_le_iff: "bit_length i \<le> k \<longleftrightarrow> \<bar>i\<bar> < 2 ^ k"
proof -
  have "bit_length i \<le> k \<longleftrightarrow> nat \<bar>i\<bar> < 2 ^ k" by (simp add: bit_length_def bit_len_le_iff)
  also have "\<dots> \<longleftrightarrow> int (nat \<bar>i\<bar>) < int (2 ^ k)" by (simp only: of_nat_less_iff)
  finally show ?thesis by simp
qed

lemma isqrt_bounds: "isqrt n * isqrt n \<le> n \<and> n < (isqrt n + 1) * (isqrt n + 1)"
proof (induction n rule: isqrt.induct)
  case (1 n)
  show ?case
  proof (cases "n = 0")
    case True
    then show ?thesis by (simp add: isqrt.simps)
  next
    case False
    let ?m = "isqrt (n div 4)"
    from 1 False have lo: "?m * ?m \<le> n div 4" and hi: "n div 4 < (?m + 1) * (?m + 1)" by auto
    have "4 * (?m * ?m) \<le> n" using lo by linarith
    moreover have "n < 4 * ((?m + 1) * (?m + 1))" using hi by linarith
    ultimately have "(2 * ?m) * (2 * ?m) \<le> n" and "n < (2 * ?m + 2) * (2 * ?m + 2)"
      by (simp_all add: algebra_simps)
    with False show ?thesis by (subst (1 2 3 4) isqrt.simps) (auto simp: Let_def)
  qed
qed

lemma isqrt_square: "isqrt n * isqrt n = n \<longleftrightarrow> (\<exists>m. m * m = n)"
proof
  assume "\<exists>m. m * m = n"
  then obtain m where m: "m * m = n" by blast
  have "\<not> isqrt n < m"
  proof
    assume "isqrt n < m"
    then have "isqrt n + 1 \<le> m" by simp
    then have "(isqrt n + 1) * (isqrt n + 1) \<le> m * m" by (rule mult_le_mono [OF _ \<open>isqrt n + 1 \<le> m\<close>])
    with isqrt_bounds [of n] m show False by simp
  qed
  moreover have "\<not> m < isqrt n"
  proof
    assume "m < isqrt n"
    then have "m * m < isqrt n * isqrt n" by (simp add: mult_strict_mono)
    with isqrt_bounds [of n] m show False by simp
  qed
  ultimately show "isqrt n * isqrt n = n" using m by (metis linorder_neqE_nat)
qed blast

section \<open>Rationals in lowest terms\<close>

lemma quotient_facts:
  obtains "0 < denom q" and "coprime (numer q) (denom q)" and "q = of_int (numer q) / of_int (denom q)"
  using quotient_of_denom_pos [of q "numer q" "denom q"] quotient_of_coprime [of q "numer q" "denom q"]
    quotient_of_div [of q "numer q" "denom q"] by simp

lemma quotient_of_lowest:
  "0 < d \<Longrightarrow> coprime n d \<Longrightarrow> quotient_of (of_int n / of_int d) = (n, d)"
  by (metis Fract_of_int_quotient quotient_of_Fract Rat.normalize_stable)

lemma quotient_of_pow: "quotient_of (q ^ k) = (numer q ^ k, denom q ^ k)"
proof (rule quotient_facts [of q])
  assume d: "0 < denom q" and c: "coprime (numer q) (denom q)"
    and q: "q = of_int (numer q) / of_int (denom q)"
  have "q ^ k = of_int (numer q ^ k) / of_int (denom q ^ k)"
    by (subst q) (simp add: power_divide)
  moreover have "quotient_of (of_int (numer q ^ k) / of_int (denom q ^ k)) = (numer q ^ k, denom q ^ k)"
    by (rule quotient_of_lowest) (use d c in simp_all)
  ultimately show ?thesis by (simp only:)
qed

lemma quotient_of_inverse:
  assumes "q \<noteq> 0"
  shows "quotient_of (1 / q) = (sgn (numer q) * denom q, \<bar>numer q\<bar>)"
proof (rule quotient_facts [of q])
  assume d: "0 < denom q" and c: "coprime (numer q) (denom q)"
    and q: "q = of_int (numer q) / of_int (denom q)"
  have n: "numer q \<noteq> 0" using q assms by auto
  have "1 / q = of_int (sgn (numer q) * denom q) / of_int \<bar>numer q\<bar>"
    by (subst q) (use n d in \<open>auto simp: sgn_if abs_if field_simps\<close>)
  moreover have "coprime (sgn (numer q) * denom q) \<bar>numer q\<bar>"
    using c n by (simp add: sgn_if coprime_commute)
  then have "quotient_of (of_int (sgn (numer q) * denom q) / of_int \<bar>numer q\<bar>)
      = (sgn (numer q) * denom q, \<bar>numer q\<bar>)"
    by (intro quotient_of_lowest) (use n in simp_all)
  ultimately show ?thesis by (simp only:)
qed

lemma denom_one_iff: "denom q = 1 \<longleftrightarrow> (\<exists>i. q = of_int i)"
  by (metis quotient_of_div quotient_of_int prod.collapse snd_conv div_by_1 of_int_1)

lemma numer_of_int [simp]: "numer (of_int i) = i" and denom_of_int [simp]: "denom (of_int i) = 1"
  by simp_all

lemma whole_of_int: "denom q = 1 \<Longrightarrow> q = of_int (numer q)"
  by (metis denom_one_iff numer_of_int)

section \<open>The ceilings bound the results\<close>

lemma abs_pow_bound: "\<bar>i\<bar> < 2 ^ b \<Longrightarrow> 0 < k \<Longrightarrow> \<bar>i ^ k\<bar> < (2::int) ^ (b * k)"
  by (simp add: power_abs power_mult power_strict_mono)

lemma pow_bits:
  assumes "q \<noteq> 0" and "0 < k" and "base_bits q * k \<le> m"
  shows "bit_length (numer q ^ k) \<le> m" and "bit_length (denom q ^ k) \<le> m"
proof -
  have "\<bar>numer q\<bar> < 2 ^ base_bits q" and "\<bar>denom q\<bar> < 2 ^ base_bits q"
    by (auto simp: base_bits_def bit_length_le_iff [symmetric])
  then have "\<bar>numer q ^ k\<bar> < 2 ^ (base_bits q * k)" and "\<bar>denom q ^ k\<bar> < 2 ^ (base_bits q * k)"
    using assms(2) by (simp_all add: abs_pow_bound)
  then have "bit_length (numer q ^ k) \<le> base_bits q * k" and "bit_length (denom q ^ k) \<le> base_bits q * k"
    by (simp_all add: bit_length_le_iff)
  then show "bit_length (numer q ^ k) \<le> m" and "bit_length (denom q ^ k) \<le> m"
    using assms(3) by simp_all
qed

lemma bit_len_0 [simp]: "bit_len 0 = 0"
  by (simp add: bit_len.simps)

lemma bit_length_0 [simp]: "bit_length 0 = 0"
  by (simp add: bit_length_def)

lemma bit_length_one [simp]: "bit_length 1 = 1"
  by (simp add: bit_length_def bit_len.simps)

lemma rat_powi_bits:
  assumes "a \<noteq> 0" and "base_bits a * nat \<bar>n\<bar> \<le> m" and "1 \<le> m"
  shows "bit_length (numer (rat_powi a n)) \<le> m \<and> bit_length (denom (rat_powi a n)) \<le> m"
proof (cases "n = 0")
  case True
  then show ?thesis using assms(3) by (simp add: rat_powi_def)
next
  case False
  let ?k = "nat \<bar>n\<bar>"
  have k: "0 < ?k" using False by simp
  have pb: "bit_length (numer a ^ ?k) \<le> m" "bit_length (denom a ^ ?k) \<le> m"
    using pow_bits [OF assms(1) k assms(2)] .
  show ?thesis
  proof (cases "n > 0")
    case True
    then show ?thesis using pb by (simp add: rat_powi_def quotient_of_pow)
  next
    case neg: False
    have eq: "rat_powi a n = 1 / a ^ ?k" using neg False by (simp add: rat_powi_def)
    have nz: "a ^ ?k \<noteq> 0" using assms(1) by simp
    have bl: "bit_length (sgn x * y) \<le> bit_length y" "bit_length \<bar>x\<bar> = bit_length x" for x y
      by (simp_all add: bit_length_def sgn_if)
    show ?thesis
      using pb bl(1) [of "numer a ^ ?k" "denom a ^ ?k", THEN order_trans, OF pb(2)]
      by (simp add: eq quotient_of_inverse [OF nz] quotient_of_pow bl(2))
  qed
qed

lemma pow_whole_bits:
  assumes "pow_whole a n = Inr r"
  shows "bit_length (numer r) \<le> MAX_POW_RESULT_BITS \<and> bit_length (denom r) \<le> MAX_POW_RESULT_BITS"
proof (cases "a = 0")
  case True
  with assms have r: "r = 0 ^ nat n" and "0 \<le> n"
    by (auto simp: pow_whole_def Let_def rat_powi_def split: if_splits)
  show ?thesis by (cases "nat n") (simp_all add: r MAX_POW_RESULT_BITS_def)
next
  case False
  with assms have "base_bits a * nat \<bar>n\<bar> \<le> MAX_POW_RESULT_BITS" and "r = rat_powi a n"
    by (auto simp: pow_whole_def Let_def split: if_splits)
  with False show ?thesis by (simp add: rat_powi_bits MAX_POW_RESULT_BITS_def)
qed

lemma shift_bits: "bit_length (push_bit k a) = (if a = 0 then 0 else bit_length a + k)"
proof (cases "a = 0")
  case False
  have "bit_length (push_bit k a) \<le> m \<longleftrightarrow> bit_length a + k \<le> m" for m
  proof (cases "k \<le> m")
    case True
    have "bit_length (push_bit k a) \<le> m \<longleftrightarrow> \<bar>a\<bar> * 2 ^ k < 2 ^ (m - k) * 2 ^ k"
      using True by (simp add: bit_length_le_iff push_bit_eq_mult abs_mult flip: power_add)
    also have "\<dots> \<longleftrightarrow> \<bar>a\<bar> < 2 ^ (m - k)" by simp
    also have "\<dots> \<longleftrightarrow> bit_length a \<le> m - k" by (simp add: bit_length_le_iff)
    finally show ?thesis using True by linarith
  next
    case k: False
    have "1 \<le> \<bar>a\<bar>" using False by simp
    moreover have "(2::int) ^ m \<le> 2 ^ k" using k by simp
    ultimately have "2 ^ m \<le> \<bar>a\<bar> * 2 ^ k"
      by (metis mult_mono mult_1 abs_ge_zero zero_le_numeral zero_le_power zero_le_one order_trans)
    then show ?thesis using k by (auto simp: bit_length_le_iff push_bit_eq_mult abs_mult)
  qed
  then have "bit_length (push_bit k a) = bit_length a + k" by (metis order_antisym order_refl)
  with False show ?thesis by simp
qed simp

lemma exact_sqrt_square:
  assumes "exact_sqrt a = Some r"
  shows "0 \<le> r \<and> r * r = a"
proof -
  let ?n = "isqrt (nat (numer a))" and ?d = "isqrt (nat (denom a))"
  have n: "int (?n * ?n) = numer a" and d: "int (?d * ?d) = denom a"
    and r: "r = of_nat ?n / of_nat ?d"
    using assms by (auto simp: exact_sqrt_def Let_def split: if_splits)
  have "a = of_int (numer a) / of_int (denom a)" by (rule quotient_facts)
  also have "\<dots> = of_nat (?n * ?n) / of_nat (?d * ?d)"
    using arg_cong [OF n, of "of_int :: int \<Rightarrow> rat"] arg_cong [OF d, of "of_int :: int \<Rightarrow> rat"]
    by (simp only: of_int_of_nat_eq)
  finally have "r * r = a" by (simp add: r)
  then show ?thesis by (simp add: r)
qed

text \<open>Every rational square has its root found: the perfect-square test is complete.\<close>

lemma exact_sqrt_complete:
  assumes "0 \<le> r"
  shows "exact_sqrt (r * r) = Some r"
proof (rule quotient_facts [of r])
  assume d: "0 < denom r" and c: "coprime (numer r) (denom r)"
    and r: "r = of_int (numer r) / of_int (denom r)"
  have n: "0 \<le> numer r"
    using assms d by (subst (asm) r) (simp add: zero_le_divide_iff)
  have q: "quotient_of (r * r) = (numer r * numer r, denom r * denom r)"
    using quotient_of_pow [of r 2] by (simp add: power2_eq_square)
  have root: "isqrt (nat (k * k)) = nat k" if "0 \<le> k" for k
  proof -
    have "nat (k * k) = nat k * nat k" using that by (simp add: nat_mult_distrib)
    then have "isqrt (nat (k * k)) * isqrt (nat (k * k)) = nat k * nat k"
      using isqrt_square [of "nat (k * k)"] by metis
    then show ?thesis
      using power2_eq_iff_nonneg [of "isqrt (nat (k * k))" "nat k"] by (simp add: power2_eq_square)
  qed
  have "of_nat (nat (numer r)) / of_nat (nat (denom r)) = r"
    using n d r by simp
  then show ?thesis
    using n d by (simp add: exact_sqrt_def q root Let_def)
qed

section \<open>Provenance: the lists only grow\<close>

definition log_le :: "ev_log \<Rightarrow> ev_log \<Rightarrow> bool" where
  "log_le l l' \<longleftrightarrow> prefix (approx_consts l) (approx_consts l') \<and> prefix (float_funcs l) (float_funcs l')"

lemma log_le_refl [simp]: "log_le l l"
  by (simp add: log_le_def)

lemma log_le_trans: "log_le a b \<Longrightarrow> log_le b c \<Longrightarrow> log_le a c"
  by (auto simp: log_le_def intro: prefix_order.trans)

lemma log_le_antisym: "log_le a b \<Longrightarrow> log_le b a \<Longrightarrow> a = b"
  by (cases a; cases b) (auto simp: log_le_def dest: prefix_order.antisym)

definition grows :: "'a ev \<Rightarrow> bool" where
  "grows m \<longleftrightarrow> (\<forall>l. log_le l (snd (m l)))"

lemma grows_intros [intro, simp]:
  "grows (ev_return x)" "grows (ev_raise e)" "grows (ev_lift r)"
  "grows (log_const n)" "grows (log_float n)"
  by (simp_all add: grows_def ev_return_def ev_raise_def ev_lift_def log_const_def log_float_def log_le_def)

lemma grows_bind [intro]:
  assumes "grows m" and "\<And>x. grows (f x)"
  shows "grows (ev_bind m f)"
  unfolding grows_def
proof
  fix l
  obtain r l' where m: "m l = (r, l')" by fastforce
  have 1: "log_le l l'" using assms(1) m by (metis grows_def snd_conv)
  show "log_le l (snd (ev_bind m f l))"
  proof (cases r)
    case (Inl e)
    with m 1 show ?thesis by (simp add: ev_bind_def)
  next
    case (Inr x)
    have "log_le l' (snd (f x l'))" using assms(2) by (simp add: grows_def)
    with 1 m Inr show ?thesis by (auto simp: ev_bind_def intro: log_le_trans)
  qed
qed

text \<open>If a composite step leaves the lists alone, each of its parts does.\<close>

lemma quiet_bind:
  assumes "grows m" and "\<And>x. grows (f x)" and "ev_bind m f l = (Inr y, l)"
  obtains x where "m l = (Inr x, l)" and "f x l = (Inr y, l)"
proof -
  obtain r l' where m: "m l = (r, l')" by fastforce
  with assms(3) obtain x where r: "r = Inr x" and f: "f x l' = (Inr y, l)"
    by (cases r) (auto simp: ev_bind_def)
  have "log_le l l'" using assms(1) m by (metis grows_def snd_conv)
  moreover have "log_le l' l" using assms(2) f by (metis grows_def snd_conv)
  ultimately have "l = l'" by (rule log_le_antisym)
  with m r f that show thesis by simp
qed

lemma log_not_quiet: "ev_bind (log_const n) f l \<noteq> (Inr y, l)" "ev_bind (log_float n) f l \<noteq> (Inr y, l)"
  if "\<And>x. grows (f x)" for f :: "unit \<Rightarrow> 'a ev"
proof -
  show "ev_bind (log_const n) f l \<noteq> (Inr y, l)"
    using quiet_bind [of "log_const n" f l y] that
    by (metis (no_types, lifting) grows_intros(4) log_const_def prod.inject not_Cons_self2 append_self_conv ev_log.select_convs(1) ev_log.surjective ev_log.update_convs(1))
  show "ev_bind (log_float n) f l \<noteq> (Inr y, l)"
    using quiet_bind [of "log_float n" f l y] that
    by (metis (no_types, lifting) grows_intros(5) log_float_def prod.inject not_Cons_self2 append_self_conv ev_log.select_convs(2) ev_log.surjective ev_log.update_convs(2))
qed

lemma grows_pow_exact [intro, simp]: "grows (pow_exact lib a b)"
  by (auto simp: pow_exact_def split: option.splits)

lemma grows_bin_op [intro, simp]: "grows (bin_op lib op a b)"
  by (auto simp: bin_op_def split: binop.splits)

lemma grows_call_fn [intro, simp]: "grows (call_fn lib name args)"
  by (auto simp: call_fn_def Let_def split: option.splits)

lemma grows_ev: "grows (ev lib lines n)" and grows_ev_args: "grows (ev_args lib lines ns)"
proof (induction lib lines n and lib lines ns rule: ev_ev_args.induct)
  case (4 lib lines op x)
  then show ?case by (auto split: unop.splits)
next
  case (5 lib lines l op r)
  then show ?case by (auto intro!: grows_bind)
next
  case (6 lib lines l ops rs)
  show ?case
  proof (cases "\<exists>op f r rest. ops = [op] \<and> cmp_op op = Some f \<and> rs = r # rest")
    case True
    then obtain op f r rest where ops: "ops = [op]" "cmp_op op = Some f" "rs = r # rest" by blast
    have "grows (ev lib lines l)" by (rule "6.IH"(1) [OF ops(1) refl ops(2,3)])
    moreover have "grows (ev lib lines r)" by (rule "6.IH"(2) [OF ops(1) refl ops(2,3)])
    ultimately show ?thesis by (auto simp: ops)
  next
    case False
    then show ?thesis by (cases "ops"; cases "tl ops"; cases "cmp_op (hd ops)"; cases rs) simp_all
  qed
next
  case (7 lib lines fn args)
  then show ?case by (auto split: node.splits)
qed auto

section \<open>The mathematical value of a call\<close>

definition nearest_even :: "rat \<Rightarrow> int \<Rightarrow> bool" where
  "nearest_even a i \<longleftrightarrow> \<bar>of_int i - a\<bar> \<le> 1 / 2 \<and> (\<bar>of_int i - a\<bar> = 1 / 2 \<longrightarrow> even i)"

inductive fn_denotes :: "string \<Rightarrow> rat list \<Rightarrow> rat \<Rightarrow> bool" where
  fn_abs: "fn_denotes ''abs'' [a] (if a < 0 then - a else a)"
| fn_min: "q \<in> set (a # b # r) \<Longrightarrow> \<forall>x\<in>set (a # b # r). q \<le> x \<Longrightarrow> fn_denotes ''min'' (a # b # r) q"
| fn_max: "q \<in> set (a # b # r) \<Longrightarrow> \<forall>x\<in>set (a # b # r). x \<le> q \<Longrightarrow> fn_denotes ''max'' (a # b # r) q"
| fn_int0: "fn_denotes ''int'' [] 0"
| fn_trunc: "name = ''int'' \<or> name = ''trunc'' \<Longrightarrow> \<bar>of_int i\<bar> \<le> \<bar>a\<bar> \<Longrightarrow> \<bar>a\<bar> < \<bar>of_int i\<bar> + 1 \<Longrightarrow>
    0 \<le> of_int i * a \<Longrightarrow> fn_denotes name [a] (of_int i)"
| fn_floor: "of_int i \<le> a \<Longrightarrow> a < of_int i + 1 \<Longrightarrow> fn_denotes ''floor'' [a] (of_int i)"
| fn_ceil: "of_int i - 1 < a \<Longrightarrow> a \<le> of_int i \<Longrightarrow> fn_denotes ''ceil'' [a] (of_int i)"
| fn_round: "nearest_even a i \<Longrightarrow> fn_denotes ''round'' [a] (of_int i)"
| fn_round2: "nearest_even (a * pow10 n) i \<Longrightarrow> fn_denotes ''round'' [a, of_int n] (of_int i / pow10 n)"
| fn_factorial: "name = ''factorial'' \<or> name = ''perm'' \<Longrightarrow> fn_denotes name [of_nat n] (of_nat (fact n))"
| fn_comb: "fn_denotes ''comb'' [of_nat n, of_nat k] (of_nat (n choose k))"
| fn_perm: "k \<le> n \<Longrightarrow> m * fact (n - k) = fact n \<Longrightarrow> fn_denotes ''perm'' [of_nat n, of_nat k] (of_nat m)"
| fn_perm0: "n < k \<Longrightarrow> fn_denotes ''perm'' [of_nat n, of_nat k] 0"
| fn_gcd: "0 \<le> g \<Longrightarrow> \<forall>d. d dvd g \<longleftrightarrow> (\<forall>x\<in>set ns. d dvd x) \<Longrightarrow> fn_denotes ''gcd'' (map of_int ns) (of_int g)"
| fn_lcm: "0 \<le> m \<Longrightarrow> \<forall>d. m dvd d \<longleftrightarrow> (\<forall>x\<in>set ns. x dvd d) \<Longrightarrow> fn_denotes ''lcm'' (map of_int ns) (of_int m)"
| fn_isqrt: "m * m \<le> n \<Longrightarrow> n < (m + 1) * (m + 1) \<Longrightarrow> fn_denotes ''isqrt'' [of_nat n] (of_nat m)"
| fn_sqrt: "0 \<le> r \<Longrightarrow> r * r = a \<Longrightarrow> fn_denotes ''sqrt'' [a] r"

lemma nearest_even_round: "nearest_even a (round_half_even a)"
proof -
  define f where "f = \<lfloor>a\<rfloor>"
  have f: "of_int f \<le> a" "a < of_int f + 1" unfolding f_def by linarith+
  consider "a - of_int f < 1/2" | "a - of_int f > 1/2" | "a - of_int f = 1/2" by linarith
  then show ?thesis
  proof cases
    case 3
    then have "\<bar>(of_int f + 1) - a\<bar> = 1/2" by linarith
    with 3 show ?thesis
      by (auto simp: nearest_even_def round_half_even_def f_def [symmetric] Let_def)
  qed (use f in \<open>auto simp: nearest_even_def round_half_even_def f_def [symmetric] Let_def abs_le_iff\<close>)
qed

lemma fold_min_spec: "fold min xs a \<in> insert a (set xs) \<and> (\<forall>x\<in>insert a (set xs). fold min xs a \<le> x)"
  for a :: rat
proof (induction xs arbitrary: a)
  case (Cons y xs)
  have "fold min (y # xs) a = fold min xs (min y a)" by simp
  with Cons.IH [of "min y a"] show ?case by (auto simp: min_def split: if_splits intro: order_trans)
qed simp

lemma fold_max_spec: "fold max xs a \<in> insert a (set xs) \<and> (\<forall>x\<in>insert a (set xs). x \<le> fold max xs a)"
  for a :: rat
proof (induction xs arbitrary: a)
  case (Cons y xs)
  have "fold max (y # xs) a = fold max xs (max y a)" by simp
  with Cons.IH [of "max y a"] show ?case by (auto simp: max_def split: if_splits intro: order_trans)
qed simp

lemma trunc_spec: "\<bar>of_int (trunc a)\<bar> \<le> \<bar>a\<bar> \<and> \<bar>a\<bar> < \<bar>of_int (trunc a)\<bar> + 1 \<and> 0 \<le> of_int (trunc a) * a"
  for a :: rat
proof (cases "a \<ge> 0")
  case True
  then have "0 \<le> \<lfloor>a\<rfloor>" by simp
  with True show ?thesis by (simp add: trunc_def) linarith
next
  case False
  then have c: "\<lceil>a\<rceil> \<le> 0" by linarith
  with False have "\<bar>of_int \<lceil>a\<rceil> :: rat\<bar> = - of_int \<lceil>a\<rceil>" "\<bar>a\<bar> = - a" by simp_all
  moreover have "0 \<le> of_int \<lceil>a\<rceil> * a" using c False by (simp add: mult_nonpos_nonpos)
  ultimately show ?thesis using False by (simp add: trunc_def) linarith
qed

lemma exact_fn_denotes:
  assumes "exact_fn name args = Inr q" and "List.member EXACT_FUNCS name"
  shows "fn_denotes name args q"
proof -
  consider (mn) a b r where "name = ''min''" "args = a # b # r" "q = fold min (b # r) a"
    | (mx) a b r where "name = ''max''" "args = a # b # r" "q = fold max (b # r) a"
    | (int0) "name = ''int''" "args = []" "q = 0"
    | (one) a where "args = [a]" "name \<in> {''abs'', ''int'', ''round'', ''floor'', ''ceil'', ''trunc''}"
        "name = ''abs'' \<longrightarrow> q = \<bar>a\<bar>" "name = ''round'' \<longrightarrow> q = of_int (round_half_even a)"
        "name = ''floor'' \<longrightarrow> q = of_int \<lfloor>a\<rfloor>" "name = ''ceil'' \<longrightarrow> q = of_int \<lceil>a\<rceil>"
        "name = ''int'' \<or> name = ''trunc'' \<longrightarrow> q = of_int (trunc a)"
    using assms by (auto simp: exact_fn_def EXACT_FUNCS_def split: if_splits list.splits)
  then show ?thesis
  proof cases
    case mn
    then show ?thesis using fold_min_spec [of "b # r" a] by (auto intro!: fn_min)
  next
    case mx
    then show ?thesis using fold_max_spec [of "b # r" a] by (auto intro!: fn_max)
  next
    case int0
    then show ?thesis by (simp add: fn_int0)
  next
    case one
    have "fn_denotes ''abs'' [a] \<bar>a\<bar>" using fn_abs [of a] by (simp add: abs_if)
    moreover have "fn_denotes ''floor'' [a] (of_int \<lfloor>a\<rfloor>)" by (rule fn_floor) linarith+
    moreover have "fn_denotes ''ceil'' [a] (of_int \<lceil>a\<rceil>)" by (rule fn_ceil) linarith+
    moreover have "fn_denotes nm [a] (of_int (trunc a))" if "nm = ''int'' \<or> nm = ''trunc''" for nm
      by (rule fn_trunc [OF that]) (use trunc_spec [of a] in simp_all)
    moreover have "fn_denotes ''round'' [a] (of_int (round_half_even a))"
      by (rule fn_round [OF nearest_even_round])
    ultimately show ?thesis using one by (elim insertE) simp_all
  qed
qed

lemma fold_gcd_spec: "0 \<le> a \<Longrightarrow> 0 \<le> fold gcd ns a \<and> (\<forall>d. d dvd fold gcd ns a \<longleftrightarrow> d dvd a \<and> (\<forall>x\<in>set ns. d dvd x))"
  for a :: int
  by (induction ns arbitrary: a) auto

lemma fold_lcm_spec: "0 \<le> a \<Longrightarrow> 0 \<le> fold lcm ns a \<and> (\<forall>d. fold lcm ns a dvd d \<longleftrightarrow> a dvd d \<and> (\<forall>x\<in>set ns. x dvd d))"
  for a :: int
  by (induction ns arbitrary: a) auto

lemma int_fn_single:
  assumes "int_fn name [n] = Inr i" and "name \<in> {''factorial'', ''perm'', ''isqrt'', ''comb''}"
  shows "fn_denotes name (map of_int [n]) (of_int i)"
proof -
  have n: "0 \<le> n" using assms by (auto simp: int_fn_def split: if_splits)
  then have eq: "(of_int n :: rat) = of_nat (nat n)" by simp
  show ?thesis
  proof (cases "name = ''isqrt''")
    case True
    then have "i = int (isqrt (nat n))" using assms by (auto simp: int_fn_def split: if_splits)
    then show ?thesis using True isqrt_bounds [of "nat n"] fn_isqrt [of "isqrt (nat n)" "nat n"]
      by (simp only: list.map eq of_int_of_nat_eq)
  next
    case False
    then have "i = fact (nat n)" and nm: "name = ''factorial'' \<or> name = ''perm''"
      using assms by (auto simp: int_fn_def split: if_splits)
    then show ?thesis using fn_factorial [OF nm, of "nat n"] by (simp only: list.map eq of_int_fact of_nat_fact)
  qed
qed

lemma int_fn_pair:
  assumes "int_fn name [n, k] = Inr i" and "name \<in> {''factorial'', ''perm'', ''isqrt'', ''comb''}"
  shows "fn_denotes name (map of_int [n, k]) (of_int i)"
proof -
  have nk: "0 \<le> n" "0 \<le> k" and name: "name = ''comb'' \<or> name = ''perm''"
    using assms by (auto simp: int_fn_def split: if_splits)
  then have eq: "(of_int n :: rat) = of_nat (nat n)" "(of_int k :: rat) = of_nat (nat k)" by simp_all
  show ?thesis
  proof (cases "name = ''comb''")
    case True
    then have "i = int (nat n choose nat k)"
      using assms nk by (auto simp: int_fn_def binomial_eq_0 split: if_splits)
    then show ?thesis using True fn_comb [of "nat n" "nat k"] by (simp only: list.map eq of_int_of_nat_eq)
  next
    case False
    with name have perm: "name = ''perm''" by simp
    show ?thesis
    proof (cases "k > n")
      case True
      then have "i = 0" and "nat n < nat k" using assms perm nk by (auto simp: int_fn_def split: if_splits)
      then show ?thesis using perm fn_perm0 [of "nat n" "nat k"] by (simp only: list.map eq of_int_0)
    next
      case False
      let ?m = "fact (nat n) div fact (nat n - nat k) :: nat"
      have le: "nat k \<le> nat n" using False nk by simp
      have "i = int ?m"
        using assms perm False nk by (auto simp: int_fn_def nat_diff_distrib split: if_splits)
      moreover have "?m * fact (nat n - nat k) = fact (nat n)"
        using fact_dvd [of "nat n - nat k" "nat n"] by (intro dvd_div_mult_self) simp
      ultimately show ?thesis using perm fn_perm [OF le] by (simp only: list.map eq of_int_of_nat_eq)
    qed
  qed
qed

lemma int_fn_arity:
  "int_fn name ns = Inr i \<Longrightarrow> name \<noteq> ''gcd'' \<Longrightarrow> name \<noteq> ''lcm'' \<Longrightarrow>
     (\<exists>n. ns = [n]) \<or> (\<exists>n k. ns = [n, k])"
  by (simp add: int_fn_def split: list.splits)

lemma int_fn_denotes:
  assumes "int_fn name ns = Inr i" and "List.member INT_FUNCS name"
  shows "fn_denotes name (map of_int ns) (of_int i)"
proof -
  consider "name = ''gcd''" | "name = ''lcm''" | "name \<in> {''factorial'', ''perm'', ''isqrt'', ''comb''}"
    using assms(2) unfolding INT_FUNCS_def List.member_iff set_simps by blast
  then show ?thesis
  proof cases
    case 1
    then have "i = fold gcd ns 0" using assms(1) by (simp add: int_fn_def)
    then show ?thesis using 1 fold_gcd_spec [of 0 ns] by (auto intro!: fn_gcd)
  next
    case 2
    then have "i = fold lcm ns 1" using assms(1) by (simp add: int_fn_def)
    then show ?thesis using 2 fold_lcm_spec [of 1 ns] by (auto intro!: fn_lcm)
  next
    case 3
    have "name \<noteq> ''gcd''" "name \<noteq> ''lcm''" using 3 by auto
    then consider n where "ns = [n]" | n k where "ns = [n, k]"
      using int_fn_arity assms(1) by blast
    then show ?thesis
    proof cases
      case (1 n)
      show ?thesis unfolding 1 by (rule int_fn_single [OF assms(1) [unfolded 1] 3])
    next
      case (2 n k)
      show ?thesis unfolding 2 by (rule int_fn_pair [OF assms(1) [unfolded 2] 3])
    qed
  qed
qed

section \<open>The mathematical value of an expression\<close>

inductive denotes :: "string list \<Rightarrow> node \<Rightarrow> rat \<Rightarrow> bool" for lines where
  d_expression: "denotes lines n q \<Longrightarrow> denotes lines (Expression n) q"
| d_int: "denotes lines (Constant (CInt i) sp) (of_int i)"
| d_decimal: "literal_text sp lines = Inr t \<Longrightarrow> fraction_of_str (filter (\<lambda>c. c \<noteq> CHR ''_'') t) = Inr q \<Longrightarrow>
    denotes lines (Constant CFloat sp) q"
| d_plus: "denotes lines n q \<Longrightarrow> denotes lines (UnaryOp UAdd n) q"
| d_minus: "denotes lines n q \<Longrightarrow> denotes lines (UnaryOp USub n) (- q)"
| d_invert: "denotes lines n (of_int i) \<Longrightarrow> denotes lines (UnaryOp Invert n) (of_int (- i - 1))"
| d_add: "denotes lines l a \<Longrightarrow> denotes lines r b \<Longrightarrow> denotes lines (BinOp l Add r) (a + b)"
| d_sub: "denotes lines l a \<Longrightarrow> denotes lines r b \<Longrightarrow> denotes lines (BinOp l Sub r) (a - b)"
| d_mult: "denotes lines l a \<Longrightarrow> denotes lines r b \<Longrightarrow> denotes lines (BinOp l Mult r) (a * b)"
| d_div: "denotes lines l a \<Longrightarrow> denotes lines r b \<Longrightarrow> b \<noteq> 0 \<Longrightarrow> denotes lines (BinOp l Div r) (a / b)"
| d_floordiv: "denotes lines l a \<Longrightarrow> denotes lines r b \<Longrightarrow> b \<noteq> 0 \<Longrightarrow>
    denotes lines (BinOp l FloorDiv r) (of_int \<lfloor>a / b\<rfloor>)"
| d_mod: "denotes lines l a \<Longrightarrow> denotes lines r b \<Longrightarrow> b \<noteq> 0 \<Longrightarrow>
    denotes lines (BinOp l Mod r) (a - b * of_int \<lfloor>a / b\<rfloor>)"
| d_pow_nat: "denotes lines l a \<Longrightarrow> denotes lines r (of_nat k) \<Longrightarrow> denotes lines (BinOp l Pow r) (a ^ k)"
| d_pow_neg: "denotes lines l a \<Longrightarrow> denotes lines r (- of_nat k) \<Longrightarrow> a \<noteq> 0 \<Longrightarrow>
    denotes lines (BinOp l Pow r) (1 / a ^ k)"
| d_pow_half_nat: "denotes lines l (s * s) \<Longrightarrow> 0 \<le> s \<Longrightarrow> denotes lines r (of_nat k / 2) \<Longrightarrow>
    denotes lines (BinOp l Pow r) (s ^ k)"
| d_pow_half_neg: "denotes lines l (s * s) \<Longrightarrow> 0 < s \<Longrightarrow> denotes lines r (- of_nat k / 2) \<Longrightarrow>
    denotes lines (BinOp l Pow r) (1 / s ^ k)"
| d_and: "denotes lines l (of_int i) \<Longrightarrow> denotes lines r (of_int j) \<Longrightarrow> denotes lines (BinOp l BitAnd r) (of_int (i AND j))"
| d_or: "denotes lines l (of_int i) \<Longrightarrow> denotes lines r (of_int j) \<Longrightarrow> denotes lines (BinOp l BitOr r) (of_int (i OR j))"
| d_xor: "denotes lines l (of_int i) \<Longrightarrow> denotes lines r (of_int j) \<Longrightarrow> denotes lines (BinOp l BitXor r) (of_int (i XOR j))"
| d_shl: "denotes lines l (of_int i) \<Longrightarrow> denotes lines r (of_nat k) \<Longrightarrow> denotes lines (BinOp l LShift r) (of_int (i * 2 ^ k))"
| d_shr: "denotes lines l (of_int i) \<Longrightarrow> denotes lines r (of_nat k) \<Longrightarrow> denotes lines (BinOp l RShift r) (of_int (i div 2 ^ k))"
| d_compare: "denotes lines l a \<Longrightarrow> denotes lines r b \<Longrightarrow> cmp_op op = Some f \<Longrightarrow>
    denotes lines (Compare l [op] (r # rs)) (if f a b then 1 else 0)"
| d_call: "list_all2 (denotes lines) args qs \<Longrightarrow> fn_denotes name qs q \<Longrightarrow>
    denotes lines (Call (Name name) args) q"

lemma num_numeric: "num v = Inr q \<Longrightarrow> q = numeric v"
  by (auto simp: num_def numeric_def split: val.splits)

lemma as_int_Inr: "as_int v op p = Inr i \<longleftrightarrow> v = of_int i"
  using whole_of_int [of v] by (auto simp: as_int_def)

lemma pow_whole_denotes:
  assumes "pow_whole a n = Inr q"
  shows "q = (if 0 \<le> n then a ^ nat n else 1 / a ^ nat (- n)) \<and> (n < 0 \<longrightarrow> a \<noteq> 0)"
  using assms by (auto simp: pow_whole_def Let_def rat_powi_def split: if_splits)

lemma denotes_pow_whole:
  assumes "denotes lines l a" and "denotes lines r (of_int n)" and "pow_whole a n = Inr q"
  shows "denotes lines (BinOp l Pow r) q"
proof (cases "0 \<le> n")
  case True
  have "denotes lines r (of_nat (nat n))" using True assms(2) by simp
  from d_pow_nat [OF assms(1) this] show ?thesis using True pow_whole_denotes [OF assms(3)] by simp
next
  case False
  have "denotes lines r (- of_nat (nat (- n)))" using False assms(2) by simp
  from d_pow_neg [OF assms(1) this] show ?thesis using False pow_whole_denotes [OF assms(3)] by simp
qed

lemma denotes_pow_half:
  assumes "denotes lines l a" and "denotes lines r b" and "denom b = 2" and "exact_sqrt a = Some s"
    and "pow_whole s (numer b) = Inr q"
  shows "denotes lines (BinOp l Pow r) q"
proof -
  define n where "n = numer b"
  have s: "0 \<le> s" "s * s = a" using exact_sqrt_square [OF assms(4)] by auto
  have l: "denotes lines l (s * s)" using assms(1) s by simp
  have r: "denotes lines r (of_int n / 2)"
    using assms(2) quotient_of_div [OF prod.collapse [symmetric], of b] unfolding assms(3) n_def
    by (metis of_int_numeral)
  note q = pow_whole_denotes [OF assms(5) [folded n_def]]
  show ?thesis
  proof (cases "0 \<le> n")
    case True
    then have "denotes lines r (of_nat (nat n) / 2)" using r by simp
    from d_pow_half_nat [OF l s(1) this] show ?thesis using True q by simp
  next
    case False
    then have "denotes lines r (- of_nat (nat (- n)) / 2)" "0 < s" using r q s(1) by auto
    from d_pow_half_neg [OF l this(2,1)] show ?thesis using False q by simp
  qed
qed

lemma pow_exact_sound:
  assumes "pow_exact lib a b g = (Inr q, g)" and "denotes lines l a" and "denotes lines r b"
  shows "denotes lines (BinOp l Pow r) q"
proof (cases "denom b = 1")
  case True
  then have "pow_whole a (numer b) = Inr q" and b: "b = of_int (numer b)"
    using assms(1) whole_of_int [OF True]
    by (auto simp: pow_exact_def ev_raise_def ev_lift_def split: if_splits)
  with assms(2,3) show ?thesis by (metis denotes_pow_whole)
next
  case False
  show ?thesis
  proof (cases "if denom b = 2 then exact_sqrt a else None")
    case None
    then have "ev_bind (log_float ''**'') (\<lambda>_. ev_lift (pow_float lib a b)) g = (Inr q, g)"
      using assms(1) False by (simp add: pow_exact_def ev_raise_def split: if_splits)
    then show ?thesis using log_not_quiet(2) grows_intros(3) by metis
  next
    case (Some s)
    then have "denom b = 2" "exact_sqrt a = Some s" by (auto split: if_splits)
    moreover have "pow_whole s (numer b) = Inr q"
      using assms(1) False Some by (auto simp: pow_exact_def ev_raise_def ev_lift_def split: if_splits)
    ultimately show ?thesis using assms(2,3) by (blast intro: denotes_pow_half)
  qed
qed

lemma int_op_sound:
  assumes "int_op a b op = Inr q" and "op \<in> {BitAnd, BitOr, BitXor, LShift, RShift}"
    and "denotes lines l a" and "denotes lines r b"
  shows "denotes lines (BinOp l op r) q"
proof -
  obtain i j where a: "a = of_int i" and b: "b = of_int j" and q: "q = of_int (raw_int_op op i j)"
    and sh: "op = LShift \<or> op = RShift \<longrightarrow> 0 \<le> j"
    using assms(1) by (auto simp: int_op_def rbind_eq_Inr as_int_Inr Let_def split: if_splits)
  have j: "op = LShift \<or> op = RShift \<Longrightarrow> denotes lines r (of_nat (nat j))"
    using sh assms(4) b by simp
  show ?thesis
    using assms(2,3,4) j q unfolding a b
    by (auto simp: raw_int_op_def push_bit_eq_mult drop_bit_eq_div intro: d_and d_or d_xor d_shl d_shr
        simp del: of_int_mult of_int_power)
qed

lemma bin_op_sound:
  assumes "bin_op lib op a b g = (Inr v, g)" and "denotes lines l a" and "denotes lines r b"
  shows "denotes lines (BinOp l op r) (numeric v)"
proof (cases "op \<in> {BitAnd, BitOr, BitXor, LShift, RShift}")
  case True
  then obtain q where "int_op a b op = Inr q" and "v = VFrac q"
    using assms(1) by (auto simp: bin_op_def ev_lift_def rbind_eq_Inr)
  then show ?thesis using int_op_sound [OF _ True assms(2,3)] by (simp add: numeric_def)
next
  case False
  show ?thesis
  proof (cases "op = Pow")
    case True
    with assms(1) have "ev_bind (pow_exact lib a b) (\<lambda>q. ev_return (VFrac q)) g = (Inr v, g)"
      by (simp add: bin_op_def)
    then obtain q where "pow_exact lib a b g = (Inr q, g)" and "v = VFrac q"
      by (elim quiet_bind [OF grows_pow_exact grows_intros(1)]) (simp add: ev_return_def)
    then show ?thesis using True pow_exact_sound [OF _ assms(2,3)] by (simp add: numeric_def)
  next
    case np: False
    show ?thesis
      using assms False np
      by (cases op) (auto simp: bin_op_def ev_return_def ev_raise_def numeric_def
          intro: d_add d_sub d_mult d_div d_floordiv d_mod split: if_splits)
  qed
qed

lemma call_fn_sound:
  assumes "call_fn lib name qs g = (Inr v, g)"
  shows "fn_denotes name qs (numeric v)"
proof -
  consider (round2) "name = ''round''" "length qs = 2"
    | (ex) "\<not> (name = ''round'' \<and> length qs = 2)" "List.member EXACT_FUNCS name"
    | (ints) "\<not> (name = ''round'' \<and> length qs = 2)" "\<not> List.member EXACT_FUNCS name"
        "List.member INT_FUNCS name" "list_all is_whole qs"
    | (other) "\<not> (name = ''round'' \<and> length qs = 2)" "\<not> List.member EXACT_FUNCS name"
        "\<not> (List.member INT_FUNCS name \<and> list_all is_whole qs)"
    by blast
  then show ?thesis
  proof cases
    case round2
    then obtain a b where qs: "qs = [a, b]" by (auto simp: length_Suc_conv numeral_2_eq_2)
    with round2 assms have b: "denom b = 1"
      and v: "numeric v = of_int (round_half_even (a * pow10 (numer b))) / pow10 (numer b)"
      by (auto simp: call_fn_def ev_raise_def ev_return_def numeric_def Let_def split: if_splits)
    have "fn_denotes ''round'' [a, of_int (numer b)] (numeric v)"
      unfolding v by (rule fn_round2) (rule nearest_even_round)
    then show ?thesis using round2(1) qs whole_of_int [OF b] by simp
  next
    case ex
    then obtain q where "exact_fn name qs = Inr q" and "v = VFrac q"
      using assms unfolding call_fn_def by (auto simp: ev_lift_def rbind_eq_Inr simp del: List.member_iff)
    then show ?thesis using exact_fn_denotes ex(2) by (simp add: numeric_def)
  next
    case ints
    then obtain i where i: "int_fn name (map numer qs) = Inr i" and v: "v = VFrac (of_int i)"
      using assms unfolding call_fn_def by (auto simp: ev_lift_def rbind_eq_Inr simp del: List.member_iff)
    have "map (of_int \<circ> numer) qs = qs"
      using ints(4) by (intro map_idI) (auto simp: list_all_iff is_whole_def whole_of_int [symmetric])
    then show ?thesis using int_fn_denotes [OF i ints(3)] v by (simp add: numeric_def)
  next
    case other
    show ?thesis
    proof (cases "if name = ''sqrt'' \<and> length qs = 1 then exact_sqrt (qs ! 0) else None")
      case None
      have "call_fn lib name qs g = ev_bind (log_float name) (\<lambda>_. ev_lift (rbind (float_call lib name qs)
          (\<lambda>r. rbind (float_result name r) (\<lambda>q. Inr (VFrac q))))) g"
        using other None unfolding call_fn_def by (simp only: if_False option.case)
      then show ?thesis using assms log_not_quiet(2) grows_intros(3) by metis
    next
      case (Some s)
      then have "name = ''sqrt''" "length qs = 1" "exact_sqrt (qs ! 0) = Some s"
        by (auto split: if_splits)
      moreover from this obtain a where "qs = [a]" by (auto simp: length_Suc_conv)
      moreover have "v = VFrac s"
        using assms other Some unfolding call_fn_def by (auto simp: ev_return_def simp del: List.member_iff)
      ultimately show ?thesis
        using exact_sqrt_square [of a s] by (auto simp: numeric_def intro: fn_sqrt)
    qed
  qed
qed

lemmas quiet_bindE = quiet_bind [rotated 2, consumes 1]

text \<open>Quiet runs: a run that records neither a constant nor a float function.\<close>

lemma quiet_lift: "ev_lift r g = (Inr x, g') \<longleftrightarrow> r = Inr x \<and> g' = g"
  by (auto simp: ev_lift_def)

lemma quiet_num: "ev_lift (num v) g = (Inr q, g') \<Longrightarrow> q = numeric v"
  by (auto simp: ev_lift_def dest: num_numeric)

lemma unary_sound:
  assumes "ev lib lines (UnaryOp op x) g = (Inr v, g)"
    and IH: "\<And>u. ev lib lines x g = (Inr u, g) \<Longrightarrow> denotes lines x (numeric u)"
  shows "denotes lines (UnaryOp op x) (numeric v)"
proof (cases op)
  case UAdd
  then have "ev_bind (ev lib lines x) (\<lambda>v. ev_lift (rbind (num v) (\<lambda>q. Inr (VFrac q)))) g = (Inr v, g)"
    using assms(1) by simp
  then obtain u where "ev lib lines x g = (Inr u, g)" and "v = VFrac (numeric u)"
    by (elim quiet_bind [OF grows_ev grows_intros(3)]) (auto simp: quiet_lift rbind_eq_Inr dest: num_numeric)
  then show ?thesis using UAdd IH d_plus by (simp add: numeric_def)
next
  case USub
  then have "ev_bind (ev lib lines x) (\<lambda>v. ev_lift (rbind (num v) (\<lambda>q. Inr (VFrac (- q))))) g = (Inr v, g)"
    using assms(1) by simp
  then obtain u where "ev lib lines x g = (Inr u, g)" and "v = VFrac (- numeric u)"
    by (elim quiet_bind [OF grows_ev grows_intros(3)]) (auto simp: quiet_lift rbind_eq_Inr dest: num_numeric)
  then show ?thesis using USub IH d_minus by (simp add: numeric_def)
next
  case Invert
  then have "ev_bind (ev lib lines x) (\<lambda>v. ev_lift (rbind (num v) (\<lambda>q.
                   rbind (as_int q ''~'' ''operand'') (\<lambda>i. Inr (VFrac (of_int (NOT i))))))) g = (Inr v, g)"
    using assms(1) by simp
  then obtain u i where "ev lib lines x g = (Inr u, g)" and "num u = Inr (of_int i)" and "v = VFrac (of_int (NOT i))"
    by (elim quiet_bind [OF grows_ev grows_intros(3)]) (auto simp: quiet_lift rbind_eq_Inr as_int_Inr)
  then show ?thesis using Invert IH d_invert [of lines x i] num_numeric [of u] by (simp add: numeric_def not_int_def)
next
  case UNot
  then show ?thesis using assms(1) by (simp add: ev_raise_def)
qed

lemma ev_sound_both:
  "ev lib lines n g = (Inr v, g) \<Longrightarrow> denotes lines n (numeric v)"
  "ev_args lib lines ns g = (Inr qs, g) \<Longrightarrow> list_all2 (denotes lines) ns qs"
proof (induction lib lines n and lib lines ns arbitrary: v and qs rule: ev_ev_args.induct)
  case (1 lib lines body)
  then show ?case by (auto intro: d_expression)
next
  case (2 lib lines c sp)
  then show ?case
    by (auto simp: quiet_lift rbind_eq_Inr ev_literal_def numeric_def
        intro: d_int d_decimal dest!: fraction_of_fmt_int split: const.splits)
next
  case (3 lib lines n)
  then show ?case using log_not_quiet(1) [of "\<lambda>_. ev_return (VFrac (const_val lib n))" n g v]
    by (auto simp: ev_raise_def split: if_splits)
next
  case (4 lib lines op x)
  have "op \<noteq> UNot" using "4.prems" by (auto simp: ev_raise_def)
  then have "\<And>u. ev lib lines x g = (Inr u, g) \<Longrightarrow> denotes lines x (numeric u)"
    using "4.IH" by (cases op) blast+
  then show ?case by (rule unary_sound [OF "4.prems"])
next
  case (5 lib lines l op r)
  then have "op \<noteq> MatMult" by (auto simp: ev_raise_def)
  with 5 have "ev_bind (ev lib lines l) (\<lambda>lv. ev_bind (ev_lift (num lv)) (\<lambda>a.
           ev_bind (ev lib lines r) (\<lambda>rv. ev_bind (ev_lift (num rv)) (\<lambda>b. bin_op lib op a b)))) g = (Inr v, g)"
    by simp
  then show ?case
    by (elim quiet_bindE; (intro grows_bind grows_ev grows_intros grows_bin_op)?)
      (use 5 \<open>op \<noteq> MatMult\<close> in \<open>auto dest!: quiet_num intro: bin_op_sound\<close>)
next
  case (6 lib lines l ops rs)
  from "6.prems" obtain op f r rest where ops: "ops = [op]" "cmp_op op = Some f" "rs = r # rest"
    by (auto simp: ev_raise_def split: list.splits option.splits)
  with "6.prems" have "ev_bind (ev lib lines l) (\<lambda>lv. ev_bind (ev lib lines r) (\<lambda>rv.
      ev_return (VBool (f (numeric lv) (numeric rv))))) g = (Inr v, g)" by simp
  then obtain lv rv where "ev lib lines l g = (Inr lv, g)" "ev lib lines r g = (Inr rv, g)"
    and v: "v = VBool (f (numeric lv) (numeric rv))"
    by (elim quiet_bindE; (intro grows_bind grows_ev grows_intros)?) (simp add: ev_return_def)
  then have "denotes lines l (numeric lv)" "denotes lines r (numeric rv)"
    using "6.IH"(1) [OF ops(1) refl ops(2,3)] "6.IH"(2) [OF ops(1) refl ops(2,3)] by simp_all
  then show ?case using d_compare ops v by (simp add: numeric_def)
next
  case (7 lib lines fn args)
  from "7.prems" obtain name where fn: "fn = Name name"
    and ok: "List.member BUILTIN_FUNCS name \<or> math_names lib name"
    by (auto simp: ev_raise_def simp del: List.member_iff split: node.splits if_splits)
  with "7.prems" have "ev_bind (ev_args lib lines args) (call_fn lib name) g = (Inr v, g)"
    by (simp del: List.member_iff)
  then obtain qs where "ev_args lib lines args g = (Inr qs, g)" and c: "call_fn lib name qs g = (Inr v, g)"
    by (elim quiet_bind [OF grows_ev_args grows_call_fn])
  then have "list_all2 (denotes lines) args qs" using "7.IH" [OF fn ok] by blast
  then show ?case unfolding fn by (rule d_call) (rule call_fn_sound [OF c])
next
  case (9 lib lines)
  then show ?case by (simp add: ev_return_def)
next
  case (10 lib lines n ns)
  from "10.prems" have "ev_bind (ev lib lines n) (\<lambda>v. ev_bind (ev_lift (num v)) (\<lambda>q.
       ev_bind (ev_args lib lines ns) (\<lambda>qs. ev_return (q # qs)))) g = (Inr qs, g)" by simp
  then obtain v qs' where "ev lib lines n g = (Inr v, g)" "ev_args lib lines ns g = (Inr qs', g)"
    and "qs = numeric v # qs'"
    by (elim quiet_bindE; (intro grows_bind grows_ev grows_ev_args grows_intros)?)
      (auto simp: ev_return_def dest!: quiet_num)
  then show ?case using "10.IH" by auto
qed (simp_all add: ev_raise_def)

text \<open>A quiet power is a whole power, of the base or of its root.\<close>

lemma pow_exact_quiet:
  assumes "pow_exact lib a b g = (Inr q, g)"
  obtains base n where "pow_whole base n = Inr q"
proof (cases "denom b = 1")
  case True
  then show ?thesis using assms that by (auto simp: pow_exact_def ev_raise_def ev_lift_def split: if_splits)
next
  case False
  show ?thesis
  proof (cases "if denom b = 2 then exact_sqrt a else None")
    case None
    then have "ev_bind (log_float ''**'') (\<lambda>_. ev_lift (pow_float lib a b)) g = (Inr q, g)"
      using assms False by (simp add: pow_exact_def ev_raise_def split: if_splits)
    then show ?thesis using log_not_quiet(2) grows_intros(3) by metis
  next
    case (Some s)
    then show ?thesis using assms False that
      by (auto simp: pow_exact_def ev_raise_def ev_lift_def split: if_splits)
  qed
qed

end
