(* ===== verification/Binary64.thy ===== *)
theory Binary64
  imports Codecalc_Prelude
begin

text \<open>
  The binary64 numbers a Python \<open>float\<close> holds, as the rationals they are: \<open>rnd64\<close> is the
  correctly rounded (ties to even) value of a rational, subnormals included; a value whose
  rounding leaves the range is \<open>None\<close>. The operators round the exact result once, as IEEE 754
  does; \<open>round_digits\<close> is \<open>round(x, n)\<close> and \<open>float_repr\<close> the shortest text that reads back.
  The sign of a zero is not represented.
\<close>

definition pow2 :: "int \<Rightarrow> rat" where
  "pow2 e = (if e \<ge> 0 then 2 ^ nat e else 1 / 2 ^ nat (- e))"

fun nat_bits :: "nat \<Rightarrow> nat" where
  "nat_bits n = (if n = 0 then 0 else Suc (nat_bits (n div 2)))"

declare nat_bits.simps [simp del]

text \<open>The exponent \<open>e\<close> with \<open>2 ^ e \<le> q < 2 ^ (e + 1)\<close>, for a positive \<open>q\<close>.\<close>

definition floor_log2 :: "rat \<Rightarrow> int" where
  "floor_log2 q = (case quotient_of q of (n, d) \<Rightarrow>
     let e = int (nat_bits (nat n)) - int (nat_bits (nat d))
     in if pow2 e \<le> q then e else e - 1)"

definition ulp_exp :: "rat \<Rightarrow> int" where
  "ulp_exp q = max (floor_log2 \<bar>q\<bar> - 52) (- 1074)"

definition rnd :: "rat \<Rightarrow> rat" where
  "rnd q = (if q = 0 then 0 else of_int (round_half_even (q / pow2 (ulp_exp q))) * pow2 (ulp_exp q))"

definition MAX_FINITE :: rat where "MAX_FINITE = pow2 1024 - pow2 971"

definition rnd64 :: "rat \<Rightarrow> rat option" where
  "rnd64 q = (let r = rnd q in if \<bar>r\<bar> \<le> MAX_FINITE then Some r else None)"

text \<open>\<open>round(x, n)\<close> of a finite float: the decimal rounding of its exact value, read back.\<close>

definition round_digits :: "nat \<Rightarrow> rat \<Rightarrow> rat" where
  "round_digits n x = rnd (of_int (round_half_even (x * 10 ^ n)) / 10 ^ n)"

text \<open>The shortest decimal digits that read back as \<open>x\<close>, with the exponent of the first one.\<close>

definition dec_pow :: "int \<Rightarrow> rat" where
  "dec_pow e = (if e \<ge> 0 then 10 ^ nat e else 1 / 10 ^ nat (- e))"

definition dec_exp :: "rat \<Rightarrow> int" where
  "dec_exp q = (case quotient_of q of (n, d) \<Rightarrow>
     let e = int (length (nat_str (nat n))) - int (length (nat_str (nat d)))
     in if dec_pow e \<le> q then e else e - 1)"

definition digits_reading_back :: "rat \<Rightarrow> nat \<Rightarrow> (int \<times> int) option" where
  "digits_reading_back x k =
    (let s = int k - 1 - dec_exp x; y = x * dec_pow s;
         ok = (\<lambda>m. rnd (of_int m / dec_pow s) = x)
     in case filter ok [round_half_even y, \<lfloor>y\<rfloor>, \<lceil>y\<rceil>] of [] \<Rightarrow> None | m # _ \<Rightarrow> Some (m, s))"

fun shortest_digits :: "rat \<Rightarrow> nat list \<Rightarrow> int \<times> int" where
  "shortest_digits x [] = (let s = 16 - dec_exp x in (round_half_even (x * dec_pow s), s))"
| "shortest_digits x (k # ks) =
     (case digits_reading_back x k of Some r \<Rightarrow> r | None \<Rightarrow> shortest_digits x ks)"

text \<open>\<open>repr(x)\<close>: positional for exponents from \<open>-4\<close> to \<open>15\<close>, else scientific.\<close>

definition float_repr :: "rat \<Rightarrow> string" where
  "float_repr x =
    (if x = 0 then ''0.0''
     else let (m, s) = shortest_digits \<bar>x\<bar> [1..<17];
              ds = rstrip (\<lambda>c. c = CHR ''0'') (nat_str (nat m));
              e = int (length (nat_str (nat m))) - 1 - s;
              sign = (if x < 0 then ''-'' else '''');
              body =
                (if - 4 \<le> e \<and> e < 0 then ''0.'' @ replicate (nat (- e - 1)) (CHR ''0'') @ ds
                 else if 0 \<le> e \<and> e < 16 then
                   let k = nat e + 1; padded = ds @ replicate (k - length ds) (CHR ''0'');
                       fr = drop k padded
                   in take k padded @ ''.'' @ (if fr = [] then ''0'' else fr)
                 else take 1 ds @ (if length ds > 1 then ''.'' @ drop 1 ds else '''')
                      @ ''e'' @ (if e < 0 then ''-'' else ''+'')
                      @ (if \<bar>e\<bar> < 10 then ''0'' else '''') @ nat_str (nat \<bar>e\<bar>))
          in sign @ body)"

definition mk_float :: "rat \<Rightarrow> pyval" where
  "mk_float x = PFloat x (float_repr x)"

section \<open>Sign and exactness of rounding\<close>

lemma pow2_pos [simp]: "0 < pow2 e" "pow2 e \<noteq> 0"
  by (simp_all add: pow2_def)

lemma round_half_even_0 [simp]: "round_half_even 0 = 0"
  using round_half_even_int [of 0] by simp

lemma rnd_0 [simp]: "rnd 0 = 0"
  by (simp add: rnd_def)

lemma round_half_even_nonneg: "0 \<le> q \<Longrightarrow> 0 \<le> round_half_even q"
  using round_half_even_mono [of 0 q] by simp

lemma round_half_even_nonpos: "q \<le> 0 \<Longrightarrow> round_half_even q \<le> 0"
  using round_half_even_mono [of q 0] by simp

lemma rnd_nonneg: "0 \<le> q \<Longrightarrow> 0 \<le> rnd q"
  by (simp add: rnd_def round_half_even_nonneg less_imp_le)

lemma rnd_nonpos: "q \<le> 0 \<Longrightarrow> rnd q \<le> 0"
  using round_half_even_nonpos [of "q / pow2 (ulp_exp q)"]
  by (simp add: rnd_def mult_le_0_iff divide_le_0_iff less_imp_le)

lemma rnd_error: "\<bar>rnd q - q\<bar> \<le> pow2 (ulp_exp q) / 2"
proof (cases "q = 0")
  case False
  let ?u = "pow2 (ulp_exp q)"
  have "rnd q - q = (of_int (round_half_even (q / ?u)) - q / ?u) * ?u"
    using False by (simp add: rnd_def algebra_simps)
  then have "\<bar>rnd q - q\<bar> = \<bar>of_int (round_half_even (q / ?u)) - q / ?u\<bar> * ?u"
    by (simp add: abs_mult abs_of_pos)
  also have "\<dots> \<le> 1 / 2 * ?u"
    by (rule mult_right_mono [OF round_half_even_error]) (simp add: less_imp_le)
  finally show ?thesis by simp
qed (simp add: less_imp_le)

end
