(* ===== verification/Exact_Tools.thy ===== *)
theory Exact_Tools
  imports Exact_Props Guarded Binary64
begin

text \<open>
  The exact-arithmetic tools of \<open>codecalc/exact.py\<close>: \<open>eval_exact\<close> (the screen, the parse, the
  walk of Exact_Eval and the result it reports), \<open>compare_threshold\<close>, \<open>percentage\<close> and
  \<open>percent_change\<close>. Arguments of the model: \<open>screen\<close>, the verdict of \<open>safe_expr.classify_unsafe\<close>;
  \<open>parse\<close>, the outcome of \<open>ast.parse(expr, mode="eval")\<close>; \<open>lib\<close>, the \<open>math\<close> module; and the
  \<open>fate\<close> of each guarded child.
\<close>

datatype parsed = Parsed node | SyntaxError string | ParseRaises exn

section \<open>Lines of the source text\<close>

text \<open>\<open>expr.encode("utf-8").splitlines(keepends=True)\<close>, for code points below 256.\<close>

definition utf8_char :: "char \<Rightarrow> string" where
  "utf8_char c = (let n = (of_char c :: nat) in
     if n < 128 then [c] else [char_of (192 + n div 64), char_of (128 + n mod 64)])"

definition utf8 :: "string \<Rightarrow> string" where
  "utf8 s = concat (map utf8_char s)"

fun split_keep :: "string \<Rightarrow> string \<Rightarrow> string list" where
  "split_keep acc [] = (if acc = [] then [] else [acc])"
| "split_keep acc (c # cs) =
     (if of_char c = (10::nat) then (acc @ [c]) # split_keep [] cs
      else if of_char c = (13::nat) then
        (case cs of d # ds \<Rightarrow> if of_char d = (10::nat) then (acc @ [c, d]) # split_keep [] ds
                             else (acc @ [c]) # split_keep [] cs
         | [] \<Rightarrow> [acc @ [c]])
      else split_keep (acc @ [c]) cs)"

definition source_lines :: "string \<Rightarrow> string list" where
  "source_lines expr = split_keep [] (utf8 expr)"

section \<open>Evaluation\<close>

definition MAX_EXPR_LEN :: nat where "MAX_EXPR_LEN = 2000"

definition too_long :: "string option list \<Rightarrow> dict option" where
  "too_long parts =
    (if \<exists>p \<in> set parts. \<exists>s. p = Some s \<and> length s > MAX_EXPR_LEN
     then Some [(''ok'', PBool False), (''error'', PStr ''expression too long (max 2000 chars)'')]
     else None)"

text \<open>\<open>sorted(set(names))\<close>.\<close>

fun str_le :: "string \<Rightarrow> string \<Rightarrow> bool" where
  "str_le [] t = True"
| "str_le (a # s) [] = False"
| "str_le (a # s) (b # t) =
     ((of_char a :: nat) < of_char b \<or> (of_char a :: nat) = of_char b \<and> str_le s t)"

fun insert_name :: "string \<Rightarrow> string list \<Rightarrow> string list" where
  "insert_name x [] = [x]"
| "insert_name x (y # ys) =
     (if x = y then y # ys else if str_le x y then x # y # ys else y # insert_name x ys)"

definition sorted_set :: "string list \<Rightarrow> string list" where
  "sorted_set xs = fold insert_name xs []"

definition strs :: "string list \<Rightarrow> pyval" where
  "strs xs = PList (map PStr xs)"

definition disclosure :: "string list \<Rightarrow> string list \<Rightarrow> dict" where
  "disclosure consts funcs =
    (if funcs = [] \<and> consts = [] then []
     else [(''approximated'', strs (funcs @ consts)),
           (''note'', PStr
              (if consts \<noteq> [] then
                 join '', '' consts
                 @ '' is irrational; the value used is the exact rational form of its binary64 ''
                 @ ''approximation, so this result is NOT exact''
               else
                 join '', '' funcs
                 @ '' has no exact rational form; the value shown is the exact rational of a ''
                 @ ''binary64 approximation, so this result is NOT exact''))])"

definition digits_estimate :: "rat \<Rightarrow> int" where
  "digits_estimate q =
     \<lfloor>rnd (of_nat (max (bit_length (numer q)) (bit_length (denom q))) * rnd (301029995663981 / 10 ^ 15))\<rfloor> + 1"

definition rational_result :: "rat \<Rightarrow> string list \<Rightarrow> string list \<Rightarrow> exn + dict" where
  "rational_result q consts funcs =
    rbind (dec_quot q) (\<lambda>d.
      let approx = fmt_approx d in
      case fmt_frac q of
        Inl e \<Rightarrow> Inr (error_result (classify e)
          (''the result has about '' @ int_str (digits_estimate q)
           @ '' digits and is too large to format as a decimal string; reduce the size of the operands'') [])
      | Inr exact \<Rightarrow> Inr (dmerge
          [(''ok'', PBool True), (''value'', PStr exact), (''approx'', PStr approx),
           (''exact'', PBool (consts = [] \<and> funcs = [])),
           (''differs_from_decimal'', PBool (exact \<noteq> approx)),
           (''type'', PStr ''rational'')]
          (disclosure consts funcs)))"

definition report_value :: "val \<Rightarrow> ev_log \<Rightarrow> exn + dict" where
  "report_value v l =
    (let consts = sorted_set (approx_consts l); funcs = sorted_set (float_funcs l)
     in case v of
       VBool b \<Rightarrow>
         let out = [(''ok'', PBool True), (''value'', PBool b), (''type'', PStr ''bool'')]
         in Inr (if consts \<noteq> [] \<or> funcs \<noteq> []
                 then dmerge (dset ''exact'' (PBool False) out) (disclosure consts funcs)
                 else out)
     | VFrac q \<Rightarrow> rational_result q consts funcs
     | VInt i \<Rightarrow> rbind (fmt_int i) (\<lambda>t.
         Inr [(''ok'', PBool True), (''value'', PStr t), (''type'', PStr ''int''), (''exact'', PBool False)]))"

definition empty_log :: ev_log where
  "empty_log = \<lparr>approx_consts = [], float_funcs = []\<rparr>"

definition eval_tree :: "mathlib \<Rightarrow> string \<Rightarrow> node \<Rightarrow> exn + dict" where
  "eval_tree lib expr tree =
    (case ev lib (source_lines expr) tree empty_log of
       (Inl e, l) \<Rightarrow>
         Inr (if isinstance e CeilingExceeded then error_result RESOURCE_EXHAUSTED (exn_msg e) []
              else if isinstance e ZeroDivisionErr then error_result VALIDATION ''division by zero'' []
              else error_result (classify e) (exn_msg e) [])
     | (Inr v, l) \<Rightarrow> report_value v l)"

definition eval_exact_child ::
  "(string \<Rightarrow> (string \<times> string) option) \<Rightarrow> (string \<Rightarrow> parsed) \<Rightarrow> mathlib \<Rightarrow> string \<Rightarrow> exn + dict" where
  "eval_exact_child screen parse lib expr =
    (if length expr > MAX_EXPR_LEN
     then Inr [(''ok'', PBool False), (''error'', PStr ''expression too long (max 2000 chars)'')]
     else case screen expr of
       Some (category, reason) \<Rightarrow> Inr (error_result (code_for_safe_expr_category category) reason [])
     | None \<Rightarrow>
         (case parse expr of
            SyntaxError m \<Rightarrow> Inr [(''ok'', PBool False), (''error'', PStr (''parse error: '' @ m))]
          | ParseRaises e \<Rightarrow> Inl e
          | Parsed tree \<Rightarrow> eval_tree lib expr tree))"

definition eval_exact ::
  "bool \<Rightarrow> fate \<Rightarrow> (string \<Rightarrow> (string \<times> string) option) \<Rightarrow> (string \<Rightarrow> parsed) \<Rightarrow> mathlib \<Rightarrow> string \<Rightarrow> dict" where
  "eval_exact can_fork fate screen parse lib expr =
     guarded_call can_fork fate (eval_exact_child screen parse lib expr)"

section \<open>Threshold comparison\<close>

definition CMP_SYMS :: "(string \<times> cmpop) list" where
  "CMP_SYMS = [(''>'', Gt), (''>='', GtE), (''<'', Lt), (''<='', LtE), (''=='', Eq), (''='', Eq), (''!='', NotEq)]"

text \<open>\<open>Fraction(r["value"] if r["type"] == "rational" else str(r["value"]))\<close>.\<close>

definition operand :: "dict \<Rightarrow> exn + rat" where
  "operand r =
    (if \<not> has_key r ''type'' then Inl (Exn KeyErr (repr_str ''type''))
     else if \<not> has_key r ''value'' then Inl (Exn KeyErr (repr_str ''value''))
     else fraction_of_str (py_str (dget r ''value'')))"

definition compare_results :: "string \<Rightarrow> cmpop \<Rightarrow> dict \<Rightarrow> dict \<Rightarrow> exn + dict" where
  "compare_results op cmp ra rb =
    (if \<not> (truthy (dget ra ''ok'') \<and> truthy (dget rb ''ok''))
     then Inr [(''ok'', PBool False),
               (''error'', PStr (''left: '' @ py_str (dget ra ''error'') @ ''; right: '' @ py_str (dget rb ''error'')))]
     else case rbind (operand ra) (\<lambda>fa. rbind (operand rb) (\<lambda>fb. Inr (fa, fb))) of
       Inl e \<Rightarrow> if isinstance e ValueErr \<or> isinstance e ZeroDivisionErr
                then Inr [(''ok'', PBool False), (''error'', PStr ''operands must be numeric'')]
                else Inl e
     | Inr (fa, fb) \<Rightarrow>
         let holds = the (cmp_op cmp) fa fb; diff = fa - fb
         in rbind (fmt_frac fa) (\<lambda>ta. rbind (fmt_frac fb) (\<lambda>tb. rbind (fmt_frac diff) (\<lambda>td.
            rbind (if holds then Inr PNone else rbind (fmt_frac (- diff)) (\<lambda>t. Inr (PStr t))) (\<lambda>sf.
              Inr [(''ok'', PBool True), (''a'', PStr ta), (''b'', PStr tb), (''op'', PStr op),
                   (''holds'', PBool holds), (''difference'', PStr td), (''shortfall'', sf)])))))"

definition compare_threshold :: "(string \<Rightarrow> dict) \<Rightarrow> string \<Rightarrow> string \<Rightarrow> string \<Rightarrow> exn + dict" where
  "compare_threshold evaluate a op b =
    (let op = strip is_space op in
     case map_of CMP_SYMS op of
       None \<Rightarrow> Inr [(''ok'', PBool False),
                    (''error'', PStr (''bad operator '' @ repr_str op @ ''; use ==, !=, >, >=, <, <=''))]
     | Some cmp \<Rightarrow> compare_results op cmp (evaluate a) (evaluate b))"

section \<open>Shares and relative change\<close>

text \<open>\<open>float(d)\<close> of a Decimal, and a product of floats: \<open>None\<close> when the value overflows.\<close>

definition float_pyval :: "bool \<Rightarrow> rat option \<Rightarrow> pyval" where
  "float_pyval neg x = (case x of Some v \<Rightarrow> mk_float (round_digits 6 v) | None \<Rightarrow> PInf neg)"

definition fraction_pair :: "string \<Rightarrow> string \<Rightarrow> exn + rat \<times> rat" where
  "fraction_pair s t = rbind (fraction_of_str s) (\<lambda>p. rbind (fraction_of_str t) (\<lambda>q. Inr (p, q)))"

definition not_numbers :: "string \<Rightarrow> exn \<Rightarrow> exn + dict" where
  "not_numbers message e =
    (if isinstance e ValueErr \<or> isinstance e ZeroDivisionErr
     then Inr [(''ok'', PBool False), (''error'', PStr message)] else Inl e)"

definition percentage :: "string \<Rightarrow> string \<Rightarrow> exn + dict" where
  "percentage part tot =
    (case fraction_pair part tot of
       Inl e \<Rightarrow> not_numbers ''part and total must be numbers'' e
     | Inr (p, t) \<Rightarrow>
         if t = 0 then Inr [(''ok'', PBool False), (''error'', PStr ''total is zero'')]
         else let share = p / t in
           rbind (dec_quot share) (\<lambda>d.
           rbind (fmt_frac p) (\<lambda>tp. rbind (fmt_frac t) (\<lambda>tt.
           rbind (fmt_int (numer share)) (\<lambda>sn. rbind (fmt_int (denom share)) (\<lambda>sd.
             Inr [(''ok'', PBool True), (''part'', PStr tp), (''total'', PStr tt),
                  (''share'', PStr (sn @ ''/'' @ sd)),
                  (''percent'', float_pyval (d < 0) (case rnd64 d of Some x \<Rightarrow> rnd64 (x * 100) | None \<Rightarrow> None)),
                  (''rounding'', PDict [(''percent'', PInt 6)])]))))))"

definition MAX_NUMERIC_DIGITS :: nat where "MAX_NUMERIC_DIGITS = 4000"
definition MAX_NUMERIC_LITERAL_LEN :: nat where "MAX_NUMERIC_LITERAL_LEN = MAX_NUMERIC_DIGITS + 32"

text \<open>\<open>c.isdigit()\<close>: the superscripts one, two and three are digits to it.\<close>

definition isdigit_char :: "char \<Rightarrow> bool" where
  "isdigit_char c \<longleftrightarrow> is_digit c \<or> of_char c \<in> {178, 179, 185 :: nat}"

text \<open>The search for \<open>[eE]([+-]?\d+)\s*$\<close>: the text before the match, and the exponent.\<close>

definition sci_tail :: "string \<Rightarrow> int option" where
  "sci_tail t = (case take_sign t of (neg, u) \<Rightarrow>
     let ds = takeWhile is_digit u; rest = dropWhile is_digit u; k = int (nat_of_digits ds)
     in if ds \<noteq> [] \<and> list_all is_space rest then Some (if neg then - k else k) else None)"

fun sci_search :: "string \<Rightarrow> string \<Rightarrow> (string \<times> int) option" where
  "sci_search pre [] = None"
| "sci_search pre (c # t) =
     (case (if c = CHR ''e'' \<or> c = CHR ''E'' then sci_tail t else None) of
        Some k \<Rightarrow> Some (pre, k)
      | None \<Rightarrow> sci_search (pre @ [c]) t)"

definition oversized_numeric_literal :: "string \<Rightarrow> string option" where
  "oversized_numeric_literal s =
    (if CHR ''_'' \<in> set s
     then Some (''must not contain '' @ repr_str ''_'' @ '' as a digit separator (write '' @ repr_str ''1000000''
                @ '', not '' @ repr_str ''1_000_000'' @ '')'')
     else if length s > MAX_NUMERIC_LITERAL_LEN then Some ''too long (max 4032 chars)''
     else let (mantissa, exponent) = (case sci_search [] s of Some r \<Rightarrow> r | None \<Rightarrow> (s, 0));
              digit_count = length (filter isdigit_char mantissa) + nat \<bar>exponent\<bar>
          in if digit_count > MAX_NUMERIC_DIGITS
             then Some (''would need about '' @ nat_str digit_count @ '' digits, over the limit of 4000'')
             else None)"

definition direction_of :: "rat \<Rightarrow> string" where
  "direction_of change = (if change > 0 then ''increase'' else if change < 0 then ''decrease'' else ''unchanged'')"

definition change_texts :: "rat \<Rightarrow> rat \<Rightarrow> exn + rat \<times> string \<times> string \<times> string" where
  "change_texts a b =
    (let change = b - a; percent = change / \<bar>a\<bar> * 100; multiplier = b / a
     in rbind (dec_quot percent) (\<lambda>d. rbind (fmt_frac percent) (\<lambda>tp.
        rbind (fmt_frac change) (\<lambda>tc. rbind (fmt_frac multiplier) (\<lambda>tm. Inr (d, tp, tc, tm))))))"

text \<open>The notes; the em dash of the second one, outside the characters modelled, is written \<open>--\<close>.\<close>

definition change_notes :: "rat \<Rightarrow> bool \<Rightarrow> string list" where
  "change_notes a finite_decimal =
    (if finite_decimal then [] else
       [''percent_decimal has no finite float representation (the exact value'' @ [char_of (39::nat)]
        @ ''s magnitude overflows binary64'' @ [char_of (39::nat)] @ ''s range) and is reported as null; percent_exact still carries the exact rational value''])
    @ (if a < 0 then
       [''from_value is negative: percent_exact/percent_decimal are relative to abs(from_value) (the conventional (to - from) / |from| definition), and `direction` follows the algebraic sign of (to_value - from_value), not the change in |value| '' 
        @ ''-- e.g. -100 -> -50 reports direction=\"increase\" (-50 > -100) even though the magnitude fell from 100 to 50'']
       else [])"

definition percent_change :: "string \<Rightarrow> string \<Rightarrow> exn + dict" where
  "percent_change from_value to_value =
    (let refuse = (\<lambda>label problem. error_result RESOURCE_EXHAUSTED (label @ '' '' @ problem)
                     [(''remedy'', PStr ''use fewer digits or a more moderate exponent'')])
     in case oversized_numeric_literal from_value of
       Some problem \<Rightarrow> Inr (refuse ''from_value'' problem)
     | None \<Rightarrow> (case oversized_numeric_literal to_value of
       Some problem \<Rightarrow> Inr (refuse ''to_value'' problem)
     | None \<Rightarrow> (case fraction_pair from_value to_value of
       Inl e \<Rightarrow> not_numbers ''from_value and to_value must be numbers'' e
     | Inr (a, b) \<Rightarrow>
         if a = 0 then Inr (error_result VALIDATION ''from_value is zero; percent change is undefined''
                              [(''remedy'', PStr ''report the absolute change instead'')])
         else (case change_texts a b of
           Inl e \<Rightarrow>
             if isinstance e ValueErr
             then Inr (error_result RESOURCE_EXHAUSTED
                    (''the computed result is too large to represent: '' @ exn_msg e)
                    [(''remedy'', PStr ''use inputs with fewer digits or closer in magnitude'')])
             else Inl e
         | Inr (d, percent_exact, absolute_change, multiplier) \<Rightarrow>
             rbind (fmt_frac a) (\<lambda>ta. rbind (fmt_frac b) (\<lambda>tb.
               let decimal = rnd64 d; notes = change_notes a (decimal \<noteq> None)
               in Inr ([(''ok'', PBool True), (''from_value'', PStr ta), (''to_value'', PStr tb),
                        (''absolute_change'', PStr absolute_change), (''percent_exact'', PStr percent_exact),
                        (''percent_decimal'', case decimal of Some x \<Rightarrow> mk_float (round_digits 6 x) | None \<Rightarrow> PNone),
                        (''direction'', PStr (direction_of (b - a))), (''multiplier'', PStr multiplier),
                        (''rounding'', PDict [(''percent_decimal'', PInt 6)])]
                       @ (if notes = [] then [] else [(''note'', PStr (join '' '' notes))]))))))))"

end
