(* ===== verification/Exact_Claims.thy ===== *)
theory Exact_Claims
  imports Exact_Tools
begin

text \<open>
  What the exact-arithmetic tools promise: a result labelled exact is the mathematical value of
  the expression, the size ceilings hold, the comparison and the percent change agree with the
  rational order, and a floor division cannot be used in a larger expression.
\<close>

section \<open>Reports\<close>

lemma insert_name_not_Nil [simp]: "insert_name x ys \<noteq> []"
  by (cases ys) auto

lemma fold_insert_Nil: "fold insert_name xs ys = [] \<longleftrightarrow> xs = [] \<and> ys = []"
  by (induction xs arbitrary: ys) auto

lemma sorted_set_Nil [simp]: "sorted_set xs = [] \<longleftrightarrow> xs = []"
  by (simp add: sorted_set_def fold_insert_Nil)

lemma quiet_log: "approx_consts l = [] \<Longrightarrow> float_funcs l = [] \<Longrightarrow> l = empty_log"
  by (simp add: empty_log_def)

text \<open>The fields of a successful rational result.\<close>

lemma dget_disclosure: "k \<noteq> ''approximated'' \<Longrightarrow> k \<noteq> ''note'' \<Longrightarrow> dget (dmerge d (disclosure c f)) k = dget d k"
  by (rule dget_dmerge_new) (auto simp: disclosure_def)

lemma error_result_own: "code \<in> set ALL_CODES \<Longrightarrow> own_key k \<Longrightarrow> dget (error_result code m []) k = PNone"
  by (simp add: error_result_no_extra own_key_def)

lemma rational_result_cases:
  assumes "rational_result q c f = Inr r"
  obtains (refused) e m where "r = error_result (classify e) m []"
  | (reported) t where "fmt_frac q = Inr t" "dget r ''ok'' = PBool True" "dget r ''value'' = PStr t"
      "dget r ''exact'' = PBool (c = [] \<and> f = [])" "dget r ''type'' = PStr ''rational''"
proof -
  obtain d where d: "dec_quot q = Inr d" using assms by (auto simp: rational_result_def rbind_eq_Inr)
  show thesis
  proof (cases "fmt_frac q")
    case (Inl e)
    then show ?thesis using assms d refused by (auto simp: rational_result_def Let_def)
  next
    case (Inr t)
    then have r: "r = dmerge [(''ok'', PBool True), (''value'', PStr t), (''approx'', PStr (fmt_approx d)),
        (''exact'', PBool (c = [] \<and> f = [])), (''differs_from_decimal'', PBool (t \<noteq> fmt_approx d)),
        (''type'', PStr ''rational'')] (disclosure c f)"
      using assms d by (simp add: rational_result_def Let_def)
    show ?thesis
      by (rule reported [OF Inr]; unfold r; simp add: dget_disclosure; simp add: dget_def)
  qed
qed

lemma report_exact:
  assumes "report_value v l = Inr r" and "dget r ''exact'' = PBool True"
  shows "\<exists>q t. v = VFrac q \<and> l = empty_log \<and> dget r ''value'' = PStr t \<and> fmt_frac q = Inr t
    \<and> dget r ''type'' = PStr ''rational''"
proof (cases v)
  case (VFrac q)
  then have "rational_result q (sorted_set (approx_consts l)) (sorted_set (float_funcs l)) = Inr r"
    using assms(1) by (simp add: report_value_def Let_def)
  then show ?thesis
    by (cases rule: rational_result_cases)
      (use assms(2) VFrac quiet_log error_result_own [OF classify_codes, of "''exact''"] in \<open>auto simp: own_key_def\<close>)
next
  case (VBool b)
  then show ?thesis using assms
    by (auto simp: report_value_def Let_def dget_disclosure split: if_splits)
next
  case (VInt i)
  then show ?thesis using assms by (auto simp: report_value_def rbind_eq_Inr Let_def dget_def)
qed

lemma report_truth:
  assumes "report_value v l = Inr r" and "dget r ''type'' = PStr ''bool''" and "dget r ''exact'' = PNone"
  shows "\<exists>b. v = VBool b \<and> l = empty_log \<and> dget r ''value'' = PBool b"
proof (cases v)
  case (VFrac q)
  then have "rational_result q (sorted_set (approx_consts l)) (sorted_set (float_funcs l)) = Inr r"
    using assms(1) by (simp add: report_value_def Let_def)
  then show ?thesis
    by (cases rule: rational_result_cases)
      (use assms(2) error_result_own [OF classify_codes, of "''type''"] in \<open>auto simp: own_key_def\<close>)
next
  case (VBool b)
  then show ?thesis using assms quiet_log [of l]
    by (auto simp: report_value_def Let_def dget_disclosure split: if_splits)
next
  case (VInt i)
  then show ?thesis using assms by (auto simp: report_value_def rbind_eq_Inr Let_def dget_def)
qed

text \<open>A result that carries a key of its own comes from a completed walk of the parsed tree.\<close>

lemma eval_child_own:
  assumes "eval_exact_child screen parse lib expr = Inr r" and "own_key k" and "dget r k \<noteq> PNone"
  shows "\<exists>tree v l. parse expr = Parsed tree \<and> ev lib (source_lines expr) tree empty_log = (Inr v, l)
    \<and> report_value v l = Inr r"
proof -
  have "length expr \<le> MAX_EXPR_LEN"
  proof (rule ccontr)
    assume "\<not> length expr \<le> MAX_EXPR_LEN"
    then have "r = [(''ok'', PBool False), (''error'', PStr ''expression too long (max 2000 chars)'')]"
      using assms(1) by (simp add: eval_exact_child_def)
    then show False using assms(2,3) by (simp add: own_key_def dget_def)
  qed
  moreover have "screen expr = None"
    using assms calculation error_result_own [OF category_codes assms(2)]
    by (auto simp: eval_exact_child_def split: option.splits)
  ultimately obtain tree where tree: "parse expr = Parsed tree" "eval_tree lib expr tree = Inr r"
    using assms by (auto simp: eval_exact_child_def own_key_def dget_def split: parsed.splits)
  moreover obtain x l where x: "ev lib (source_lines expr) tree empty_log = (x, l)" by fastforce
  moreover obtain v where "x = Inr v"
    using x tree(2) assms(2,3) error_result_own [OF _ assms(2)]
    by (cases x) (auto simp: eval_tree_def split: if_splits)
  ultimately show ?thesis by (auto simp: eval_tree_def)
qed

lemma eval_exact_own:
  assumes "own_key k" and "dget (eval_exact can_fork fate screen parse lib expr) k \<noteq> PNone"
  obtains d tree v l where
    "\<forall>k'. k' \<noteq> ''unenforced'' \<longrightarrow> dget (eval_exact can_fork fate screen parse lib expr) k' = dget d k'"
    "parse expr = Parsed tree" "ev lib (source_lines expr) tree empty_log = (Inr v, l)" "report_value v l = Inr d"
proof -
  obtain d where d: "eval_exact_child screen parse lib expr = Inr d"
      "dget (eval_exact can_fork fate screen parse lib expr) k = dget d k" "\<not> can_fork \<or> fate = Answers"
    using guarded_call_own [OF assms(1), of can_fork fate "eval_exact_child screen parse lib expr"] assms(2)
    unfolding eval_exact_def by blast
  obtain tree v l where "parse expr = Parsed tree" "ev lib (source_lines expr) tree empty_log = (Inr v, l)"
      "report_value v l = Inr d"
    using eval_child_own [OF d(1) assms(1)] assms(2) d(2) by auto
  with that [of d] show thesis using d(1,3) guarded_call_value by (simp add: eval_exact_def)
qed

section \<open>Exact means exact\<close>

lemma exact_denotes:
  assumes "dget (eval_exact can_fork fate screen parse lib expr) ''exact'' = PBool True"
  shows "\<exists>tree q t. parse expr = Parsed tree \<and> denotes (source_lines expr) tree q
    \<and> dget (eval_exact can_fork fate screen parse lib expr) ''value'' = PStr t
    \<and> fraction_of_str t = Inr q"
proof -
  have own: "own_key ''exact''" and ne: "dget (eval_exact can_fork fate screen parse lib expr) ''exact'' \<noteq> PNone"
    using assms by (simp_all add: own_key_def)
  obtain d tree v l where k: "\<forall>k'. k' \<noteq> ''unenforced'' \<longrightarrow>
        dget (eval_exact can_fork fate screen parse lib expr) k' = dget d k'"
      and tree: "parse expr = Parsed tree"
      and v: "ev lib (source_lines expr) tree empty_log = (Inr v, l)" "report_value v l = Inr d"
    by (rule eval_exact_own [OF own ne])
  obtain q t where q: "v = VFrac q" "l = empty_log" "dget d ''value'' = PStr t" "fmt_frac q = Inr t"
    using report_exact [OF v(2)] assms k by auto
  then show ?thesis
    using ev_sound_both(1) [OF v(1) [unfolded q(2)]] tree frac.read_print [OF q(4)] k
    by (simp add: numeric_def)
qed

text \<open>
  C1. When \<open>eval_exact\<close> labels a result exact, whatever the screen, the parser, the \<open>math\<close>
  module and the fate of the child, the reported text reads back as the mathematical value of the
  parsed expression (\<open>denotes\<close>: rational arithmetic with decimal literals read as written, never
  through binary64).
\<close>

theorem eval_exact_sound:
  assumes "dget (eval_exact can_fork fate screen parse lib expr) ''exact'' = PBool True"
  shows "\<exists>tree q t. parse expr = Parsed tree \<and> denotes (source_lines expr) tree q
    \<and> dget (eval_exact can_fork fate screen parse lib expr) ''value'' = PStr t
    \<and> fraction_of_str t = Inr q"
  using exact_denotes [OF assms] .

text \<open>A \<open>math\<close> module for the examples, and the span of a literal on the first line.\<close>

definition plain_math :: mathlib where
  "plain_math = \<lparr>math_names = (\<lambda>n. n = ''sqrt''), float_of = Inr, math_call = (\<lambda>n xs. Inr ROther),
     const_val = (\<lambda>n. 3)\<rparr>"

definition line1 :: "nat \<Rightarrow> nat \<Rightarrow> span" where
  "line1 i j = \<lparr>lineno = 1, col_offset = i, end_lineno = Some 1, end_col_offset = Some j\<rparr>"

lemma dec_quot_total: "floor_log10 \<bar>q\<bar> \<le> 999999 \<Longrightarrow> \<exists>d. dec_quot q = Inr d"
  unfolding dec_quot_def Let_def by simp

text \<open>An expression that evaluates without an approximation is reported so.\<close>

lemma labelled_exact:
  assumes "length expr \<le> MAX_EXPR_LEN" and "ev lib (source_lines expr) tree empty_log = (Inr (VFrac q), empty_log)"
    and "floor_log10 \<bar>q\<bar> \<le> 999999" and "fmt_frac q = Inr t"
    and r: "r = eval_exact True Answers (\<lambda>_. None) (\<lambda>_. Parsed tree) lib expr"
  shows "dget r ''exact'' = PBool True \<and> dget r ''ok'' = PBool True \<and> operand r = Inr q"
proof -
  obtain d where "dec_quot q = Inr d" using dec_quot_total [OF assms(3)] by blast
  then have "rational_result q [] [] = Inr [(''ok'', PBool True), (''value'', PStr t), (''approx'', PStr (fmt_approx d)),
      (''exact'', PBool True), (''differs_from_decimal'', PBool (t \<noteq> fmt_approx d)), (''type'', PStr ''rational'')]"
    using assms(4) by (simp add: rational_result_def Let_def disclosure_def dmerge_def)
  moreover have "r = (case rational_result q [] [] of Inr x \<Rightarrow> x)" if "\<exists>x. rational_result q [] [] = Inr x"
    using assms(1,2) that
    by (auto simp: r eval_exact_def eval_exact_child_def eval_tree_def report_value_def empty_log_def Let_def
        sorted_set_def guarded_call_answer)
  ultimately show ?thesis using frac.read_print [OF assms(4)] by (simp add: operand_def)
qed

lemma reported_truth:
  assumes "length expr \<le> MAX_EXPR_LEN" and "ev lib (source_lines expr) tree empty_log = (Inr (VBool b), empty_log)"
  shows "eval_exact True Answers (\<lambda>_. None) (\<lambda>_. Parsed tree) lib expr
    = [(''ok'', PBool True), (''value'', PBool b), (''type'', PStr ''bool'')]"
  using assms
  by (simp add: eval_exact_def eval_exact_child_def eval_tree_def report_value_def empty_log_def Let_def
      sorted_set_def guarded_call_answer)

definition tenths :: node where
  "tenths = BinOp (Constant CFloat (line1 0 3)) Add (Constant CFloat (line1 6 9))"

lemma tenths_run:
  "ev plain_math (source_lines ''0.1 + 0.2'') tenths empty_log = (Inr (VFrac (3 / 10)), empty_log)"
  by code_simp

lemma tenths_exact:
  assumes "r = eval_exact True Answers (\<lambda>_. None) (\<lambda>_. Parsed tenths) plain_math ''0.1 + 0.2''"
  shows "dget r ''exact'' = PBool True \<and> dget r ''ok'' = PBool True \<and> operand r = Inr (3 / 10)"
proof (rule labelled_exact [OF _ tenths_run _ _ assms])
  show "floor_log10 \<bar>3 / 10\<bar> \<le> 999999" by code_simp
  show "fmt_frac (3 / 10) = Inr ''3/10''" by code_simp
qed (simp add: MAX_EXPR_LEN_def)

theorem eval_exact_sound_witness:
  "\<exists>tree q t. Parsed tenths = Parsed tree \<and> denotes (source_lines ''0.1 + 0.2'') tree q
    \<and> dget (eval_exact True Answers (\<lambda>_. None) (\<lambda>_. Parsed tenths) plain_math ''0.1 + 0.2'') ''value'' = PStr t
    \<and> fraction_of_str t = Inr q"
  by (rule eval_exact_sound) (use tenths_exact [OF refl] in blast)

text \<open>
  A comparison reported without an \<open>exact\<close> field has the truth value the rational
  comparison has: \<open>0.1 + 0.2 == 0.3\<close> is true.
\<close>

theorem eval_exact_comparison_sound:
  assumes "dget (eval_exact can_fork fate screen parse lib expr) ''type'' = PStr ''bool''"
    and "dget (eval_exact can_fork fate screen parse lib expr) ''exact'' = PNone"
  shows "\<exists>tree b. parse expr = Parsed tree \<and> denotes (source_lines expr) tree (if b then 1 else 0)
    \<and> dget (eval_exact can_fork fate screen parse lib expr) ''value'' = PBool b"
proof -
  have own: "own_key ''type''" and ne: "dget (eval_exact can_fork fate screen parse lib expr) ''type'' \<noteq> PNone"
    using assms by (simp_all add: own_key_def)
  obtain d tree v l where k: "\<forall>k'. k' \<noteq> ''unenforced'' \<longrightarrow>
        dget (eval_exact can_fork fate screen parse lib expr) k' = dget d k'"
      and tree: "parse expr = Parsed tree"
      and v: "ev lib (source_lines expr) tree empty_log = (Inr v, l)" "report_value v l = Inr d"
    by (rule eval_exact_own [OF own ne])
  obtain b where b: "v = VBool b" "l = empty_log" "dget d ''value'' = PBool b"
    using report_truth [OF v(2)] assms k by auto
  then show ?thesis
    using ev_sound_both(1) [OF v(1) [unfolded b(2)]] tree k by (auto simp: numeric_def)
qed

definition tenths_eq :: node where
  "tenths_eq = Compare tenths [Eq] [Constant CFloat (line1 13 16)]"

theorem eval_exact_comparison_sound_witness:
  "\<exists>tree b. Parsed tenths_eq = Parsed tree
    \<and> denotes (source_lines ''0.1 + 0.2 == 0.3'') tree (if b then 1 else 0)
    \<and> dget (eval_exact True Answers (\<lambda>_. None) (\<lambda>_. Parsed tenths_eq) plain_math ''0.1 + 0.2 == 0.3'') ''value''
      = PBool b"
proof (rule eval_exact_comparison_sound)
  have "ev plain_math (source_lines ''0.1 + 0.2 == 0.3'') tenths_eq empty_log = (Inr (VBool True), empty_log)"
    by code_simp
  note r = reported_truth [OF _ this]
  show "dget (eval_exact True Answers (\<lambda>_. None) (\<lambda>_. Parsed tenths_eq) plain_math ''0.1 + 0.2 == 0.3'') ''type''
      = PStr ''bool''" by (subst r) (simp_all add: MAX_EXPR_LEN_def dget_def)
  show "dget (eval_exact True Answers (\<lambda>_. None) (\<lambda>_. Parsed tenths_eq) plain_math ''0.1 + 0.2 == 0.3'') ''exact''
      = PNone" by (subst r) (simp_all add: MAX_EXPR_LEN_def dget_def)
qed

section \<open>Sizes\<close>

text \<open>
  The ceilings hold: a power or a left shift that the evaluator carries out exactly has a
  numerator and a denominator of at most 50000 bits, whatever the operands.
\<close>

theorem exact_result_size:
  assumes "bin_op lib op a b g = (Inr v, g)" and "op = Pow \<or> op = LShift"
  shows "bit_length (numer (numeric v)) \<le> MAX_POW_RESULT_BITS
    \<and> bit_length (denom (numeric v)) \<le> MAX_POW_RESULT_BITS"
proof (cases "op = Pow")
  case True
  with assms(1) have "ev_bind (pow_exact lib a b) (\<lambda>q. ev_return (VFrac q)) g = (Inr v, g)"
    by (simp add: bin_op_def)
  then obtain q where q: "pow_exact lib a b g = (Inr q, g)" and v: "v = VFrac q"
    by (elim quiet_bind [OF grows_pow_exact grows_intros(1)]) (simp add: ev_return_def)
  obtain base n where "pow_whole base n = Inr q" by (rule pow_exact_quiet [OF q])
  then show ?thesis using pow_whole_bits v by (simp add: numeric_def)
next
  case False
  then have op: "op = LShift" using assms(2) by simp
  then obtain q where q: "int_op a b LShift = Inr q" and v: "v = VFrac q"
    using assms(1) by (auto simp: bin_op_def ev_lift_def rbind_eq_Inr)
  then obtain i j where "q = of_int (push_bit (nat j) i)"
    and "i = 0 \<or> bit_length i + nat j \<le> MAX_POW_RESULT_BITS"
    by (auto simp: int_op_def rbind_eq_Inr raw_int_op_def Let_def not_less split: if_splits)
  then show ?thesis using v shift_bits [of "nat j" i]
    by (auto simp: numeric_def MAX_POW_RESULT_BITS_def)
qed

theorem exact_result_size_witness:
  "bit_length (numer (numeric (VFrac 8))) \<le> MAX_POW_RESULT_BITS
    \<and> bit_length (denom (numeric (VFrac 8))) \<le> MAX_POW_RESULT_BITS"
proof (rule exact_result_size)
  show "bin_op plain_math LShift 1 3 empty_log = (Inr (VFrac 8), empty_log)"
    by (simp add: bin_op_def int_op_def as_int_def ev_lift_def raw_int_op_def MAX_POW_RESULT_BITS_def)
qed simp

text \<open>
  \<open>_exact_sqrt\<close> decides rational squares: it returns \<open>s\<close> exactly when \<open>s\<close> is the
  non-negative rational square root of its argument.
\<close>

theorem exact_sqrt_iff: "exact_sqrt a = Some s \<longleftrightarrow> 0 \<le> s \<and> s * s = a"
  using exact_sqrt_square [of a s] exact_sqrt_complete [of s] by auto

section \<open>Floor division\<close>

text \<open>
  Floor division does not compose: \<open>//\<close> hands back a plain \<open>int\<close>, which every operator
  around it refuses, so no expression with a floor division as the left operand of an arithmetic
  operator ever evaluates.
\<close>

theorem floordiv_never_composes: "fst (ev lib lines (BinOp (BinOp l FloorDiv r) op x) g) \<noteq> Inr v"
proof (cases "op = MatMult")
  case False
  obtain u g' where u: "ev lib lines (BinOp l FloorDiv r) g = (u, g')" by fastforce
  have "\<exists>i. y = VInt i" if "u = Inr y" for y
    using u that by (auto simp: ev_bind_def ev_lift_def bin_op_def ev_raise_def ev_return_def
        split: prod.splits sum.splits if_splits)
  then have "fst (ev_bind (ev lib lines (BinOp l FloorDiv r)) (\<lambda>lv. ev_bind (ev_lift (num lv)) k) g) \<noteq> Inr v" for k
    unfolding ev_bind_def [of "ev lib lines (BinOp l FloorDiv r)"] u
    by (cases u) (auto simp: ev_bind_def ev_lift_def num_def)
  with False show ?thesis by (subst ev.simps(5)) simp
qed (simp add: ev_raise_def)

section \<open>Comparison and relative change\<close>

lemma cmp_syms_total: "map_of CMP_SYMS op = Some cmp \<Longrightarrow> \<exists>f. cmp_op cmp = Some f"
  by (auto simp: CMP_SYMS_def cmp_op_def split: if_splits)

lemma compare_results_ok:
  assumes "compare_results op cmp ra rb = Inr r" and "dget r ''ok'' = PBool True" and "cmp_op cmp = Some f"
  shows "\<exists>fa fb t. operand ra = Inr fa \<and> operand rb = Inr fb \<and> dget r ''holds'' = PBool (f fa fb)
    \<and> dget r ''difference'' = PStr t \<and> fraction_of_str t = Inr (fa - fb)
    \<and> (if f fa fb then dget r ''shortfall'' = PNone
       else \<exists>s. dget r ''shortfall'' = PStr s \<and> fraction_of_str s = Inr (fb - fa))"
proof -
  have "truthy (dget ra ''ok'') \<and> truthy (dget rb ''ok'')"
    using assms(1,2) unfolding compare_results_def by (cases "truthy (dget ra ''ok'') \<and> truthy (dget rb ''ok'')") auto
  moreover obtain fa fb where ops: "operand ra = Inr fa" "operand rb = Inr fb"
    using assms(1,2) calculation
    by (cases "operand ra"; cases "operand rb")
      (auto simp: compare_results_def dget_def [of "(''ok'', _) # _"] split: if_splits)
  ultimately obtain ta tb td sf where r: "r = [(''ok'', PBool True), (''a'', PStr ta), (''b'', PStr tb), (''op'', PStr op),
        (''holds'', PBool (f fa fb)), (''difference'', PStr td), (''shortfall'', sf)]"
      and td: "fmt_frac (fa - fb) = Inr td"
      and sf: "if f fa fb then sf = PNone else \<exists>s. sf = PStr s \<and> fmt_frac (fb - fa) = Inr s"
    using assms(1,3) by (auto simp: compare_results_def Let_def rbind_eq_Inr split: if_splits)
  show ?thesis
    using ops td sf frac.read_print by (auto simp: r dget_def split: if_splits)
qed

lemma operand_exact:
  assumes "dget r ''exact'' = PBool True" and "dget r ''value'' = PStr t" and "operand r = Inr q"
  shows "fraction_of_str t = Inr q"
  using assms by (auto simp: operand_def split: if_splits)

text \<open>
  \<open>compare_threshold\<close> decides the comparison of the mathematical values: when both sides
  are labelled exact, \<open>holds\<close> is the truth of the comparison of the denoted rationals,
  \<open>difference\<close> reads back as their difference, and \<open>shortfall\<close> is absent exactly when the
  comparison holds.
\<close>

theorem compare_threshold_decides:
  assumes run: "run = eval_exact can_fork fate screen parse lib"
    and "compare_threshold run a op b = Inr r" and "dget r ''ok'' = PBool True"
    and "dget (run a) ''exact'' = PBool True" and "dget (run b) ''exact'' = PBool True"
  shows "\<exists>ta tb qa qb cmp f t. parse a = Parsed ta \<and> parse b = Parsed tb
    \<and> denotes (source_lines a) ta qa \<and> denotes (source_lines b) tb qb
    \<and> map_of CMP_SYMS (strip is_space op) = Some cmp \<and> cmp_op cmp = Some f
    \<and> dget r ''holds'' = PBool (f qa qb)
    \<and> dget r ''difference'' = PStr t \<and> fraction_of_str t = Inr (qa - qb)
    \<and> (dget r ''shortfall'' = PNone \<longleftrightarrow> f qa qb)"
proof -
  obtain cmp where cmp: "map_of CMP_SYMS (strip is_space op) = Some cmp"
    using assms(2,3) by (auto simp: compare_threshold_def Let_def dget_def split: option.splits)
  then obtain f where f: "cmp_op cmp = Some f" using cmp_syms_total by blast
  have "compare_results (strip is_space op) cmp (run a) (run b) = Inr r"
    using assms(2) cmp by (simp add: compare_threshold_def Let_def)
  from compare_results_ok [OF this assms(3) f] obtain fa fb t where
    ops: "operand (run a) = Inr fa" "operand (run b) = Inr fb"
    and r: "dget r ''holds'' = PBool (f fa fb)" "dget r ''difference'' = PStr t"
      "fraction_of_str t = Inr (fa - fb)" "dget r ''shortfall'' = PNone \<longleftrightarrow> f fa fb"
    by (auto split: if_splits)
  obtain ta qa sa where a: "parse a = Parsed ta" "denotes (source_lines a) ta qa"
      "dget (run a) ''value'' = PStr sa" "fraction_of_str sa = Inr qa"
    using exact_denotes assms(4) unfolding run by blast
  obtain tb qb sb where b: "parse b = Parsed tb" "denotes (source_lines b) tb qb"
      "dget (run b) ''value'' = PStr sb" "fraction_of_str sb = Inr qb"
    using exact_denotes assms(5) unfolding run by blast
  have "fa = qa" "fb = qb"
    using operand_exact [OF assms(4) a(3) ops(1)] operand_exact [OF assms(5) b(3) ops(2)] a(4) b(4) by auto
  then show ?thesis using a(1,2) b(1,2) cmp f r by blast
qed

lemma compare_same:
  assumes "dget ra ''ok'' = PBool True" and "operand ra = Inr q" and "fmt_frac q = Inr t" and "fmt_frac 0 = Inr z"
  shows "\<exists>r. compare_results op LtE ra ra = Inr r \<and> dget r ''ok'' = PBool True"
  using assms by (simp add: compare_results_def cmp_op_def Let_def)

theorem compare_threshold_decides_witness:
  "\<exists>r. compare_threshold (eval_exact True Answers (\<lambda>_. None) (\<lambda>_. Parsed tenths) plain_math)
      ''0.1 + 0.2'' '' <= '' ''0.1 + 0.2'' = Inr r
    \<and> (\<exists>ta tb qa qb cmp f t. Parsed tenths = Parsed ta \<and> Parsed tenths = Parsed tb
      \<and> denotes (source_lines ''0.1 + 0.2'') ta qa \<and> denotes (source_lines ''0.1 + 0.2'') tb qb
      \<and> map_of CMP_SYMS (strip is_space '' <= '') = Some cmp \<and> cmp_op cmp = Some f
      \<and> dget r ''holds'' = PBool (f qa qb)
      \<and> dget r ''difference'' = PStr t \<and> fraction_of_str t = Inr (qa - qb)
      \<and> (dget r ''shortfall'' = PNone \<longleftrightarrow> f qa qb))"
proof -
  let ?run = "eval_exact True Answers (\<lambda>_. None) (\<lambda>_. Parsed tenths) plain_math"
  note x = tenths_exact [OF refl]
  have sym: "map_of CMP_SYMS (strip is_space '' <= '') = Some LtE" by code_simp
  have tx: "fmt_frac 0 = Inr ''0''" "fmt_frac (3 / 10) = Inr ''3/10''" by code_simp+
  have "\<exists>r. compare_results (strip is_space '' <= '') LtE (?run ''0.1 + 0.2'') (?run ''0.1 + 0.2'') = Inr r
      \<and> dget r ''ok'' = PBool True"
    using compare_same [of "?run ''0.1 + 0.2''"] x tx by blast
  then obtain r where r: "compare_threshold ?run ''0.1 + 0.2'' '' <= '' ''0.1 + 0.2'' = Inr r" "dget r ''ok'' = PBool True"
    by (auto simp only: compare_threshold_def Let_def sym option.case)
  show ?thesis using r(1) compare_threshold_decides [OF refl r] x by blast
qed

text \<open>What a successful percent change reports.\<close>

lemma error_result_not_ok:
  "code \<in> set ALL_CODES \<Longrightarrow> dget (error_result code m [(''remedy'', w)]) ''ok'' = PBool False"
  by (simp add: error_result_def dget_dmerge_new)

lemma percent_change_ok:
  assumes "percent_change x y = Inr r" and "dget r ''ok'' = PBool True"
  obtains a b d p c m rest where "fraction_pair x y = Inr (a, b)" "a \<noteq> 0" "change_texts a b = Inr (d, p, c, m)"
    "\<forall>k \<in> {''percent_exact'', ''absolute_change'', ''multiplier'', ''direction''}. dget r k =
       dget [(''absolute_change'', PStr c), (''percent_exact'', PStr p), (''direction'', PStr (direction_of (b - a))),
             (''multiplier'', PStr m)] k"
proof -
  have "oversized_numeric_literal x = None" "oversized_numeric_literal y = None"
    using assms by (auto simp: percent_change_def error_result_not_ok split: option.splits)
  moreover obtain a b where ab: "fraction_pair x y = Inr (a, b)"
    using assms calculation
    by (cases "fraction_pair x y") (auto simp: percent_change_def not_numbers_def dget_def split: if_splits)
  moreover have "a \<noteq> 0"
    using assms calculation by (auto simp: percent_change_def error_result_not_ok)
  moreover obtain d p c m where t: "change_texts a b = Inr (d, p, c, m)"
    using assms calculation
    by (cases "change_texts a b") (auto simp: percent_change_def error_result_not_ok split: if_splits)
  ultimately obtain ta tb pd rest where "r = [(''ok'', PBool True), (''from_value'', PStr ta), (''to_value'', PStr tb),
      (''absolute_change'', PStr c), (''percent_exact'', PStr p), (''percent_decimal'', pd),
      (''direction'', PStr (direction_of (b - a))), (''multiplier'', PStr m)] @ rest"
    using assms(1) by (auto simp: percent_change_def rbind_eq_Inr Let_def)
  then show thesis using that [OF ab \<open>a \<noteq> 0\<close> t] by (simp add: dget_def)
qed

text \<open>
  \<open>percent_change\<close>, when it answers: the reported percentage, absolute change and
  multiplier read back as the exact rationals they name, and the direction is the sign of the
  change, also for a negative base.
\<close>

theorem percent_change_exact:
  assumes "percent_change x y = Inr r" and "dget r ''ok'' = PBool True"
  shows "\<exists>a b p c m. fraction_of_str x = Inr a \<and> fraction_of_str y = Inr b \<and> a \<noteq> 0
    \<and> dget r ''percent_exact'' = PStr p \<and> fraction_of_str p = Inr ((b - a) / \<bar>a\<bar> * 100)
    \<and> dget r ''absolute_change'' = PStr c \<and> fraction_of_str c = Inr (b - a)
    \<and> dget r ''multiplier'' = PStr m \<and> fraction_of_str m = Inr (b / a)
    \<and> dget r ''direction'' = PStr (if a < b then ''increase'' else if b < a then ''decrease'' else ''unchanged'')"
proof -
  obtain a b d p c m where ab: "fraction_pair x y = Inr (a, b)" "a \<noteq> 0" and t: "change_texts a b = Inr (d, p, c, m)"
    and k: "\<forall>k \<in> {''percent_exact'', ''absolute_change'', ''multiplier'', ''direction''}. dget r k =
       dget [(''absolute_change'', PStr c), (''percent_exact'', PStr p), (''direction'', PStr (direction_of (b - a))),
             (''multiplier'', PStr m)] k"
    by (rule percent_change_ok [OF assms])
  have "fmt_frac ((b - a) / \<bar>a\<bar> * 100) = Inr p" "fmt_frac (b - a) = Inr c" "fmt_frac (b / a) = Inr m"
    using t by (auto simp: change_texts_def rbind_eq_Inr Let_def)
  then have "fraction_of_str p = Inr ((b - a) / \<bar>a\<bar> * 100)" "fraction_of_str c = Inr (b - a)"
      "fraction_of_str m = Inr (b / a)"
    using frac.read_print by blast+
  moreover have "fraction_of_str x = Inr a" "fraction_of_str y = Inr b"
    using ab(1) by (auto simp: fraction_pair_def rbind_eq_Inr)
  moreover have "dget r ''percent_exact'' = PStr p" "dget r ''absolute_change'' = PStr c" "dget r ''multiplier'' = PStr m"
      "dget r ''direction'' = PStr (direction_of (b - a))"
    using k by (auto simp: dget_def)
  ultimately show ?thesis using ab(2) by (auto simp: direction_of_def)
qed

theorem percent_change_exact_witness:
  "\<exists>r. percent_change ''-4'' ''5'' = Inr r \<and>
    (\<exists>a b p c m. fraction_of_str ''-4'' = Inr a \<and> fraction_of_str ''5'' = Inr b \<and> a \<noteq> 0
    \<and> dget r ''percent_exact'' = PStr p \<and> fraction_of_str p = Inr ((b - a) / \<bar>a\<bar> * 100)
    \<and> dget r ''absolute_change'' = PStr c \<and> fraction_of_str c = Inr (b - a)
    \<and> dget r ''multiplier'' = PStr m \<and> fraction_of_str m = Inr (b / a)
    \<and> dget r ''direction'' = PStr (if a < b then ''increase'' else if b < a then ''decrease'' else ''unchanged''))"
proof -
  have "\<exists>d. dec_quot 225 = Inr d" by (rule dec_quot_total) code_simp
  then obtain d where d: "dec_quot 225 = Inr d" ..
  have t: "fmt_frac 225 = Inr ''225''" "fmt_frac 9 = Inr ''9''" "fmt_frac (- 5 / 4) = Inr ''-5/4''"
    "fmt_frac (- 4) = Inr ''-4''" "fmt_frac 5 = Inr ''5''"
    by code_simp+
  have texts: "change_texts (- 4) 5 = Inr (d, ''225'', ''9'', ''-5/4'')"
    using d t by (simp add: change_texts_def Let_def)
  have o: "oversized_numeric_literal ''-4'' = None" "oversized_numeric_literal ''5'' = None"
    by (simp_all add: oversized_numeric_literal_def MAX_NUMERIC_LITERAL_LEN_def MAX_NUMERIC_DIGITS_def
        isdigit_char_def is_digit_def)
  have p: "fraction_pair ''-4'' ''5'' = Inr (- 4, 5)" by code_simp
  obtain r where r: "percent_change ''-4'' ''5'' = Inr r" "dget r ''ok'' = PBool True"
    unfolding percent_change_def Let_def o p option.case sum.case prod.case texts t rbind.simps
    by (simp only: neg_equal_0_iff_equal zero_neq_numeral if_False) (simp add: error_result_not_ok)
  show ?thesis using r(1) percent_change_exact [OF r] by blast
qed

end
