(* ===== verification/Programmer_Bits.thy ===== *)
theory Programmer_Bits
  imports Exact_Props "HOL-Library.Word"
begin

unbundle bit_operations_syntax

text \<open>
  The programmer-mode tools of \<open>codecalc/exact.py\<close>: \<open>base_repr\<close>, \<open>int_widths\<close>,
  \<open>bit_analysis\<close> and \<open>bitop\<close>. The code computes on unbounded integers and masks; the lemmas
  relate it to the machine words of the same width.
\<close>

section \<open>Digits\<close>

definition radix_digit :: "nat \<Rightarrow> char" where
  "radix_digit d = (if d < 10 then char_of (48 + d) else char_of (87 + d))"

text \<open>The digits of a number in a base of at least two, most significant first.\<close>

function (sequential) radix_str :: "nat \<Rightarrow> nat \<Rightarrow> string" where
  "radix_str b n = (if n < b \<or> b < 2 then [radix_digit n] else radix_str b (n div b) @ [radix_digit (n mod b)])"
  by pat_completeness auto
termination by (relation "measure snd") auto

declare radix_str.simps [simp del]

text \<open>\<open>f"{n:x}"\<close> with its sign, and \<open>f"{u:0{w}b}"\<close> padded with zeros.\<close>

definition fmt_radix :: "nat \<Rightarrow> int \<Rightarrow> string" where
  "fmt_radix b n = (if n < 0 then ''-'' else '''') @ radix_str b (nat \<bar>n\<bar>)"

definition fmt_padded :: "nat \<Rightarrow> nat \<Rightarrow> int \<Rightarrow> string" where
  "fmt_padded b w u = (let s = radix_str b (nat u) in replicate (w - length s) (CHR ''0'') @ s)"

section \<open>Widths\<close>

definition base_repr :: "int \<Rightarrow> int option \<Rightarrow> dict" where
  "base_repr n width =
    (let out = [(''ok'', PBool True), (''value'', PInt n), (''hex'', PStr (fmt_radix 16 n)),
                (''oct'', PStr (fmt_radix 8 n)), (''bin'', PStr (fmt_radix 2 n))]
     in case width of
       None \<Rightarrow> out
     | Some w \<Rightarrow>
         if w \<le> 0 then [(''ok'', PBool False), (''error'', PStr ''width must be positive'')]
         else let lo = - (2 ^ nat (w - 1)); hi = 2 ^ nat (w - 1) - 1; uhi = 2 ^ nat w - 1;
                  range = ''(range '' @ int_str lo @ ''..'' @ int_str hi @ '')''
           in if \<not> (lo \<le> n \<and> n \<le> uhi)
              then out @ [(''overflow'', PStr (''does not fit in signed i'' @ int_str w @ '' '' @ range
                                              @ '' nor unsigned u'' @ int_str w))]
              else if n \<le> hi
              then out @ [(''signed_i'' @ int_str w, PInt n),
                          (''unsigned_u'' @ int_str w, PInt (if n \<ge> 0 then n else n + 2 ^ nat w)),
                          (''two_complement_bin'', PStr (fmt_padded 2 (nat w) (n AND (2 ^ nat w - 1))))]
              else out @ [(''signed_i'' @ int_str w, PInt (n - 2 ^ nat w)),
                          (''unsigned_u'' @ int_str w, PInt n),
                          (''two_complement_bin'', PStr (fmt_padded 2 (nat w) n)),
                          (''wrapped_signed'', PInt (n - 2 ^ nat w)),
                          (''signed_overflow'', PStr (''does not fit in signed i'' @ int_str w @ '' '' @ range
                                                     @ ''; fits u'' @ int_str w @ '' only''))])"

fun width_row :: "int \<Rightarrow> nat \<Rightarrow> string list \<times> string list" where
  "width_row n w =
    (let lo = - (2 ^ (w - 1)); hi = 2 ^ (w - 1) - 1; uhi = 2 ^ w - 1; i = ''i'' @ nat_str w; u = ''u'' @ nat_str w
     in if lo \<le> n \<and> n \<le> hi then (i # (if n \<ge> 0 then [u] else []), [])
        else if 0 \<le> n \<and> n \<le> uhi then ([u], [i @ '': wraps to '' @ int_str (n - 2 ^ w)])
        else if n < lo then ([], [i @ ''/'' @ u @ '': too negative (below '' @ int_str lo @ '')''])
        else ([], [i @ ''/'' @ u @ '': too large (above '' @ int_str uhi @ '')'']))"

definition int_widths :: "int \<Rightarrow> dict" where
  "int_widths n =
    (let rows = map (width_row n) [8, 16, 32, 64]
     in [(''ok'', PBool True), (''value'', PInt n),
         (''fits'', PList (map PStr (concat (map fst rows)))),
         (''wraps'', PList (map PStr (concat (map snd rows)))),
         (''note'', if \<bar>n\<bar> > 2 ^ 53
                    then PStr ''>2^53 cannot round-trip through a JS number or JSON float'' else PNone)])"

fun popcount :: "nat \<Rightarrow> nat" where
  "popcount n = (if n = 0 then 0 else n mod 2 + popcount (n div 2))"

declare popcount.simps [simp del]

definition bit_analysis :: "int \<Rightarrow> int option \<Rightarrow> dict" where
  "bit_analysis n align =
    (if n < 0 then [(''ok'', PBool False),
        (''error'', PStr (''bit_analysis requires n >= 0 (bit semantics are undefined for a negative int without a fixed width); ''
          @ ''use bitop(n, ..., width=W) for two'' @ [char_of (39::nat)] @ ''s-complement bits at a specific width''))]
     else let out = [(''ok'', PBool True), (''value'', PInt n),
           (''popcount'', PInt (int (popcount (nat n)))),
           (''bit_length'', PInt (int (bit_length n))),
           (''trailing_zeros'', if n \<noteq> 0 then PInt (int (bit_length (n AND - n)) - 1) else PNone),
           (''is_power_of_two'', PBool (n > 0 \<and> n AND (n - 1) = 0)),
           (''next_power_of_two'', if n > 0 then PInt (push_bit (bit_length (n - 1)) 1) else PNone)]
       in case align of
         None \<Rightarrow> out
       | Some a \<Rightarrow>
           if a \<le> 0 then [(''ok'', PBool False), (''error'', PStr ''alignment must be positive'')]
           else let pad = (- n) mod a
                in out @ [(''aligned_to'', PInt a), (''padding_needed'', PInt pad), (''aligned_value'', PInt (n + pad))])"

section \<open>Fixed-width operations\<close>

definition to_signed :: "nat \<Rightarrow> int \<Rightarrow> int" where
  "to_signed w v = (if v AND push_bit (w - 1) 1 \<noteq> 0 then v - push_bit w 1 else v)"

definition width_mask :: "nat \<Rightarrow> int" where
  "width_mask w = push_bit w 1 - 1"

definition show_bits :: "nat \<Rightarrow> int \<Rightarrow> dict" where
  "show_bits w v =
    (let u = v AND width_mask w
     in [(''unsigned'', PInt u), (''signed'', PInt (to_signed w u)),
         (''hex'', PStr (''0x'' @ fmt_padded 16 (w div 4) u)),
         (''oct'', PStr (''0o'' @ fmt_padded 8 ((w + 2) div 3) u)),
         (''bin'', PStr (fmt_padded 2 w u))])"

definition BITOP_OPS :: "string list" where
  "BITOP_OPS = [''and'', ''or'', ''xor'', ''nand'', ''nor'', ''xnor'', ''not'', ''shl'', ''shr'', ''sar'', ''rol'', ''ror'']"

definition SHIFT_OPS :: "string list" where
  "SHIFT_OPS = [''shl'', ''shr'', ''sar'', ''rol'', ''ror'']"

definition bitop_ok :: "string \<Rightarrow> nat \<Rightarrow> dict \<Rightarrow> dict" where
  "bitop_ok op w shown = [(''ok'', PBool True), (''op'', PStr op), (''width'', PInt (int w))] @ shown"

text \<open>The operations on a value and on a second operand already read as the code reads it.\<close>

definition shl_result :: "nat \<Rightarrow> int \<Rightarrow> int \<Rightarrow> dict" where
  "shl_result w a b =
    (if b \<ge> int w
     then bitop_ok ''shl'' w (show_bits w 0 @ [(''overflow'', PStr (''shift '' @ int_str b @ '' >= width '' @ nat_str w))])
     else let r = push_bit (nat b) a
       in if r > width_mask w
          then bitop_ok ''shl'' w (show_bits w r @ [(''overflow'', PBool True), (''unbounded'', PInt r)])
          else bitop_ok ''shl'' w (show_bits w r))"

definition shr_result :: "nat \<Rightarrow> int \<Rightarrow> int \<Rightarrow> dict" where
  "shr_result w a b =
    (if b \<ge> int w
     then bitop_ok ''shr'' w [(''unsigned'', PInt 0), (''signed'', PInt 0), (''hex'', PStr ''0x0''),
                              (''oct'', PStr ''0o0''), (''bin'', PStr (replicate w (CHR ''0'')))]
     else bitop_ok ''shr'' w (show_bits w (drop_bit (nat b) a)))"

definition sar_result :: "nat \<Rightarrow> int \<Rightarrow> int \<Rightarrow> dict" where
  "sar_result w a b =
    (let sa = to_signed w a; r = (if b < int w then drop_bit (nat b) sa else if sa < 0 then - 1 else 0)
     in bitop_ok ''sar'' w (show_bits w (r AND width_mask w)))"

definition rol_bits :: "nat \<Rightarrow> int \<Rightarrow> int \<Rightarrow> int" where
  "rol_bits w a b =
    (let b = nat (b mod int w)
     in if b \<noteq> 0 then (push_bit b a OR drop_bit (w - b) a) AND width_mask w else a)"

definition ror_bits :: "nat \<Rightarrow> int \<Rightarrow> int \<Rightarrow> int" where
  "ror_bits w a b =
    (let b = nat (b mod int w)
     in if b \<noteq> 0 then (drop_bit b a OR push_bit (w - b) a) AND width_mask w else a)"

definition bitop2 :: "string \<Rightarrow> nat \<Rightarrow> int \<Rightarrow> int \<Rightarrow> dict" where
  "bitop2 op w a b =
    (if op = ''and'' then bitop_ok op w (show_bits w (a AND b))
     else if op = ''or'' then bitop_ok op w (show_bits w (a OR b))
     else if op = ''xor'' then bitop_ok op w (show_bits w (a XOR b))
     else if op = ''nand'' then bitop_ok op w (show_bits w (NOT (a AND b)))
     else if op = ''nor'' then bitop_ok op w (show_bits w (NOT (a OR b)))
     else if op = ''xnor'' then bitop_ok op w (show_bits w (NOT (a XOR b)))
     else if op = ''shl'' then shl_result w a b
     else if op = ''shr'' then shr_result w a b
     else if op = ''sar'' then sar_result w a b
     else if op = ''rol'' then bitop_ok op w (show_bits w (rol_bits w a b))
     else if op = ''ror'' then bitop_ok op w (show_bits w (ror_bits w a b))
     else [(''ok'', PBool False),
           (''error'', PStr (''unknown op '' @ repr_str op @ ''; use '' @ join '', '' BITOP_OPS))])"

definition bitop :: "int \<Rightarrow> string \<Rightarrow> int option \<Rightarrow> int \<Rightarrow> dict" where
  "bitop a op b width =
    (let op = lower op in
     if width \<notin> {8, 16, 32, 64} then [(''ok'', PBool False), (''error'', PStr ''width must be 8/16/32/64'')]
     else let w = nat width; a = a AND width_mask w
       in if op = ''not'' then bitop_ok op w (show_bits w (NOT a AND width_mask w))
          else case b of
            None \<Rightarrow> [(''ok'', PBool False), (''error'', PStr (op @ '' needs two operands''))]
          | Some b \<Rightarrow>
              if List.member SHIFT_OPS op then
                if b < 0 then [(''ok'', PBool False), (''error'', PStr (''negative shift/rotate count '' @ int_str b))]
                else bitop2 op w a b
              else bitop2 op w a (b AND width_mask w))"

section \<open>The masks are words\<close>

lemma width_mask_eq: "width_mask w = mask w"
  by (simp add: width_mask_def mask_eq_exp_minus_1 push_bit_eq_mult)

lemma and_width_mask [simp]: "v AND width_mask w = take_bit w v"
  by (simp add: width_mask_eq take_bit_eq_mask)

lemma to_signed_take_bit:
  assumes "0 < w"
  shows "to_signed w (take_bit w v) = signed_take_bit (w - 1) v"
proof -
  have w: "Suc (w - 1) = w" using assms by simp
  have "take_bit w v AND push_bit (w - 1) 1 \<noteq> 0 \<longleftrightarrow> bit v (w - 1)"
    using assms by (auto simp: push_bit_eq_mult and_exp_eq_0_iff_not_bit bit_take_bit_iff)
  then show ?thesis
    using signed_take_bit_eq_take_bit_minus [of "w - 1" v] unfolding w
    by (simp add: to_signed_def push_bit_eq_mult)
qed

lemma show_bits_word:
  fixes r :: "'w::len word"
  assumes "r = word_of_int v"
  shows "dget (bitop_ok op LENGTH('w) (show_bits LENGTH('w) v @ rest)) ''unsigned'' = PInt (uint r)"
    and "dget (bitop_ok op LENGTH('w) (show_bits LENGTH('w) v @ rest)) ''signed'' = PInt (sint r)"
  by (simp_all add: assms bitop_ok_def show_bits_def Let_def to_signed_take_bit uint_word_of_int_eq
      sint_sbintrunc')

text \<open>What each operation name means on machine words.\<close>

definition word_bitop :: "string \<Rightarrow> 'w::len word \<Rightarrow> int \<Rightarrow> 'w word option" where
  "word_bitop op x b =
    (if op = ''not'' then Some (NOT x)
     else if op = ''and'' then Some (x AND word_of_int b)
     else if op = ''or'' then Some (x OR word_of_int b)
     else if op = ''xor'' then Some (x XOR word_of_int b)
     else if op = ''nand'' then Some (NOT (x AND word_of_int b))
     else if op = ''nor'' then Some (NOT (x OR word_of_int b))
     else if op = ''xnor'' then Some (NOT (x XOR word_of_int b))
     else if b < 0 then None
     else if op = ''shl'' then Some (push_bit (nat b) x)
     else if op = ''shr'' then Some (drop_bit (nat b) x)
     else if op = ''sar'' then Some (signed_drop_bit (nat b) x)
     else if op = ''rol'' then Some (word_rotl (nat b) x)
     else if op = ''ror'' then Some (word_rotr (nat b) x)
     else None)"

lemma word_of_take_bit [simp]: "(word_of_int (take_bit LENGTH('w) v) :: 'w::len word) = word_of_int v"
  by (rule bit_word_eqI) (simp add: bit_simps)

lemma word_shl: "(word_of_int (push_bit n (take_bit LENGTH('w) v)) :: 'w::len word) = push_bit n (word_of_int v)"
  by (rule bit_word_eqI) (auto simp: bit_simps)

lemma word_shr: "(word_of_int (drop_bit n (take_bit LENGTH('w) v)) :: 'w::len word) = drop_bit n (word_of_int v)"
  by (rule bit_word_eqI) (auto simp: bit_simps)

lemma word_sar:
  "(word_of_int (drop_bit n (signed_take_bit (LENGTH('w) - 1) v)) :: 'w::len word) = signed_drop_bit n (word_of_int v)"
proof (rule bit_word_eqI)
  fix k assume "k < LENGTH('w)"
  moreover have "n + k = LENGTH('w) - 1" if "LENGTH('w) - 1 \<le> n + k" "n + k < LENGTH('w)" using that by simp
  ultimately show "bit (word_of_int (drop_bit n (signed_take_bit (LENGTH('w) - 1) v)) :: 'w word) k
      = bit (signed_drop_bit n (word_of_int v :: 'w word)) k"
    by (auto simp: bit_simps min_def)
qed

lemma rot_count: "0 \<le> b \<Longrightarrow> nat (b mod int w) = nat b mod w"
  by (simp add: nat_mod_distrib)

lemma ror_word:
  assumes "0 \<le> b"
  shows "(word_of_int (ror_bits LENGTH('w) (take_bit LENGTH('w) v) b) :: 'w::len word) = word_rotr (nat b) (word_of_int v)"
proof (rule bit_word_eqI)
  fix n assume n: "n < LENGTH('w)"
  define q where "q = nat b mod LENGTH('w)"
  have q: "q < LENGTH('w)" by (simp add: q_def)
  have "(n + nat b) mod LENGTH('w) = (n + q) mod LENGTH('w)" unfolding q_def by (simp add: mod_add_right_eq)
  also have "\<dots> = (if n + q < LENGTH('w) then n + q else n + q - LENGTH('w))"
    using n q by (simp add: mod_if)
  finally have m: "(n + nat b) mod LENGTH('w) = (if n + q < LENGTH('w) then n + q else n + q - LENGTH('w))" .
  have r: "ror_bits LENGTH('w) (take_bit LENGTH('w) v) b = (if q = 0 then take_bit LENGTH('w) v else
      take_bit LENGTH('w) (drop_bit q (take_bit LENGTH('w) v) OR push_bit (LENGTH('w) - q) (take_bit LENGTH('w) v)))"
    unfolding ror_bits_def rot_count [OF assms] q_def Let_def by simp
  show "bit (word_of_int (ror_bits LENGTH('w) (take_bit LENGTH('w) v) b) :: 'w word) n
      = bit (word_rotr (nat b) (word_of_int v :: 'w word)) n"
    unfolding bit_word_rotr_iff m r
    using n q by (cases "n + q < LENGTH('w)") (auto simp: bit_simps ac_simps not_less)
qed

lemma rol_ror:
  assumes "0 \<le> b" and "b mod int w \<noteq> 0" and "0 < w"
  shows "rol_bits w a b = ror_bits w a (int w - b mod int w)"
proof -
  have "0 \<le> b mod int w" "b mod int w < int w" using assms(3) by simp_all
  then have "(int w - b mod int w) mod int w = int w - b mod int w"
    using assms(2) by (intro mod_pos_pos_trivial) simp_all
  then have "nat ((int w - b mod int w) mod int w) = w - nat (b mod int w)"
    using \<open>0 \<le> b mod int w\<close> by (simp add: nat_diff_distrib)
  moreover have "nat (b mod int w) < w" "nat (b mod int w) \<noteq> 0"
    using \<open>0 \<le> b mod int w\<close> \<open>b mod int w < int w\<close> assms(2) by linarith+
  ultimately show ?thesis by (simp add: rol_bits_def ror_bits_def Let_def or.commute)
qed

lemma rol_word:
  assumes "0 \<le> b"
  shows "(word_of_int (rol_bits LENGTH('w) (take_bit LENGTH('w) v) b) :: 'w::len word) = word_rotl (nat b) (word_of_int v)"
proof (cases "b mod int LENGTH('w) = 0")
  case True
  then have "nat b mod LENGTH('w) = 0" using rot_count [OF assms, of "LENGTH('w)"] by simp
  then show ?thesis
    using True by (intro bit_word_eqI) (simp add: rol_bits_def bit_word_rotl_iff bit_simps)
next
  case False
  have lt: "b mod int LENGTH('w) < int LENGTH('w)" by simp
  have "nat (int LENGTH('w) - b mod int LENGTH('w)) = LENGTH('w) - nat b mod LENGTH('w)"
    unfolding rot_count [OF assms, symmetric] using nat_diff_distrib [OF _ less_imp_le [OF lt]] by simp
  moreover have "0 \<le> int LENGTH('w) - b mod int LENGTH('w)" using lt by linarith
  ultimately show ?thesis
    unfolding rol_ror [OF assms False len_gt_0] word_rotl_eq_word_rotr by (simp add: ror_word)
qed

lemma bitop_two:
  assumes "w \<in> {8, 16, 32, 64}" and "op' = lower op" and "op' \<noteq> ''not''"
  shows "List.member SHIFT_OPS op' \<Longrightarrow> 0 \<le> b \<Longrightarrow> bitop a op (Some b) (int w) = bitop2 op' w (take_bit w a) b"
    and "\<not> List.member SHIFT_OPS op' \<Longrightarrow> bitop a op (Some b) (int w) = bitop2 op' w (take_bit w a) (take_bit w b)"
proof -
  have w: "int w \<in> {8, 16, 32, 64}" using assms(1) by auto
  show "List.member SHIFT_OPS op' \<Longrightarrow> 0 \<le> b \<Longrightarrow> bitop a op (Some b) (int w) = bitop2 op' w (take_bit w a) b"
    and "\<not> List.member SHIFT_OPS op' \<Longrightarrow> bitop a op (Some b) (int w) = bitop2 op' w (take_bit w a) (take_bit w b)"
    unfolding bitop_def Let_def assms(2) [symmetric] using w assms(3) by simp_all
qed

lemma bitop2_logic:
  fixes x :: "'w::len word"
  assumes "op \<in> {''and'', ''or'', ''xor'', ''nand'', ''nor'', ''xnor''}" and "word_bitop op (word_of_int a :: 'w word) b = Some r"
  shows "\<exists>v. bitop2 op LENGTH('w) (take_bit LENGTH('w) a) (take_bit LENGTH('w) b) = bitop_ok op LENGTH('w) (show_bits LENGTH('w) v @ [])
    \<and> r = word_of_int v"
proof -
  let ?a = "take_bit LENGTH('w) a" and ?b = "take_bit LENGTH('w) b"
  have bits: "(word_of_int (?a AND ?b) :: 'w word) = word_of_int a AND word_of_int b"
    "(word_of_int (?a OR ?b) :: 'w word) = word_of_int a OR word_of_int b"
    "(word_of_int (?a XOR ?b) :: 'w word) = word_of_int a XOR word_of_int b"
    "(word_of_int (NOT (?a AND ?b)) :: 'w word) = NOT (word_of_int a AND word_of_int b)"
    "(word_of_int (NOT (?a OR ?b)) :: 'w word) = NOT (word_of_int a OR word_of_int b)"
    "(word_of_int (NOT (?a XOR ?b)) :: 'w word) = NOT (word_of_int a XOR word_of_int b)"
    by (rule bit_word_eqI; auto simp: bit_simps)+
  consider "op = ''and''" | "op = ''or''" | "op = ''xor''" | "op = ''nand''" | "op = ''nor''" | "op = ''xnor''"
    using assms(1) by blast
  then show ?thesis
    using assms(2) bits by cases (simp_all add: bitop2_def word_bitop_def, metis+)
qed

lemma bitop2_shift:
  assumes "op \<in> {''shl'', ''shr'', ''sar'', ''rol'', ''ror''}" and "word_bitop op (word_of_int a :: 'w::len word) b = Some r"
  shows "dget (bitop2 op LENGTH('w) (take_bit LENGTH('w) a) b) ''unsigned'' = PInt (uint r)
    \<and> dget (bitop2 op LENGTH('w) (take_bit LENGTH('w) a) b) ''signed'' = PInt (sint r)"
proof -
  let ?w = "LENGTH('w)" and ?a = "take_bit LENGTH('w) a"
  have b: "0 \<le> b" using assms by (auto simp: word_bitop_def split: if_splits)
  have big: "nat b \<ge> ?w" if "b \<ge> int ?w" using that by linarith
  have shown: "dget (bitop_ok op ?w (show_bits ?w v @ rest)) ''unsigned'' = PInt (uint r)
      \<and> dget (bitop_ok op ?w (show_bits ?w v @ rest)) ''signed'' = PInt (sint r)" if "r = word_of_int v" for v rest
    using show_bits_word [OF that] by blast
  note shown' = shown [where rest = "[]", simplified]
  consider "op = ''shl''" | "op = ''shr''" | "op = ''sar''" | "op = ''rol''" | "op = ''ror''" using assms(1) by blast
  then show ?thesis
  proof cases
    case 1
    then have r: "r = push_bit (nat b) (word_of_int a)" using assms(2) b by (simp add: word_bitop_def)
    have z: "r = word_of_int 0" if "b \<ge> int ?w"
      unfolding r using big [OF that] by (intro bit_word_eqI) (simp add: bit_simps)
    have v: "r = word_of_int (push_bit (nat b) ?a)" unfolding r word_shl ..
    show ?thesis using 1 shown [OF z] shown [OF v] shown' [OF v] by (simp add: bitop2_def shl_result_def Let_def)
  next
    case 2
    then have r: "r = drop_bit (nat b) (word_of_int a)" using assms(2) b by (simp add: word_bitop_def)
    have z: "r = 0" if "b \<ge> int ?w"
      unfolding r using big [OF that] by (intro bit_word_eqI) (auto simp: bit_simps)
    have v: "r = word_of_int (drop_bit (nat b) ?a)" unfolding r word_shr ..
    show ?thesis using 2 z shown' [OF v] by (auto simp: bitop2_def shr_result_def bitop_ok_def)
  next
    case 3
    then have r: "r = signed_drop_bit (nat b) (word_of_int a)" using assms(2) b by (simp add: word_bitop_def)
    let ?sa = "signed_take_bit (?w - 1) a"
    have v: "r = word_of_int (if b < int ?w then drop_bit (nat b) ?sa else if ?sa < 0 then - 1 else 0)"
      unfolding r word_sar [symmetric]
      using big by (auto intro!: bit_word_eqI simp: bit_simps signed_take_bit_negative_iff)
    then have "r = word_of_int (take_bit ?w (if b < int ?w then drop_bit (nat b) ?sa else if ?sa < 0 then - 1 else 0))"
      by simp
    moreover have "bitop2 op ?w ?a b = bitop_ok op ?w (show_bits ?w (take_bit ?w
        (if b < int ?w then drop_bit (nat b) ?sa else if ?sa < 0 then - 1 else 0)))"
    proof -
      have "bitop2 op ?w ?a b = sar_result ?w ?a b" using 3 by (simp add: bitop2_def)
      then show ?thesis
        unfolding sar_result_def Let_def to_signed_take_bit [OF len_gt_0] and_width_mask 3 .
    qed
    ultimately show ?thesis using shown' by metis
  next
    case 4
    then have r: "r = word_of_int (rol_bits ?w ?a b)" using assms(2) b by (simp add: word_bitop_def rol_word)
    show ?thesis using 4 shown' [OF r] by (simp add: bitop2_def)
  next
    case 5
    then have r: "r = word_of_int (ror_bits ?w ?a b)" using assms(2) b by (simp add: word_bitop_def ror_word)
    show ?thesis using 5 shown' [OF r] by (simp add: bitop2_def)
  qed
qed

text \<open>
  C5. \<open>bitop\<close> computes machine-word operations: at each width it accepts, the unsigned and the
  signed reading of its result are those of the word operation the name stands for, on the words
  of that width (shift and rotate counts unreduced, arithmetic shift sign-propagating).
\<close>

theorem bitop_is_word_operation:
  assumes "LENGTH('w::len) \<in> {8, 16, 32, 64}" and "word_bitop (lower op) (word_of_int a :: 'w word) b = Some r"
  shows "dget (bitop a op (Some b) (int LENGTH('w))) ''unsigned'' = PInt (uint r)
    \<and> dget (bitop a op (Some b) (int LENGTH('w))) ''signed'' = PInt (sint r)"
proof -
  consider (inv) "lower op = ''not''" | (logic) "lower op \<in> {''and'', ''or'', ''xor'', ''nand'', ''nor'', ''xnor''}"
    | (shift) "lower op \<in> {''shl'', ''shr'', ''sar'', ''rol'', ''ror''}"
    using assms(2) unfolding word_bitop_def by (metis insertCI option.distinct(1))
  then show ?thesis
  proof cases
    case inv
    then have "r = word_of_int (take_bit LENGTH('w) (NOT (take_bit LENGTH('w) a)))"
      using assms(2) by (auto simp: word_bitop_def intro!: bit_word_eqI simp: bit_simps)
    then show ?thesis
      using show_bits_word [of r _ _ "[]"] assms(1) inv by (auto simp: bitop_def Let_def)
  next
    case logic
    then have "\<not> List.member SHIFT_OPS (lower op)" "lower op \<noteq> ''not''" by (auto simp: SHIFT_OPS_def)
    from bitop_two(2) [OF assms(1) refl this(2,1)] bitop2_logic [OF logic assms(2)]
    obtain v where "bitop a op (Some b) (int LENGTH('w)) = bitop_ok (lower op) LENGTH('w) (show_bits LENGTH('w) v @ [])"
      and "r = word_of_int v" by metis
    then show ?thesis using show_bits_word by metis
  next
    case shift
    then have "List.member SHIFT_OPS (lower op)" "lower op \<noteq> ''not''" by (auto simp: SHIFT_OPS_def)
    moreover have "0 \<le> b" using shift assms(2) by (auto simp: word_bitop_def split: if_splits)
    ultimately show ?thesis using bitop_two(1) [OF assms(1) refl] bitop2_shift [OF shift assms(2)] by simp
  qed
qed

theorem bitop_is_word_operation_witness:
  "dget (bitop (- 128) ''sar'' (Some 3) (int LENGTH(8))) ''unsigned'' = PInt (uint (240 :: 8 word))
    \<and> dget (bitop (- 128) ''sar'' (Some 3) (int LENGTH(8))) ''signed'' = PInt (sint (240 :: 8 word))"
  by (rule bitop_is_word_operation) code_simp+

section \<open>Widths and bit counts\<close>

lemma width_names: "distinct (concat (map (\<lambda>w. [''i'' @ nat_str w, ''u'' @ nat_str w]) [8, 16, 32, 64]))"
  by code_simp

text \<open>
  \<open>int_widths\<close> names exactly the widths that hold the number: \<open>i<w>\<close> when it is in the
  two's-complement range of width \<open>w\<close>, \<open>u<w>\<close> when it is in the unsigned range, so no negative
  number ever fits an unsigned width.
\<close>

theorem int_widths_fits:
  assumes "w \<in> {8, 16, 32, 64}"
  shows "\<exists>fits. dget (int_widths n) ''fits'' = PList (map PStr fits)
    \<and> (''i'' @ nat_str w \<in> set fits \<longleftrightarrow> - (2 ^ (w - 1)) \<le> n \<and> n < 2 ^ (w - 1))
    \<and> (''u'' @ nat_str w \<in> set fits \<longleftrightarrow> 0 \<le> n \<and> n < 2 ^ w)"
proof -
  define fits where "fits = concat (map (fst \<circ> width_row n) [8, 16, 32, 64])"
  have row: "fst (width_row n v) = (if - (2 ^ (v - 1)) \<le> n \<and> n < 2 ^ (v - 1) then [''i'' @ nat_str v] else [])
      @ (if 0 \<le> n \<and> n < 2 ^ v then [''u'' @ nat_str v] else [])" if "0 < v" for v
  proof -
    have "n < 2 ^ v" if "n < 2 ^ (v - 1)"
      using that power_increasing [of "v - 1" v "2 :: int"] by linarith
    then show ?thesis by (auto simp: Let_def)
  qed
  have names: "nat_str 8 = ''8''" "nat_str 16 = ''16''" "nat_str 32 = ''32''" "nat_str 64 = ''64''" by code_simp+
  have "dget (int_widths n) ''fits'' = PList (map PStr fits)"
    by (simp add: int_widths_def fits_def Let_def del: width_row.simps)
  moreover have "(''i'' @ nat_str w \<in> set fits \<longleftrightarrow> - (2 ^ (w - 1)) \<le> n \<and> n < 2 ^ (w - 1))
    \<and> (''u'' @ nat_str w \<in> set fits \<longleftrightarrow> 0 \<le> n \<and> n < 2 ^ w)"
    using assms by (auto simp: fits_def row names simp del: width_row.simps split: if_splits)
  ultimately show ?thesis by blast
qed

theorem int_widths_fits_witness:
  "\<exists>fits. dget (int_widths (- 200)) ''fits'' = PList (map PStr fits)
    \<and> (''i'' @ nat_str 16 \<in> set fits \<longleftrightarrow> - (2 ^ (16 - 1)) \<le> (- 200 :: int) \<and> (- 200 :: int) < 2 ^ (16 - 1))
    \<and> (''u'' @ nat_str 16 \<in> set fits \<longleftrightarrow> 0 \<le> (- 200 :: int) \<and> (- 200 :: int) < 2 ^ 16)"
  by (rule int_widths_fits) simp

lemma top_bit: "2 ^ k \<le> n \<Longrightarrow> n < 2 ^ Suc k \<Longrightarrow> bit (n :: int) k"
proof -
  assume "2 ^ k \<le> n" and "n < 2 ^ Suc k"
  then have "n div 2 ^ k = 1" by (intro int_div_pos_eq [of n "2 ^ k" 1 "n - 2 ^ k"]) simp_all
  then show "bit n k" by (simp add: bit_iff_odd)
qed

lemma power_of_two_iff: "0 < n \<Longrightarrow> n AND (n - 1) = 0 \<longleftrightarrow> (\<exists>k. n = 2 ^ k)" for n :: int
proof
  assume n: "0 < n" and z: "n AND (n - 1) = 0"
  define k where "k = bit_length n - 1"
  have "bit_length n \<noteq> 0" using n bit_length_le_iff [of n 0] by auto
  then have L: "bit_length n = Suc k" by (simp add: k_def)
  have up: "n < 2 ^ Suc k" using bit_length_le_iff [of n "Suc k"] L n by simp
  have lo: "2 ^ k \<le> n" using bit_length_le_iff [of n k] L n by simp
  have "n = 2 ^ k"
  proof (rule ccontr)
    assume "n \<noteq> 2 ^ k"
    then have "2 ^ k \<le> n - 1" using lo by simp
    then have "bit (n AND (n - 1)) k" using up lo top_bit [of k n] top_bit [of k "n - 1"] by (simp add: bit_and_iff)
    then show False using z by simp
  qed
  then show "\<exists>k. n = 2 ^ k" ..
next
  assume "\<exists>k. n = 2 ^ k"
  then obtain k where "n = 2 ^ k" ..
  moreover have "(2 :: int) ^ k AND (2 ^ k - 1) = 0"
    by (simp flip: mask_eq_exp_minus_1 take_bit_eq_mask)
  ultimately show "n AND (n - 1) = 0" by simp
qed

text \<open>
  \<open>bit_analysis\<close> of a positive number and a positive alignment: the power-of-two test is
  right, the next power of two is the least one not below the number, and the aligned value is the
  least multiple of the alignment not below it.
\<close>

theorem bit_analysis_correct:
  assumes "0 < n" and "0 < a"
  shows "dget (bit_analysis n (Some a)) ''is_power_of_two'' = PBool (\<exists>k. n = 2 ^ k)
    \<and> (\<exists>k. dget (bit_analysis n (Some a)) ''next_power_of_two'' = PInt (2 ^ k) \<and> n \<le> 2 ^ k
        \<and> (\<forall>j. n \<le> 2 ^ j \<longrightarrow> k \<le> j))
    \<and> (\<exists>m. dget (bit_analysis n (Some a)) ''aligned_value'' = PInt m \<and> n \<le> m \<and> a dvd m
        \<and> (\<forall>j. n \<le> j \<and> a dvd j \<longrightarrow> m \<le> j))"
proof (intro conjI)
  show "dget (bit_analysis n (Some a)) ''is_power_of_two'' = PBool (\<exists>k. n = 2 ^ k)"
    using assms power_of_two_iff [OF assms(1)] by (simp add: bit_analysis_def Let_def)
  have len: "bit_length (n - 1) \<le> j \<longleftrightarrow> n \<le> 2 ^ j" for j
    using bit_length_le_iff [of "n - 1" j] assms(1) by auto
  show "\<exists>k. dget (bit_analysis n (Some a)) ''next_power_of_two'' = PInt (2 ^ k) \<and> n \<le> 2 ^ k
      \<and> (\<forall>j. n \<le> 2 ^ j \<longrightarrow> k \<le> j)"
    using assms len len [of "bit_length (n - 1)"]
    by (intro exI [of _ "bit_length (n - 1)"]) (simp add: bit_analysis_def Let_def push_bit_eq_mult)
  let ?m = "n + (- n) mod a"
  have dvd: "a dvd ?m" by (metis add.right_inverse dvd_eq_mod_eq_0 mod_add_right_eq mod_0)
  have lt: "(- n) mod a < a" and ge: "0 \<le> (- n) mod a" using assms(2) by simp_all
  have "?m \<le> j" if "n \<le> j" "a dvd j" for j
  proof (rule ccontr)
    assume j: "\<not> ?m \<le> j"
    have "a dvd ?m - j" using dvd that(2) by simp
    then have "a \<le> ?m - j" using j by (intro zdvd_imp_le) simp_all
    then show False using that(1) lt by linarith
  qed
  then show "\<exists>m. dget (bit_analysis n (Some a)) ''aligned_value'' = PInt m \<and> n \<le> m \<and> a dvd m
      \<and> (\<forall>j. n \<le> j \<and> a dvd j \<longrightarrow> m \<le> j)"
    using assms dvd ge by (intro exI [of _ ?m]) (simp add: bit_analysis_def Let_def)
qed

theorem bit_analysis_correct_witness:
  "dget (bit_analysis 12 (Some 8)) ''is_power_of_two'' = PBool (\<exists>k. (12 :: int) = 2 ^ k)
    \<and> (\<exists>k. dget (bit_analysis 12 (Some 8)) ''next_power_of_two'' = PInt (2 ^ k) \<and> (12 :: int) \<le> 2 ^ k
        \<and> (\<forall>j. (12 :: int) \<le> 2 ^ j \<longrightarrow> k \<le> j))
    \<and> (\<exists>m. dget (bit_analysis 12 (Some 8)) ''aligned_value'' = PInt m \<and> 12 \<le> m \<and> 8 dvd m
        \<and> (\<forall>j. 12 \<le> j \<and> 8 dvd j \<longrightarrow> m \<le> j))"
  by (rule bit_analysis_correct) simp_all

end
