(* ===== verification/Radix.thy ===== *)
theory Radix
  imports Programmer_Bits Guarded
begin

text \<open>
  \<open>radix_convert\<close> of \<open>codecalc/exact.py\<close>: conversion between the bases 2 to 36, fractions
  included. The ellipsis that marks a truncated expansion (U+2026, outside the characters modelled)
  is written as three dots.
\<close>

section \<open>Reading digits\<close>

definition radix_digit_val :: "char \<Rightarrow> nat option" where
  "radix_digit_val c = (let n = (of_char c :: nat) in
     if 48 \<le> n \<and> n \<le> 57 then Some (n - 48) else if 97 \<le> n \<and> n \<le> 122 then Some (n - 87) else None)"

definition parse_digit :: "nat \<Rightarrow> char \<Rightarrow> exn + nat" where
  "parse_digit fb c =
    (case radix_digit_val c of
       Some v \<Rightarrow> if v < fb then Inr v
                 else Inl (Exn ValueErr (''invalid digit '' @ repr_str [c] @ '' for base '' @ nat_str fb))
     | None \<Rightarrow> Inl (Exn ValueErr (''invalid digit '' @ repr_str [c] @ '' for base '' @ nat_str fb)))"

fun parse_digits :: "nat \<Rightarrow> nat \<Rightarrow> string \<Rightarrow> exn + nat" where
  "parse_digits fb acc [] = Inr acc"
| "parse_digits fb acc (c # cs) = rbind (parse_digit fb c) (\<lambda>v. parse_digits fb (acc * fb + v) cs)"

text \<open>\<open>s.split(".", 1)\<close>, or the text and nothing after it.\<close>

definition split_point :: "string \<Rightarrow> string \<times> string" where
  "split_point s = (takeWhile (\<lambda>c. c \<noteq> CHR ''.'') s, drop 1 (dropWhile (\<lambda>c. c \<noteq> CHR ''.'') s))"

text \<open>Numerator and denominator of the magnitude.\<close>

definition parse_magnitude :: "nat \<Rightarrow> string \<Rightarrow> exn + nat \<times> nat" where
  "parse_magnitude fb s = (case split_point s of (ip, fp) \<Rightarrow>
     rbind (parse_digits fb 0 ip) (\<lambda>whole. rbind (parse_digits fb 0 fp) (\<lambda>fn.
       let den = fb ^ length fp in Inr (whole * den + fn, den))))"

section \<open>Writing digits\<close>

text \<open>The check for a terminating expansion: the factors shared with the base are divided out.\<close>

function strip_factors :: "nat \<Rightarrow> nat \<Rightarrow> nat" where
  "strip_factors t check =
    (if check \<le> 1 then check else let d = gcd check t in if d = 1 then check else strip_factors t (check div d))"
  by pat_completeness auto
termination
proof (relation "measure snd", simp)
  fix t check d :: nat
  assume "\<not> check \<le> 1" and d: "d = gcd check t" and "d \<noteq> 1"
  then have "1 < d" by (metis gcd_eq_0_iff less_one linorder_neqE_nat not_le zero_less_one)
  with \<open>\<not> check \<le> 1\<close> show "((t, check div d), t, check) \<in> measure snd" by simp
qed

declare strip_factors.simps [simp del]

fun repeating_digits :: "nat \<Rightarrow> nat \<Rightarrow> nat \<Rightarrow> nat list \<Rightarrow> nat \<Rightarrow> string" where
  "repeating_digits tb rd 0 seen r = []"
| "repeating_digits tb rd (Suc k) seen r =
     (if r = 0 \<or> List.member seen r then []
      else radix_digit (r * tb div rd) # repeating_digits tb rd k (r # seen) (r * tb mod rd))"

fun terminating_digits :: "nat \<Rightarrow> nat \<Rightarrow> nat \<Rightarrow> nat \<Rightarrow> string" where
  "terminating_digits tb rd 0 r = []"
| "terminating_digits tb rd (Suc k) r =
     (if r = 0 then [] else radix_digit (r * tb div rd) # terminating_digits tb rd k (r * tb mod rd))"

definition write_radix :: "nat \<Rightarrow> nat \<Rightarrow> nat \<Rightarrow> string \<times> string \<times> bool" where
  "write_radix tb m d =
    (let whole = m div d; rem = m mod d; g = gcd rem d; rn = rem div g; rd = d div g;
         terminates = (strip_factors tb rd = 1)
     in (radix_str tb whole,
         if terminates then terminating_digits tb rd 100 rn else repeating_digits tb rd 64 [] rn,
         terminates))"

definition radix_convert :: "string \<Rightarrow> int \<Rightarrow> int \<Rightarrow> dict" where
  "radix_convert value from_base to_base =
    (if \<not> (2 \<le> from_base \<and> from_base \<le> 36 \<and> 2 \<le> to_base \<and> to_base \<le> 36)
     then [(''ok'', PBool False), (''error'', PStr ''bases must be 2..36'')]
     else let s = lower (strip is_space value); neg = (take 1 s = ''-''); body = (if neg then drop 1 s else s);
              sign = (if neg then ''-'' else '''')
       in case parse_magnitude (nat from_base) body of
         Inl e \<Rightarrow> error_result (classify e) (exn_msg e) []
       | Inr (m, d) \<Rightarrow>
           (case write_radix (nat to_base) m d of (int_text, frac_digits, terminates) \<Rightarrow>
              if frac_digits \<noteq> []
              then [(''ok'', PBool True),
                    (''value'', PStr (sign @ int_text @ ''.'' @ frac_digits @ (if terminates then '''' else ''...''))),
                    (''non_terminating'', PBool (\<not> terminates))]
              else [(''ok'', PBool True), (''value'', PStr (sign @ int_text)), (''non_terminating'', PBool False)]))"

section \<open>Digits read back\<close>

lemma radix_digit_read: "d < 36 \<Longrightarrow> radix_digit_val (radix_digit d) = Some d"
  by (auto simp: radix_digit_def radix_digit_val_def Let_def)

lemma radix_digit_no_point: "d < 36 \<Longrightarrow> radix_digit d \<noteq> CHR ''.''"
  using radix_digit_read [of d] by (auto simp: radix_digit_val_def)

lemma parse_digit_read: "d < tb \<Longrightarrow> tb \<le> 36 \<Longrightarrow> parse_digit tb (radix_digit d) = Inr d"
  by (simp add: parse_digit_def radix_digit_read)

lemma parse_digits_append: "parse_digits b acc (xs @ ys) = rbind (parse_digits b acc xs) (\<lambda>a. parse_digits b a ys)"
proof (induction xs arbitrary: acc)
  case (Cons c cs)
  then show ?case by (cases "parse_digit b c") simp_all
qed simp

definition plain_digits :: "string \<Rightarrow> bool" where
  "plain_digits s \<longleftrightarrow> CHR ''.'' \<notin> set s"

lemma radix_str_read:
  assumes "2 \<le> b" and "b \<le> 36"
  shows "parse_digits b acc (radix_str b n) = Inr (acc * b ^ length (radix_str b n) + n) \<and> plain_digits (radix_str b n)
    \<and> radix_str b n \<noteq> []"
  using assms
proof (induction b n arbitrary: acc rule: radix_str.induct)
  case (1 b n)
  show ?case
  proof (cases "n < b")
    case True
    then show ?thesis using 1(2,3)
      by (simp add: radix_str.simps [of b n] parse_digit_read plain_digits_def) (metis less_le_trans radix_digit_no_point)
  next
    case False
    have m: "n mod b < b" using 1(2) by simp
    from False 1(2) have IH: "parse_digits b acc (radix_str b (n div b)) = Inr (acc * b ^ length (radix_str b (n div b)) + n div b)"
        "plain_digits (radix_str b (n div b))" "radix_str b (n div b) \<noteq> []"
      using 1(1) [of acc] 1(2,3) by auto
    have s: "radix_str b n = radix_str b (n div b) @ [radix_digit (n mod b)]"
      using False 1(2) by (subst radix_str.simps) simp
    show ?thesis
      using IH m 1(2,3) radix_digit_no_point [of "n mod b"] less_le_trans [OF m 1(3)]
      by (auto simp: s parse_digits_append parse_digit_read plain_digits_def algebra_simps)
  qed
qed

text \<open>The digits written of a remainder: what they are worth, and what is left.\<close>

definition expansion :: "nat \<Rightarrow> nat \<Rightarrow> nat \<Rightarrow> string \<Rightarrow> nat \<Rightarrow> nat \<Rightarrow> bool" where
  "expansion tb rd r ds v r' \<longleftrightarrow> (\<forall>acc. parse_digits tb acc ds = Inr (acc * tb ^ length ds + v)) \<and> plain_digits ds
    \<and> v * rd + r' = r * tb ^ length ds \<and> r' < rd"

lemma expansion_Nil: "r < rd \<Longrightarrow> expansion tb rd r [] 0 r"
  by (simp add: expansion_def plain_digits_def)

lemma expansion_Cons:
  assumes "expansion tb rd (r * tb mod rd) ds v r'" and "r < rd" and "2 \<le> tb" "tb \<le> 36"
  shows "expansion tb rd r (radix_digit (r * tb div rd) # ds) (r * tb div rd * tb ^ length ds + v) r'"
proof -
  let ?d = "r * tb div rd"
  have d: "?d < tb" using assms(2,3) by (simp add: less_mult_imp_div_less mult.commute)
  have "(?d * tb ^ length ds + v) * rd + r' = ?d * rd * tb ^ length ds + (v * rd + r')" by (simp add: algebra_simps)
  also have "\<dots> = ?d * rd * tb ^ length ds + (r * tb mod rd) * tb ^ length ds"
    using assms(1) by (simp add: expansion_def)
  also have "\<dots> = (?d * rd + r * tb mod rd) * tb ^ length ds" by (simp only: add_mult_distrib)
  also have "\<dots> = r * tb ^ Suc (length ds)" by (simp add: mult.assoc)
  finally show ?thesis
    using assms d radix_digit_no_point [of ?d]
    by (simp add: expansion_def plain_digits_def parse_digit_read algebra_simps)
qed

lemma terminating_digits_expansion:
  assumes "r < rd" and "2 \<le> tb" "tb \<le> 36"
  shows "\<exists>v r'. expansion tb rd r (terminating_digits tb rd k r) v r'
    \<and> length (terminating_digits tb rd k r) \<le> k \<and> (length (terminating_digits tb rd k r) < k \<longrightarrow> r' = 0)"
  using assms(1)
proof (induction k arbitrary: r)
  case 0
  then show ?case using expansion_Nil [of r rd tb] by auto
next
  case (Suc k)
  show ?case
  proof (cases "r = 0")
    case True
    then show ?thesis using Suc.prems expansion_Nil [of 0 rd tb] by auto
  next
    case False
    have "r * tb mod rd < rd" using Suc.prems by simp
    from Suc.IH [OF this] obtain v r' where "expansion tb rd (r * tb mod rd) (terminating_digits tb rd k (r * tb mod rd)) v r'"
      "length (terminating_digits tb rd k (r * tb mod rd)) \<le> k"
      "length (terminating_digits tb rd k (r * tb mod rd)) < k \<longrightarrow> r' = 0" by blast
    with expansion_Cons [OF this(1) Suc.prems assms(2,3)] False show ?thesis by auto
  qed
qed

lemma repeating_digits_expansion:
  assumes "r < rd" and "2 \<le> tb" "tb \<le> 36"
  shows "\<exists>v r'. expansion tb rd r (repeating_digits tb rd k seen r) v r'"
  using assms(1)
proof (induction k arbitrary: r seen)
  case 0
  then show ?case using expansion_Nil [of r rd tb] by auto
next
  case (Suc k)
  have "r * tb mod rd < rd" using Suc.prems by simp
  from Suc.IH [OF this] obtain v r' where "expansion tb rd (r * tb mod rd) (repeating_digits tb rd k (r # seen) (r * tb mod rd)) v r'"
    by blast
  from expansion_Cons [OF this Suc.prems assms(2,3)] expansion_Nil [OF Suc.prems, of tb]
  show ?case by (cases "r = 0 \<or> List.member seen r") (simp_all only: repeating_digits.simps if_True if_False, blast+)
qed

section \<open>Termination of the expansion\<close>

lemma strip_factors_one:
  assumes "0 < c"
  shows "strip_factors t c = 1 \<longleftrightarrow> (\<exists>m. c dvd t ^ m)"
  using assms
proof (induction t c rule: strip_factors.induct)
  case (1 t c)
  consider "c = 1" | "1 < c" "gcd c t = 1" | "1 < c" "gcd c t \<noteq> 1" using 1(2) by linarith
  then show ?case
  proof cases
    case 1
    then show ?thesis by (simp add: strip_factors.simps)
  next
    case 2
    have "coprime c t" using 2(2) by (simp only: coprime_iff_gcd_eq_1)
    then have "coprime c (t ^ m)" for m by simp
    then have "\<not> c dvd t ^ m" for m using coprime_common_divisor [of c "t ^ m" c] 2(1) by auto
    then show ?thesis using 2 by (simp add: strip_factors.simps [of t c])
  next
    case 3
    let ?d = "gcd c t"
    have d: "?d dvd c" "?d dvd t" by simp_all
    then have pos: "0 < c div ?d" using 1(2) by (simp add: div_greater_zero_iff dvd_imp_le)
    have "strip_factors t c = strip_factors t (c div ?d)" using 3 by (subst strip_factors.simps) simp
    also have "\<dots> = 1 \<longleftrightarrow> (\<exists>m. c div ?d dvd t ^ m)" using 1(1) 3 pos by simp
    also have "\<dots> \<longleftrightarrow> (\<exists>m. c dvd t ^ m)"
    proof
      assume "\<exists>m. c div ?d dvd t ^ m"
      then obtain m where "c div ?d dvd t ^ m" ..
      then have "?d * (c div ?d) dvd t * t ^ m" using d(2) by (rule mult_dvd_mono [rotated])
      then show "\<exists>m. c dvd t ^ m" using d(1) by (metis dvd_mult_div_cancel power_Suc)
    next
      assume "\<exists>m. c dvd t ^ m"
      then show "\<exists>m. c div ?d dvd t ^ m" using d(1) by (metis dvd_trans dvd_div_mult_self dvd_triv_left)
    qed
    finally show ?thesis .
  qed
qed

text \<open>The reduced remainder the digits are written of.\<close>

lemma reduced_remainder:
  fixes m d :: nat
  assumes "0 < d"
  defines "g \<equiv> gcd (m mod d) d"
  shows "m mod d = (m mod d div g) * g" "d = d div g * g" "0 < g" "0 < d div g" "m mod d div g < d div g"
    "coprime (m mod d div g) (d div g)" "\<And>k. d div g dvd k \<longleftrightarrow> d dvd m * k"
proof -
  have dv: "g dvd m mod d" "g dvd d" by (simp_all add: g_def)
  show 1: "m mod d = (m mod d div g) * g" and 2: "d = d div g * g" using dv by simp_all
  show g: "0 < g" using assms by (simp add: g_def)
  show rd: "0 < d div g" using 2 assms(1) by (metis mult_is_0 neq0_conv)
  have "m mod d div g * g < d div g * g" using assms(1) 1 2 by (metis mod_less_divisor)
  then show "m mod d div g < d div g" by simp
  show co: "coprime (m mod d div g) (d div g)"
    unfolding g_def using assms(1) by (intro div_gcd_coprime) simp
  fix k
  have "d dvd m * k \<longleftrightarrow> d dvd (m mod d) * k" by (simp add: dvd_eq_mod_eq_0 mod_mult_left_eq)
  also have "\<dots> \<longleftrightarrow> d div g * g dvd (m mod d div g * g) * k" using 1 2 by simp
  also have "\<dots> \<longleftrightarrow> d div g dvd (m mod d div g) * k" using g by (simp add: mult.assoc mult.commute [of g])
  also have "\<dots> \<longleftrightarrow> d div g dvd k" using co by (simp add: coprime_commute coprime_dvd_mult_right_iff)
  finally show "d div g dvd k \<longleftrightarrow> d dvd m * k" by simp
qed

text \<open>What \<open>write_radix\<close> writes: digits worth the number, cut after at most a hundred.\<close>

lemma write_radix_spec:
  assumes "2 \<le> tb" "tb \<le> 36" and "0 < d" and "write_radix tb m d = (it, fd, ends)"
  shows "ends \<longleftrightarrow> (\<exists>k. d dvd m * tb ^ k)"
    and "\<not> ends \<Longrightarrow> fd \<noteq> []"
    and "\<exists>v r'. expansion tb d (m mod d) fd v r' \<and> parse_digits tb 0 it = Inr (m div d) \<and> plain_digits it
      \<and> (ends \<longrightarrow> (r' = 0 \<longleftrightarrow> d dvd m * tb ^ 100))"
proof -
  define g where "g = gcd (m mod d) d"
  define rn rd where "rn = m mod d div g" and "rd = d div g"
  note red = reduced_remainder [OF assms(3), of m, folded g_def, folded rn_def rd_def]
  have w: "it = radix_str tb (m div d)" "ends \<longleftrightarrow> strip_factors tb rd = 1"
    "fd = (if ends then terminating_digits tb rd 100 rn else repeating_digits tb rd 64 [] rn)"
    using assms(4) by (auto simp: write_radix_def Let_def g_def rn_def rd_def)
  show ends: "ends \<longleftrightarrow> (\<exists>k. d dvd m * tb ^ k)"
    unfolding w(2) strip_factors_one [OF red(4)] red(7) ..
  show "fd \<noteq> []" if "\<not> ends"
  proof -
    have "rn \<noteq> 0"
    proof
      assume "rn = 0"
      then have "rd = 1" using red(6) by simp
      then show False using that w(2) by (simp add: strip_factors.simps)
    qed
    then show ?thesis using that w(3) by (simp add: numeral_eq_Suc)
  qed
  obtain v r' where e: "expansion tb rd rn fd v r'"
      and len: "ends \<longrightarrow> length fd \<le> 100 \<and> (length fd < 100 \<longrightarrow> r' = 0)"
    using terminating_digits_expansion [OF red(5) assms(1,2), of 100] repeating_digits_expansion [OF red(5) assms(1,2), of 64 "[]"]
      w(3) by (cases ends) auto
  have "v * rd + r' = rn * tb ^ length fd" and r': "r' < rd" using e by (simp_all add: expansion_def)
  then have "(v * rd + r') * g = rn * tb ^ length fd * g" by simp
  then have "v * (rd * g) + r' * g = rn * g * tb ^ length fd" by (simp only: distrib_left distrib_right ac_simps)
  then have "v * d + r' * g = m mod d * tb ^ length fd" unfolding red(1) [symmetric] red(2) [symmetric] .
  moreover have "r' * g < d" using r' red(2,3) by (metis mult_less_mono1)
  ultimately have e': "expansion tb d (m mod d) fd v (r' * g)" using e by (simp add: expansion_def)
  have "r' * g = 0 \<longleftrightarrow> d dvd m * tb ^ 100" if ends
  proof -
    have dv: "r' = 0 \<longleftrightarrow> rd dvd tb ^ length fd"
    proof -
      have "rd dvd rn * tb ^ length fd \<longleftrightarrow> rd dvd r'"
        using \<open>v * rd + r' = rn * tb ^ length fd\<close> by (metis dvd_add_right_iff dvd_triv_right)
      also have "\<dots> \<longleftrightarrow> r' = 0" using r' by (auto dest: dvd_imp_le)
      finally show ?thesis using red(6) by (simp add: coprime_commute coprime_dvd_mult_right_iff)
    qed
    have "rd dvd tb ^ length fd \<longleftrightarrow> rd dvd tb ^ 100"
    proof (cases "length fd = 100")
      case False
      then have "r' = 0" "length fd \<le> 100" using len that by auto
      then show ?thesis using dv by (metis dvd_trans le_imp_power_dvd)
    qed simp
    then show ?thesis using dv red(3,7) by simp
  qed
  moreover have "parse_digits tb 0 it = Inr (m div d) \<and> plain_digits it"
    using radix_str_read [OF assms(1,2), of 0 "m div d"] w(1) by simp
  ultimately show "\<exists>v r'. expansion tb d (m mod d) fd v r' \<and> parse_digits tb 0 it = Inr (m div d) \<and> plain_digits it
      \<and> (ends \<longrightarrow> (r' = 0 \<longleftrightarrow> d dvd m * tb ^ 100))"
    using e' by (intro exI [of _ v] exI [of _ "r' * g"]) blast
qed

text \<open>The text without the point, or with it, read back as a magnitude.\<close>

lemma split_plain: "plain_digits s \<Longrightarrow> split_point s = (s, [])"
proof -
  assume "plain_digits s"
  then have all: "\<forall>c \<in> set s. c \<noteq> CHR ''.''" by (auto simp: plain_digits_def)
  then have dr: "dropWhile (\<lambda>c. c \<noteq> CHR ''.'') s = []" by (simp only: dropWhile_eq_Nil_conv)
  show ?thesis unfolding split_point_def dr using all by (simp add: takeWhile_eq_all_conv)
qed

lemma split_point_text: "plain_digits s \<Longrightarrow> split_point (s @ CHR ''.'' # t) = (s, t)"
  by (simp add: split_point_def plain_digits_def takeWhile_append dropWhile_append)

lemma parse_written:
  assumes "expansion tb d r fd v r'" and "parse_digits tb 0 it = Inr w" and "plain_digits it"
  shows "parse_magnitude tb (if fd \<noteq> [] then it @ ''.'' @ fd else it) = Inr (w * tb ^ length fd + v, tb ^ length fd)"
proof (cases "fd = []")
  case True
  moreover have "v = 0" using assms(1) True by (simp add: expansion_def)
  ultimately show ?thesis using assms(2,3) by (simp add: parse_magnitude_def split_plain)
next
  case False
  have "parse_digits tb 0 fd = Inr v" using assms(1) by (simp add: expansion_def)
  with False assms(2,3) show ?thesis by (simp add: parse_magnitude_def split_point_text Let_def)
qed

lemma parse_magnitude_den: "parse_magnitude fb s = Inr (m, d) \<Longrightarrow> 0 < fb \<Longrightarrow> 0 < d"
  by (auto simp: parse_magnitude_def rbind_eq_Inr Let_def split: prod.splits)

text \<open>
  C32. \<open>radix_convert\<close> converts the value: whatever it prints reads back in the target base to
  the input truncated at the last digit printed (never above it, and less than one unit of that
  digit below it); \<open>non_terminating\<close> is set exactly when the value has no finite expansion in
  the target base; and a finite expansion is printed in full exactly when a hundred digits are
  enough for it.
\<close>

theorem radix_convert_value:
  assumes "2 \<le> fb" "fb \<le> 36" "2 \<le> tb" "tb \<le> 36"
    and "s = lower (strip is_space value)" and "neg \<longleftrightarrow> take 1 s = ''-''"
    and "parse_magnitude fb (if neg then drop 1 s else s) = Inr (m, d)"
  shows "\<exists>out m' d' nt. dget (radix_convert value (int fb) (int tb)) ''value''
        = PStr ((if neg then ''-'' else '''') @ out @ (if nt then ''...'' else ''''))
    \<and> dget (radix_convert value (int fb) (int tb)) ''non_terminating'' = PBool nt
    \<and> parse_magnitude tb out = Inr (m', d')
    \<and> nt = (\<nexists>k. d dvd m * tb ^ k)
    \<and> of_nat m' / of_nat d' \<le> (of_nat m / of_nat d :: rat)
    \<and> (of_nat m / of_nat d :: rat) < of_nat m' / of_nat d' + 1 / of_nat d'
    \<and> (\<not> nt \<longrightarrow> (of_nat m' / of_nat d' = (of_nat m / of_nat d :: rat) \<longleftrightarrow> d dvd m * tb ^ 100))"
proof -
  have d: "0 < d" using parse_magnitude_den [OF assms(7)] assms(1) by simp
  obtain it fd ends where w: "write_radix tb m d = (it, fd, ends)" by (metis prod_cases3)
  note spec = write_radix_spec [OF assms(3,4) d w]
  obtain v r' where e: "expansion tb d (m mod d) fd v r'" and it: "parse_digits tb 0 it = Inr (m div d)" "plain_digits it"
    and ex: "ends \<longrightarrow> (r' = 0 \<longleftrightarrow> d dvd m * tb ^ 100)" using spec(3) by blast
  define out where "out = (if fd \<noteq> [] then it @ ''.'' @ fd else it)"
  define m' where "m' = m div d * tb ^ length fd + v"
  define d' where "d' = tb ^ length fd"
  have read: "parse_magnitude tb out = Inr (m', d')"
    unfolding out_def m'_def d'_def by (rule parse_written [OF e it])
  have r: "radix_convert value (int fb) (int tb) = [(''ok'', PBool True),
      (''value'', PStr ((if neg then ''-'' else '''') @ out @ (if ends then '''' else ''...''))),
      (''non_terminating'', PBool (\<not> ends))]"
    using assms(1-4,7) w spec(2) unfolding radix_convert_def assms(5) [symmetric] assms(6) [symmetric] Let_def out_def
    by auto
  have d': "0 < d'" using assms(3) by (simp add: d'_def)
  have "v * d + r' = m mod d * d'" and r': "r' < d" using e by (simp_all add: expansion_def d'_def)
  moreover have "m' * d + r' = m div d * d * d' + (v * d + r')" by (simp add: m'_def d'_def algebra_simps)
  ultimately have "m' * d + r' = m div d * d * d' + m mod d * d'" by simp
  then have "m' * d + r' = (m div d * d + m mod d) * d'" by (simp only: add_mult_distrib)
  then have "of_nat (m' * d + r') = (of_nat (m * d') :: rat)" by (simp only: div_mult_mod_eq)
  then have val: "of_nat m / of_nat d = of_nat m' / of_nat d' + of_nat r' / (of_nat d * of_nat d' :: rat)"
    using d d' by (simp add: field_simps)
  have lo: "0 \<le> of_nat r' / (of_nat d * of_nat d' :: rat)" by simp
  have hi: "of_nat r' / (of_nat d * of_nat d' :: rat) < 1 / of_nat d'" using r' d d' by (simp add: field_simps)
  have z: "of_nat r' / (of_nat d * of_nat d' :: rat) = 0 \<longleftrightarrow> r' = 0" using d d' by simp
  show ?thesis
    by (rule exI [of _ out], rule exI [of _ m'], rule exI [of _ d'], rule exI [of _ "\<not> ends"])
      (use r read spec(1) val lo hi z ex in auto)
qed

theorem radix_convert_value_witness:
  "\<exists>out m' d' nt. dget (radix_convert '' -F.8'' (int 16) (int 10)) ''value''
        = PStr ((if True then ''-'' else '''') @ out @ (if nt then ''...'' else ''''))
    \<and> dget (radix_convert '' -F.8'' (int 16) (int 10)) ''non_terminating'' = PBool nt
    \<and> parse_magnitude 10 out = Inr (m', d')
    \<and> nt = (\<nexists>k. 16 dvd 248 * (10 :: nat) ^ k)
    \<and> of_nat m' / of_nat d' \<le> (of_nat 248 / of_nat 16 :: rat)
    \<and> (of_nat 248 / of_nat 16 :: rat) < of_nat m' / of_nat d' + 1 / of_nat d'
    \<and> (\<not> nt \<longrightarrow> (of_nat m' / of_nat d' = (of_nat 248 / of_nat 16 :: rat) \<longleftrightarrow> 16 dvd 248 * (10 :: nat) ^ 100))"
  by (rule radix_convert_value [where s = "''-f.8''"]) code_simp+

end
