(* ===== verification/Translation.thy ===== *)
theory Translation
  imports Guarded "HOL-Library.Char_ord" "HOL-Library.List_Lexorder" "HOL-Library.Multiset"
begin

text \<open>
  \<open>codecalc/translation.py\<close>: whether two programs agree on the same inputs. A call of the
  executor is an argument \<open>run\<close> of the model, indexed by the number of the call: the same
  program on the same input may answer differently the second time, which is what the re-run of an
  empty side is about. By the executor's contract \<open>stdout\<close> is text when it is present.
\<close>

type_synonym runner = "nat \<Rightarrow> string \<Rightarrow> string \<Rightarrow> string \<Rightarrow> nat \<Rightarrow> dict"

section \<open>Normalisation\<close>

abbreviation LF :: char where "LF \<equiv> char_of (10 :: nat)"
abbreviation CR :: char where "CR \<equiv> char_of (13 :: nat)"

text \<open>\<open>s.replace("\r\n", "\n").replace("\r", "\n")\<close>.\<close>

fun fold_newlines :: "string \<Rightarrow> string" where
  "fold_newlines [] = []"
| "fold_newlines (c # cs) =
     (if c = CR then (case cs of d # ds \<Rightarrow> if d = LF then LF # fold_newlines ds else LF # fold_newlines cs
                      | [] \<Rightarrow> [LF])
      else c # fold_newlines cs)"

text \<open>\<open>s.split("\n")\<close>.\<close>

fun split_lines :: "string \<Rightarrow> string list" where
  "split_lines [] = [[]]"
| "split_lines (c # cs) =
     (if c = LF then [] # split_lines cs
      else (case split_lines cs of l # ls \<Rightarrow> (c # l) # ls | [] \<Rightarrow> [[c]]))"

definition blank :: "char \<Rightarrow> bool" where
  "blank c \<longleftrightarrow> of_char c = (32 :: nat) \<or> of_char c = (9 :: nat)"

definition normalize :: "string \<Rightarrow> string" where
  "normalize s = strip (\<lambda>c. blank c \<or> c = LF) (join [LF] (map (rstrip blank) (split_lines (fold_newlines s))))"

definition stdout_of :: "dict \<Rightarrow> string" where
  "stdout_of r = (case dget r ''stdout'' of PStr s \<Rightarrow> s | _ \<Rightarrow> [])"

definition text_of :: "pyval \<Rightarrow> string" where
  "text_of v = (case v of PStr s \<Rightarrow> s | _ \<Rightarrow> [])"

section \<open>One case\<close>

definition classify_case :: "dict \<Rightarrow> dict \<Rightarrow> string \<times> string" where
  "classify_case a b =
    (let a_ok = truthy (dget a ''ok''); b_ok = truthy (dget b ''ok'');
         a_out = normalize (stdout_of a); b_out = normalize (stdout_of b)
     in if \<not> a_ok \<and> dget a ''phase'' = PStr ''compile''
        then (''inconclusive'', ''the source program failed to compile; there is nothing to verify against'')
        else if \<not> b_ok \<and> dget b ''phase'' = PStr ''compile'' then (''mismatch'', ''the translation failed to compile'')
        else if a_ok \<and> b_ok then
          (if a_out \<noteq> b_out then (''mismatch'', ''both ran; stdout differs'')
           else if a_out = [] then (''inconclusive'',
             ''both programs succeeded but produced no output; an absence of output is not evidence of a match'')
           else (''match'', []))
        else if a_ok \<noteq> b_ok then (''mismatch'',
          (if a_ok then ''the translation'' else ''the source program'') @ '' failed while the other succeeded'')
        else (''inconclusive'', ''both programs failed at run time; their errors are not comparable''))"

definition vanished_output_side :: "dict \<Rightarrow> dict \<Rightarrow> string option" where
  "vanished_output_side a b =
    (if \<not> (truthy (dget a ''ok'') \<and> truthy (dget b ''ok'')) then None
     else let a_out = normalize (stdout_of a); b_out = normalize (stdout_of b)
       in if a_out \<noteq> [] \<and> b_out = [] then Some ''target''
          else if b_out \<noteq> [] \<and> a_out = [] then Some ''source'' else None)"

text \<open>The verdict on all the cases.\<close>

definition count_outcome :: "string \<Rightarrow> (string \<times> string) list \<Rightarrow> nat" where
  "count_outcome o' outcomes = length (filter (\<lambda>(x, r). x = o') outcomes)"

definition aggregate :: "(string \<times> string) list \<Rightarrow> dict" where
  "aggregate outcomes =
    (let matched = count_outcome ''match'' outcomes; mismatched = count_outcome ''mismatch'' outcomes;
         inconclusive = count_outcome ''inconclusive'' outcomes;
         (passed, reason) =
           (if mismatched \<noteq> 0 then (False, PStr (nat_str mismatched @ '' of '' @ nat_str (length outcomes)
                                           @ '' test input(s) showed different behaviour''))
            else if matched = 0 then (False, PStr (''could not verify: no test input produced a successful run of BOTH programs, ''
                                           @ ''so nothing was actually compared''))
            else (True, PNone))
     in [(''ok'', PBool True), (''passed'', PBool passed), (''reason'', reason), (''matched'', PInt (int matched)),
         (''mismatched'', PInt (int mismatched)), (''inconclusive'', PInt (int inconclusive)),
         (''total'', PInt (int (length outcomes)))])"

section \<open>Verification\<close>

record programs =
  source_lang :: string
  source_code :: string
  target_lang :: string
  target_code :: string
  run_timeout :: nat

text \<open>
  One input: the two runs, calls \<open>k\<close> and \<open>k + 1\<close>, their outcome, and the re-run of an empty
  side, call \<open>k + 2\<close>. The number of the next call comes with it.
\<close>

definition settle_case :: "runner \<Rightarrow> programs \<Rightarrow> nat \<Rightarrow> string \<Rightarrow> dict \<Rightarrow> dict \<Rightarrow> (string \<times> string) \<times> nat" where
  "settle_case run p k stdin a b =
    (let (outcome, reason) = classify_case a b in
     case (if outcome = ''mismatch'' then vanished_output_side a b else None) of
       None \<Rightarrow> ((outcome, reason), k + 2)
     | Some side \<Rightarrow>
         let retry = (if side = ''target'' then run (k + 2) (target_lang p) (target_code p) stdin (run_timeout p)
                      else run (k + 2) (source_lang p) (source_code p) stdin (run_timeout p))
         in if normalize (stdout_of retry) \<noteq> []
            then ((''inconclusive'', ''the '' @ side @ '' produced no output on the first run and output on a second run of the same input; ''
                   @ ''the runtime is not deterministic here, so neither result is evidence about the translation''), k + 3)
            else ((outcome, reason @ '' (the empty side was re-run and was empty again)''), k + 3))"

definition side_report :: "dict \<Rightarrow> pyval" where
  "side_report r = PDict
    [(''ok'', PBool (truthy (dget r ''ok''))), (''phase'', dget r ''phase''),
     (''stdout'', PStr (take 400 (normalize (stdout_of r)))), (''stdout_raw'', PStr (take 400 (stdout_of r))),
     (''stderr'', PStr (take 200 (text_of (dget r ''stderr''))))]"

definition case_report :: "string \<Rightarrow> string \<times> string \<Rightarrow> dict \<Rightarrow> dict \<Rightarrow> pyval" where
  "case_report stdin o' a b = PDict
    [(''input'', PStr (take 60 stdin)), (''outcome'', PStr (fst o')), (''reason'', PStr (snd o')),
     (''match'', PBool (fst o' = ''match'')), (''source'', side_report a), (''target'', side_report b)]"

fun run_cases :: "runner \<Rightarrow> programs \<Rightarrow> nat \<Rightarrow> string list \<Rightarrow> ((string \<times> string) \<times> pyval) list" where
  "run_cases run p k [] = []"
| "run_cases run p k (stdin # rest) =
    (let a = run k (source_lang p) (source_code p) stdin (run_timeout p);
         b = run (k + 1) (target_lang p) (target_code p) stdin (run_timeout p);
         (o', k') = settle_case run p k stdin a b
     in (o', case_report stdin o' a b) # run_cases run p k' rest)"

definition verify_translation :: "runner \<Rightarrow> programs \<Rightarrow> string list \<Rightarrow> dict" where
  "verify_translation run p test_inputs =
    (let cs = run_cases run p 0 test_inputs in aggregate (map fst cs) @ [(''cases'', PList (map snd cs))])"

section \<open>Many languages\<close>

definition DEFAULT_EDGE_INPUTS :: "string list" where
  "DEFAULT_EDGE_INPUTS = [[], ''0'', ''1'', ''-1'', ''10'', ''100'', ''0.1'' @ [LF] @ ''0.2'']"

definition run_entry :: "string \<Rightarrow> nat \<Rightarrow> dict \<Rightarrow> dict" where
  "run_entry lang timeout r =
    (let entry = [(''ok'', dget r ''ok''), (''stdout'', PStr (take 300 (normalize (stdout_of r)))),
                  (''stdout_raw'', PStr (take 300 (stdout_of r))), (''verdict'', dget r ''verdict''),
                  (''stderr'', PStr (take 150 (text_of (dget r ''stderr''))))];
         entry' = (if truthy (dget r ''error'') then dset ''error'' (dget r ''error'') entry else entry)
     in stamp_row entry' (truthy (dget r ''timed_out''))
          (Some (lang @ '' timed out after '' @ nat_str timeout @ ''s (wall-clock)'')))"

fun run_languages :: "runner \<Rightarrow> nat \<Rightarrow> nat \<Rightarrow> string \<Rightarrow> (string \<times> string) list \<Rightarrow> (string \<times> dict) list" where
  "run_languages run timeout k stdin [] = []"
| "run_languages run timeout k stdin ((lang, code) # rest) =
     (lang, run_entry lang timeout (run k lang code stdin timeout)) # run_languages run timeout (k + 1) stdin rest"

definition exact_behaviour :: "dict \<Rightarrow> pyval \<times> string list" where
  "exact_behaviour r = (dget r ''ok'', split_lines (stdout_of r))"

definition sorted_behaviour :: "dict \<Rightarrow> pyval \<times> string list" where
  "sorted_behaviour r = (dget r ''ok'', sort (split_lines (stdout_of r)))"

definition divergence_kind :: "bool \<Rightarrow> dict list \<Rightarrow> string option" where
  "divergence_kind order_sensitive runs =
    (if length runs \<le> 1 then None
     else let content_diverges = length (remdups (map sorted_behaviour runs)) > 1;
              order_diverges = \<not> content_diverges \<and> length (remdups (map exact_behaviour runs)) > 1
       in if content_diverges \<or> order_sensitive \<and> order_diverges
          then Some (if content_diverges then ''content'' else ''order'') else None)"

fun edge_rows :: "runner \<Rightarrow> nat \<Rightarrow> (string \<times> string) list \<Rightarrow> nat \<Rightarrow> string list \<Rightarrow> (string \<times> (string \<times> dict) list) list" where
  "edge_rows run timeout snippets k [] = []"
| "edge_rows run timeout snippets k (stdin # rest) =
     (stdin, run_languages run timeout k stdin snippets) # edge_rows run timeout snippets (k + length snippets) rest"

definition runs_value :: "(string \<times> dict) list \<Rightarrow> pyval" where
  "runs_value runs = PDict (map (\<lambda>(l, r). (l, PDict r)) runs)"

definition divergences_of :: "bool \<Rightarrow> (string \<times> (string \<times> dict) list) list \<Rightarrow> pyval list" where
  "divergences_of order_sensitive rows =
    concat (map (\<lambda>(stdin, runs). case divergence_kind order_sensitive (map snd runs) of
        None \<Rightarrow> []
      | Some kind \<Rightarrow> [PDict [(''input'', PStr (take 60 stdin)), (''languages'', PList (map (PStr \<circ> fst) runs)),
                            (''kind'', PStr kind), (''runs'', runs_value runs)]]) rows)"

definition compare_edge_cases :: "runner \<Rightarrow> (string \<times> string) list \<Rightarrow> string list option \<Rightarrow> nat \<Rightarrow> bool \<Rightarrow> dict" where
  "compare_edge_cases run snippets inputs timeout order_sensitive =
    (if snippets = [] then [(''ok'', PBool False), (''error'', PStr ''provide at least one {language: code} snippet'')]
     else let ins = (case inputs of Some (i # is') \<Rightarrow> i # is' | _ \<Rightarrow> DEFAULT_EDGE_INPUTS);
              rows = edge_rows run timeout snippets 0 ins;
              divergences = divergences_of order_sensitive rows
       in [(''ok'', PBool True), (''inputs'', PList (map PStr ins)), (''languages'', PList (map (PStr \<circ> fst) snippets)),
           (''divergence_count'', PInt (int (length divergences))),
           (''results'', PList (map (\<lambda>(stdin, runs). PDict [(''input'', PStr (take 60 stdin)), (''runs'', runs_value runs)]) rows)),
           (''divergences'', PList divergences)])"

section \<open>What counts as evidence\<close>

text \<open>
  The specification of the verdict. A case agrees when both programs ran and printed the same
  non-empty output. A case refutes the translation when the source built and either the translation
  did not, or exactly one of them ran successfully, or both did and printed different outputs, the
  empty one (if one was empty) being empty again when run a second time.
\<close>

definition case_runs :: "runner \<Rightarrow> programs \<Rightarrow> nat \<Rightarrow> string \<Rightarrow> dict \<times> dict" where
  "case_runs run p k stdin = (run k (source_lang p) (source_code p) stdin (run_timeout p),
     run (k + 1) (target_lang p) (target_code p) stdin (run_timeout p))"

definition broken :: "dict \<Rightarrow> bool" where
  "broken r \<longleftrightarrow> \<not> truthy (dget r ''ok'') \<and> dget r ''phase'' = PStr ''compile''"

definition printed :: "dict \<Rightarrow> string" where
  "printed r = normalize (stdout_of r)"

definition agrees :: "runner \<Rightarrow> programs \<Rightarrow> nat \<Rightarrow> string \<Rightarrow> bool" where
  "agrees run p k stdin = (case case_runs run p k stdin of (a, b) \<Rightarrow>
     truthy (dget a ''ok'') \<and> truthy (dget b ''ok'') \<and> printed a = printed b \<and> printed a \<noteq> [])"

definition refutes :: "runner \<Rightarrow> programs \<Rightarrow> nat \<Rightarrow> string \<Rightarrow> bool" where
  "refutes run p k stdin = (case case_runs run p k stdin of (a, b) \<Rightarrow>
     \<not> broken a \<and> (broken b \<or> truthy (dget a ''ok'') \<noteq> truthy (dget b ''ok'')
       \<or> truthy (dget a ''ok'') \<and> truthy (dget b ''ok'') \<and> printed a \<noteq> printed b
         \<and> (printed b = [] \<longrightarrow> printed (run (k + 2) (target_lang p) (target_code p) stdin (run_timeout p)) = [])
         \<and> (printed a = [] \<longrightarrow> printed (run (k + 2) (source_lang p) (source_code p) stdin (run_timeout p)) = [])))"

text \<open>The number of the first call of each case.\<close>

fun case_starts :: "runner \<Rightarrow> programs \<Rightarrow> nat \<Rightarrow> string list \<Rightarrow> nat list" where
  "case_starts run p k [] = []"
| "case_starts run p k (stdin # rest) =
    k # case_starts run p (snd (case case_runs run p k stdin of (a, b) \<Rightarrow> settle_case run p k stdin a b)) rest"

lemma classify_case_outcomes: "fst (classify_case a b) \<in> {''match'', ''mismatch'', ''inconclusive''}"
  by (simp add: classify_case_def Let_def)

lemma classify_case_match:
  "fst (classify_case a b) = ''match'' \<longleftrightarrow>
     truthy (dget a ''ok'') \<and> truthy (dget b ''ok'') \<and> printed a = printed b \<and> printed a \<noteq> []"
  by (auto simp: classify_case_def printed_def Let_def)

lemma classify_case_mismatch:
  "fst (classify_case a b) = ''mismatch'' \<longleftrightarrow>
     \<not> broken a \<and> (broken b \<or> truthy (dget a ''ok'') \<noteq> truthy (dget b ''ok'')
       \<or> truthy (dget a ''ok'') \<and> truthy (dget b ''ok'') \<and> printed a \<noteq> printed b)"
  by (auto simp: classify_case_def printed_def broken_def Let_def)

lemma vanished_cases:
  "vanished_output_side a b =
    (if truthy (dget a ''ok'') \<and> truthy (dget b ''ok'') \<and> (printed a = [] \<longleftrightarrow> printed b \<noteq> [])
     then Some (if printed b = [] then ''target'' else ''source'') else None)"
  by (auto simp: vanished_output_side_def printed_def Let_def)

lemma settle_case_outcome:
  "fst (fst (settle_case run p k stdin a b)) =
    (if fst (classify_case a b) = ''mismatch''
        \<and> (truthy (dget a ''ok'') \<and> truthy (dget b ''ok'') \<and> (printed a = [] \<longleftrightarrow> printed b \<noteq> []))
        \<and> printed (if printed b = [] then run (k + 2) (target_lang p) (target_code p) stdin (run_timeout p)
                   else run (k + 2) (source_lang p) (source_code p) stdin (run_timeout p)) \<noteq> []
     then ''inconclusive'' else fst (classify_case a b))"
  by (cases "classify_case a b") (auto simp: settle_case_def vanished_cases Let_def printed_def [of "run _ _ _ _ _"])

lemma settle_agrees:
  assumes "case_runs run p k stdin = (a, b)"
  shows "fst (fst (settle_case run p k stdin a b)) = ''match'' \<longleftrightarrow> agrees run p k stdin"
  using assms by (auto simp: settle_case_outcome classify_case_match agrees_def)

lemma settle_refutes:
  assumes "case_runs run p k stdin = (a, b)"
  shows "fst (fst (settle_case run p k stdin a b)) = ''mismatch'' \<longleftrightarrow> refutes run p k stdin"
  using assms by (auto simp: settle_case_outcome classify_case_mismatch refutes_def broken_def)

lemma run_cases_outcomes:
  "map (fst \<circ> fst) (run_cases run p k ins) =
    map (\<lambda>(k, stdin). fst (fst (case case_runs run p k stdin of (a, b) \<Rightarrow> settle_case run p k stdin a b)))
      (zip (case_starts run p k ins) ins)"
  by (induction ins arbitrary: k) (auto simp: Let_def case_runs_def split: prod.splits)

lemma case_starts_length [simp]: "length (case_starts run p k ins) = length ins"
  by (induction ins arbitrary: k) auto

text \<open>The outcome of the \<open>i\<close>-th case.\<close>

definition outcome_at :: "runner \<Rightarrow> programs \<Rightarrow> string list \<Rightarrow> nat \<Rightarrow> string" where
  "outcome_at run p ins i = (let k = case_starts run p 0 ins ! i; stdin = ins ! i in
     fst (fst (case case_runs run p k stdin of (a, b) \<Rightarrow> settle_case run p k stdin a b)))"

definition agreeing :: "runner \<Rightarrow> programs \<Rightarrow> string list \<Rightarrow> nat set" where
  "agreeing run p ins = {i. i < length ins \<and> agrees run p (case_starts run p 0 ins ! i) (ins ! i)}"

definition refuting :: "runner \<Rightarrow> programs \<Rightarrow> string list \<Rightarrow> nat set" where
  "refuting run p ins = {i. i < length ins \<and> refutes run p (case_starts run p 0 ins ! i) (ins ! i)}"

lemma run_cases_length [simp]: "length (run_cases run p k ins) = length ins"
  by (induction ins arbitrary: k) (auto simp: Let_def split: prod.splits)

lemma run_cases_nth:
  assumes "i < length ins"
  shows "fst (fst (run_cases run p 0 ins ! i)) = outcome_at run p ins i"
proof -
  have "fst (fst (run_cases run p 0 ins ! i)) = map (fst \<circ> fst) (run_cases run p 0 ins) ! i" using assms by simp
  also have "\<dots> = outcome_at run p ins i" unfolding run_cases_outcomes using assms by (simp add: outcome_at_def Let_def)
  finally show ?thesis .
qed

lemma count_outcome_card:
  "count_outcome o' (map fst (run_cases run p 0 ins)) = card {i. i < length ins \<and> outcome_at run p ins i = o'}"
proof -
  have "{i. i < length ins \<and> (case fst (run_cases run p 0 ins ! i) of (x, r) \<Rightarrow> x = o')} =
      {i. i < length ins \<and> outcome_at run p ins i = o'}"
    by (auto simp: run_cases_nth [symmetric] case_prod_beta)
  then show ?thesis by (simp add: count_outcome_def length_filter_conv_card cong: conj_cong)
qed

lemma outcome_at_cases: "outcome_at run p ins i \<in> {''match'', ''mismatch'', ''inconclusive''}"
  using classify_case_outcomes
  by (auto simp: outcome_at_def Let_def settle_case_outcome split: prod.splits)

lemma outcome_at_match: "{i. i < length ins \<and> outcome_at run p ins i = ''match''} = agreeing run p ins"
  using settle_agrees by (auto simp: outcome_at_def agreeing_def Let_def split: prod.splits)

lemma outcome_at_mismatch: "{i. i < length ins \<and> outcome_at run p ins i = ''mismatch''} = refuting run p ins"
  using settle_refutes by (auto simp: outcome_at_def refuting_def Let_def split: prod.splits)

lemma agreeing_not_refuting: "agreeing run p ins \<inter> refuting run p ins = {}"
  by (auto simp flip: outcome_at_match outcome_at_mismatch)

lemma finite_evidence [simp]: "finite (agreeing run p ins)" "finite (refuting run p ins)"
  by (simp_all add: agreeing_def refuting_def)

lemma count_inconclusive:
  "count_outcome ''inconclusive'' (map fst (run_cases run p 0 ins)) =
     length ins - (card (agreeing run p ins) + card (refuting run p ins))"
proof -
  have "{i. i < length ins \<and> outcome_at run p ins i = ''inconclusive''} =
      {..<length ins} - (agreeing run p ins \<union> refuting run p ins)"
    using outcome_at_cases [of run p ins]
    by (auto simp flip: outcome_at_match outcome_at_mismatch)
  moreover have "agreeing run p ins \<union> refuting run p ins \<subseteq> {..<length ins}"
    by (auto simp: agreeing_def refuting_def)
  ultimately show ?thesis
    by (simp add: count_outcome_card card_Diff_subset card_Un_disjoint agreeing_not_refuting)
qed

lemma verify_translation_passed:
  "dget (verify_translation run p ins) ''passed'' = PBool (agreeing run p ins \<noteq> {} \<and> refuting run p ins = {})"
  by (auto simp: verify_translation_def aggregate_def Let_def count_outcome_card outcome_at_match outcome_at_mismatch)


section \<open>When languages diverge\<close>

text \<open>
  Two runs behave alike on content when they agree on success and their lines are the same as
  multisets, and exactly when the lines are the same in the same order.
\<close>

definition same_content :: "dict \<Rightarrow> dict \<Rightarrow> bool" where
  "same_content r r' \<longleftrightarrow> dget r ''ok'' = dget r' ''ok'' \<and> mset (split_lines (stdout_of r)) = mset (split_lines (stdout_of r'))"

definition same_text :: "dict \<Rightarrow> dict \<Rightarrow> bool" where
  "same_text r r' \<longleftrightarrow> dget r ''ok'' = dget r' ''ok'' \<and> stdout_of r = stdout_of r'"

lemma split_lines_not_Nil [simp]: "split_lines s \<noteq> []"
  by (cases s) (auto split: list.splits)

lemma join_split_lines: "join [LF] (split_lines s) = s"
proof (induction s)
  case (Cons c cs)
  show ?case
  proof (cases "split_lines cs")
    case (Cons l ls)
    with Cons.IH show ?thesis by (cases ls) auto
  qed simp
qed simp

lemma split_lines_inject: "split_lines s = split_lines t \<longleftrightarrow> s = t"
  by (metis join_split_lines)

lemma many_values: "1 < length (remdups (map f xs)) \<longleftrightarrow> (\<exists>x \<in> set xs. \<exists>y \<in> set xs. f x \<noteq> f y)"
proof -
  have "1 < length (remdups (map f xs)) \<longleftrightarrow> \<not> card (f ` set xs) \<le> Suc 0" by (simp add: length_remdups_card_conv not_le)
  also have "\<dots> \<longleftrightarrow> (\<exists>x \<in> set xs. \<exists>y \<in> set xs. f x \<noteq> f y)"
    unfolding card_le_Suc0_iff_eq [OF finite_imageI [OF finite_set]] by blast
  finally show ?thesis .
qed

lemma sorted_behaviour_eq: "sorted_behaviour r = sorted_behaviour r' \<longleftrightarrow> same_content r r'"
proof -
  have "sort xs = sort ys \<longleftrightarrow> mset xs = mset ys" for xs ys :: "string list"
    by (metis mset_sort properties_for_sort sorted_sort)
  then show ?thesis by (simp add: sorted_behaviour_def same_content_def)
qed

lemma exact_behaviour_eq: "exact_behaviour r = exact_behaviour r' \<longleftrightarrow> same_text r r'"
  by (simp add: exact_behaviour_def same_text_def split_lines_inject)

text \<open>What a divergence is, by pairs of runs.\<close>

definition disagree :: "(dict \<Rightarrow> dict \<Rightarrow> bool) \<Rightarrow> dict list \<Rightarrow> bool" where
  "disagree same runs \<longleftrightarrow> (\<exists>r \<in> set runs. \<exists>r' \<in> set runs. \<not> same r r')"

lemma single_run_agrees:
  assumes "length runs \<le> 1"
  shows "\<not> disagree same_content runs" "\<not> disagree same_text runs"
  using assms by (cases runs; auto simp: disagree_def same_content_def same_text_def)+

lemma divergence_kind_pairs:
  "divergence_kind order_sensitive runs =
    (if disagree same_content runs then Some ''content''
     else if order_sensitive \<and> disagree same_text runs then Some ''order'' else None)"
  using single_run_agrees [of runs]
  by (auto simp: divergence_kind_def Let_def many_values [unfolded One_nat_def] sorted_behaviour_eq exact_behaviour_eq disagree_def)

lemma divergences_of_length:
  "length (divergences_of os rows) = length (filter (\<lambda>(stdin, runs). divergence_kind os (map snd runs) \<noteq> None) rows)"
  by (induction rows) (auto simp: divergences_of_def split: option.splits)

text \<open>
  \<open>compare_edge_cases\<close> counts exactly the inputs on which two of the languages behave
  differently: some pair of runs disagrees on success or on the lines printed, taken as a multiset,
  or, when the caller asked for order, on the text itself. Languages that print the same lines in a
  different order are no divergence otherwise.
\<close>

theorem compare_edge_cases_divergences:
  assumes "snippets \<noteq> []"
  shows "dget (compare_edge_cases run snippets (Some (i # ins)) timeout order_sensitive) ''divergence_count'' =
    PInt (int (length (filter (\<lambda>(stdin, runs). disagree same_content (map snd runs)
        \<or> order_sensitive \<and> disagree same_text (map snd runs))
      (edge_rows run timeout snippets 0 (i # ins)))))"
proof -
  have "(\<lambda>(stdin, runs). divergence_kind order_sensitive (map snd runs) \<noteq> None) =
      (\<lambda>(stdin :: string, runs :: (string \<times> dict) list). disagree same_content (map snd runs)
        \<or> order_sensitive \<and> disagree same_text (map snd runs))"
    by (auto simp: divergence_kind_pairs fun_eq_iff)
  then show ?thesis using assms
    by (simp add: compare_edge_cases_def Let_def divergences_of_length del: edge_rows.simps)
qed

text \<open>The same two lines in another order: a divergence only for a caller who asked for order.\<close>

definition swap_runner :: runner where
  "swap_runner k lang code stdin t = [(''ok'', PBool True),
     (''stdout'', PStr (if lang = ''go'' then ''b'' @ [LF] @ ''a'' else ''a'' @ [LF] @ ''b''))]"

theorem compare_edge_cases_divergences_witness:
  "[(''c'', ''x''), (''go'', ''y'')] \<noteq> [] \<and>
   dget (compare_edge_cases swap_runner [(''c'', ''x''), (''go'', ''y'')] (Some [''1'']) 5 True) ''divergence_count'' = PInt 1 \<and>
   dget (compare_edge_cases swap_runner [(''c'', ''x''), (''go'', ''y'')] (Some [''1'']) 5 False) ''divergence_count'' = PInt 0"
proof -
  define c where "c = run_entry ''c'' 5 (swap_runner 0 ''c'' ''x'' ''1'' 5)"
  define go where "go = run_entry ''go'' 5 (swap_runner 1 ''go'' ''y'' ''1'' 5)"
  have rows: "edge_rows swap_runner 5 [(''c'', ''x''), (''go'', ''y'')] 0 [''1''] = [(''1'', [(''c'', c), (''go'', go)])]"
    by (simp add: c_def go_def)
  have "stdout_of c = ''a'' @ [LF] @ ''b''" "stdout_of go = ''b'' @ [LF] @ ''a''"
    "dget c ''ok'' = PBool True" "dget go ''ok'' = PBool True"
    unfolding c_def go_def by code_simp+
  moreover have "split_lines (''a'' @ [LF] @ ''b'') = [''a'', ''b'']" "split_lines (''b'' @ [LF] @ ''a'') = [''b'', ''a'']"
    "''a'' @ [LF] @ ''b'' \<noteq> ''b'' @ [LF] @ ''a''"
    by code_simp+
  ultimately have "\<not> disagree same_content [c, go]" "disagree same_text [c, go]"
    by (simp_all only: disagree_def same_content_def same_text_def) auto
  then show ?thesis
    using compare_edge_cases_divergences [of "[(''c'', ''x''), (''go'', ''y'')]" swap_runner "''1''" "[]" 5 True]
      compare_edge_cases_divergences [of "[(''c'', ''x''), (''go'', ''y'')]" swap_runner "''1''" "[]" 5 False]
    by (simp add: rows del: edge_rows.simps)
qed

end
