(* ===== verification/Grades.thy ===== *)
theory Grades
  imports Translation
begin

text \<open>
  \<open>codecalc/grades.py\<close>: the evidence grade attached to the result of a verifier. The three
  graders share one contract (\<open>verdict_grader\<close>): they only add the three grade keys, and a real
  grade appears only on the verifier's own success. Reading a key of something that is no dictionary
  raises, as in the code.
\<close>

abbreviation EM_DASH :: string where
  "EM_DASH \<equiv> [char_of (226 :: nat), char_of (128 :: nat), char_of (148 :: nat)]"

section \<open>The vocabulary\<close>

abbreviation EXECUTED :: string where "EXECUTED \<equiv> ''executed''"
abbreviation CROSS_CHECKED :: string where "CROSS_CHECKED \<equiv> ''cross_checked''"
abbreviation SOLVER_PROVEN :: string where "SOLVER_PROVEN \<equiv> ''solver_proven''"
abbreviation UNGRADED :: string where "UNGRADED \<equiv> ''ungraded''"

definition GRADE_RULES_VERSION :: string where
  "GRADE_RULES_VERSION = ''2''"

definition GRADES :: "string list" where
  "GRADES = [EXECUTED, CROSS_CHECKED, SOLVER_PROVEN, UNGRADED]"

definition graded :: "dict \<Rightarrow> string \<Rightarrow> string \<Rightarrow> exn + dict" where
  "graded result grade basis =
    (if \<not> List.member GRADES grade
     then Inl (Exn ValueErr (''unknown grade '' @ repr_str grade @ '' '' @ EM_DASH @ '' not in codecalc.grades.GRADES''))
     else Inr (dmerge result [(''grade'', PStr grade), (''grade_basis'', PStr basis),
                              (''grade_rules_version'', PStr GRADE_RULES_VERSION)]))"

section \<open>Reading optional fields\<close>

text \<open>\<open>a or b\<close>.\<close>

definition py_or :: "pyval \<Rightarrow> pyval \<Rightarrow> pyval" where
  "py_or a b = (if truthy a then a else b)"

text \<open>\<open>v.get\<close> on a value that should be a dictionary, and \<open>len(v)\<close>.\<close>

definition as_dict :: "pyval \<Rightarrow> exn + dict" where
  "as_dict v = (case v of PDict d \<Rightarrow> Inr d
     | _ \<Rightarrow> Inl (Exn OtherExn (repr_str (type_name v) @ '' object has no attribute '' @ repr_str ''get'')))"

definition py_len :: "pyval \<Rightarrow> exn + nat" where
  "py_len v = (case v of PStr s \<Rightarrow> Inr (length s) | PList xs \<Rightarrow> Inr (length xs) | PDict d \<Rightarrow> Inr (length d)
     | _ \<Rightarrow> Inl (Exn TypeErr (''object of type '' @ repr_str (type_name v) @ '' has no len()'')))"

definition dindex :: "dict \<Rightarrow> string \<Rightarrow> exn + pyval" where
  "dindex d k = (case map_of d k of None \<Rightarrow> Inl (Exn KeyErr (repr_str k)) | Some v \<Rightarrow> Inr v)"

definition dget_or :: "dict \<Rightarrow> string \<Rightarrow> pyval \<Rightarrow> pyval" where
  "dget_or d k v = (case map_of d k of None \<Rightarrow> v | Some w \<Rightarrow> w)"

text \<open>\<open>isinstance(v, (int, float)) and not v <= 1\<close>.\<close>

fun exceeds_one :: "pyval \<Rightarrow> bool" where
  "exceeds_one (PInt i) = (1 < i)"
| "exceeds_one (PFloat q r) = (1 < q)"
| "exceeds_one (PInf neg) = (\<not> neg)"
| "exceeds_one v = False"

section \<open>The graders\<close>

definition grade_verify_translation :: "dict \<Rightarrow> string \<Rightarrow> string \<Rightarrow> exn + dict" where
  "grade_verify_translation result source_language target_language =
    (if \<not> truthy (dget result ''passed'')
     then graded result UNGRADED (''not graded: ''
            @ py_str (py_or (dget result ''reason'') (PStr ''no test input produced a comparable run'')))
     else graded result CROSS_CHECKED (''cross-checked: '' @ source_language @ '' source and '' @ target_language
            @ '' port independently agreed on '' @ py_str (dget result ''matched'') @ ''/''
            @ py_str (dget result ''total'') @ '' test input(s)''))"

text \<open>The sentence on significance, when the result has an inference.\<close>

definition significance_clause :: "dict \<Rightarrow> exn + string" where
  "significance_clause result =
    (if \<not> truthy (dget result ''inference'') then Inr []
     else rbind (as_dict (dget result ''inference'')) (\<lambda>inference.
       if \<not> truthy (dget inference ''sizes_total'') then Inr []
       else rbind (dindex inference ''sizes_rejecting'') (\<lambda>rejecting.
         let clause = ''; '' @ py_str rejecting @ ''/'' @ py_str (dget inference ''sizes_total'')
               @ '' size(s) significant at alpha=''
               @ py_str (dget_or inference ''effective_alpha'' (dget inference ''alpha''))
               @ '' (one-sided Mann-Whitney U)'';
             below_floor = py_or (dget inference ''sizes_below_floor'') (PList [])
         in if truthy below_floor
            then rbind (py_len below_floor) (\<lambda>n. Inr (clause @ '' ('' @ nat_str n @ '' size(s) excluded '' @ EM_DASH
                   @ '' not comparable, see inference.sizes_below_floor)''))
            else Inr clause)))"

definition grade_verify_optimization :: "dict \<Rightarrow> string \<Rightarrow> exn + dict" where
  "grade_verify_optimization result language =
    (if \<not> truthy (dget result ''accepted'')
     then graded result UNGRADED (''not graded: ''
            @ py_str (py_or (py_or (dget result ''reason'') (dget result ''error'')) (PStr ''not accepted'')))
     else rbind (as_dict (py_or (dget result ''verification'') (PDict []))) (\<lambda>verification.
       let matched = dget verification ''matched''; total' = dget verification ''total'' in
       rbind (as_dict (py_or (dget result ''speedup'') (PDict []))) (\<lambda>speedup.
         let ratio = dget speedup ''ratio'' in
         if \<not> exceeds_one ratio
         then graded result UNGRADED (''not graded: accepted, and the correctness check passed, but the measured speed ratio ''
                @ py_str ratio @ ''x is not a speedup (> 1x) '' @ EM_DASH @ '' '' @ repr_str ''genuine optimisation'' @ '' is unproven'')
         else rbind (py_len (py_or (dget speedup ''per_size'') (PList []))) (\<lambda>sizes_measured.
           rbind (significance_clause result) (\<lambda>clause.
             graded result CROSS_CHECKED (''cross-checked: original and candidate independently agreed on ''
               @ py_str matched @ ''/'' @ py_str total' @ '' test input(s) under '' @ language
               @ '' execution; speed measured at '' @ py_str ratio @ ''x (median) across '' @ nat_str sizes_measured
               @ '' size(s)'' @ clause))))))"

definition SAT_BASIS :: string where
  "SAT_BASIS = ''sat: a model was found '' @ EM_DASH @ '' satisfiability is decided, but solver_proven is reserved for ''
     @ ''unsat verdicts so a counterexample can never wear a proof grade; widening sat to solver_proven ''
     @ ''would be a deliberate, separate decision''"

definition grade_z3_check :: "dict \<Rightarrow> exn + dict" where
  "grade_z3_check result =
    (if \<not> truthy (dget result ''ok'') then graded result UNGRADED (''not graded: '' @ py_str (dget result ''error''))
     else let verdict = dget result ''result'' in
       if verdict = PStr ''unsat''
       then graded result SOLVER_PROVEN (py_str (py_or (dget result ''engine'') (PStr ''z3 (version unknown)''))
              @ '' returned unsat within its '' @ py_str (dget result ''timeout_ms'') @ ''ms timeout'')
       else if verdict = PStr ''sat'' then graded result UNGRADED SAT_BASIS
       else graded result UNGRADED (''not graded: z3 returned '' @ py_repr verdict @ '', which decides nothing''))"

section \<open>The contract of a grader\<close>

definition grade_keys :: "string list" where
  "grade_keys = [''grade'', ''grade_basis'', ''grade_rules_version'']"

lemma graded_ok:
  assumes "graded result g basis = Inr r"
  shows "dget r ''grade'' = PStr g" "List.member GRADES g" "dget r ''grade_basis'' = PStr basis"
    "dget r ''grade_rules_version'' = PStr GRADE_RULES_VERSION"
    "k \<notin> set grade_keys \<Longrightarrow> dget r k = dget result k"
  using assms by (auto simp: graded_def grade_keys_def dmerge_def split: if_splits)

lemma graded_total: "List.member GRADES g \<Longrightarrow> \<exists>r. graded result g basis = Inr r"
  by (simp add: graded_def)

text \<open>
  A grader of a verifier whose own success is \<open>success\<close>: what it returns is the result with a
  grade, and a grade other than \<open>ungraded\<close> means success.
\<close>

locale verdict_grader =
  fixes grader :: "dict \<Rightarrow> exn + dict"
    and success :: "dict \<Rightarrow> bool"
    and proof_grade :: string
  assumes grader_grades: "grader result = Inr r \<Longrightarrow>
      \<exists>g basis. graded result g basis = Inr r \<and> (g = UNGRADED \<or> g = proof_grade \<and> success result)"
begin

lemma only_adds_keys: "grader result = Inr r \<Longrightarrow> k \<notin> set grade_keys \<Longrightarrow> dget r k = dget result k"
  using grader_grades graded_ok(5) by blast

lemma grade_is_known: "grader result = Inr r \<Longrightarrow> \<exists>g. dget r ''grade'' = PStr g \<and> List.member GRADES g"
  using grader_grades graded_ok(1, 2) by metis

lemma real_grade_means_success:
  "grader result = Inr r \<Longrightarrow> dget r ''grade'' \<noteq> PStr UNGRADED \<Longrightarrow> success result \<and> dget r ''grade'' = PStr proof_grade"
  using grader_grades graded_ok(1) by metis

end

lemma grade_verify_translation_cases:
  "grade_verify_translation result src tgt = Inr r \<Longrightarrow> \<exists>g basis. graded result g basis = Inr r
     \<and> (g = UNGRADED \<or> g = CROSS_CHECKED \<and> truthy (dget result ''passed''))"
  by (auto simp: grade_verify_translation_def split: if_splits)

text \<open>What the optimisation grade claims: accepted, and a measured ratio above one.\<close>

definition faster :: "dict \<Rightarrow> bool" where
  "faster result \<longleftrightarrow> truthy (dget result ''accepted'') \<and>
     (\<exists>speedup. dget result ''speedup'' = PDict speedup \<and> exceeds_one (dget speedup ''ratio''))"

lemma as_dict_ok: "as_dict v = Inr d \<longleftrightarrow> v = PDict d"
  by (auto simp: as_dict_def split: pyval.splits)

lemma faster_speedup:
  assumes "as_dict (py_or (dget result ''speedup'') (PDict [])) = Inr speedup" "exceeds_one (dget speedup ''ratio'')"
    "truthy (dget result ''accepted'')"
  shows "faster result"
  using assms by (auto simp: faster_def as_dict_ok py_or_def split: if_splits)

lemma grade_verify_optimization_cases:
  "grade_verify_optimization result language = Inr r \<Longrightarrow> \<exists>g basis. graded result g basis = Inr r
     \<and> (g = UNGRADED \<or> g = CROSS_CHECKED \<and> faster result)"
  by (auto simp: grade_verify_optimization_def Let_def rbind_eq_Inr intro: faster_speedup split: if_splits)

lemma grade_z3_check_cases:
  "grade_z3_check result = Inr r \<Longrightarrow> \<exists>g basis. graded result g basis = Inr r
     \<and> (g = UNGRADED \<or> g = SOLVER_PROVEN \<and> truthy (dget result ''ok'') \<and> dget result ''result'' = PStr ''unsat'')"
  by (auto simp: grade_z3_check_def Let_def split: if_splits)

interpretation translation_grade:
  verdict_grader "\<lambda>result. grade_verify_translation result src tgt" "\<lambda>result. truthy (dget result ''passed'')" CROSS_CHECKED
  for src tgt by unfold_locales (rule grade_verify_translation_cases)

interpretation optimization_grade: verdict_grader "\<lambda>result. grade_verify_optimization result language" faster CROSS_CHECKED
  for language by unfold_locales (rule grade_verify_optimization_cases)

interpretation z3_grade:
  verdict_grader grade_z3_check "\<lambda>result. truthy (dget result ''ok'') \<and> dget result ''result'' = PStr ''unsat''" SOLVER_PROVEN
  by unfold_locales (rule grade_z3_check_cases)

section \<open>No grade without evidence\<close>

lemma known_grades [simp]: "List.member GRADES CROSS_CHECKED" "List.member GRADES UNGRADED" "List.member GRADES SOLVER_PROVEN"
  by (simp_all add: GRADES_def)

lemma grade_verify_translation_total:
  "\<exists>r basis. grade_verify_translation result src tgt = Inr r
     \<and> graded result (if truthy (dget result ''passed'') then CROSS_CHECKED else UNGRADED) basis = Inr r"
proof -
  have same: "\<exists>r b'. graded result g b = Inr r \<and> graded result g b' = Inr r" if "List.member GRADES g" for g b
    using graded_total [OF that] by blast
  show ?thesis
    by (cases "truthy (dget result ''passed'')") (simp_all only: grade_verify_translation_def same known_grades if_True if_False not_True_eq_False not_False_eq_True)
qed

lemma z3_grade_iff:
  assumes "grade_z3_check z = Inr r"
  shows "dget r ''grade'' = PStr SOLVER_PROVEN \<longleftrightarrow> truthy (dget z ''ok'') \<and> dget z ''result'' = PStr ''unsat''"
proof
  assume "dget r ''grade'' = PStr SOLVER_PROVEN"
  then show "truthy (dget z ''ok'') \<and> dget z ''result'' = PStr ''unsat''"
    using z3_grade.real_grade_means_success [OF assms] by simp
next
  assume "truthy (dget z ''ok'') \<and> dget z ''result'' = PStr ''unsat''"
  with assms have "\<exists>basis. graded z SOLVER_PROVEN basis = Inr r" by (auto simp: grade_z3_check_def)
  then show "dget r ''grade'' = PStr SOLVER_PROVEN" using graded_ok(1) by blast
qed

text \<open>
  The grade of a translation is total and says what was observed: the grader never raises on
  a report of \<open>verify_translation\<close>, and the report is graded \<open>cross_checked\<close> exactly when some
  input made both programs print the same non-empty output and no input refutes the translation;
  otherwise it is explicitly \<open>ungraded\<close>. The report itself is unchanged.
\<close>

theorem translation_grade_is_evidence:
  "case grade_verify_translation (verify_translation run p ins) (source_lang p) (target_lang p) of
     Inl e \<Rightarrow> False
   | Inr r \<Rightarrow> dget r ''grade'' = PStr (if agreeing run p ins \<noteq> {} \<and> refuting run p ins = {} then CROSS_CHECKED else UNGRADED)
       \<and> dget r ''passed'' = dget (verify_translation run p ins) ''passed''
       \<and> dget r ''cases'' = dget (verify_translation run p ins) ''cases''"
proof -
  let ?v = "verify_translation run p ins"
  have ok: "truthy (dget ?v ''passed'') \<longleftrightarrow> agreeing run p ins \<noteq> {} \<and> refuting run p ins = {}"
    by (simp add: verify_translation_passed)
  obtain r basis where r: "grade_verify_translation ?v (source_lang p) (target_lang p) = Inr r"
    and g: "graded ?v (if truthy (dget ?v ''passed'') then CROSS_CHECKED else UNGRADED) basis = Inr r"
    using grade_verify_translation_total by blast
  show ?thesis
    using graded_ok(1) [OF g] graded_ok(5) [OF g, of "''passed''"] graded_ok(5) [OF g, of "''cases''"]
    by (simp add: r ok grade_keys_def)
qed

text \<open>
  A proof grade on a solver result means the solver answered \<open>unsat\<close>, and a
  \<open>cross_checked\<close> optimisation was accepted with a measured ratio above one: no satisfiable,
  undecided, failed or slower result carries a grade other than \<open>ungraded\<close>, and the value is
  always one of the four grades.
\<close>

theorem real_grades_are_earned:
  "(grade_z3_check z = Inr r \<longrightarrow> (\<exists>g. dget r ''grade'' = PStr g \<and> List.member GRADES g)
      \<and> (dget r ''grade'' = PStr SOLVER_PROVEN \<longleftrightarrow> truthy (dget z ''ok'') \<and> dget z ''result'' = PStr ''unsat'')
      \<and> (dget r ''grade'' \<noteq> PStr UNGRADED \<longrightarrow> dget r ''grade'' = PStr SOLVER_PROVEN))
   \<and> (grade_verify_optimization o' lang = Inr q \<longrightarrow> (\<exists>g. dget q ''grade'' = PStr g \<and> List.member GRADES g)
      \<and> (dget q ''grade'' \<noteq> PStr UNGRADED \<longrightarrow> faster o' \<and> dget q ''grade'' = PStr CROSS_CHECKED))"
proof (intro conjI impI)
  assume z: "grade_z3_check z = Inr r"
  show "\<exists>g. dget r ''grade'' = PStr g \<and> List.member GRADES g" by (rule z3_grade.grade_is_known [OF z])
  show "dget r ''grade'' = PStr SOLVER_PROVEN \<longleftrightarrow> truthy (dget z ''ok'') \<and> dget z ''result'' = PStr ''unsat''"
    by (rule z3_grade_iff [OF z])
  show "dget r ''grade'' = PStr SOLVER_PROVEN" if "dget r ''grade'' \<noteq> PStr UNGRADED"
    using z3_grade.real_grade_means_success [OF z that] ..
next
  assume q: "grade_verify_optimization o' lang = Inr q"
  show "\<exists>g. dget q ''grade'' = PStr g \<and> List.member GRADES g" by (rule optimization_grade.grade_is_known [OF q])
  show "faster o'" if "dget q ''grade'' \<noteq> PStr UNGRADED"
    using optimization_grade.real_grade_means_success [OF q that] ..
  show "dget q ''grade'' = PStr CROSS_CHECKED" if "dget q ''grade'' \<noteq> PStr UNGRADED"
    using optimization_grade.real_grade_means_success [OF q that] ..
qed

definition unsat_result :: dict where
  "unsat_result = [(''ok'', PBool True), (''result'', PStr ''unsat''), (''engine'', PStr ''z3 4.13''), (''timeout_ms'', PInt 5000)]"

definition accepted_result :: dict where
  "accepted_result = [(''accepted'', PBool True), (''verification'', PDict [(''matched'', PInt 3), (''total'', PInt 3)]),
     (''speedup'', PDict [(''ratio'', PFloat 2 ''2.0''), (''per_size'', PList [PNone])])]"

theorem real_grades_are_earned_witness:
  "(case grade_z3_check unsat_result of Inr r \<Rightarrow> dget r ''grade'' = PStr SOLVER_PROVEN | Inl e \<Rightarrow> False)
   \<and> (case grade_verify_optimization accepted_result ''python'' of
        Inr q \<Rightarrow> dget q ''grade'' = PStr CROSS_CHECKED \<and> faster accepted_result | Inl e \<Rightarrow> False)"
proof -
  have "(case grade_z3_check unsat_result of Inr r \<Rightarrow> True | Inl e \<Rightarrow> False)"
    and u: "truthy (dget unsat_result ''ok'') \<and> dget unsat_result ''result'' = PStr ''unsat''"
    by code_simp+
  then obtain r where r: "grade_z3_check unsat_result = Inr r" by (cases "grade_z3_check unsat_result") simp_all
  have "(case grade_verify_optimization accepted_result ''python'' of
      Inr q \<Rightarrow> dget q ''grade'' = PStr CROSS_CHECKED | Inl e \<Rightarrow> False)"
    by code_simp
  then obtain q where q: "grade_verify_optimization accepted_result ''python'' = Inr q" "dget q ''grade'' = PStr CROSS_CHECKED"
    by (cases "grade_verify_optimization accepted_result ''python''") simp_all
  have "dget r ''grade'' = PStr SOLVER_PROVEN"
    using real_grades_are_earned [THEN conjunct1, THEN mp, OF r] u by blast
  moreover have "faster accepted_result"
    using real_grades_are_earned [THEN conjunct2, THEN mp, OF q(1)] q(2) by simp
  ultimately show ?thesis by (simp add: r q)
qed

end
