(* ===== verification/Audit_Log.thy ===== *)
theory Audit_Log
  imports Guarded "HOL-Library.Char_ord" "HOL-Library.List_Lexorder"
begin

text \<open>
  \<open>codecalc/audit.py\<close>: the append-only audit trail. An event is a dictionary, its line the
  \<open>json.dumps(event, sort_keys=True)\<close> of it with the configured secrets redacted. The trail is
  the live file and two rotated generations; the file system (whether a write succeeds) and the
  clock are arguments of an emission.
\<close>

section \<open>JSON text\<close>

definition json_char :: "char \<Rightarrow> string" where
  "json_char c = (let n = (of_char c :: nat); bs = char_of (92 :: nat) in
     if n = 34 \<or> n = 92 then [bs, c]
     else if n = 10 then [bs, CHR ''n''] else if n = 13 then [bs, CHR ''r''] else if n = 9 then [bs, CHR ''t'']
     else if n = 8 then [bs, CHR ''b''] else if n = 12 then [bs, CHR ''f'']
     else if n < 32 \<or> n > 126 then [bs] @ ''u00'' @ [hex_digit (n div 16), hex_digit (n mod 16)]
     else [c])"

definition json_str :: "string \<Rightarrow> string" where
  "json_str s = [char_of (34 :: nat)] @ concat (map json_char s) @ [char_of (34 :: nat)]"

text \<open>\<open>json.dumps(v, sort_keys=True)\<close>; dictionaries have no repeated key.\<close>

fun json_dumps :: "pyval \<Rightarrow> string" where
  "json_dumps PNone = ''null''"
| "json_dumps (PBool b) = (if b then ''true'' else ''false'')"
| "json_dumps (PInt i) = int_str i"
| "json_dumps (PFloat q r) = r"
| "json_dumps (PInf neg) = (if neg then ''-Infinity'' else ''Infinity'')"
| "json_dumps (PStr s) = json_str s"
| "json_dumps (PList xs) = ''['' @ join '', '' (map json_dumps xs) @ '']''"
| "json_dumps (PDict d) =
     ''{'' @ join '', '' (map snd (sort_key fst (map (\<lambda>(k, v). (k, json_str k @ '': '' @ json_dumps v)) d))) @ ''}''"

section \<open>Events\<close>

record audit_log =
  audit_path :: "string option"
  audit_secrets :: "string list"
  audit_warned :: bool
  audit_files :: "string list list"

abbreviation CAPABILITY_APPROVED :: string where "CAPABILITY_APPROVED \<equiv> ''capability_approved''"
abbreviation CAPABILITY_DENIED :: string where "CAPABILITY_DENIED \<equiv> ''capability_denied''"
abbreviation CAPABILITY_REJECTED :: string where "CAPABILITY_REJECTED \<equiv> ''capability_rejected''"
abbreviation CONFIRMATION_GRANTED :: string where "CONFIRMATION_GRANTED \<equiv> ''confirmation_granted''"
abbreviation CONFIRMATION_REFUSED :: string where "CONFIRMATION_REFUSED \<equiv> ''confirmation_refused''"
abbreviation CONFIRMATION_GATE_SKIPPED :: string where "CONFIRMATION_GATE_SKIPPED \<equiv> ''confirmation_gate_skipped''"

definition AUDIT_KEEP_N :: nat where "AUDIT_KEEP_N = 2"

text \<open>\<open>AuditLog(path, secrets=...)\<close>: distinct non-empty secrets, the longest first.\<close>

definition new_audit :: "string option \<Rightarrow> string list \<Rightarrow> audit_log" where
  "new_audit path secrets =
    \<lparr>audit_path = path, audit_secrets = rev (sort_key length (remdups (filter (\<lambda>s. s \<noteq> []) secrets))),
     audit_warned = False, audit_files = []\<rparr>"

text \<open>\<open>line.replace(secret, "[REDACTED]")\<close>, left to right and without overlap.\<close>

function (sequential) replace_all :: "string \<Rightarrow> string \<Rightarrow> string \<Rightarrow> string" where
  "replace_all secret w [] = []"
| "replace_all secret w (c # cs) =
     (if secret \<noteq> [] \<and> prefix secret (c # cs) then w @ replace_all secret w (drop (length secret) (c # cs))
      else c # replace_all secret w cs)"
  by pat_completeness auto
termination by (relation "measure (\<lambda>(s, w, t). length t)") (auto simp: length_greater_0_conv)

definition redact :: "audit_log \<Rightarrow> string \<Rightarrow> string" where
  "redact a line = fold (\<lambda>secret t. replace_all secret ''[REDACTED]'' t) (audit_secrets a) line"

section \<open>Rotation and emission\<close>

text \<open>
  The files, newest first: the live file, then its rotated generations; a missing file is not in
  the list. The size of a file is the number of its characters, line feeds included.
\<close>

definition file_size :: "string list \<Rightarrow> nat" where
  "file_size ls = sum_list (map (\<lambda>l. length l + 1) ls)"

definition rotate_files :: "string list list \<Rightarrow> string list list" where
  "rotate_files files = take (AUDIT_KEEP_N + 1) ([] # files)"

definition append_line :: "string \<Rightarrow> string list list \<Rightarrow> string list list" where
  "append_line l files = (case files of [] \<Rightarrow> [[l]] | f # fs \<Rightarrow> (f @ [l]) # fs)"

definition oversized :: "nat \<Rightarrow> string list list \<Rightarrow> bool" where
  "oversized max_bytes files = (case files of [] \<Rightarrow> False | f # fs \<Rightarrow> file_size f \<ge> max_bytes)"

definition audit_event :: "string \<Rightarrow> string \<Rightarrow> dict \<Rightarrow> dict" where
  "audit_event timestamp event_type given =
    dmerge [(''timestamp'', PStr timestamp), (''event_type'', PStr event_type), (''run_id'', PNone),
            (''session_id'', PNone), (''decision'', PNone), (''reason'', PNone)] given"

definition emit :: "bool \<Rightarrow> nat \<Rightarrow> string \<Rightarrow> audit_log \<Rightarrow> string \<Rightarrow> dict \<Rightarrow> dict \<times> audit_log" where
  "emit writable max_bytes timestamp a event_type given =
    (let event = audit_event timestamp event_type given in
     case audit_path a of
       None \<Rightarrow> (event, a)
     | Some p \<Rightarrow>
         if \<not> writable then (event, a\<lparr>audit_warned := True\<rparr>)
         else let line = redact a (json_dumps (PDict event));
                  files = (if oversized max_bytes (audit_files a) then rotate_files (audit_files a) else audit_files a)
              in (event, a\<lparr>audit_files := append_line line files\<rparr>))"

text \<open>The trail, oldest line first.\<close>

definition trail :: "audit_log \<Rightarrow> string list" where
  "trail a = concat (rev (audit_files a))"

definition wf_audit :: "audit_log \<Rightarrow> bool" where
  "wf_audit a \<longleftrightarrow> length (audit_files a) \<le> AUDIT_KEEP_N + 1 \<and> (audit_path a = None \<longrightarrow> audit_files a = [])"

lemma wf_new_audit [simp]: "wf_audit (new_audit p s)"
  by (simp add: wf_audit_def new_audit_def)

lemma append_line_length: "length (append_line l fs) = max 1 (length fs)"
  by (cases fs) (auto simp: append_line_def)

lemma append_line_trail: "concat (rev (append_line l fs)) = concat (rev fs) @ [l]"
  by (cases fs) (auto simp: append_line_def)

lemma rotate_files_length: "length (rotate_files fs) \<le> AUDIT_KEEP_N + 1"
  by (simp add: rotate_files_def)

lemma rotate_files_trail: "suffix (concat (rev (rotate_files fs))) (concat (rev fs))"
proof -
  have "fs = take AUDIT_KEEP_N fs @ drop AUDIT_KEEP_N fs" by simp
  then have "concat (rev fs) = concat (rev (drop AUDIT_KEEP_N fs)) @ concat (rev (take AUDIT_KEEP_N fs))"
    by (metis concat_append rev_append)
  then show ?thesis by (auto simp: rotate_files_def suffix_def)
qed

lemma wf_emit: "wf_audit a \<Longrightarrow> wf_audit (snd (emit wr mx ts a ty fs))"
  using rotate_files_length [of "audit_files a"]
  by (auto simp: emit_def wf_audit_def Let_def append_line_length AUDIT_KEEP_N_def split: option.splits)

text \<open>
  An emission never raises and never rewrites the trail: it appends one redacted line (or
  none, when the sink is off or not writable), whole generations drop off the old end only, and at
  most two rotated generations are kept.
\<close>

theorem emit_appends:
  assumes "wf_audit a" and "emit writable max_bytes timestamp a event_type given = (event, a')"
  shows "wf_audit a' \<and> event = audit_event timestamp event_type given
    \<and> (if audit_path a \<noteq> None \<and> writable
       then \<exists>kept. suffix kept (trail a) \<and> trail a' = kept @ [redact a (json_dumps (PDict event))]
         \<and> (\<not> oversized max_bytes (audit_files a) \<longrightarrow> kept = trail a)
       else trail a' = trail a)"
proof -
  have "wf_audit a'" using wf_emit [OF assms(1)] assms(2) by (metis snd_conv)
  moreover have "event = audit_event timestamp event_type given"
    using assms(2) by (auto simp: emit_def Let_def split: option.splits if_splits)
  moreover have "trail a' = trail a" if "\<not> (audit_path a \<noteq> None \<and> writable)"
    using assms(2) that by (auto simp: emit_def Let_def trail_def split: option.splits if_splits)
  moreover have "\<exists>kept. suffix kept (trail a) \<and> trail a' = kept @ [redact a (json_dumps (PDict event))]
      \<and> (\<not> oversized max_bytes (audit_files a) \<longrightarrow> kept = trail a)" if "audit_path a \<noteq> None \<and> writable"
  proof (cases "oversized max_bytes (audit_files a)")
    case True
    then show ?thesis
      using assms(2) that rotate_files_trail [of "audit_files a"]
      by (intro exI [of _ "concat (rev (rotate_files (audit_files a)))"])
        (auto simp: emit_def Let_def trail_def append_line_trail)
  next
    case False
    then show ?thesis
      using assms(2) that by (intro exI [of _ "trail a"]) (auto simp: emit_def Let_def trail_def append_line_trail)
  qed
  ultimately show ?thesis by simp
qed

theorem emit_appends_witness:
  "wf_audit (snd (emit True 10 ''t'' (new_audit (Some ''audit.log'') []) CAPABILITY_DENIED []))"
  using emit_appends [of "new_audit (Some ''audit.log'') []" True 10 "''t''" CAPABILITY_DENIED "[]"]
  by (metis prod.collapse wf_new_audit)

end
