(* ===== verification/Capabilities.thy ===== *)
theory Capabilities
  imports Audit_Log
begin

text \<open>
  \<open>codecalc/capabilities.py\<close>, the capability broker, and \<open>execution_service.broker_run\<close>,
  which audits and enforces its decision. A capability is its name and a \<open>frozenset\<close> a set of
  names; a specification is a record with the \<open>no_net\<close> flag, the other fields of
  \<open>ComputationSpec\<close> being its extension.
\<close>

abbreviation NETWORK :: string where "NETWORK \<equiv> ''network''"
abbreviation CAPABILITY_NOT_REQUESTED :: string where "CAPABILITY_NOT_REQUESTED \<equiv> ''capability_not_requested''"
abbreviation CAPABILITY_UNENFORCEABLE :: string where "CAPABILITY_UNENFORCEABLE \<equiv> ''capability_unenforceable''"

type_synonym caps = "string set"

record policy =
  default_deny :: caps
  grant :: caps
  strict :: bool
  source :: string

record decision =
  requested :: caps
  approved :: caps
  provider_supported :: caps
  denied :: caps
  effective :: caps
  brokered :: bool
  policy_source :: string
  rejected :: bool
  reason :: "string option"
  provider_error :: "string option"

record cap_spec =
  no_net :: bool

text \<open>\<open>sorted(names)\<close> as a list value, and an optional text.\<close>

definition sorted_names :: "caps \<Rightarrow> pyval" where
  "sorted_names s = PList (map PStr (sorted_list_of_set s))"

definition opt_str :: "string option \<Rightarrow> pyval" where
  "opt_str x = (case x of None \<Rightarrow> PNone | Some s \<Rightarrow> PStr s)"

definition or_none :: "string \<Rightarrow> pyval" where
  "or_none s = (if s = [] then PNone else PStr s)"

definition to_receipt :: "decision \<Rightarrow> dict" where
  "to_receipt d =
    [(''requested'', sorted_names (requested d)), (''approved'', sorted_names (approved d)),
     (''provider_supported'', sorted_names (provider_supported d)), (''effective'', sorted_names (effective d)),
     (''denied'', sorted_names (denied d)), (''brokered'', PBool (brokered d)), (''policy'', or_none (policy_source d))]"

definition requested_capabilities :: "'a cap_spec_scheme \<Rightarrow> caps" where
  "requested_capabilities spec = (if \<not> no_net spec then {NETWORK} else {})"

definition provider_supported_capabilities :: "dict \<Rightarrow> caps" where
  "provider_supported_capabilities descriptor =
    (case dget descriptor ''capabilities'' of
       PDict c \<Rightarrow> if truthy (dget c ''network_control'') then {NETWORK} else {}
     | _ \<Rightarrow> {})"

definition reject :: "caps \<Rightarrow> caps \<Rightarrow> policy \<Rightarrow> string \<Rightarrow> string \<Rightarrow> decision" where
  "reject req supported pol why err =
    \<lparr>requested = req, approved = {}, provider_supported = supported, denied = req, effective = {},
     brokered = True, policy_source = source pol, rejected = True, reason = Some why, provider_error = Some err\<rparr>"

definition names_text :: "caps \<Rightarrow> string" where
  "names_text s = repr_str (join '', '' (sorted_list_of_set s))"

definition broker :: "caps \<Rightarrow> policy \<Rightarrow> caps \<Rightarrow> decision" where
  "broker req pol supported =
    (let escalation = grant pol - req in
     if escalation \<noteq> {} then
       reject req supported pol
         (''policy would grant capability '' @ names_text escalation @ '' that the request did not ask for; ''
          @ ''policy may narrow requested capabilities but never add to them'')
         CAPABILITY_NOT_REQUESTED
     else let appr = {cap \<in> req. cap \<notin> default_deny pol \<or> cap \<in> grant pol};
              den = req - appr;
              unenforceable = den - supported
       in if strict pol \<and> unenforceable \<noteq> {} then
            reject req supported pol
              (''strict policy: the denial of capability '' @ names_text unenforceable
               @ '' cannot be enforced by the selected provider (no provider enforcement available)'')
              CAPABILITY_UNENFORCEABLE
          else \<lparr>requested = req, approved = appr, provider_supported = supported, denied = den,
                effective = appr \<union> (den - supported), brokered = True, policy_source = source pol,
                rejected = False, reason = None, provider_error = None\<rparr>)"

definition passthrough :: "'a cap_spec_scheme \<Rightarrow> dict \<Rightarrow> decision" where
  "passthrough spec descriptor =
    (let req = requested_capabilities spec in
     \<lparr>requested = req, approved = req, provider_supported = provider_supported_capabilities descriptor,
      denied = {}, effective = req, brokered = False, policy_source = [], rejected = False, reason = None,
      provider_error = None\<rparr>)"

definition decide :: "'a cap_spec_scheme \<Rightarrow> dict \<Rightarrow> policy option \<Rightarrow> decision" where
  "decide spec descriptor pol =
    (case pol of None \<Rightarrow> passthrough spec descriptor
     | Some p \<Rightarrow> broker (requested_capabilities spec) p (provider_supported_capabilities descriptor))"

definition enforced_spec :: "'a cap_spec_scheme \<Rightarrow> decision \<Rightarrow> 'a cap_spec_scheme" where
  "enforced_spec spec d =
    (if NETWORK \<in> denied d \<and> NETWORK \<in> provider_supported d \<and> \<not> no_net spec then spec\<lparr>no_net := True\<rparr> else spec)"

definition rejection_result :: "decision \<Rightarrow> string option \<Rightarrow> dict" where
  "rejection_result d provider_id =
    error_result PERMISSION_DENIED
      (case reason d of Some r \<Rightarrow> (if r = [] then ''capability request rejected by policy'' else r)
       | None \<Rightarrow> ''capability request rejected by policy'')
      ([(''provider_error'', opt_str (provider_error d)), (''requested_capabilities'', sorted_names (requested d))]
       @ (case provider_id of None \<Rightarrow> [] | Some p \<Rightarrow> [(''requested_provider'', PStr p)]))"

section \<open>The policy of the environment\<close>

fun split_comma :: "string \<Rightarrow> string \<Rightarrow> string list" where
  "split_comma acc [] = [acc]"
| "split_comma acc (c # cs) = (if c = CHR '','' then acc # split_comma [] cs else split_comma (acc @ [c]) cs)"

definition directives_of :: "string \<Rightarrow> string list" where
  "directives_of raw = map (\<lambda>t. lower (strip is_space t)) (filter (\<lambda>t. strip is_space t \<noteq> []) (split_comma [] raw))"

definition DENY_DIRECTIVES :: "string list" where
  "DENY_DIRECTIVES = [''deny-network'', ''no-network'', ''default-deny-network'']"

definition GRANT_DIRECTIVES :: "string list" where
  "GRANT_DIRECTIVES = [''allow-network'', ''grant-network'']"

definition apply_directive :: "string \<Rightarrow> policy \<Rightarrow> policy" where
  "apply_directive t p =
    (if List.member DENY_DIRECTIVES t then p\<lparr>default_deny := insert NETWORK (default_deny p)\<rparr>
     else if List.member GRANT_DIRECTIVES t then p\<lparr>grant := insert NETWORK (grant p)\<rparr>
     else if t = ''strict'' then p\<lparr>strict := True\<rparr> else p)"

text \<open>\<open>policy_from_env\<close>, from the value of \<open>CODECALC_CAPABILITY_POLICY\<close> when it is set.\<close>

definition policy_from_env :: "string option \<Rightarrow> policy option" where
  "policy_from_env var =
    (let raw = strip is_space (case var of None \<Rightarrow> [] | Some v \<Rightarrow> v) in
     if raw = [] then None
     else Some (fold apply_directive (directives_of raw) \<lparr>default_deny = {}, grant = {}, strict = False, source = raw\<rparr>))"

section \<open>Brokering one run\<close>

text \<open>
  \<open>broker_run\<close>: the specification to run, the decision, and the refusal, with the event it
  emits. \<open>contract.stamp\<close> adds the contract version.
\<close>

definition stamp :: "string \<Rightarrow> dict \<Rightarrow> dict" where
  "stamp version result = (if has_key result ''contract_version'' then result
     else dset ''contract_version'' (PStr version) result)"

definition broker_event :: "decision \<Rightarrow> string option \<Rightarrow> string \<Rightarrow> (string \<times> dict) option" where
  "broker_event d session_id provider_id =
    (if rejected d then
       Some (CAPABILITY_REJECTED,
         [(''session_id'', opt_str session_id), (''decision'', PStr ''rejected''), (''reason'', opt_str (reason d)),
          (''provider_id'', PStr provider_id), (''provider_error'', opt_str (provider_error d)),
          (''requested'', sorted_names (requested d)), (''policy'', or_none (policy_source d))])
     else if brokered d then
       Some (if denied d \<noteq> {} then CAPABILITY_DENIED else CAPABILITY_APPROVED,
         [(''session_id'', opt_str session_id), (''decision'', PStr (if denied d \<noteq> {} then ''denied'' else ''approved'')),
          (''provider_id'', PStr provider_id), (''requested'', sorted_names (requested d)),
          (''approved'', sorted_names (approved d)), (''denied'', sorted_names (denied d)),
          (''policy'', or_none (policy_source d))])
     else None)"

record ('s) brokered_run =
  run_spec :: 's
  run_decision :: decision
  rejection :: "dict option"
  run_audit :: audit_log

definition broker_run ::
  "string \<Rightarrow> (audit_log \<Rightarrow> string \<Rightarrow> dict \<Rightarrow> dict \<times> audit_log) \<Rightarrow> 'a cap_spec_scheme \<Rightarrow> string \<Rightarrow> dict
   \<Rightarrow> policy option \<Rightarrow> string option \<Rightarrow> audit_log \<Rightarrow> 'a cap_spec_scheme brokered_run" where
  "broker_run version emitter spec provider_id descriptor pol session_id audit =
    (let d = decide spec descriptor pol;
         audit' = (case broker_event d session_id provider_id of None \<Rightarrow> audit
                   | Some (ty, given) \<Rightarrow> snd (emitter audit ty given))
     in if rejected d
        then \<lparr>run_spec = spec, run_decision = d, rejection = Some (stamp version (rejection_result d (Some provider_id))), run_audit = audit'\<rparr>
        else \<lparr>run_spec = enforced_spec spec d, run_decision = d, rejection = None, run_audit = audit'\<rparr>)"

section \<open>What a decision promises\<close>

text \<open>
  The contract between the broker and everything that acts on its decision: policy narrows what was
  requested, every requested capability is either approved or denied, and the effective posture is
  what was approved plus the denials the provider cannot enforce.
\<close>

locale capability_decision =
  fixes decision_of :: "'x \<Rightarrow> decision"
  assumes partition: "approved (decision_of x) \<union> denied (decision_of x) = requested (decision_of x)"
    and disjoint: "approved (decision_of x) \<inter> denied (decision_of x) = {}"
    and posture: "\<not> rejected (decision_of x) \<Longrightarrow>
      effective (decision_of x) = approved (decision_of x) \<union> (denied (decision_of x) - provider_supported (decision_of x))"
    and refused: "rejected (decision_of x) \<Longrightarrow> approved (decision_of x) = {} \<and> effective (decision_of x) = {}"
begin

lemma narrows: "approved (decision_of x) \<subseteq> requested (decision_of x)"
  using partition by blast

lemma effective_requested: "effective (decision_of x) \<subseteq> requested (decision_of x)"
  using partition [of x] posture [of x] refused [of x] by blast

lemma leak_iff:
  "c \<in> denied (decision_of x) \<Longrightarrow> \<not> rejected (decision_of x) \<Longrightarrow>
     c \<in> effective (decision_of x) \<longleftrightarrow> c \<notin> provider_supported (decision_of x)"
  using disjoint [of x] posture [of x] by auto

end

lemma broker_cases:
  obtains (rejects) why err where "broker req pol prov = reject req prov pol why err"
  | (decides) "broker req pol prov = \<lparr>requested = req, approved = {c \<in> req. c \<notin> default_deny pol \<or> c \<in> grant pol},
      provider_supported = prov, denied = req - {c \<in> req. c \<notin> default_deny pol \<or> c \<in> grant pol},
      effective = {c \<in> req. c \<notin> default_deny pol \<or> c \<in> grant pol} \<union> (req - {c \<in> req. c \<notin> default_deny pol \<or> c \<in> grant pol} - prov),
      brokered = True, policy_source = source pol, rejected = False, reason = None, provider_error = None\<rparr>"
    "grant pol \<subseteq> req" "strict pol \<longrightarrow> req - {c \<in> req. c \<notin> default_deny pol \<or> c \<in> grant pol} \<subseteq> prov"
  unfolding broker_def Let_def by (metis (no_types, lifting) Diff_eq_empty_iff)

interpretation brokering: capability_decision "\<lambda>(req, pol, prov). broker req pol prov"
proof (unfold_locales; clarify)
  fix req pol prov
  show "approved (broker req pol prov) \<union> denied (broker req pol prov) = requested (broker req pol prov)"
    by (cases rule: broker_cases [where req = req and pol = pol and prov = prov]) (auto simp: reject_def)
  show "approved (broker req pol prov) \<inter> denied (broker req pol prov) = {}"
    by (cases rule: broker_cases [where req = req and pol = pol and prov = prov]) (auto simp: reject_def)
  show "effective (broker req pol prov) = approved (broker req pol prov) \<union> (denied (broker req pol prov) - provider_supported (broker req pol prov))"
    if "\<not> rejected (broker req pol prov)"
    using that by (cases rule: broker_cases [where req = req and pol = pol and prov = prov]) (auto simp: reject_def)
  show "approved (broker req pol prov) = {} \<and> effective (broker req pol prov) = {}" if "rejected (broker req pol prov)"
    using that by (cases rule: broker_cases [where req = req and pol = pol and prov = prov]) (auto simp: reject_def)
qed

interpretation deciding: capability_decision "\<lambda>(spec :: 'a cap_spec_scheme, descriptor, pol). decide spec descriptor pol"
proof (unfold_locales; clarify)
  fix spec :: "'a cap_spec_scheme" and descriptor pol
  let ?d = "decide spec descriptor pol"
  note b = brokering.partition [of "(requested_capabilities spec, the pol, provider_supported_capabilities descriptor)"]
    brokering.disjoint [of "(requested_capabilities spec, the pol, provider_supported_capabilities descriptor)"]
    brokering.posture [of "(requested_capabilities spec, the pol, provider_supported_capabilities descriptor)"]
    brokering.refused [of "(requested_capabilities spec, the pol, provider_supported_capabilities descriptor)"]
  show "approved ?d \<union> denied ?d = requested ?d" "approved ?d \<inter> denied ?d = {}"
    using b by (auto simp: decide_def passthrough_def Let_def split: option.splits)
  show "effective ?d = approved ?d \<union> (denied ?d - provider_supported ?d)" if "\<not> rejected ?d"
    using b that by (auto simp: decide_def passthrough_def Let_def split: option.splits)
  show "approved ?d = {} \<and> effective ?d = {}" if "rejected ?d"
    using b that by (auto simp: decide_def passthrough_def Let_def split: option.splits)
qed

lemma decide_fields:
  "requested (decide spec descriptor pol) = requested_capabilities spec"
  "provider_supported (decide spec descriptor pol) = provider_supported_capabilities descriptor"
  by (auto simp: decide_def passthrough_def Let_def broker_def reject_def split: option.splits)

text \<open>
  C36. Policy narrows and never escalates: whatever the specification, the provider and the
  policy, the approved capabilities are among the requested ones, approved and denied partition
  them, and nothing that was not requested is effective; a policy that would grant more is
  rejected with nothing approved.
\<close>

theorem decide_never_escalates:
  "approved (decide spec descriptor pol) \<subseteq> requested_capabilities spec
    \<and> approved (decide spec descriptor pol) \<union> denied (decide spec descriptor pol) = requested_capabilities spec
    \<and> approved (decide spec descriptor pol) \<inter> denied (decide spec descriptor pol) = {}
    \<and> effective (decide spec descriptor pol) \<subseteq> requested_capabilities spec
    \<and> (case pol of None \<Rightarrow> \<not> rejected (decide spec descriptor pol)
       | Some p \<Rightarrow> grant p \<subseteq> requested_capabilities spec \<or>
           rejected (decide spec descriptor pol) \<and> approved (decide spec descriptor pol) = {}
           \<and> provider_error (decide spec descriptor pol) = Some CAPABILITY_NOT_REQUESTED)"
proof -
  have "case pol of None \<Rightarrow> \<not> rejected (decide spec descriptor pol)
       | Some p \<Rightarrow> grant p \<subseteq> requested_capabilities spec \<or>
           rejected (decide spec descriptor pol) \<and> approved (decide spec descriptor pol) = {}
           \<and> provider_error (decide spec descriptor pol) = Some CAPABILITY_NOT_REQUESTED"
    by (auto simp: decide_def passthrough_def broker_def reject_def Let_def split: option.splits)
  then show ?thesis
    using deciding.narrows [of "(spec, descriptor, pol)"] deciding.partition [of "(spec, descriptor, pol)"]
      deciding.disjoint [of "(spec, descriptor, pol)"] deciding.effective_requested [of "(spec, descriptor, pol)"]
    by (simp add: decide_fields)
qed

text \<open>
  A strict policy fails closed: a decision it does not reject leaves no denied capability
  effective.
\<close>

theorem strict_fails_closed:
  assumes "strict p" and "\<not> rejected (decide spec descriptor (Some p))"
  shows "denied (decide spec descriptor (Some p)) \<inter> effective (decide spec descriptor (Some p)) = {}"
proof -
  have "denied (decide spec descriptor (Some p)) \<subseteq> provider_supported (decide spec descriptor (Some p))"
    using assms unfolding decide_def option.case
    by (cases rule: broker_cases [where req = "requested_capabilities spec" and pol = p
          and prov = "provider_supported_capabilities descriptor"])
      (auto simp: reject_def)
  then show ?thesis
    using deciding.leak_iff [of _ "(spec, descriptor, Some p)"] assms(2) by auto
qed

theorem strict_fails_closed_witness:
  "denied (decide \<lparr>no_net = False\<rparr> [(''capabilities'', PDict [(''network_control'', PBool True)])]
      (Some \<lparr>default_deny = {NETWORK}, grant = {}, strict = True, source = ''deny-network,strict''\<rparr>))
   \<inter> effective (decide \<lparr>no_net = False\<rparr> [(''capabilities'', PDict [(''network_control'', PBool True)])]
      (Some \<lparr>default_deny = {NETWORK}, grant = {}, strict = True, source = ''deny-network,strict''\<rparr>)) = {}"
  by (rule strict_fails_closed)
    (simp_all add: decide_def broker_def requested_capabilities_def provider_supported_capabilities_def Let_def)

lemma enforced_network:
  assumes "\<not> rejected (decide spec descriptor pol)"
  shows "NETWORK \<in> effective (decide spec descriptor pol) \<longleftrightarrow> \<not> no_net (enforced_spec spec (decide spec descriptor pol))"
proof -
  let ?d = "decide spec descriptor pol"
  have eff: "effective ?d = approved ?d \<union> (denied ?d - provider_supported ?d)"
    using deciding.posture [of "(spec, descriptor, pol)"] assms by simp
  have part: "approved ?d \<union> denied ?d = requested_capabilities spec" "approved ?d \<inter> denied ?d = {}"
    using deciding.partition [of "(spec, descriptor, pol)"] deciding.disjoint [of "(spec, descriptor, pol)"]
    by (simp_all add: decide_fields)
  show ?thesis
  proof (cases "no_net spec")
    case True
    then have "approved ?d = {}" "denied ?d = {}" using part by (auto simp: requested_capabilities_def)
    then show ?thesis using True eff by (simp add: enforced_spec_def)
  next
    case no: False
    then have "NETWORK \<in> approved ?d \<union> denied ?d" using part by (simp add: requested_capabilities_def)
    then show ?thesis using no eff part(2) by (auto simp: enforced_spec_def)
  qed
qed

text \<open>
  C3. The disclosed posture is the true one: when \<open>broker_run\<close> does not refuse, the
  specification it hands on reaches the network exactly when the decision discloses the network as
  effective, and every other field of the request is as written; when it refuses, the request is
  untouched and the refusal is a coded permission denial.
\<close>

theorem broker_run_truthful:
  "case rejection (broker_run version emitter spec provider_id descriptor pol session_id audit) of
     None \<Rightarrow>
       (NETWORK \<in> effective (run_decision (broker_run version emitter spec provider_id descriptor pol session_id audit))
        \<longleftrightarrow> \<not> no_net (run_spec (broker_run version emitter spec provider_id descriptor pol session_id audit)))
       \<and> cap_spec.more (run_spec (broker_run version emitter spec provider_id descriptor pol session_id audit)) = cap_spec.more spec
   | Some r \<Rightarrow> run_spec (broker_run version emitter spec provider_id descriptor pol session_id audit) = spec
       \<and> dget r ''ok'' = PBool False \<and> dget r ''code'' = PStr PERMISSION_DENIED
       \<and> effective (run_decision (broker_run version emitter spec provider_id descriptor pol session_id audit)) = {}"
proof (cases "rejected (decide spec descriptor pol)")
  case True
  have "dget (rejection_result d (Some provider_id)) ''ok'' = PBool False
      \<and> dget (rejection_result d (Some provider_id)) ''code'' = PStr PERMISSION_DENIED" for d
    unfolding rejection_result_def by (intro conjI error_result_get) simp_all
  then show ?thesis
    using True deciding.refused [of "(spec, descriptor, pol)"] by (simp add: broker_run_def Let_def stamp_def)
next
  case False
  let ?d = "decide spec descriptor pol"
  have "NETWORK \<in> effective ?d \<longleftrightarrow> \<not> no_net (enforced_spec spec ?d)" by (rule enforced_network [OF False])
  moreover have "cap_spec.more (enforced_spec spec ?d) = cap_spec.more spec" by (simp add: enforced_spec_def)
  ultimately show ?thesis using False by (simp add: broker_run_def Let_def)
qed

section \<open>Reading the policy\<close>

lemma directive_classes: "t \<in> set DENY_DIRECTIVES \<Longrightarrow> t \<notin> set GRANT_DIRECTIVES \<and> t \<noteq> ''strict''"
  "t \<in> set GRANT_DIRECTIVES \<Longrightarrow> t \<noteq> ''strict''"
  by (auto simp: DENY_DIRECTIVES_def GRANT_DIRECTIVES_def)

lemma fold_directives:
  "fold apply_directive ts p = p\<lparr>
     default_deny := default_deny p \<union> (if set ts \<inter> set DENY_DIRECTIVES \<noteq> {} then {NETWORK} else {}),
     grant := grant p \<union> (if set ts \<inter> set GRANT_DIRECTIVES \<noteq> {} then {NETWORK} else {}),
     strict := strict p \<or> ''strict'' \<in> set ts\<rparr>"
proof (induction ts arbitrary: p)
  case (Cons t ts)
  consider "t \<in> set DENY_DIRECTIVES" | "t \<in> set GRANT_DIRECTIVES" "t \<notin> set DENY_DIRECTIVES" | "t = ''strict''"
      "t \<notin> set DENY_DIRECTIVES" "t \<notin> set GRANT_DIRECTIVES"
    | "t \<noteq> ''strict''" "t \<notin> set DENY_DIRECTIVES" "t \<notin> set GRANT_DIRECTIVES" by blast
  then show ?case
    by cases (use directive_classes [of t] Cons.IH in \<open>auto simp: apply_directive_def\<close>)
qed simp

text \<open>
  The environment policy: brokering is off exactly when the variable is unset or blank;
  otherwise the policy denies, grants and is strict exactly as some directive of the list says,
  whatever the order, the repetitions and the unknown directives.
\<close>

theorem policy_from_env_reads:
  "policy_from_env var =
    (let raw = strip is_space (case var of None \<Rightarrow> [] | Some v \<Rightarrow> v); ts = set (directives_of raw)
     in if raw = [] then None
        else Some \<lparr>default_deny = (if ts \<inter> set DENY_DIRECTIVES \<noteq> {} then {NETWORK} else {}),
                   grant = (if ts \<inter> set GRANT_DIRECTIVES \<noteq> {} then {NETWORK} else {}),
                   strict = (''strict'' \<in> ts), source = raw\<rparr>)"
  by (simp add: policy_from_env_def fold_directives Let_def)

end
