(* ===== verification/Spec_Identity.thy ===== *)
theory Spec_Identity
  imports Errors "HOL-Library.Char_ord" "HOL-Library.List_Lexorder"
begin

text \<open>
  \<open>codecalc/spec_identity.py\<close>: the canonical bytes of a request and its content hash. The
  Python values that can reach the encoder are a datatype; what the encoder produces is a JSON value;
  \<open>canonical_bytes\<close> is \<open>json.dumps(..., sort_keys=True, ensure_ascii=False,
  separators=(",", ":")).encode("utf-8")\<close> of it. \<open>hashlib.sha256\<close> is an argument.
\<close>

section \<open>Names that carry credentials\<close>

definition SECRET_BEARING_WORDS :: "string list" where
  "SECRET_BEARING_WORDS =
    [''api_key'', ''apikey'', ''auth'', ''authorization'', ''credential'', ''credentials'', ''env'', ''environ'',
     ''environment'', ''key'', ''password'', ''secret'', ''secrets'', ''token'']"

definition in_range :: "nat \<Rightarrow> nat \<Rightarrow> char \<Rightarrow> bool" where
  "in_range a b c = (let n = (of_char c :: nat) in a \<le> n \<and> n \<le> b)"

abbreviation ascii_lower :: "char \<Rightarrow> bool" where "ascii_lower \<equiv> in_range 97 122"
abbreviation ascii_upper :: "char \<Rightarrow> bool" where "ascii_upper \<equiv> in_range 65 90"

definition name_char :: "char \<Rightarrow> bool" where
  "name_char c \<longleftrightarrow> is_digit c \<or> ascii_lower c \<or> ascii_upper c"

text \<open>
  \<open>_NAME_TOKENS.split(name)\<close>: cut at runs of characters that are not alphanumeric and between
  a lower-case letter or digit and an upper-case letter. \<open>acc\<close> is the piece being read, in reverse.
\<close>

fun name_tokens :: "string \<Rightarrow> string \<Rightarrow> string list" where
  "name_tokens acc [] = [rev acc]"
| "name_tokens acc (c # cs) =
     (if \<not> name_char c then rev acc # name_tokens [] cs
      else if ascii_upper c \<and> (case acc of p # ps \<Rightarrow> is_digit p \<or> ascii_lower p | [] \<Rightarrow> False)
      then rev acc # name_tokens [c] cs
      else name_tokens (c # acc) cs)"

definition secret_bearing :: "string \<Rightarrow> bool" where
  "secret_bearing name =
    list_ex (\<lambda>t. List.member SECRET_BEARING_WORDS t)
      (lower name # map lower (filter (\<lambda>t. t \<noteq> []) (name_tokens [] name)))"

section \<open>Values and their encoding\<close>

text \<open>
  What can stand in a request: an enumeration member carries its value, a dataclass instance its
  class name, the two policies its class declares and its fields, and \<open>VOther\<close> is a value of a
  class with no rule, by its class name and \<open>repr\<close>.
\<close>

datatype cval =
    VNone
  | VBool bool
  | VInt int
  | VStr string
  | VFloat string
  | VBytes string
  | VEnum string cval
  | VData string "string list" "string list" "(string \<times> cval) list"
  | VMap "(cval \<times> cval) list"
  | VSeq "cval list"
  | VOther string string

datatype json = JNull | JBool bool | JInt int | JStr string | JList "json list" | JObj "(string \<times> json) list"

datatype uncanonicalizable = Uncanonicalizable string string

definition BYTES_TAG :: string where "BYTES_TAG = ''__bytes_b64__''"

definition COMPUTATION_SPEC_VERSION :: string where "COMPUTATION_SPEC_VERSION = ''1.0.0''"

fun class_name :: "cval \<Rightarrow> string" where
  "class_name VNone = ''NoneType''"
| "class_name (VBool b) = ''bool''"
| "class_name (VInt i) = ''int''"
| "class_name (VStr s) = ''str''"
| "class_name (VFloat r) = ''float''"
| "class_name (VBytes b) = ''bytes''"
| "class_name (VEnum c v) = c"
| "class_name (VData c by_name not_secret fs) = c"
| "class_name (VMap m) = ''dict''"
| "class_name (VSeq xs) = ''list''"
| "class_name (VOther c r) = c"

text \<open>\<open>base64.b64encode\<close>.\<close>

definition b64_char :: "nat \<Rightarrow> char" where
  "b64_char n = (if n < 26 then char_of (65 + n) else if n < 52 then char_of (71 + n)
     else if n < 62 then char_of (n - 4) else if n = 62 then CHR ''+'' else CHR ''/'')"

fun b64encode :: "string \<Rightarrow> string" where
  "b64encode [] = []"
| "b64encode [a] = (let x = (of_char a :: nat) in [b64_char (x div 4), b64_char ((x mod 4) * 16)] @ ''=='')"
| "b64encode [a, b] = (let x = (of_char a :: nat); y = (of_char b :: nat) in
     [b64_char (x div 4), b64_char ((x mod 4) * 16 + y div 16), b64_char ((y mod 16) * 4)] @ ''='')"
| "b64encode (a # b # c # r) = (let x = (of_char a :: nat); y = (of_char b :: nat); z = (of_char c :: nat) in
     [b64_char (x div 4), b64_char ((x mod 4) * 16 + y div 16), b64_char ((y mod 16) * 4 + z div 64), b64_char (z mod 64)]
     @ b64encode r)"

text \<open>The names of a mapping or list, when they are all text.\<close>

fun text_names :: "cval list \<Rightarrow> string list option" where
  "text_names [] = Some []"
| "text_names (VStr s # vs) = map_option (Cons s) (text_names vs)"
| "text_names (v # vs) = None"

definition encode_names_only :: "cval \<Rightarrow> string \<Rightarrow> uncanonicalizable + json" where
  "encode_names_only v path =
    (let named = (\<lambda>names. case text_names names of
         None \<Rightarrow> Inl (Uncanonicalizable path ''a name-hashed field must name strings'')
       | Some ns \<Rightarrow> Inr (JList (map JStr (sort ns))))
     in case v of VNone \<Rightarrow> Inr JNull | VMap m \<Rightarrow> named (map fst m) | VSeq vs \<Rightarrow> named vs
        | _ \<Rightarrow> Inl (Uncanonicalizable path (''a name-hashed field must be a mapping, list or None, not '' @ class_name v)))"

definition field_path :: "string \<Rightarrow> string \<Rightarrow> string" where
  "field_path path f = (if path \<noteq> [] then path @ ''.'' @ f else f)"

text \<open>\<open>repr\<close> of a key that is no text is an argument of the encoder: it only appears in a message.\<close>

fun encode :: "(cval \<Rightarrow> string) \<Rightarrow> cval \<Rightarrow> string \<Rightarrow> uncanonicalizable + json"
  and encode_dataclass :: "(cval \<Rightarrow> string) \<Rightarrow> string list \<Rightarrow> string list \<Rightarrow> (string \<times> cval) list \<Rightarrow> string
    \<Rightarrow> uncanonicalizable + (string \<times> json) list"
  and encode_mapping :: "(cval \<Rightarrow> string) \<Rightarrow> (cval \<times> cval) list \<Rightarrow> string \<Rightarrow> uncanonicalizable + (string \<times> json) list"
  and encode_items :: "(cval \<Rightarrow> string) \<Rightarrow> cval list \<Rightarrow> string \<Rightarrow> nat \<Rightarrow> uncanonicalizable + json list"
where
  "encode rp VNone path = Inr JNull"
| "encode rp (VBool b) path = Inr (JBool b)"
| "encode rp (VStr s) path = Inr (JStr s)"
| "encode rp (VInt i) path = Inr (JInt i)"
| "encode rp (VFloat r) path = Inl (Uncanonicalizable path
     (''float has no canonical decimal form across runtimes; carry the value as an int or a string, ''
      @ ''or extend this module deliberately''))"
| "encode rp (VBytes b) path = Inr (JObj [(BYTES_TAG, JStr (b64encode b))])"
| "encode rp (VEnum c v) path = encode rp v path"
| "encode rp (VData c by_name not_secret fs) path =
     rbind (encode_dataclass rp by_name not_secret fs path) (\<lambda>d. Inr (JObj d))"
| "encode rp (VMap m) path = rbind (encode_mapping rp m path) (\<lambda>d. Inr (JObj d))"
| "encode rp (VSeq xs) path = rbind (encode_items rp xs path 0) (\<lambda>ys. Inr (JList ys))"
| "encode rp (VOther c r) path = Inl (Uncanonicalizable path (c @ '' has no canonical encoding rule''))"
| "encode_dataclass rp by_name not_secret [] path = Inr []"
| "encode_dataclass rp by_name not_secret ((f, v) # fs) path =
     rbind (if List.member by_name f then encode_names_only v (field_path path f)
            else if \<not> List.member not_secret f \<and> secret_bearing f
            then Inl (Uncanonicalizable (field_path path f)
              (''a secret-bearing field name may not be hashed by value. Declare it in the dataclass''
               @ [char_of (39 :: nat)] @ ''s HASH_BY_NAME_FIELDS to hash only its key names, or ''
               @ [char_of (226 :: nat), char_of (128 :: nat), char_of (148 :: nat)]
               @ '' if the token rule caught an innocent name like `token_budget` ''
               @ [char_of (226 :: nat), char_of (128 :: nat), char_of (148 :: nat)]
               @ '' in NOT_SECRET_FIELDS to keep hashing the value''))
            else encode rp v (field_path path f))
       (\<lambda>j. rbind (encode_dataclass rp by_name not_secret fs path) (\<lambda>d. Inr ((f, j) # d)))"
| "encode_mapping rp [] path = Inr []"
| "encode_mapping rp ((k, v) # m) path =
     (case k of
        VStr key \<Rightarrow>
          if key = BYTES_TAG
          then Inl (Uncanonicalizable path (repr_str BYTES_TAG @ '' is reserved for the bytes encoding and may not be used as a mapping key''))
          else if secret_bearing key
          then Inl (Uncanonicalizable (path @ ''.'' @ key)
            (''a mapping key that names a credential may not be hashed by value; carry the secret outside the spec, ''
             @ ''or reduce the mapping to its key names via HASH_BY_NAME_FIELDS''))
          else rbind (encode rp v (path @ ''.'' @ key)) (\<lambda>j. rbind (encode_mapping rp m path) (\<lambda>d. Inr ((key, j) # d)))
      | _ \<Rightarrow> Inl (Uncanonicalizable path (''mapping key '' @ rp k
            @ '' is not a string; JSON has no other key type and coercing one would collide with a real string key'')))"
| "encode_items rp [] path i = Inr []"
| "encode_items rp (x # xs) path i =
     rbind (encode rp x (path @ ''['' @ nat_str i @ '']'')) (\<lambda>j. rbind (encode_items rp xs path (Suc i)) (\<lambda>js. Inr (j # js)))"

section \<open>Canonical bytes\<close>

text \<open>\<open>json.dumps\<close> with \<open>ensure_ascii=False\<close> and compact separators.\<close>

definition esc_char :: "char \<Rightarrow> string" where
  "esc_char c = (let n = (of_char c :: nat); bs = char_of (92 :: nat) in
     if n = 34 \<or> n = 92 then [bs, c]
     else if n = 10 then [bs, CHR ''n''] else if n = 13 then [bs, CHR ''r''] else if n = 9 then [bs, CHR ''t'']
     else if n = 8 then [bs, CHR ''b''] else if n = 12 then [bs, CHR ''f'']
     else if n < 32 then [bs] @ ''u00'' @ [hex_digit (n div 16), hex_digit (n mod 16)]
     else [c])"

abbreviation QUOTE :: char where "QUOTE \<equiv> char_of (34 :: nat)"

definition quoted :: "string \<Rightarrow> string" where
  "quoted s = QUOTE # concat (map esc_char s) @ [QUOTE]"

fun compact :: "json \<Rightarrow> string" where
  "compact JNull = ''null''"
| "compact (JBool b) = (if b then ''true'' else ''false'')"
| "compact (JInt i) = int_str i"
| "compact (JStr s) = quoted s"
| "compact (JList js) = ''['' @ join '','' (map compact js) @ '']''"
| "compact (JObj d) = ''{'' @ join '','' (map (\<lambda>(k, v). quoted k @ '':'' @ compact v) d) @ ''}''"

text \<open>\<open>sort_keys=True\<close>: every object in the order of its keys.\<close>

fun sort_keys :: "json \<Rightarrow> json" where
  "sort_keys (JList js) = JList (map sort_keys js)"
| "sort_keys (JObj d) = JObj (sort_key fst (map (\<lambda>(k, v). (k, sort_keys v)) d))"
| "sort_keys j = j"

text \<open>UTF-8 of the code points below 256.\<close>

definition utf8_char :: "char \<Rightarrow> string" where
  "utf8_char c = (let n = (of_char c :: nat) in
     if n < 128 then [c] else [char_of (192 + n div 64), char_of (128 + n mod 64)])"

definition utf8 :: "string \<Rightarrow> string" where
  "utf8 s = concat (map utf8_char s)"

definition canonical_document :: "(cval \<Rightarrow> string) \<Rightarrow> cval \<Rightarrow> uncanonicalizable + json" where
  "canonical_document rp spec =
    (case spec of
       VData c by_name not_secret fs \<Rightarrow> rbind (encode_dataclass rp by_name not_secret fs [])
         (\<lambda>d. Inr (JObj [(''schema_version'', JStr COMPUTATION_SPEC_VERSION), (''spec'', JObj d)]))
     | _ \<Rightarrow> Inl (Uncanonicalizable ''<root>'' ''a computation spec must be a dataclass instance''))"

definition canonical_bytes :: "(cval \<Rightarrow> string) \<Rightarrow> cval \<Rightarrow> uncanonicalizable + string" where
  "canonical_bytes rp spec = rbind (canonical_document rp spec) (\<lambda>j. Inr (utf8 (compact (sort_keys j))))"

definition content_hash :: "(string \<Rightarrow> string) \<Rightarrow> string \<Rightarrow> string" where
  "content_hash sha256 payload = ''sha256:'' @ sha256 payload"

definition text_hash :: "(string \<Rightarrow> string) \<Rightarrow> string \<Rightarrow> string" where
  "text_hash sha256 t = content_hash sha256 (utf8 t)"

definition spec_hash :: "(string \<Rightarrow> string) \<Rightarrow> (cval \<Rightarrow> string) \<Rightarrow> cval \<Rightarrow> uncanonicalizable + string" where
  "spec_hash sha256 rp spec = rbind (canonical_bytes rp spec) (\<lambda>b. Inr (content_hash sha256 b))"

section \<open>The bytes determine the document\<close>

text \<open>
  A code whose words can be read off the front of any text determines the sequence it encodes.
\<close>

locale prefix_code =
  fixes code :: "'a \<Rightarrow> 'b list"
  assumes code_cancel: "code x @ r = code y @ r' \<Longrightarrow> x = y \<and> r = r'"
    and code_not_Nil: "code x \<noteq> []"
begin

lemma concat_inject: "concat (map code xs) = concat (map code ys) \<longleftrightarrow> xs = ys"
proof (induction xs arbitrary: ys)
  case Nil
  then show ?case using code_not_Nil by (cases ys) auto
next
  case (Cons x xs)
  then show ?case using code_not_Nil code_cancel by (cases ys) (auto, blast+)
qed

lemma concat_until:
  assumes stop: "\<And>x r. code x @ r \<noteq> q # s" "\<And>x r. code x @ r \<noteq> q # s'"
    and eq: "concat (map code xs) @ q # s = concat (map code ys) @ q # s'"
  shows "xs = ys \<and> s = s'"
  using eq
proof (induction xs arbitrary: ys)
  case Nil
  then show ?case using stop(2) [symmetric] stop(1) [symmetric] by (cases ys) auto
next
  case (Cons x xs)
  show ?case
  proof (cases ys)
    case Nil
    with Cons.prems stop show ?thesis by auto
  next
    case (Cons y ys')
    with Cons.prems have "code x @ (concat (map code xs) @ q # s) = code y @ (concat (map code ys') @ q # s')" by simp
    then have "x = y" "concat (map code xs) @ q # s = concat (map code ys') @ q # s'" using code_cancel by blast+
    with Cons.IH Cons show ?thesis by blast
  qed
qed

end

definition unhex :: "char \<Rightarrow> nat" where
  "unhex c = (let n = of_char c in if n < 58 then n - 48 else n - 87)"

lemma unhex_hex_digit: "d < 16 \<Longrightarrow> unhex (hex_digit d) = d"
  by (auto simp: unhex_def hex_digit_def Let_def)

fun read_char :: "string \<Rightarrow> char \<times> string" where
  "read_char (c # r) =
     (if c \<noteq> char_of (92 :: nat) then (c, r)
      else case r of
        e # r' \<Rightarrow>
          (if e = CHR ''u'' then (char_of (16 * unhex (r' ! 2) + unhex (r' ! 3)), drop 4 r')
           else (if e = CHR ''n'' then char_of (10 :: nat) else if e = CHR ''r'' then char_of (13 :: nat)
                 else if e = CHR ''t'' then char_of (9 :: nat) else if e = CHR ''b'' then char_of (8 :: nat)
                 else if e = CHR ''f'' then char_of (12 :: nat) else e, r')))"

lemma escape_marks:
  "char_of (34 :: nat) \<notin> set ''nrtbfu''" "char_of (92 :: nat) \<notin> set ''nrtbfu''"
  by code_simp+

lemma read_esc_char: "read_char (esc_char c @ r) = (c, r)"
proof -
  define n where "n = (of_char c :: nat)"
  have c: "c = char_of n" by (simp add: n_def)
  have n: "n < 256" by (simp add: n_def)
  consider "n = 34" | "n = 92" | "n = 10" | "n = 13" | "n = 9" | "n = 8" | "n = 12"
    | "n < 32" "n \<notin> {8, 9, 10, 12, 13}" | "n \<ge> 32" "n \<noteq> 34" "n \<noteq> 92" by fastforce
  then show ?thesis
  proof cases
    case 8
    then have "esc_char c = char_of (92 :: nat) # ''u00'' @ [hex_digit (n div 16), hex_digit (n mod 16)]"
      by (simp add: esc_char_def n_def [symmetric] Let_def)
    moreover have "unhex (hex_digit (n div 16)) = n div 16" "unhex (hex_digit (n mod 16)) = n mod 16"
      using 8 by (simp_all add: unhex_hex_digit)
    ultimately show ?thesis by (simp add: c)
  next
    case 9
    then have "esc_char c = [c]" by (simp add: esc_char_def n_def [symmetric] Let_def)
    moreover have "c \<noteq> char_of (92 :: nat)" using 9 by (auto simp: n_def)
    ultimately show ?thesis by simp
  qed (use escape_marks in \<open>simp_all add: esc_char_def n_def [symmetric] Let_def c\<close>)
qed

interpretation escapes: prefix_code esc_char
proof
  show "x = y \<and> r = r'" if "esc_char x @ r = esc_char y @ r'" for x y r r'
    using read_esc_char that by (metis prod.inject)
  show "esc_char x \<noteq> []" for x by (simp add: esc_char_def Let_def)
qed

lemma esc_char_no_quote: "esc_char c @ r \<noteq> QUOTE # s"
proof
  assume "esc_char c @ r = QUOTE # s"
  then have "hd (esc_char c) = QUOTE" using escapes.code_not_Nil by (metis hd_append2 list.sel(1))
  then show False by (auto simp: esc_char_def Let_def split: if_splits)
qed

lemma quoted_cancel: "quoted s @ r = quoted t @ r' \<Longrightarrow> s = t \<and> r = r'"
  by (rule escapes.concat_until [OF esc_char_no_quote esc_char_no_quote]) (simp add: quoted_def)

interpretation utf8_chars: prefix_code utf8_char
proof
  show "x = y \<and> r = r'" if eq: "utf8_char x @ r = utf8_char y @ r'" for x y :: char and r r'
  proof -
    define m n where "m = (of_char x :: nat)" and "n = (of_char y :: nat)"
    have xy: "x = char_of m" "y = char_of n" "m < 256" "n < 256" by (simp_all add: m_def n_def)
    have lead: "(192 + of_char c div 64) mod 256 = 192 + (of_char c :: nat) div 64" for c
      using nat_of_char_less_256 [of c] by (intro mod_less) linarith
    have split: "k = 64 * (k div 64) + k mod 64" for k :: nat by simp
    show ?thesis
    proof (cases "m < 128"; cases "n < 128")
      assume "\<not> m < 128" "\<not> n < 128"
      moreover have "m div 64 < 4" "n div 64 < 4" "m mod 64 < 64" "n mod 64 < 64" using xy by auto
      ultimately have "192 + m div 64 = 192 + n div 64" "128 + m mod 64 = 128 + n mod 64" "r = r'"
        using eq by (auto simp: utf8_char_def m_def [symmetric] n_def [symmetric] Let_def char_of_eq_iff take_bit_eq_mod)
      then show ?thesis using xy split [of m] split [of n] by simp
    qed (use eq in \<open>auto simp: utf8_char_def m_def n_def Let_def lead\<close>)
  qed
  show "utf8_char x \<noteq> []" for x by (simp add: utf8_char_def Let_def)
qed

lemma utf8_inject: "utf8 s = utf8 t \<longleftrightarrow> s = t"
  by (simp add: utf8_def utf8_chars.concat_inject)

text \<open>What can follow a value inside a document.\<close>

definition closes :: "string \<Rightarrow> bool" where
  "closes r \<longleftrightarrow> r = [] \<or> hd r \<in> {CHR '','', CHR '']'', CHR ''}''}"

lemma closes_Cons [simp]: "closes (c # r) \<longleftrightarrow> c \<in> {CHR '','', CHR '']'', CHR ''}''}"
  by (simp add: closes_def)

definition int_char :: "char \<Rightarrow> bool" where
  "int_char c \<longleftrightarrow> is_digit c \<or> c = CHR ''-''"

lemma int_str_chars: "list_all int_char (int_str i)"
  using nat_str_digits by (auto simp: int_str_def int_char_def list_all_iff)

lemma int_str_inject: "int_str i = int_str j \<longleftrightarrow> i = j"
proof
  have no_sign: "nat_str n \<noteq> CHR ''-'' # t" for n t
    using nat_str_digits [of n] by (auto simp: is_digit_def Let_def)
  assume eq: "int_str i = int_str j"
  show "i = j"
  proof (cases "i < 0"; cases "j < 0")
    assume "i < 0" "j < 0"
    with eq have "nat_of_digits (nat_str (nat (- i))) = nat_of_digits (nat_str (nat (- j)))" by (simp add: int_str_def)
    with \<open>i < 0\<close> \<open>j < 0\<close> show ?thesis by (simp add: nat_of_digits_nat_str)
  next
    assume "\<not> i < 0" "\<not> j < 0"
    with eq have "nat_of_digits (nat_str (nat i)) = nat_of_digits (nat_str (nat j))" by (simp add: int_str_def)
    with \<open>\<not> i < 0\<close> \<open>\<not> j < 0\<close> show ?thesis by (simp add: nat_of_digits_nat_str)
  qed (use eq no_sign no_sign [symmetric] in \<open>auto simp: int_str_def\<close>)
qed simp

lemma takeWhile_int_str:
  assumes "closes r"
  shows "takeWhile int_char (int_str i @ r) = int_str i"
proof -
  have "takeWhile int_char r = []"
    using assms by (cases r) (auto simp: int_char_def is_digit_def Let_def)
  then show ?thesis using int_str_chars [of i] by (simp add: takeWhile_append2 list_all_iff)
qed

lemma int_str_cancel: "int_str i @ r = int_str j @ r' \<Longrightarrow> closes r \<Longrightarrow> closes r' \<Longrightarrow> i = j \<and> r = r'"
  using takeWhile_int_str [of r i] takeWhile_int_str [of r' j] int_str_inject by (metis append_same_eq same_append_eq)

text \<open>The first character tells the kind of a value.\<close>

datatype json_kind = KNull | KBool | KInt | KStr | KList | KObj

fun kind_of :: "json \<Rightarrow> json_kind" where
  "kind_of JNull = KNull" | "kind_of (JBool b) = KBool" | "kind_of (JInt i) = KInt"
| "kind_of (JStr s) = KStr" | "kind_of (JList js) = KList" | "kind_of (JObj d) = KObj"

definition kind_char :: "char \<Rightarrow> json_kind" where
  "kind_char c = (if c = CHR ''n'' then KNull else if c = CHR ''t'' \<or> c = CHR ''f'' then KBool
     else if c = QUOTE then KStr else if c = CHR ''['' then KList else if c = CHR ''{'' then KObj else KInt)"

lemma QUOTE_CHR: "QUOTE = CHR 0x22"
  by code_simp

lemma compact_head: "\<exists>c t. compact j = c # t \<and> kind_char c = kind_of j \<and> c \<notin> {CHR '','', CHR '']'', CHR ''}''}"
proof (cases j)
  case (JInt i)
  obtain c t where ct: "int_str i = c # t" by (cases "int_str i") (auto simp: int_str_def split: if_splits)
  then have "int_char c" using int_str_chars [of i] by simp
  moreover have "kind_char c = KInt" "c \<notin> {CHR '','', CHR '']'', CHR ''}''}" if "int_char c" for c
    using that by (auto simp: int_char_def kind_char_def is_digit_def Let_def QUOTE_CHR)
  ultimately show ?thesis using JInt ct by auto
qed (auto simp: kind_char_def quoted_def QUOTE_CHR)

lemma compact_kind: "compact j @ r = compact j' @ r' \<Longrightarrow> kind_of j = kind_of j'"
  using compact_head [of j] compact_head [of j'] by auto

text \<open>A separated sequence of values that can each be read off the front.\<close>

lemma join_cancel:
  assumes cancel: "\<And>x y r r'. x \<in> set xs \<Longrightarrow> f x @ r = f y @ r' \<Longrightarrow> closes r \<Longrightarrow> closes r' \<Longrightarrow> x = y \<and> r = r'"
    and start: "\<And>x. \<exists>c t. f x = c # t \<and> c \<noteq> b"
    and b: "b \<in> {CHR '']'', CHR ''}''}"
    and eq: "join '','' (map f xs) @ b # r = join '','' (map f ys) @ b # r'"
  shows "xs = ys \<and> r = r'"
  using cancel eq
proof (induction xs arbitrary: ys)
  case Nil
  show ?case
  proof (cases ys)
    case (Cons y ys')
    obtain c t where "f y = c # t" "c \<noteq> b" using start by blast
    with Nil.prems(2) Cons show ?thesis by (cases ys') auto
  qed (use Nil.prems(2) in simp)
next
  case (Cons x xs)
  obtain c t where fx: "f x = c # t" "c \<noteq> b" using start by blast
  show ?case
  proof (cases ys)
    case Nil
    with Cons.prems(2) fx show ?thesis by (cases xs) auto
  next
    case ys: (Cons y ys')
    define R where "R = (case xs of [] \<Rightarrow> b # r | _ \<Rightarrow> CHR '','' # join '','' (map f xs) @ b # r)"
    define R' where "R' = (case ys' of [] \<Rightarrow> b # r' | _ \<Rightarrow> CHR '','' # join '','' (map f ys') @ b # r')"
    have "f x @ R = f y @ R'" using Cons.prems(2) by (auto simp: ys R_def R'_def split: list.splits)
    moreover have "closes R" "closes R'" using b by (auto simp: R_def R'_def split: list.splits)
    ultimately have "x = y" "R = R'" using Cons.prems(1) [where x = x and y = y and r = R and r' = R'] by auto
    show ?thesis
    proof (cases "xs = []"; cases "ys' = []")
      assume "xs \<noteq> []" "ys' \<noteq> []"
      with \<open>R = R'\<close> have "join '','' (map f xs) @ b # r = join '','' (map f ys') @ b # r'"
        by (auto simp: R_def R'_def split: list.splits)
      then show ?thesis using Cons.IH [of ys'] Cons.prems(1) \<open>x = y\<close> ys by auto
    qed (use \<open>R = R'\<close> \<open>x = y\<close> ys b in \<open>auto simp: R_def R'_def split: list.splits\<close>)
  qed
qed

lemma compact_cancel:
  "compact j @ r = compact j' @ r' \<Longrightarrow> closes r \<Longrightarrow> closes r' \<Longrightarrow> j = j' \<and> r = r'"
proof (induction j arbitrary: j' r r')
  case (JInt i)
  with compact_kind [OF JInt.prems(1)] obtain i' where "j' = JInt i'" by (cases j') auto
  with JInt.prems int_str_cancel [of i r i' r'] show ?case by simp
next
  case (JStr s)
  with compact_kind [OF JStr.prems(1)] obtain t where "j' = JStr t" by (cases j') auto
  with JStr.prems quoted_cancel [of s r t r'] show ?case by simp
next
  case (JList js)
  with compact_kind [OF JList.prems(1)] obtain ks where j': "j' = JList ks" by (cases j') auto
  have "js = ks \<and> r = r'"
  proof (rule join_cancel [where f = compact and b = "CHR '']''"])
    show "x = y \<and> r = r'" if "x \<in> set js" "compact x @ r = compact y @ r'" "closes r" "closes r'" for x y r r'
      using JList.IH that by blast
    show "\<exists>c t. compact x = c # t \<and> c \<noteq> CHR '']''" for x using compact_head [of x] by auto
  qed (use JList.prems(1) j' in auto)
  then show ?case using j' by simp
next
  case (JObj d)
  with compact_kind [OF JObj.prems(1)] obtain e where j': "j' = JObj e" by (cases j') auto
  have "d = e \<and> r = r'"
  proof (rule join_cancel [where f = "\<lambda>(k, v). quoted k @ '':'' @ compact v" and b = "CHR ''}''"])
    show "x = y \<and> r = r'"
      if "x \<in> set d" "(\<lambda>(k, v). quoted k @ '':'' @ compact v) x @ r = (\<lambda>(k, v). quoted k @ '':'' @ compact v) y @ r'"
        "closes r" "closes r'" for x y r r'
    proof -
      obtain k v k' v' where xy: "x = (k, v)" "y = (k', v')" by fastforce
      with that(2) have "quoted k @ (CHR '':'' # compact v @ r) = quoted k' @ (CHR '':'' # compact v' @ r')" by simp
      then have "k = k'" "compact v @ r = compact v' @ r'" using quoted_cancel by blast+
      with JObj.IH [OF that(1), where j' = v' and r = r and r' = r'] that xy show ?thesis by simp
    qed
    show "\<exists>c t. (\<lambda>(k, v). quoted k @ '':'' @ compact v) x = c # t \<and> c \<noteq> CHR ''}''" for x
      by (cases x) (auto simp: quoted_def QUOTE_CHR)
  qed (use JObj.prems(1) j' in auto)
  then show ?case using j' by simp
next
  case (JBool b)
  with compact_kind [OF JBool.prems(1)] obtain b' where "j' = JBool b'" by (cases j') auto
  with JBool.prems show ?case by (auto split: if_splits)
next
  case JNull
  with compact_kind [OF JNull.prems(1)] have "j' = JNull" by (cases j') auto
  with JNull.prems show ?case by simp
qed

lemma compact_inject: "compact j = compact j' \<longleftrightarrow> j = j'"
  using compact_cancel [of j "[]" j' "[]"] by (auto simp: closes_def)

lemma canonical_bytes_document:
  "canonical_bytes rp s = Inr b \<longleftrightarrow> (\<exists>j. canonical_document rp s = Inr j \<and> b = utf8 (compact (sort_keys j)))"
  by (auto simp: canonical_bytes_def rbind_eq_Inr)

lemma canonical_bytes_eq:
  assumes "canonical_document rp s = Inr j" "canonical_document rp t = Inr k"
  shows "canonical_bytes rp s = canonical_bytes rp t \<longleftrightarrow> sort_keys j = sort_keys k"
  using assms by (simp add: canonical_bytes_def utf8_inject compact_inject)

section \<open>No credential is hashed by value\<close>

text \<open>All the entries of the objects inside a document.\<close>

fun entries :: "json \<Rightarrow> (string \<times> json) list" where
  "entries (JObj d) = d @ concat (map (\<lambda>(k, v). entries v) d)"
| "entries (JList js) = concat (map entries js)"
| "entries j = []"

text \<open>The names a dataclass inside a value declares innocent.\<close>

fun cleared :: "cval \<Rightarrow> string list" where
  "cleared (VEnum c v) = cleared v"
| "cleared (VData c by_name not_secret fs) = not_secret @ concat (map (\<lambda>(f, v). cleared v) fs)"
| "cleared (VMap m) = concat (map (\<lambda>(k, v). cleared v) m)"
| "cleared (VSeq xs) = concat (map cleared xs)"
| "cleared v = []"

definition names_only :: "json \<Rightarrow> bool" where
  "names_only j \<longleftrightarrow> j = JNull \<or> (\<exists>ns. j = JList (map JStr ns))"

definition discreet :: "string list \<Rightarrow> json \<Rightarrow> bool" where
  "discreet ok j \<longleftrightarrow> (\<forall>(k, x) \<in> set (entries j). secret_bearing k \<longrightarrow> names_only x \<or> k \<in> set ok)"

lemma discreet_simps [simp]:
  "discreet ok JNull" "discreet ok (JBool b)" "discreet ok (JInt i)" "discreet ok (JStr s)"
  "discreet ok (JList js) \<longleftrightarrow> (\<forall>j \<in> set js. discreet ok j)"
  "discreet ok (JObj d) \<longleftrightarrow> (\<forall>(k, x) \<in> set d. (secret_bearing k \<longrightarrow> names_only x \<or> k \<in> set ok) \<and> discreet ok x)"
  by (fastforce simp: discreet_def)+

lemma discreet_mono: "discreet ok j \<Longrightarrow> set ok \<subseteq> set ok' \<Longrightarrow> discreet ok' j"
  by (fastforce simp: discreet_def)

lemma discreet_append: "discreet ok j \<Longrightarrow> discreet (ok @ ok') j" "discreet ok' j \<Longrightarrow> discreet (ok @ ok') j"
  by (auto elim: discreet_mono)

lemma names_only_discreet: "names_only j \<Longrightarrow> discreet ok j"
  by (auto simp: names_only_def)

lemma encode_names_only_names: "encode_names_only v path = Inr j \<Longrightarrow> names_only j"
  by (auto simp: encode_names_only_def names_only_def Let_def split: cval.splits option.splits)

lemma bytes_tag_innocent: "\<not> secret_bearing BYTES_TAG"
  by code_simp

lemma encode_discreet:
  "encode rp v path = Inr j \<Longrightarrow> discreet (cleared v) j"
  "encode_dataclass rp by_name not_secret fs path = Inr d \<Longrightarrow>
     discreet (not_secret @ concat (map (\<lambda>(f, v). cleared v) fs)) (JObj d)"
  "encode_mapping rp m path = Inr e \<Longrightarrow> discreet (concat (map (\<lambda>(k, v). cleared v) m)) (JObj e)"
  "encode_items rp xs path i = Inr js \<Longrightarrow> discreet (concat (map cleared xs)) (JList js)"
proof (induction rp v path and rp by_name not_secret fs path and rp m path and rp xs path i
    arbitrary: j and d and e and js rule: encode_encode_dataclass_encode_mapping_encode_items.induct)
  case (13 rp by_name not_secret f v fs path)
  let ?ok = "not_secret @ concat (map (\<lambda>(f, v). cleared v) ((f, v) # fs))"
  from "13.prems" obtain x d' where x: "(if List.member by_name f then encode_names_only v (field_path path f)
        else if \<not> List.member not_secret f \<and> secret_bearing f then Inl undefined else encode rp v (field_path path f)) = Inr x"
    and d': "encode_dataclass rp by_name not_secret fs path = Inr d'" and d: "d = (f, x) # d'"
    by (auto simp: rbind_eq_Inr split: if_splits)
  have rest: "discreet ?ok (JObj d')" by (rule discreet_mono [OF "13.IH"(2)]) (use x d' in auto)
  have "discreet ?ok x \<and> (secret_bearing f \<longrightarrow> names_only x \<or> f \<in> set ?ok)"
  proof (cases "List.member by_name f")
    case True
    with x show ?thesis using encode_names_only_names names_only_discreet by auto
  next
    case False
    with x have "encode rp v (field_path path f) = Inr x" "secret_bearing f \<longrightarrow> f \<in> set not_secret"
      by (auto split: if_splits)
    with False show ?thesis using discreet_mono [OF "13.IH"(1), of x ?ok] by (auto split: if_splits)
  qed
  with rest d show ?case by simp
next
  case (15 rp k v m path)
  then obtain key where k: "k = VStr key" by (cases k) auto
  with "15.prems" obtain x e' where e: "\<not> secret_bearing key" "key \<noteq> BYTES_TAG" "e = (key, x) # e'"
    and x: "encode rp v (path @ ''.'' @ key) = Inr x" and e': "encode_mapping rp m path = Inr e'"
    by (auto simp: rbind_eq_Inr split: if_splits)
  have "discreet (concat (map (\<lambda>(k, v). cleared v) ((k, v) # m))) x"
    by (rule discreet_mono [OF "15.IH"(1) [OF k e(2, 1) x]]) auto
  moreover have "discreet (concat (map (\<lambda>(k, v). cleared v) ((k, v) # m))) (JObj e')"
    by (rule discreet_mono [OF "15.IH"(2) [OF k e(2, 1) e']]) auto
  ultimately show ?case using e by simp
next
  case (17 rp x xs path i)
  then show ?case
    by (auto simp: rbind_eq_Inr discreet_append)
qed (auto simp: rbind_eq_Inr bytes_tag_innocent)

lemma canonical_document_discreet:
  assumes "canonical_document rp spec = Inr j"
  shows "discreet (cleared spec) j"
proof -
  obtain c by_name not_secret fs d where spec: "spec = VData c by_name not_secret fs"
    and d: "encode_dataclass rp by_name not_secret fs [] = Inr d"
    and j: "j = JObj [(''schema_version'', JStr COMPUTATION_SPEC_VERSION), (''spec'', JObj d)]"
    using assms by (auto simp: canonical_document_def rbind_eq_Inr split: cval.splits)
  have "\<not> secret_bearing ''schema_version''" "\<not> secret_bearing ''spec''" by code_simp+
  with encode_discreet(2) [OF d] show ?thesis by (simp add: spec j)
qed


definition env_spec :: cval where
  "env_spec = VData ''S'' [''auth_token''] [] [(''code'', VStr ''x''), (''auth_token'', VMap [(VStr ''b'', VStr ''hush''), (VStr ''a'', VNone)])]"


end
