(* ===== verification/Providers.thy ===== *)
theory Providers
  imports Capabilities Spec_Identity
begin

text \<open>
  \<open>codecalc/providers.py\<close>: the execution request \<open>ComputationSpec\<close> and its identity, the
  provider interface with the local adapter, the registry that selects a provider, and the receipt
  attached to every full result. A provider is a record of its operations, so that a provider this
  development does not know is any value of that type; \<open>describe()\<close> is the descriptor at the
  time of the call.
\<close>

section \<open>Failures\<close>

text \<open>
  The exceptions of the execution layer that carry data. \<open>Raised\<close> is any other exception, and
  \<open>CodedRunFailure\<close> the one a runner raises to report a failure that is already coded.
\<close>

datatype failure =
    UnsupportedCapability string string
  | UnknownProvider string "string list"
  | ProviderInterfaceMismatch string string string
  | ProviderOperationFailure string string
  | CodedRunFailure dict
  | Uncanonical uncanonicalizable
  | Raised exn

fun class_text :: "exn_class \<Rightarrow> string" where
  "class_text MissingExtra = ''MissingExtra''"
| "class_text TimeoutErr = ''TimeoutError''"
| "class_text MemoryErr = ''MemoryError''"
| "class_text RecursionErr = ''RecursionError''"
| "class_text PermissionErr = ''PermissionError''"
| "class_text FileNotFoundErr = ''FileNotFoundError''"
| "class_text ImportErr = ''ImportError''"
| "class_text ValueErr = ''ValueError''"
| "class_text TypeErr = ''TypeError''"
| "class_text KeyErr = ''KeyError''"
| "class_text IndexErr = ''IndexError''"
| "class_text LookupErr = ''LookupError''"
| "class_text ArithmeticErr = ''ArithmeticError''"
| "class_text ZeroDivisionErr = ''ZeroDivisionError''"
| "class_text OverflowErr = ''OverflowError''"
| "class_text OSErr = ''OSError''"
| "class_text RuntimeErr = ''RuntimeError''"
| "class_text CeilingExceeded = ''CeilingExceeded''"
| "class_text UnsupportedCapabilityExn = ''UnsupportedCapability''"
| "class_text UnknownProviderExn = ''UnknownProvider''"
| "class_text OtherExn = ''Exception''"

text \<open>\<open>str(exc)\<close>, the stable \<open>code\<close> attribute where the class has one, and the class name.\<close>

fun failure_text :: "failure \<Rightarrow> string" where
  "failure_text (UnsupportedCapability p c) = ''provider '' @ repr_str p @ '' does not support capability '' @ repr_str c"
| "failure_text (UnknownProvider p available) = ''unknown execution provider '' @ repr_str p @ ''; available: ''
     @ (if join '', '' available = [] then ''none'' else join '', '' available)"
| "failure_text (ProviderInterfaceMismatch p offered required) = ''provider '' @ repr_str p @ '' implements interface ''
     @ repr_str offered @ ''; CodeCalc requires a compatible '' @ repr_str required @ '' interface''"
| "failure_text (ProviderOperationFailure p op) = ''provider '' @ repr_str p @ '' '' @ op @ '' failed''"
| "failure_text (CodedRunFailure result) =
     (if has_key result ''error'' then py_str (dget result ''error'') else ''runner failed before executing'')"
| "failure_text (Uncanonical (Uncanonicalizable path detail)) = path @ '': '' @ detail"
| "failure_text (Raised e) = exn_msg e"

fun failure_code :: "failure \<Rightarrow> string option" where
  "failure_code (UnsupportedCapability p c) = Some ''unsupported_capability''"
| "failure_code (UnknownProvider p available) = Some ''unknown_provider''"
| "failure_code (ProviderInterfaceMismatch p offered required) = Some ''provider_interface_mismatch''"
| "failure_code (ProviderOperationFailure p op) = Some (''provider_'' @ op @ ''_failed'')"
| "failure_code (CodedRunFailure result) = None"
| "failure_code (Uncanonical u) = Some ''uncanonicalizable_value''"
| "failure_code (Raised e) = None"

fun failure_class :: "failure \<Rightarrow> string" where
  "failure_class (UnsupportedCapability p c) = ''UnsupportedCapability''"
| "failure_class (UnknownProvider p available) = ''UnknownProvider''"
| "failure_class (ProviderInterfaceMismatch p offered required) = ''ProviderInterfaceMismatch''"
| "failure_class (ProviderOperationFailure p op) = ''ProviderOperationFailure''"
| "failure_class (CodedRunFailure result) = ''CodedRunFailure''"
| "failure_class (Uncanonical u) = ''UncanonicalizableValue''"
| "failure_class (Raised e) = class_text (exn_class e)"

section \<open>The request\<close>

record spec = cap_spec +
  spec_language :: string
  spec_code :: string
  spec_stdin :: string
  spec_timeout :: int
  spec_workdir :: "string option"
  spec_max_memory_mb :: int
  spec_max_output_kb :: int
  spec_max_cpu :: int

text \<open>The dataclass as the encoder sees it: all nine fields, no policy declared.\<close>

definition spec_value :: "spec \<Rightarrow> cval" where
  "spec_value s = VData ''ComputationSpec'' [] []
    [(''language'', VStr (spec_language s)), (''code'', VStr (spec_code s)), (''stdin'', VStr (spec_stdin s)),
     (''timeout'', VInt (spec_timeout s)),
     (''workdir'', case spec_workdir s of None \<Rightarrow> VNone | Some w \<Rightarrow> VStr w),
     (''max_memory_mb'', VInt (spec_max_memory_mb s)), (''max_output_kb'', VInt (spec_max_output_kb s)),
     (''max_cpu'', VInt (spec_max_cpu s)), (''no_net'', VBool (no_net s))]"

section \<open>Providers\<close>

abbreviation PROVIDER_INTERFACE_VERSION :: string where "PROVIDER_INTERFACE_VERSION \<equiv> ''1.0.0''"

datatype lifecycle_op = OpCancel | OpInspect | OpStream | OpCleanup | OpArtifacts | OpFiles | OpSessions

fun op_capability :: "lifecycle_op \<Rightarrow> string" where
  "op_capability OpCancel = ''cancel''"
| "op_capability OpInspect = ''inspect''"
| "op_capability OpStream = ''stream''"
| "op_capability OpCleanup = ''cleanup''"
| "op_capability OpArtifacts = ''artifacts''"
| "op_capability OpFiles = ''files''"
| "op_capability OpSessions = ''sessions''"

record provider =
  provider_id :: string
  describe :: dict
  execute_op :: "spec \<Rightarrow> failure + dict"
  execute_managed :: "string \<Rightarrow> spec \<Rightarrow> failure + dict"
  lifecycle :: "lifecycle_op \<Rightarrow> string \<Rightarrow> failure + pyval"

definition provider_descriptor :: "string \<Rightarrow> string \<Rightarrow> string \<Rightarrow> string \<Rightarrow> bool \<Rightarrow> dict \<Rightarrow> dict" where
  "provider_descriptor interface pid version host_class is_strict capabilities =
    [(''interface_version'', PStr interface), (''provider_id'', PStr pid), (''provider_version'', PStr version),
     (''host_class'', PStr host_class), (''strict'', PBool is_strict), (''capabilities'', PDict capabilities)]"

text \<open>
  The local adapter: \<open>run\<close> is \<open>executor.execute\<close>, \<open>native\<close> that the backend is the Rust one
  and \<open>in_kernel\<close> that it can block the network in the kernel.
\<close>

definition local_provider :: "string \<Rightarrow> bool \<Rightarrow> bool \<Rightarrow> (spec \<Rightarrow> failure + dict) \<Rightarrow> provider" where
  "local_provider version native in_kernel run =
    \<lparr>provider_id = ''local'',
     describe = provider_descriptor PROVIDER_INTERFACE_VERSION ''local'' version ''local'' False
       [(''execute'', PBool True), (''managed_runs'', PBool False), (''inspect'', PBool False), (''stream'', PBool True),
        (''cancel'', PBool False), (''cleanup'', PBool False), (''files'', PBool False), (''artifacts'', PBool False),
        (''sessions'', PBool False), (''health'', PBool True), (''runtime_discovery'', PBool True),
        (''workdir'', PBool True), (''network_control'', PBool (native \<and> in_kernel))],
     execute_op = run,
     execute_managed = (\<lambda>rid s. Inl (UnsupportedCapability ''local'' ''managed_runs'')),
     lifecycle = (\<lambda>op rid. Inl (UnsupportedCapability ''local'' (op_capability op)))\<rparr>"

text \<open>\<open>provider.describe()["capabilities"].get(name)\<close>.\<close>

definition capability :: "provider \<Rightarrow> string \<Rightarrow> failure + bool" where
  "capability p name =
    (case map_of (describe p) ''capabilities'' of
       None \<Rightarrow> Inl (Raised (Exn KeyErr (repr_str ''capabilities'')))
     | Some (PDict c) \<Rightarrow> Inr (truthy (dget c name))
     | Some v \<Rightarrow> Inl (Raised (Exn OtherExn (py_repr v @ '' object has no attribute '' @ repr_str ''get''))))"

section \<open>The registry\<close>

record registry =
  default_provider_id :: string
  selection_policy :: "(spec \<Rightarrow> dict list \<Rightarrow> string option) option"
  registered :: "(string \<times> provider) list"

definition new_registry :: "string \<Rightarrow> (spec \<Rightarrow> dict list \<Rightarrow> string option) option \<Rightarrow> registry" where
  "new_registry default_id pol = \<lparr>default_provider_id = default_id, selection_policy = pol, registered = []\<rparr>"

definition major_of :: "string \<Rightarrow> string" where
  "major_of v = takeWhile (\<lambda>c. c \<noteq> CHR ''.'') v"

definition isdigit_text :: "string \<Rightarrow> bool" where
  "isdigit_text s \<longleftrightarrow> s \<noteq> [] \<and> list_all (\<lambda>c. is_digit c \<or> of_char c \<in> {178 :: nat, 179, 185}) s"

definition register :: "registry \<Rightarrow> provider \<Rightarrow> failure + registry" where
  "register r p =
    (if map_of (registered r) (provider_id p) \<noteq> None
     then Inl (Raised (Exn ValueErr (''provider '' @ repr_str (provider_id p) @ '' is already registered'')))
     else let offered = (if has_key (describe p) ''interface_version'' then py_str (dget (describe p) ''interface_version'') else []);
              offered_major = major_of offered
       in if \<not> isdigit_text offered_major \<or> offered_major \<noteq> major_of PROVIDER_INTERFACE_VERSION
          then Inl (ProviderInterfaceMismatch (provider_id p) offered PROVIDER_INTERFACE_VERSION)
          else Inr (r\<lparr>registered := registered r @ [(provider_id p, p)]\<rparr>))"

definition sorted_ids :: "registry \<Rightarrow> string list" where
  "sorted_ids r = sort (map fst (registered r))"

definition descriptors :: "registry \<Rightarrow> dict list" where
  "descriptors r = map (\<lambda>k. describe (the (map_of (registered r) k))) (sorted_ids r)"

definition select :: "registry \<Rightarrow> string option \<Rightarrow> spec option \<Rightarrow> failure + provider" where
  "select r pid sp =
    (let asked = (case (pid, selection_policy r, sp) of
                    (None, Some pol, Some s) \<Rightarrow> pol s (descriptors r)
                  | _ \<Rightarrow> pid);
         chosen = (case asked of Some (c # cs) \<Rightarrow> c # cs | _ \<Rightarrow> default_provider_id r)
     in case map_of (registered r) chosen of
          None \<Rightarrow> Inl (UnknownProvider chosen (sorted_ids r))
        | Some p \<Rightarrow> Inr p)"

section \<open>Receipts\<close>

abbreviation RECEIPT_VERSION :: string where "RECEIPT_VERSION \<equiv> ''1.2.0''"

definition DETERMINISM_INPUTS :: "string list" where
  "DETERMINISM_INPUTS = [''locale.LANG'', ''locale.LC_ALL'', ''timezone'', ''seed'']"

text \<open>\<open>node = node[part]\<close> along the dots of a name.\<close>

fun split_dots :: "string \<Rightarrow> string \<Rightarrow> string list" where
  "split_dots acc [] = [rev acc]"
| "split_dots acc (c # cs) = (if c = CHR ''.'' then rev acc # split_dots [] cs else split_dots (c # acc) cs)"

definition determinism_value :: "dict \<Rightarrow> string \<Rightarrow> pyval" where
  "determinism_value receipt dotted =
    fold (\<lambda>part node. case node of PDict d \<Rightarrow> dget d part | _ \<Rightarrow> PNone) (split_dots [] dotted) (PDict receipt)"

definition determinism_receipt :: "dict \<Rightarrow> string \<Rightarrow> dict" where
  "determinism_receipt forwarded pid =
    (let receipt = (if pid = ''local''
       then [(''source'', PStr ''env_allowlist''),
             (''locale'', PDict [(''LANG'', dget forwarded ''LANG''), (''LC_ALL'', dget forwarded ''LC_ALL'')]),
             (''timezone'', dget forwarded ''TZ''), (''seed'', PNone)]
       else [(''source'', PStr ''provider_owned''), (''locale'', PDict [(''LANG'', PNone), (''LC_ALL'', PNone)]),
             (''timezone'', PNone), (''seed'', PNone)])
     in dset ''unrecorded'' (PList (map PStr (sort (filter (\<lambda>n. determinism_value receipt n = PNone) DETERMINISM_INPUTS)))) receipt)"

definition unenforced_of :: "dict \<Rightarrow> string list" where
  "unenforced_of result = (case dget result ''unenforced'' of PList xs \<Rightarrow> map py_str xs | _ \<Rightarrow> [])"

definition requested_controls :: "spec \<Rightarrow> (string \<times> bool \<times> string list) list" where
  "requested_controls s =
    [(''timeout'', spec_timeout s > 0, [''timeout'']), (''max_memory_mb'', spec_max_memory_mb s > 0, [''memory'']),
     (''max_output_kb'', spec_max_output_kb s > 0, [''output'']), (''max_cpu'', spec_max_cpu s > 0, [''cpu'']),
     (''no_net'', no_net s, [''no_net'', ''network''])]"

definition limit_receipt :: "spec \<Rightarrow> dict \<Rightarrow> dict" where
  "limit_receipt s result =
    (let disclosures = unenforced_of result;
         disclosure_text = lower (join [char_of (10 :: nat)] disclosures);
         reported = map fst (filter (\<lambda>(name, asked, markers). asked \<and> \<not> list_ex (\<lambda>m. contains m disclosure_text) markers)
                      (requested_controls s))
     in [(''requested'', PDict [(''timeout_seconds'', PInt (spec_timeout s)), (''max_memory_mb'', PInt (spec_max_memory_mb s)),
            (''max_output_kb'', PInt (spec_max_output_kb s)), (''max_cpu_seconds'', PInt (spec_max_cpu s)),
            (''no_net'', PBool (no_net s))]),
         (''provider_reported_enforced'', PList (map PStr reported)),
         (''unenforced'', PList (map PStr disclosures))])"

definition descriptor_field :: "dict \<Rightarrow> string \<Rightarrow> failure + pyval" where
  "descriptor_field d k = (case map_of d k of None \<Rightarrow> Inl (Raised (Exn KeyErr (repr_str k))) | Some v \<Rightarrow> Inr v)"

text \<open>What the receipt reads of its surroundings: the hash function and the forwarded environment.\<close>

record host =
  sha256 :: "string \<Rightarrow> string"
  forwarded_env :: dict

definition spec_hash_of :: "host \<Rightarrow> spec \<Rightarrow> failure + string" where
  "spec_hash_of h s = (case spec_hash (sha256 h) (\<lambda>v. []) (spec_value s) of Inl u \<Rightarrow> Inl (Uncanonical u) | Inr t \<Rightarrow> Inr t)"

definition receipt_of :: "host \<Rightarrow> spec \<Rightarrow> pyval \<Rightarrow> pyval \<Rightarrow> pyval \<Rightarrow> pyval \<Rightarrow> string \<Rightarrow> dict \<Rightarrow> string option \<Rightarrow> decision option \<Rightarrow> dict" where
  "receipt_of h s interface pid version host_class hash result session_id dec =
    (let receipt = [(''receipt_version'', PStr RECEIPT_VERSION), (''interface_version'', interface), (''provider_id'', pid),
            (''provider_version'', version), (''host_class'', host_class), (''session_id'', opt_str session_id),
            (''spec_schema_version'', PStr COMPUTATION_SPEC_VERSION), (''spec_hash'', PStr hash),
            (''source_sha256'', PStr (text_hash (sha256 h) (spec_code s))),
            (''determinism'', PDict (determinism_receipt (forwarded_env h) (py_str pid))),
            (''limits'', PDict (limit_receipt s result))]
     in case dec of None \<Rightarrow> receipt | Some d \<Rightarrow> dset ''capabilities'' (PDict (to_receipt d)) receipt)"

definition execution_receipt :: "host \<Rightarrow> spec \<Rightarrow> dict \<Rightarrow> dict \<Rightarrow> string option \<Rightarrow> decision option \<Rightarrow> failure + dict" where
  "execution_receipt h s descriptor result session_id dec =
    rbind (descriptor_field descriptor ''interface_version'') (\<lambda>interface.
    rbind (descriptor_field descriptor ''provider_id'') (\<lambda>pid.
    rbind (descriptor_field descriptor ''provider_version'') (\<lambda>version.
    rbind (descriptor_field descriptor ''host_class'') (\<lambda>host_class.
    rbind (spec_hash_of h s) (\<lambda>hash.
      Inr (receipt_of h s interface pid version host_class hash result session_id dec))))))"

definition attach_receipt :: "host \<Rightarrow> spec \<Rightarrow> provider \<Rightarrow> dict \<Rightarrow> string option \<Rightarrow> decision option \<Rightarrow> failure + dict" where
  "attach_receipt h s p result session_id dec =
    rbind (execution_receipt h s (describe p) result session_id dec) (\<lambda>receipt. Inr (dset ''provider'' (PDict receipt) result))"

section \<open>The identity of a request\<close>

definition spec_document :: "spec \<Rightarrow> json" where
  "spec_document s = JObj [(''schema_version'', JStr COMPUTATION_SPEC_VERSION), (''spec'', JObj
    [(''language'', JStr (spec_language s)), (''code'', JStr (spec_code s)), (''stdin'', JStr (spec_stdin s)),
     (''timeout'', JInt (spec_timeout s)), (''workdir'', case spec_workdir s of None \<Rightarrow> JNull | Some w \<Rightarrow> JStr w),
     (''max_memory_mb'', JInt (spec_max_memory_mb s)), (''max_output_kb'', JInt (spec_max_output_kb s)),
     (''max_cpu'', JInt (spec_max_cpu s)), (''no_net'', JBool (no_net s))])]"

lemma spec_fields_innocent:
  "\<not> secret_bearing ''language''" "\<not> secret_bearing ''code''" "\<not> secret_bearing ''stdin''" "\<not> secret_bearing ''timeout''"
  "\<not> secret_bearing ''workdir''" "\<not> secret_bearing ''max_memory_mb''" "\<not> secret_bearing ''max_output_kb''"
  "\<not> secret_bearing ''max_cpu''" "\<not> secret_bearing ''no_net''"
  by code_simp+

lemma canonical_document_spec: "canonical_document rp (spec_value s) = Inr (spec_document s)"
  by (simp add: canonical_document_def spec_value_def spec_document_def spec_fields_innocent split: option.splits)

text \<open>The nine fields, in the order of their names.\<close>

lemma sort_spec_document:
  "sort_keys (spec_document s) = JObj [(''schema_version'', JStr COMPUTATION_SPEC_VERSION), (''spec'', JObj
    [(''code'', JStr (spec_code s)), (''language'', JStr (spec_language s)),
     (''max_cpu'', JInt (spec_max_cpu s)), (''max_memory_mb'', JInt (spec_max_memory_mb s)),
     (''max_output_kb'', JInt (spec_max_output_kb s)), (''no_net'', JBool (no_net s)), (''stdin'', JStr (spec_stdin s)),
     (''timeout'', JInt (spec_timeout s)), (''workdir'', case spec_workdir s of None \<Rightarrow> JNull | Some w \<Rightarrow> JStr w)])]"
  by (simp add: spec_document_def sort_key_def insort_key_def less_eq_list_code less_list_code less_eq_char_def less_char_def
      split: option.splits)

lemma sort_spec_document_inject: "sort_keys (spec_document s) = sort_keys (spec_document t) \<longleftrightarrow> s = t"
  by (auto simp: sort_spec_document intro!: spec.equality split: option.splits)

text \<open>
  C4. The canonical bytes name the request: every request has them, and two requests have the same
  bytes exactly when all nine fields agree (so a missing working directory and an empty one, or a
  flag and a number, are different requests). Two different requests with the same hash therefore
  exhibit two different byte strings with the same digest.
\<close>

theorem computation_spec_identity:
  "(\<exists>b. canonical_bytes rp (spec_value s) = Inr b)
   \<and> (canonical_bytes rp (spec_value s) = canonical_bytes rp (spec_value t) \<longleftrightarrow> s = t)
   \<and> (\<exists>k. spec_hash_of h s = Inr k)
   \<and> (spec_hash_of h s = spec_hash_of h t \<longleftrightarrow> s = t
        \<or> (\<exists>b c. canonical_bytes rp (spec_value s) = Inr b \<and> canonical_bytes rp (spec_value t) = Inr c
             \<and> b \<noteq> c \<and> sha256 h b = sha256 h c))"
proof -
  have bytes: "canonical_bytes rp (spec_value s) = Inr (utf8 (compact (sort_keys (spec_document s))))" for rp s
    by (simp add: canonical_bytes_def canonical_document_spec)
  have inj: "utf8 (compact (sort_keys (spec_document s))) = utf8 (compact (sort_keys (spec_document t))) \<longleftrightarrow> s = t"
    by (simp add: utf8_inject compact_inject sort_spec_document_inject)
  show ?thesis
    using inj by (auto simp: bytes spec_hash_of_def spec_hash_def content_hash_def)
qed

section \<open>Selection\<close>

text \<open>A registry holds each provider under its own identity and compatible interface.\<close>

definition compatible :: "provider \<Rightarrow> bool" where
  "compatible p \<longleftrightarrow> has_key (describe p) ''interface_version''
     \<and> major_of (py_str (dget (describe p) ''interface_version'')) = major_of PROVIDER_INTERFACE_VERSION"

definition wf_registry :: "registry \<Rightarrow> bool" where
  "wf_registry r \<longleftrightarrow> distinct (map fst (registered r)) \<and> (\<forall>(k, p) \<in> set (registered r). provider_id p = k \<and> compatible p)"

inductive registry_reachable :: "registry \<Rightarrow> bool" where
  fresh: "registry_reachable (new_registry d pol)"
| registers: "registry_reachable r \<Longrightarrow> register r p = Inr r' \<Longrightarrow> registry_reachable r'"

lemma register_wf: "wf_registry r \<Longrightarrow> register r p = Inr r' \<Longrightarrow> wf_registry r'"
  by (auto simp: wf_registry_def register_def compatible_def major_of_def isdigit_text_def Let_def map_of_eq_None_iff
      split: if_splits)

lemma registry_reachable_wf: "registry_reachable r \<Longrightarrow> wf_registry r"
proof (induction rule: registry_reachable.induct)
  case (registers r p r')
  then show ?case using register_wf by blast
qed (simp add: wf_registry_def new_registry_def)

lemma select_known:
  assumes "wf_registry r" "select r pid sp = Inr p"
  shows "compatible p" "map_of (registered r) (provider_id p) = Some p" "pid = Some (c # cs) \<Longrightarrow> provider_id p = c # cs"
  using assms by (auto simp: select_def wf_registry_def Let_def split: option.splits list.splits dest: map_of_SomeD)

text \<open>
  Selection is sound on every registry that registration can build: what it returns is
  registered under its own identity with a compatible interface, an explicit identity is honoured
  whatever the policy says, and a failure names the identity that was looked up, which is registered
  nowhere, and the identities that are.
\<close>

theorem select_sound:
  assumes "registry_reachable r"
  shows "case select r pid sp of
      Inr p \<Rightarrow> map_of (registered r) (provider_id p) = Some p \<and> compatible p
        \<and> (\<forall>c cs. pid = Some (c # cs) \<longrightarrow> provider_id p = c # cs)
    | Inl e \<Rightarrow> (\<exists>k. e = UnknownProvider k (sorted_ids r) \<and> k \<notin> set (sorted_ids r)
        \<and> (\<forall>c cs. pid = Some (c # cs) \<longrightarrow> k = c # cs))"
proof (cases "select r pid sp")
  case (Inr p)
  then show ?thesis using select_known [OF registry_reachable_wf [OF assms] Inr] by simp
next
  case (Inl e)
  then show ?thesis
    by (auto simp: select_def sorted_ids_def Let_def map_of_eq_None_iff split: option.splits list.splits)
qed

definition demo_registry :: registry where
  "demo_registry = (case register (new_registry ''local'' None) (local_provider ''1'' True True (\<lambda>s. Inr [])) of Inr r \<Rightarrow> r
     | Inl e \<Rightarrow> new_registry [] None)"

lemma demo_registry_reachable: "registry_reachable demo_registry"
  unfolding demo_registry_def
  by (cases "register (new_registry ''local'' None) (local_provider ''1'' True True (\<lambda>s. Inr []))")
    (auto intro: registry_reachable.intros)

theorem select_sound_witness:
  "(case select demo_registry (Some ''piston'') None of
      Inl (UnknownProvider k ids) \<Rightarrow> k = ''piston'' \<and> ids = [''local''] \<and> k \<notin> set ids | _ \<Rightarrow> False)
   \<and> (case select demo_registry None None of Inr p \<Rightarrow> provider_id p = ''local'' \<and> compatible p | Inl e \<Rightarrow> False)"
proof -
  have "\<exists>e. select demo_registry (Some ''piston'') None = Inl e" "sorted_ids demo_registry = [''local'']"
    by (simp_all add: demo_registry_def register_def new_registry_def local_provider_def provider_descriptor_def
        select_def sorted_ids_def major_of_def isdigit_text_def Let_def is_digit_def)
  moreover obtain p where "select demo_registry None None = Inr p" "provider_id p = ''local''"
    by (simp add: demo_registry_def register_def new_registry_def local_provider_def provider_descriptor_def
        select_def sorted_ids_def major_of_def isdigit_text_def Let_def is_digit_def)
  ultimately show ?thesis
    using select_sound [OF demo_registry_reachable, of "Some ''piston''" None]
      select_sound [OF demo_registry_reachable, of None None] by auto
qed

section \<open>What a receipt says\<close>

lemma determinism_values:
  "determinism_value receipt ''locale.LANG'' = (case dget receipt ''locale'' of PDict d \<Rightarrow> dget d ''LANG'' | _ \<Rightarrow> PNone)"
  "determinism_value receipt ''locale.LC_ALL'' = (case dget receipt ''locale'' of PDict d \<Rightarrow> dget d ''LC_ALL'' | _ \<Rightarrow> PNone)"
  "determinism_value receipt ''timezone'' = dget receipt ''timezone''"
  "determinism_value receipt ''seed'' = dget receipt ''seed''"
  by (simp_all add: determinism_value_def)

lemma determinism_value_unrecorded:
  "n \<in> set DETERMINISM_INPUTS \<Longrightarrow> determinism_value (dset ''unrecorded'' v receipt) n = determinism_value receipt n"
  by (auto simp: DETERMINISM_INPUTS_def determinism_values)

lemma unrecorded_names:
  fixes r :: dict
  defines "names \<equiv> sort (filter (\<lambda>n. determinism_value r n = PNone) DETERMINISM_INPUTS)"
  shows "\<exists>ns. dget (dset ''unrecorded'' (PList (map PStr names)) r) ''unrecorded'' = PList (map PStr ns)
     \<and> set ns = {n \<in> set DETERMINISM_INPUTS. determinism_value (dset ''unrecorded'' (PList (map PStr names)) r) n = PNone}"
  by (rule exI [of _ names]) (auto simp: determinism_value_unrecorded names_def)

lemma determinism_receipt_unrecorded:
  "\<exists>names. dget (determinism_receipt env pid) ''unrecorded'' = PList (map PStr names)
     \<and> set names = {n \<in> set DETERMINISM_INPUTS. determinism_value (determinism_receipt env pid) n = PNone}"
  unfolding determinism_receipt_def Let_def by (rule unrecorded_names)

text \<open>A disclosed limit: some marker of the control occurs in the provider's disclosures.\<close>

definition disclosed :: "dict \<Rightarrow> string list \<Rightarrow> bool" where
  "disclosed result markers \<longleftrightarrow> list_ex (\<lambda>m. contains m (lower (join [char_of (10 :: nat)] (unenforced_of result)))) markers"

lemma limit_receipt_reported:
  "\<exists>names. dget (limit_receipt s result) ''provider_reported_enforced'' = PList (map PStr names)
     \<and> set names = {n. \<exists>markers. (n, True, markers) \<in> set (requested_controls s) \<and> \<not> disclosed result markers}"
  by (intro exI [of _ "map fst (filter (\<lambda>(name, asked, markers). asked \<and> \<not> disclosed result markers) (requested_controls s))"])
    (force simp: limit_receipt_def disclosed_def Let_def image_iff)

lemma execution_receipt_fields:
  assumes "execution_receipt h s descriptor result sid dec = Inr receipt"
  shows "spec_hash_of h s = Inr (py_str (dget receipt ''spec_hash''))" "\<exists>hash. dget receipt ''spec_hash'' = PStr hash"
    "dget receipt ''limits'' = PDict (limit_receipt s result)" "dget receipt ''session_id'' = opt_str sid"
    "dget receipt ''provider_id'' = dget descriptor ''provider_id''"
    "dget receipt ''determinism'' = PDict (determinism_receipt (forwarded_env h) (py_str (dget descriptor ''provider_id'')))"
    "dget receipt ''capabilities'' = (case dec of None \<Rightarrow> PNone | Some d \<Rightarrow> PDict (to_receipt d))"
proof -
  obtain interface pid version host_class hash where f: "map_of descriptor ''provider_id'' = Some pid"
    "spec_hash_of h s = Inr hash"
    and r: "receipt = receipt_of h s interface pid version host_class hash result sid dec"
    using assms unfolding execution_receipt_def descriptor_field_def
    by (auto simp: rbind_eq_Inr split: option.splits)
  show "spec_hash_of h s = Inr (py_str (dget receipt ''spec_hash''))" "\<exists>hash. dget receipt ''spec_hash'' = PStr hash"
    "dget receipt ''limits'' = PDict (limit_receipt s result)" "dget receipt ''session_id'' = opt_str sid"
    "dget receipt ''provider_id'' = dget descriptor ''provider_id''"
    "dget receipt ''determinism'' = PDict (determinism_receipt (forwarded_env h) (py_str (dget descriptor ''provider_id'')))"
    "dget receipt ''capabilities'' = (case dec of None \<Rightarrow> PNone | Some d \<Rightarrow> PDict (to_receipt d))"
    using f by (cases dec; simp add: r receipt_of_def Let_def dget_def [of descriptor])+
qed


definition demo_spec :: spec where
  "demo_spec = \<lparr>no_net = True, spec_language = ''python3'', spec_code = ''print(1)'', spec_stdin = [], spec_timeout = 10,
     spec_workdir = None, spec_max_memory_mb = 0, spec_max_output_kb = 0, spec_max_cpu = 0\<rparr>"

definition demo_result :: dict where
  "demo_result = [(''ok'', PBool True), (''unenforced'', PList [PStr ''no_net: blocked by the shim only''])]"

definition demo_host :: host where
  "demo_host = \<lparr>sha256 = (\<lambda>b. ''00''), forwarded_env = [(''LANG'', PStr ''C'')]\<rparr>"


end
