(* ===== verification/Run_Supervisor.thy ===== *)
theory Run_Supervisor
  imports Providers Binary64
begin

text \<open>
  \<open>codecalc/run_supervisor.py\<close>: background runs, their table, their journal on disk and the
  recovery of the runs a crashed process left behind. Every method takes and returns the state of the
  supervisor. What the world does is an argument: the clock, the fresh identity of a run, whether the
  thread pool takes the work, what a provider answers to \<open>cancel\<close> and \<open>cleanup\<close>, whether a
  file can be written. A future is pending with the operation the worker runs, or settled with
  its outcome. \<open>executor._rmtree_checked\<close> is recorded in a log of released directories.
\<close>

section \<open>State\<close>

datatype run_state = Running | Cancelling | Finished | Cleaned

fun state_text :: "run_state \<Rightarrow> string" where
  "state_text Running = ''running''"
| "state_text Cancelling = ''cancelling''"
| "state_text Finished = ''finished''"
| "state_text Cleaned = ''cleaned''"

definition ACTIVE_STATES :: "string list" where "ACTIVE_STATES = [''running'', ''cancelling'']"

definition TERMINAL_STATES :: "string list" where "TERMINAL_STATES = [''finished'', ''cleaned'', ''recovered'']"

definition active_state :: "run_state \<Rightarrow> bool" where
  "active_state s \<longleftrightarrow> List.member ACTIVE_STATES (state_text s)"

record run_handle =
  run_id :: string
  handle_provider :: string
  started_at :: rat
  deadline :: rat

text \<open>What the worker thread runs: the caller's runner, or one of the provider's two entries.\<close>

datatype operation = RunnerOp | ManagedOp | ExecuteOp

datatype future = Pending operation | Settled "failure + dict"

record run =
  handle :: run_handle
  run_provider :: provider
  run_spec' :: spec
  future :: "future option"
  run_state :: run_state
  run_result :: "dict option"
  cleaned :: bool
  capability_decision :: "decision option"
  receipt_spec :: "spec option"
  workdir :: "string option"
  workdir_identity :: "(int \<times> int) option"
  workdir_cleaned :: bool

text \<open>A journal file: its record, none when it cannot be read or parsed, and its modification time.\<close>

record journal_file =
  content :: "dict option"
  mtime :: rat

record supervisor =
  sup_registry :: registry
  max_completed :: nat
  max_active_runs :: nat
  runs :: "(string \<times> run) list"
  journal :: "(string \<times> journal_file) list"
  released :: "(string \<times> string \<times> pyval) list"

datatype refusal = TooManyActiveRuns nat nat | Failed failure

definition new_supervisor :: "registry \<Rightarrow> int \<Rightarrow> int \<Rightarrow> (string \<times> journal_file) list \<Rightarrow> failure + supervisor" where
  "new_supervisor reg completed active files =
    (if completed < 0 then Inl (Raised (Exn ValueErr ''max_completed must be non-negative''))
     else if active < 1 then Inl (Raised (Exn ValueErr ''max_active_runs must be positive''))
     else Inr \<lparr>sup_registry = reg, max_completed = nat completed, max_active_runs = nat active, runs = [],
               journal = files, released = []\<rparr>)"

definition rid :: "run \<Rightarrow> string" where "rid r = run_id (handle r)"

definition is_active :: "run \<Rightarrow> bool" where "is_active r = active_state (run_state r)"

definition settled :: "run \<Rightarrow> (failure + dict) option" where
  "settled r = (case future r of Some (Settled o') \<Rightarrow> Some o' | _ \<Rightarrow> None)"

definition put_run :: "run \<Rightarrow> supervisor \<Rightarrow> supervisor" where
  "put_run r s = s\<lparr>runs := AList.update (rid r) r (runs s)\<rparr>"

section \<open>The journal\<close>

definition handle_dict :: "run_handle \<Rightarrow> dict" where
  "handle_dict h = [(''run_id'', PStr (run_id h)), (''provider_id'', PStr (handle_provider h)),
     (''started_at'', mk_float (started_at h)), (''deadline'', mk_float (deadline h))]"

definition identity_value :: "(int \<times> int) option \<Rightarrow> pyval" where
  "identity_value i = (case i of None \<Rightarrow> PNone | Some (d, n) \<Rightarrow> PList [PInt d, PInt n])"

definition journal_record :: "rat \<Rightarrow> run \<Rightarrow> dict" where
  "journal_record now r =
    handle_dict (handle r)
    @ [(''state'', PStr (state_text (run_state r))), (''cleaned'', PBool (cleaned r)), (''updated_at'', mk_float now)]
    @ (case workdir r of None \<Rightarrow> []
       | Some w \<Rightarrow> [(''workdir'', PStr w), (''workdir_identity'', identity_value (workdir_identity r)),
                    (''workdir_cleaned'', PBool (workdir_cleaned r))])"

definition write_journal :: "rat \<Rightarrow> run \<Rightarrow> supervisor \<Rightarrow> supervisor" where
  "write_journal now r s = s\<lparr>journal := AList.update (rid r) \<lparr>content = Some (journal_record now r), mtime = now\<rparr> (journal s)\<rparr>"

definition recorded_state :: "journal_file \<Rightarrow> string option" where
  "recorded_state f = (case content f of None \<Rightarrow> None
     | Some d \<Rightarrow> (case dget d ''state'' of PStr t \<Rightarrow> Some t | _ \<Rightarrow> None))"

definition prunable :: "journal_file \<Rightarrow> bool" where
  "prunable f = (case recorded_state f of None \<Rightarrow> False | Some t \<Rightarrow> List.member TERMINAL_STATES t)"

definition prune :: "supervisor \<Rightarrow> supervisor" where
  "prune s =
    (let candidates = sort_key (\<lambda>(p, f). - mtime f) (filter (\<lambda>(p, f). prunable f) (journal s));
         doomed = map fst (drop (max_completed s) candidates)
     in s\<lparr>journal := filter (\<lambda>(p, f). p \<notin> set doomed) (journal s)\<rparr>)"

section \<open>Collecting a result\<close>

definition failed_result :: "string \<Rightarrow> run \<Rightarrow> failure \<Rightarrow> dict" where
  "failed_result version r e =
    (case e of
       CodedRunFailure d \<Rightarrow> stamp version d
     | _ \<Rightarrow> stamp version (error_result INTERNAL (''background run failed: '' @ failure_text e)
         [(''provider_error'', PStr (case failure_code e of Some c \<Rightarrow> c | None \<Rightarrow> failure_class e)),
          (''requested_provider'', PStr (handle_provider (handle r))), (''run_id'', PStr (rid r))]))"

definition collected_result :: "string \<Rightarrow> host \<Rightarrow> run \<Rightarrow> failure + dict \<Rightarrow> dict" where
  "collected_result version h r outcome =
    (case rbind outcome (\<lambda>d. attach_receipt h (case receipt_spec r of Some s \<Rightarrow> s | None \<Rightarrow> run_spec' r) (run_provider r) d
            None (capability_decision r)) of
       Inr d \<Rightarrow> d
     | Inl e \<Rightarrow> failed_result version r e)"

definition release :: "run \<Rightarrow> supervisor \<Rightarrow> supervisor" where
  "release r s = (case workdir r of
     Some w \<Rightarrow> if workdir_cleaned r then s else s\<lparr>released := released s @ [(rid r, w, identity_value (workdir_identity r))]\<rparr>
   | None \<Rightarrow> s)"

definition collect :: "string \<Rightarrow> host \<Rightarrow> rat \<Rightarrow> failure + dict \<Rightarrow> run \<Rightarrow> supervisor \<Rightarrow> supervisor" where
  "collect version h now outcome r s =
    (if run_result r \<noteq> None then s
     else let r' = r\<lparr>run_result := Some (collected_result version h r outcome),
                     workdir_cleaned := (workdir_cleaned r \<or> workdir r \<noteq> None), run_state := Finished\<rparr>
       in prune (write_journal now r' (put_run r' (release r s))))"

definition collect_if_done :: "string \<Rightarrow> host \<Rightarrow> rat \<Rightarrow> run \<Rightarrow> supervisor \<Rightarrow> supervisor" where
  "collect_if_done version h now r s =
    (case settled r of
       Some o' \<Rightarrow> if is_active r then collect version h now o' r s else s
     | None \<Rightarrow> s)"

text \<open>The reap goes over a snapshot of the table; no other run of the snapshot changes meanwhile.\<close>

definition reap_completed :: "string \<Rightarrow> host \<Rightarrow> rat \<Rightarrow> supervisor \<Rightarrow> supervisor" where
  "reap_completed version h now s = fold (collect_if_done version h now) (map snd (runs s)) s"

section \<open>The operations\<close>

definition get_run :: "supervisor \<Rightarrow> string \<Rightarrow> failure + run" where
  "get_run s i = (case map_of (runs s) i of Some r \<Rightarrow> Inr r
     | None \<Rightarrow> Inl (Raised (Exn KeyErr (repr_str (''unknown run '' @ repr_str i)))))"

definition known_run_ids :: "supervisor \<Rightarrow> string list" where
  "known_run_ids s = map fst (runs s)"

definition active_count :: "supervisor \<Rightarrow> nat" where
  "active_count s = length (filter (\<lambda>(i, r). is_active r) (runs s))"

record submission =
  sub_spec :: spec
  sub_provider :: "string option"
  sub_decision :: "decision option"
  sub_receipt_spec :: "spec option"
  sub_runner :: bool
  sub_workdir :: "string option"
  sub_identity :: "(int \<times> int) option"

definition choose_operation :: "bool \<Rightarrow> provider \<Rightarrow> failure + operation" where
  "choose_operation runner p =
    (if runner then Inr RunnerOp
     else rbind (capability p ''managed_runs'') (\<lambda>managed. Inr (if managed then ManagedOp else ExecuteOp)))"

definition new_run :: "string \<Rightarrow> rat \<Rightarrow> provider \<Rightarrow> submission \<Rightarrow> run" where
  "new_run i now p sub =
    \<lparr>handle = \<lparr>run_id = i, handle_provider = provider_id p, started_at = now,
               deadline = now + of_int (max 0 (spec_timeout (sub_spec sub)))\<rparr>,
     run_provider = p, run_spec' = sub_spec sub, future = None, run_state = Running, run_result = None, cleaned = False,
     capability_decision = sub_decision sub, receipt_spec = sub_receipt_spec sub, workdir = sub_workdir sub,
     workdir_identity = sub_identity sub, workdir_cleaned = False\<rparr>"

text \<open>Insertion, journal, then submission to the pool, which may fail: \<open>pool\<close>.\<close>

definition admit :: "failure option \<Rightarrow> rat \<Rightarrow> operation \<Rightarrow> run \<Rightarrow> supervisor \<Rightarrow> (refusal + run_handle) \<times> supervisor" where
  "admit pool now op r s =
    (let s1 = write_journal now r (put_run r s) in
     case pool of
       None \<Rightarrow> (Inr (handle r), put_run (r\<lparr>future := Some (Pending op)\<rparr>) s1)
     | Some e \<Rightarrow>
         let s2 = release r (s1\<lparr>runs := AList.delete (rid r) (runs s1)\<rparr>)
         in (Inl (Failed e), write_journal now (r\<lparr>run_state := Finished, workdir_cleaned := True\<rparr>) s2))"

definition start :: "string \<Rightarrow> host \<Rightarrow> failure option \<Rightarrow> rat \<Rightarrow> string \<Rightarrow> submission \<Rightarrow> supervisor \<Rightarrow> (refusal + run_handle) \<times> supervisor" where
  "start version h pool now i sub s =
    (case select (sup_registry s) (sub_provider sub) (Some (sub_spec sub)) of
       Inl e \<Rightarrow> (Inl (Failed e), s)
     | Inr p \<Rightarrow>
         (case choose_operation (sub_runner sub) p of
            Inl e \<Rightarrow> (Inl (Failed e), s)
          | Inr op \<Rightarrow>
              let s1 = reap_completed version h now s in
              if active_count s1 \<ge> max_active_runs s1
              then (Inl (TooManyActiveRuns (active_count s1) (max_active_runs s1)), s1)
              else admit pool now op (new_run i now p sub) s1))"

text \<open>What the worker thread does to a pending future; \<open>runner\<close> is what the caller's runner gives.\<close>

definition work :: "failure + dict \<Rightarrow> run \<Rightarrow> operation \<Rightarrow> failure + dict" where
  "work runner r op = (case op of RunnerOp \<Rightarrow> runner | ManagedOp \<Rightarrow> execute_managed (run_provider r) (rid r) (run_spec' r)
     | ExecuteOp \<Rightarrow> execute_op (run_provider r) (run_spec' r))"

definition settle :: "failure + dict \<Rightarrow> string \<Rightarrow> supervisor \<Rightarrow> supervisor" where
  "settle runner i s = (case map_of (runs s) i of
     Some r \<Rightarrow> (case future r of Some (Pending op) \<Rightarrow> put_run (r\<lparr>future := Some (Settled (work runner r op))\<rparr>) s | _ \<Rightarrow> s)
   | None \<Rightarrow> s)"

definition inspect :: "string \<Rightarrow> host \<Rightarrow> rat \<Rightarrow> string \<Rightarrow> supervisor \<Rightarrow> (failure + dict) \<times> supervisor" where
  "inspect version h now i s =
    (case get_run s i of
       Inl e \<Rightarrow> (Inl e, s)
     | Inr r \<Rightarrow>
         let s' = collect_if_done version h now r s; r' = (case map_of (runs s') i of Some x \<Rightarrow> x | None \<Rightarrow> r)
         in (Inr (handle_dict (handle r') @ [(''state'', PStr (state_text (run_state r'))), (''cleaned'', PBool (cleaned r'))]), s'))"

text \<open>
  \<open>wait\<close>: a pending future times out; a settled one is collected, unless its own exception is a
  \<open>TimeoutError\<close>, which the handler of the timeout catches as well.
\<close>

definition wait_timeout :: "string \<Rightarrow> failure" where
  "wait_timeout i = Raised (Exn TimeoutErr (''run '' @ repr_str i @ '' did not finish before wait timeout''))"

fun is_timeout :: "failure + dict \<Rightarrow> bool" where
  "is_timeout (Inl (Raised e)) = isinstance e TimeoutErr"
| "is_timeout x = False"

definition wait :: "string \<Rightarrow> host \<Rightarrow> rat \<Rightarrow> string \<Rightarrow> supervisor \<Rightarrow> (failure + dict) \<times> supervisor" where
  "wait version h now i s =
    (case get_run s i of
       Inl e \<Rightarrow> (Inl e, s)
     | Inr r \<Rightarrow>
         (case settled r of
            None \<Rightarrow> (Inl (wait_timeout i), s)
          | Some o' \<Rightarrow>
              if is_timeout o' then (Inl (wait_timeout i), s)
              else let s' = collect version h now o' r s
                in (Inr (case map_of (runs s') i of Some r' \<Rightarrow> (case run_result r' of Some d \<Rightarrow> d | None \<Rightarrow> []) | None \<Rightarrow> []), s')))"

text \<open>
  \<open>cancel\<close> in its two critical sections: the request, and the return to \<open>running\<close> after the
  provider's own \<open>cancel\<close>, called in between without the lock, has raised.
\<close>

definition cancel_request :: "rat \<Rightarrow> string \<Rightarrow> supervisor \<Rightarrow> (failure + dict) \<times> supervisor" where
  "cancel_request now i s =
    (case get_run s i of
       Inl e \<Rightarrow> (Inl e, s)
     | Inr r \<Rightarrow>
         if \<not> is_active r
         then (Inr [(''run_id'', PStr i), (''cancelled'', PBool False), (''state'', PStr (state_text (run_state r)))], s)
         else case capability (run_provider r) ''cancel'' of
           Inl e \<Rightarrow> (Inl e, s)
         | Inr can \<Rightarrow>
             if \<not> can then (Inl (UnsupportedCapability (provider_id (run_provider r)) ''cancel''), s)
             else let r' = r\<lparr>run_state := Cancelling\<rparr>
               in (Inr [(''run_id'', PStr i), (''cancelled'', PBool True), (''state'', PStr ''cancelling'')], write_journal now r' (put_run r' s)))"

definition cancel_revert :: "rat \<Rightarrow> string \<Rightarrow> supervisor \<Rightarrow> supervisor" where
  "cancel_revert now i s = (case map_of (runs s) i of
     Some r \<Rightarrow> if run_state r = Cancelling then (let r' = r\<lparr>run_state := Running\<rparr> in write_journal now r' (put_run r' s)) else s
   | None \<Rightarrow> s)"

definition cleanup :: "rat \<Rightarrow> string \<Rightarrow> supervisor \<Rightarrow> (failure + dict) \<times> supervisor" where
  "cleanup now i s =
    (case get_run s i of
       Inl e \<Rightarrow> (Inl e, s)
     | Inr r \<Rightarrow>
         if cleaned r then (Inr [(''run_id'', PStr i), (''cleaned'', PBool True), (''already_cleaned'', PBool True)], s)
         else case capability (run_provider r) ''cleanup'' of
           Inl e \<Rightarrow> (Inl e, s)
         | Inr can \<Rightarrow>
             (case (if can then lifecycle (run_provider r) OpCleanup i else Inr PNone) of
                Inl e \<Rightarrow> (Inl e, s)
              | Inr v \<Rightarrow>
                  let r' = r\<lparr>cleaned := True, run_state := Cleaned\<rparr>
                  in (Inr [(''run_id'', PStr i), (''cleaned'', PBool True), (''already_cleaned'', PBool False)],
                      prune (write_journal now r' (put_run r' s)))))"

section \<open>Recovery\<close>

text \<open>The exceptions the recovery of one record swallows.\<close>

fun swallowed :: "failure \<Rightarrow> bool" where
  "swallowed (Raised e) = (isinstance e KeyErr \<or> isinstance e OSErr \<or> isinstance e ValueErr \<or> isinstance e TypeErr)"
| "swallowed (ProviderInterfaceMismatch p a b) = True"
| "swallowed (Uncanonical u) = True"
| "swallowed e = False"

definition provider_recovery :: "provider \<Rightarrow> dict \<Rightarrow> failure + string" where
  "provider_recovery p record =
    rbind (descriptor_field record ''run_id'') (\<lambda>v. let i = py_str v in
    rbind (capability p ''cancel'') (\<lambda>can_cancel.
    rbind (capability p ''cleanup'') (\<lambda>can_clean.
    rbind (if can_cancel then lifecycle p OpCancel i else Inr PNone) (\<lambda>u.
    rbind (if can_clean then lifecycle p OpCleanup i else Inr PNone) (\<lambda>w. Inr i)))))"

text \<open>The provider's side of one record: the record, whether it changed, and the run recovered.\<close>

definition recover_provider :: "registry \<Rightarrow> dict \<Rightarrow> failure + dict \<times> string option" where
  "recover_provider reg record =
    (case dget record ''state'' of
       PStr t \<Rightarrow>
         if \<not> List.member ACTIVE_STATES t then Inr (record, None)
         else rbind (descriptor_field record ''provider_id'') (\<lambda>pid.
           case select reg (Some (py_str pid)) None of
             Inl e \<Rightarrow> Inr (record, None)
           | Inr p \<Rightarrow>
               (case provider_recovery p record of
                  Inr i \<Rightarrow> Inr (dset ''cleaned'' (PBool True) (dset ''state'' (PStr ''recovered'') record), Some i)
                | Inl e \<Rightarrow> if swallowed e then Inr (record, None) else Inl e))
     | _ \<Rightarrow> Inr (record, None))"

definition needs_release :: "dict \<Rightarrow> bool" where
  "needs_release record \<longleftrightarrow> truthy (dget record ''workdir'') \<and> \<not> truthy (dget record ''workdir_cleaned'')"

definition recorded_identity :: "dict \<Rightarrow> pyval" where
  "recorded_identity record = (let i = dget record ''workdir_identity'' in if truthy i then i else PNone)"

text \<open>The sweep of the directory of a record, and the rewriting of a changed record.\<close>

definition sweep :: "rat \<Rightarrow> string \<Rightarrow> dict \<Rightarrow> bool \<Rightarrow> supervisor \<Rightarrow> supervisor" where
  "sweep now path record' changed s =
    (let gone = needs_release record';
         record'' = (if gone then dset ''workdir_cleaned'' (PBool True) record' else record');
         s1 = (if gone then s\<lparr>released := released s @ [(path, py_str (dget record' ''workdir''), recorded_identity record')]\<rparr> else s)
     in if gone \<or> changed
        then s1\<lparr>journal := AList.update path \<lparr>content = Some record'', mtime = now\<rparr> (journal s1)\<rparr> else s1)"

definition recover_file :: "rat \<Rightarrow> string \<Rightarrow> journal_file \<Rightarrow> supervisor \<Rightarrow> failure + supervisor \<times> string list" where
  "recover_file now path f s =
    (case content f of
       None \<Rightarrow> Inr (s, [])
     | Some c \<Rightarrow>
         rbind (recover_provider (sup_registry s) c) (\<lambda>(c', recovered).
           Inr (sweep now path c' (recovered \<noteq> None) s, case recovered of None \<Rightarrow> [] | Some i \<Rightarrow> [i])))"

fun recover_files :: "rat \<Rightarrow> (string \<times> journal_file) list \<Rightarrow> supervisor \<Rightarrow> failure + supervisor \<times> string list" where
  "recover_files now [] s = Inr (s, [])"
| "recover_files now ((path, f) # fs) s =
     rbind (recover_file now path f s) (\<lambda>(s', ids). rbind (recover_files now fs s') (\<lambda>(s'', ids'). Inr (s'', ids @ ids')))"

definition recover_orphans :: "rat \<Rightarrow> supervisor \<Rightarrow> failure + supervisor \<times> string list" where
  "recover_orphans now s =
    rbind (recover_files now (sort_key fst (journal s)) s) (\<lambda>(s', ids). Inr (prune s', ids))"

end
