(* ===== verification/Run_Invariant.thy ===== *)
theory Run_Invariant
  imports Run_Supervisor
begin

text \<open>
  The invariant of the run supervisor, the lemmas that every operation keeps it, and the states the
  supervisor can reach by any interleaving of its operations, of the worker threads and of restarts.
\<close>

section \<open>The invariant\<close>

definition releases :: "supervisor \<Rightarrow> string \<Rightarrow> nat" where
  "releases s i = length (filter (\<lambda>(j, w, x). j = i) (released s))"

text \<open>
  A run of the table: it is stored under its identity and has a future; while it is active it has no
  result and its journal file records its very state; finished means collected; its directory was
  released exactly once if it was collected, and never otherwise.
\<close>

definition wf_run :: "supervisor \<Rightarrow> string \<Rightarrow> run \<Rightarrow> bool" where
  "wf_run s i r \<longleftrightarrow> rid r = i \<and> future r \<noteq> None
     \<and> (is_active r \<longrightarrow> run_result r = None
          \<and> (\<exists>f. map_of (journal s) i = Some f \<and> recorded_state f = Some (state_text (run_state r))))
     \<and> (run_state r = Finished \<longrightarrow> run_result r \<noteq> None)
     \<and> (workdir_cleaned r \<longleftrightarrow> run_result r \<noteq> None \<and> workdir r \<noteq> None)
     \<and> releases s i = (if workdir_cleaned r then 1 else 0)"

definition wf_sup :: "supervisor \<Rightarrow> bool" where
  "wf_sup s \<longleftrightarrow> distinct (map fst (runs s)) \<and> distinct (map fst (journal s)) \<and> active_count s \<le> max_active_runs s
     \<and> (\<forall>i r. map_of (runs s) i = Some r \<longrightarrow> wf_run s i r)"

lemma active_state_simps [simp]:
  "active_state Running" "active_state Cancelling" "\<not> active_state Finished" "\<not> active_state Cleaned"
  by (simp_all add: active_state_def ACTIVE_STATES_def)

lemma active_state_cases: "active_state st \<longleftrightarrow> st = Running \<or> st = Cancelling"
  by (cases st) simp_all

lemma active_not_prunable: "recorded_state f = Some (state_text st) \<Longrightarrow> active_state st \<Longrightarrow> \<not> prunable f"
  by (auto simp: prunable_def active_state_cases TERMINAL_STATES_def)

lemma recorded_state_journal_record:
  "recorded_state \<lparr>content = Some (journal_record now r), mtime = t\<rparr> = Some (state_text (run_state r))"
  by (simp add: recorded_state_def journal_record_def handle_dict_def)

subsection \<open>Tables\<close>

lemma map_of_update [simp]: "map_of (AList.update i r xs) = (map_of xs)(i \<mapsto> r)"
  by (simp add: update_conv')

lemma count_update_known:
  "map_of xs i = Some r \<Longrightarrow> (P r' \<Longrightarrow> P r) \<Longrightarrow>
     length (filter (\<lambda>(j, q). P q) (AList.update i r' xs)) \<le> length (filter (\<lambda>(j, q). P q) xs)"
  by (induction xs) auto

lemma count_update_new:
  "length (filter (\<lambda>(j, q). P q) (AList.update i r' xs)) \<le> Suc (length (filter (\<lambda>(j, q). P q) xs))"
  by (induction xs) auto

subsection \<open>The journal keeps what is not terminal\<close>

definition keeps :: "supervisor \<Rightarrow> supervisor \<Rightarrow> string \<Rightarrow> bool" where
  "keeps s s' j \<longleftrightarrow> (\<forall>f. map_of (journal s) j = Some f \<and> \<not> prunable f \<longrightarrow> map_of (journal s') j = Some f)"

lemma keeps_refl [simp]: "keeps s s j"
  by (simp add: keeps_def)

lemma keeps_trans: "keeps s s' j \<Longrightarrow> keeps s' s'' j \<Longrightarrow> keeps s s'' j"
  by (auto simp: keeps_def)

lemma map_of_filter_keys: "map_of (filter (\<lambda>(p, f). p \<notin> D) xs) = (\<lambda>p. if p \<in> D then None else map_of xs p)"
  by (induction xs) (auto simp: fun_eq_iff)

lemma prune_keeps: "distinct (map fst (journal s)) \<Longrightarrow> keeps s (prune s) j"
proof (unfold keeps_def, clarify)
  fix f
  assume d: "distinct (map fst (journal s))" and f: "map_of (journal s) j = Some f" "\<not> prunable f"
  have "\<not> (\<exists>g. (j, g) \<in> set (journal s) \<and> prunable g)"
    using d f by (metis map_of_is_SomeI option.inject)
  then have "j \<notin> set (map fst (drop n (sort_key (\<lambda>(p, f). - mtime f) (filter (\<lambda>(p, f). prunable f) (journal s)))))" for n
    by (auto dest!: in_set_dropD)
  then show "map_of (journal (prune s)) j = Some f"
    using f by (simp add: prune_def Let_def map_of_filter_keys)
qed

lemma prune_sub: "map_of (journal (prune s)) j = None \<or> map_of (journal (prune s)) j = map_of (journal s) j"
  by (simp add: prune_def Let_def map_of_filter_keys)

lemma prune_simps [simp]:
  "runs (prune s) = runs s" "released (prune s) = released s" "max_active_runs (prune s) = max_active_runs s"
  "max_completed (prune s) = max_completed s" "sup_registry (prune s) = sup_registry s"
  by (simp_all add: prune_def Let_def)

lemma prune_distinct: "distinct (map fst (journal s)) \<Longrightarrow> distinct (map fst (journal (prune s)))"
  by (simp add: prune_def Let_def distinct_map_filter)

lemma write_journal_simps [simp]:
  "runs (write_journal now r s) = runs s" "released (write_journal now r s) = released s"
  "max_active_runs (write_journal now r s) = max_active_runs s" "sup_registry (write_journal now r s) = sup_registry s"
  "map_of (journal (write_journal now r s)) = (map_of (journal s))(rid r \<mapsto> \<lparr>content = Some (journal_record now r), mtime = now\<rparr>)"
  by (simp_all add: write_journal_def)

lemma write_journal_distinct: "distinct (map fst (journal s)) \<Longrightarrow> distinct (map fst (journal (write_journal now r s)))"
  by (simp add: write_journal_def distinct_update)

lemma put_run_simps [simp]:
  "runs (put_run r s) = AList.update (rid r) r (runs s)" "released (put_run r s) = released s"
  "journal (put_run r s) = journal s" "max_active_runs (put_run r s) = max_active_runs s"
  "sup_registry (put_run r s) = sup_registry s"
  by (simp_all add: put_run_def)

lemma release_simps [simp]:
  "runs (release r s) = runs s" "journal (release r s) = journal s" "max_active_runs (release r s) = max_active_runs s"
  "sup_registry (release r s) = sup_registry s"
  by (simp_all add: release_def split: option.splits)

lemma releases_release:
  "releases (release r s) j =
     releases s j + (if j = rid r \<and> workdir r \<noteq> None \<and> \<not> workdir_cleaned r then 1 else 0)"
  by (auto simp: releases_def release_def split: option.splits)

lemma releases_cong: "released s' = released s \<Longrightarrow> releases s' j = releases s j"
  by (simp add: releases_def)

text \<open>Replacing or adding one run.\<close>

lemma wf_run_frame:
  assumes "wf_run s j q" "keeps s s' j" "releases s' j = releases s j"
  shows "wf_run s' j q"
  using assms active_not_prunable by (auto simp: wf_run_def keeps_def is_active_def)

lemma wf_sup_replace:
  assumes s: "wf_sup s" and r: "map_of (runs s') = (map_of (runs s))(i \<mapsto> r')" "distinct (map fst (runs s'))"
    and j: "distinct (map fst (journal s'))" "\<And>j. j \<noteq> i \<Longrightarrow> keeps s s' j"
    and rel: "\<And>j. j \<noteq> i \<Longrightarrow> releases s' j = releases s j"
    and wf: "wf_run s' i r'" and cap: "active_count s' \<le> max_active_runs s'"
  shows "wf_sup s'"
proof -
  have "wf_run s' k q" if "map_of (runs s') k = Some q" for k q
  proof (cases "k = i")
    case False
    with that r(1) have "map_of (runs s) k = Some q" by simp
    with s show ?thesis using wf_run_frame [OF _ j(2) [OF False] rel [OF False]] by (simp add: wf_sup_def)
  qed (use that r(1) wf in simp)
  then show ?thesis using r(2) j(1) cap by (simp add: wf_sup_def)
qed

lemma active_count_known:
  assumes "runs s' = AList.update i r' (runs s)" "map_of (runs s) i = Some r" "is_active r' \<Longrightarrow> is_active r"
  shows "active_count s' \<le> active_count s"
  using count_update_known [of "runs s" i r is_active r'] assms by (simp add: active_count_def)

lemma active_count_new:
  assumes "runs s' = AList.update i r' (runs s)"
  shows "active_count s' \<le> Suc (active_count s)"
  using count_update_new [of is_active i r' "runs s"] assms by (simp add: active_count_def)

subsection \<open>Every operation keeps the invariant\<close>

lemma wf_sup_run: "wf_sup s \<Longrightarrow> map_of (runs s) i = Some r \<Longrightarrow> wf_run s i r"
  by (simp add: wf_sup_def)

text \<open>Collection, the one place where a run becomes terminal with its result.\<close>

definition collected :: "string \<Rightarrow> host \<Rightarrow> failure + dict \<Rightarrow> run \<Rightarrow> run" where
  "collected version h outcome r = r\<lparr>run_result := Some (collected_result version h r outcome),
     workdir_cleaned := (workdir_cleaned r \<or> workdir r \<noteq> None), run_state := Finished\<rparr>"

lemma collected_simps [simp]:
  "rid (collected version h outcome r) = rid r" "run_state (collected version h outcome r) = Finished"
  "run_result (collected version h outcome r) = Some (collected_result version h r outcome)"
  "future (collected version h outcome r) = future r" "workdir (collected version h outcome r) = workdir r"
  "cleaned (collected version h outcome r) = cleaned r" "\<not> is_active (collected version h outcome r)"
  "workdir_cleaned (collected version h outcome r) = (workdir_cleaned r \<or> workdir r \<noteq> None)"
  by (simp_all add: collected_def rid_def is_active_def)

lemma collect_runs:
  "runs (collect version h now outcome r s) =
     (if run_result r = None then AList.update (rid r) (collected version h outcome r) (runs s) else runs s)"
  "max_active_runs (collect version h now outcome r s) = max_active_runs s"
  "sup_registry (collect version h now outcome r s) = sup_registry s"
  by (simp_all add: collect_def collected_def Let_def rid_def)

lemma collect_wf:
  assumes s: "wf_sup s" and r: "map_of (runs s) i = Some r"
  shows "wf_sup (collect version h now outcome r s)"
proof (cases "run_result r")
  case None
  let ?r' = "collected version h outcome r"
  let ?w = "write_journal now ?r' (put_run ?r' (release r s))"
  have wf: "wf_run s i r" by (rule wf_sup_run [OF s r])
  then have i: "rid r = i" by (simp add: wf_run_def)
  have d: "distinct (map fst (journal s))" using s by (simp add: wf_sup_def)
  have eq: "collect version h now outcome r s = prune ?w" using None by (simp add: collect_def collected_def Let_def)
  have rel: "releases (prune ?w) j = releases (release r s) j" for j by (rule releases_cong) simp
  have wd: "distinct (map fst (journal ?w))" using d by (simp add: write_journal_distinct)
  show ?thesis
  proof (rule wf_sup_replace [OF s, where i = i and r' = ?r'])
    show "map_of (runs (collect version h now outcome r s)) = (map_of (runs s))(i \<mapsto> ?r')" using None i by (simp add: collect_runs)
    show "distinct (map fst (runs (collect version h now outcome r s)))"
      using None s by (simp add: collect_runs distinct_update wf_sup_def)
    show "distinct (map fst (journal (collect version h now outcome r s)))" unfolding eq using wd by (rule prune_distinct)
    show "keeps s (collect version h now outcome r s) j" if "j \<noteq> i" for j
      unfolding eq using that i by (intro keeps_trans [OF _ prune_keeps [OF wd]]) (simp add: keeps_def)
    show "releases (collect version h now outcome r s) j = releases s j" if "j \<noteq> i" for j
      unfolding eq using that i by (simp add: rel releases_release)
    show "wf_run (collect version h now outcome r s) i ?r'"
      using wf None by (auto simp: wf_run_def eq rel releases_release)
    have "active_count (collect version h now outcome r s) \<le> active_count s"
      by (rule active_count_known [where i = i and r' = ?r' and r = r]) (use None i r in \<open>simp_all add: collect_runs\<close>)
    then show "active_count (collect version h now outcome r s) \<le> max_active_runs (collect version h now outcome r s)"
      using s by (simp add: collect_runs wf_sup_def)
  qed
qed (simp add: collect_def s)

lemma collect_if_done_wf:
  "wf_sup s \<Longrightarrow> map_of (runs s) i = Some r \<Longrightarrow> wf_sup (collect_if_done version h now r s)"
  by (simp add: collect_if_done_def collect_wf split: option.splits)

lemma collect_if_done_other:
  assumes "j \<noteq> rid r"
  shows "map_of (runs (collect_if_done version h now r s)) j = map_of (runs s) j"
  using assms by (simp add: collect_if_done_def collect_runs split: option.splits)

lemma collect_if_done_simps [simp]:
  "max_active_runs (collect_if_done version h now r s) = max_active_runs s"
  "sup_registry (collect_if_done version h now r s) = sup_registry s"
  by (simp_all add: collect_if_done_def collect_runs split: option.splits)

text \<open>The reap, by induction over the part of the snapshot still to visit.\<close>

lemma reap_list:
  assumes "wf_sup s" "distinct (map rid rs)" "\<And>r. r \<in> set rs \<Longrightarrow> map_of (runs s) (rid r) = Some r"
  shows "wf_sup (fold (collect_if_done version h now) rs s)
    \<and> max_active_runs (fold (collect_if_done version h now) rs s) = max_active_runs s
    \<and> (\<forall>i. map_of (runs (fold (collect_if_done version h now) rs s)) i =
         (case map_of (runs s) i of None \<Rightarrow> None
          | Some r \<Rightarrow> Some (if r \<in> set rs \<and> is_active r \<and> settled r \<noteq> None then collected version h (the (settled r)) r else r)))"
  using assms
proof (induction rs arbitrary: s)
  case Nil
  then show ?case by (simp split: option.splits)
next
  case (Cons r rs)
  let ?s1 = "collect_if_done version h now r s"
  have r: "map_of (runs s) (rid r) = Some r" using Cons.prems(3) by simp
  have wf1: "wf_sup ?s1" by (rule collect_if_done_wf [OF Cons.prems(1) r])
  have "map_of (runs ?s1) (rid q) = Some q" if "q \<in> set rs" for q
  proof -
    have "rid q \<noteq> rid r" using that Cons.prems(2) by (metis distinct.simps(2) image_eqI list.set_map list.simps(9))
    then show ?thesis using that Cons.prems(3) by (simp add: collect_if_done_other)
  qed
  note IH = Cons.IH [OF wf1 _ this]
  have act: "run_result r = None" if "is_active r" using wf_sup_run [OF Cons.prems(1) r] that by (simp add: wf_run_def)
  have m: "map_of (runs ?s1) i = (if i = rid r then Some (if is_active r \<and> settled r \<noteq> None then collected version h (the (settled r)) r else r)
      else map_of (runs s) i)" for i
    using r act by (auto simp: collect_if_done_def collect_runs split: option.splits)
  have notin: "r \<notin> set rs" using Cons.prems(2) by auto
  have inj: "q = r" if "map_of (runs s) (rid r) = Some q" for q using that r by simp
  have keyed: "rid q = i" if "map_of (runs s) i = Some q" for i q
    using wf_sup_run [OF Cons.prems(1) that] by (simp add: wf_run_def)
  have "collected version h (the (settled r)) r \<notin> set rs" if "is_active r"
    using Cons.prems(2) by (metis collected_simps(1) distinct.simps(2) image_eqI list.set_map list.simps(9))
  then show ?case using IH Cons.prems(2) notin r
    by (auto simp: m dest: keyed split: option.splits)
qed

lemma reap_completed_runs:
  assumes "wf_sup s"
  shows "wf_sup (reap_completed version h now s)"
    and "max_active_runs (reap_completed version h now s) = max_active_runs s"
    and "map_of (runs (reap_completed version h now s)) i =
      (case map_of (runs s) i of None \<Rightarrow> None
       | Some r \<Rightarrow> Some (if is_active r \<and> settled r \<noteq> None then collected version h (the (settled r)) r else r))"
proof -
  have d: "distinct (map fst (runs s))" using assms by (simp add: wf_sup_def)
  have key: "rid q = i" if "(i, q) \<in> set (runs s)" for i q
    using wf_sup_run [OF assms map_of_is_SomeI [OF d that]] by (simp add: wf_run_def)
  then have "map rid (map snd (runs s)) = map fst (runs s)" by auto
  then have "distinct (map rid (map snd (runs s)))" using d by (simp only:)
  moreover have "map_of (runs s) (rid r) = Some r" if "r \<in> set (map snd (runs s))" for r
    using that key map_of_is_SomeI [OF d] by auto
  ultimately have all: "wf_sup (reap_completed version h now s)
    \<and> max_active_runs (reap_completed version h now s) = max_active_runs s
    \<and> (\<forall>i. map_of (runs (reap_completed version h now s)) i =
         (case map_of (runs s) i of None \<Rightarrow> None
          | Some r \<Rightarrow> Some (if r \<in> set (map snd (runs s)) \<and> is_active r \<and> settled r \<noteq> None then collected version h (the (settled r)) r else r)))"
    unfolding reap_completed_def using assms by (intro reap_list) auto
  then show "wf_sup (reap_completed version h now s)" "max_active_runs (reap_completed version h now s) = max_active_runs s" by auto
  show "map_of (runs (reap_completed version h now s)) i =
      (case map_of (runs s) i of None \<Rightarrow> None
       | Some r \<Rightarrow> Some (if is_active r \<and> settled r \<noteq> None then collected version h (the (settled r)) r else r))"
  proof (cases "map_of (runs s) i")
    case (Some r)
    then have "r \<in> set (map snd (runs s))" by (force dest: map_of_SomeD)
    with all Some show ?thesis by simp
  qed (use all in simp)
qed

lemma collect_releases: "j \<noteq> rid r \<Longrightarrow> releases (collect version h now outcome r s) j = releases s j"
proof -
  assume "j \<noteq> rid r"
  moreover have "releases (prune (write_journal now r' (put_run r' (release r s)))) j = releases (release r s) j" for r'
    by (rule releases_cong) simp
  ultimately show ?thesis by (simp add: collect_def Let_def releases_release)
qed

lemma reap_list_releases:
  "j \<notin> rid ` set rs \<Longrightarrow> releases (fold (collect_if_done version h now) rs s) j = releases s j"
proof (induction rs arbitrary: s)
  case (Cons r rs)
  then have "releases (collect_if_done version h now r s) j = releases s j"
    by (auto simp: collect_if_done_def collect_releases split: option.splits)
  with Cons show ?case by simp
qed simp

lemma reap_completed_releases:
  assumes "wf_sup s" "map_of (runs s) j = None"
  shows "releases (reap_completed version h now s) j = releases s j"
  unfolding reap_completed_def
proof (rule reap_list_releases)
  have d: "distinct (map fst (runs s))" using assms(1) by (simp add: wf_sup_def)
  have "rid q \<noteq> j" if "(i, q) \<in> set (runs s)" for i q
  proof -
    have "rid q = i" using wf_sup_run [OF assms(1) map_of_is_SomeI [OF d that]] by (simp add: wf_run_def)
    moreover have "i \<noteq> j" using map_of_is_SomeI [OF d that] assms(2) by auto
    ultimately show ?thesis by simp
  qed
  then show "j \<notin> rid ` set (map snd (runs s))" by (metis (no_types, lifting) imageE list.set_map prod.collapse)
qed

lemma delete_update_fresh: "i \<notin> fst ` set xs \<Longrightarrow> AList.delete i (AList.update i r xs) = xs"
  by (induction xs) (auto simp: AList.delete_eq)

lemma wf_sup_frame:
  assumes "wf_sup s" "runs s' = runs s" "max_active_runs s' = max_active_runs s" "distinct (map fst (journal s'))"
    "\<And>j. map_of (runs s) j \<noteq> None \<Longrightarrow> keeps s s' j \<and> releases s' j = releases s j"
  shows "wf_sup s'"
proof -
  have "wf_run s' j q" if "map_of (runs s') j = Some q" for j q
  proof -
    from that assms(2) have q: "map_of (runs s) j = Some q" by simp
    then show ?thesis using wf_run_frame [OF wf_sup_run [OF assms(1) q]] assms(5) by blast
  qed
  then show ?thesis using assms(1-4) by (simp add: wf_sup_def active_count_def)
qed

lemma admit_wf:
  assumes s: "wf_sup s" and room: "active_count s < max_active_runs s"
    and r: "rid r = i" "run_state r = Running" "run_result r = None" "\<not> workdir_cleaned r"
    and fresh: "map_of (runs s) i = None" "releases s i = 0"
  shows "wf_sup (snd (admit pool now op r s))"
proof (cases pool)
  case None
  let ?r' = "r\<lparr>future := Some (Pending op)\<rparr>"
  let ?s' = "put_run ?r' (write_journal now r (put_run r s))"
  have s': "snd (admit pool now op r s) = ?s'" using None by (simp add: admit_def Let_def)
  have [simp]: "rid ?r' = i" using r by (simp add: rid_def)
  have rel: "releases ?s' j = releases s j" for j by (rule releases_cong) simp
  have "active_count ?s' \<le> active_count (put_run r s)"
    by (rule active_count_known [where i = i and r' = ?r' and r = r]) (simp_all add: r is_active_def)
  moreover have "active_count (put_run r s) \<le> Suc (active_count s)" by (rule active_count_new) simp
  ultimately have cap: "active_count ?s' \<le> max_active_runs ?s'" using room by simp
  show ?thesis unfolding s'
  proof (rule wf_sup_replace [OF s, where i = i and r' = ?r'])
    show "wf_run ?s' i ?r'"
      using r fresh by (auto simp: wf_run_def rel is_active_def recorded_state_journal_record rid_def)
  qed (use s r cap rel in \<open>auto simp: wf_sup_def distinct_update write_journal_distinct keeps_def\<close>)
next
  case (Some e)
  let ?f = "r\<lparr>run_state := Finished, workdir_cleaned := True\<rparr>"
  let ?s1 = "write_journal now r (put_run r s)"
  let ?s2 = "release r (?s1\<lparr>runs := AList.delete (rid r) (runs ?s1)\<rparr>)"
  have s': "snd (admit pool now op r s) = write_journal now ?f ?s2" using Some by (simp add: admit_def Let_def)
  have f: "rid ?f = i" using r by (simp add: rid_def)
  have rel: "releases (write_journal now ?f ?s2) j = releases s j" if "j \<noteq> i" for j
    using that r releases_cong [of "write_journal now ?f ?s2" ?s2 j] releases_cong [of "?s1\<lparr>runs := AList.delete (rid r) (runs ?s1)\<rparr>" s j]
    by (simp add: releases_release)
  show ?thesis unfolding s'
  proof (rule wf_sup_frame [OF s])
    show "runs (write_journal now ?f ?s2) = runs s"
      using fresh(1) r by (simp add: delete_update_fresh map_of_eq_None_iff)
    show "distinct (map fst (journal (write_journal now ?f ?s2)))"
      using s by (simp add: write_journal_distinct wf_sup_def)
    show "keeps s (write_journal now ?f ?s2) j \<and> releases (write_journal now ?f ?s2) j = releases s j"
      if "map_of (runs s) j \<noteq> None" for j
    proof -
      have "j \<noteq> i" using that fresh(1) by auto
      then show ?thesis using rel f r by (simp add: keeps_def)
    qed
  qed simp
qed

lemma start_wf:
  assumes "wf_sup s" "map_of (runs s) i = None" "releases s i = 0"
  shows "wf_sup (snd (start version h pool now i sub s))"
proof -
  let ?s1 = "reap_completed version h now s"
  have "wf_sup ?s1" "map_of (runs ?s1) i = None" "releases ?s1 i = 0"
    using reap_completed_runs [OF assms(1)] reap_completed_releases [OF assms(1, 2)] assms(2, 3) by simp_all
  then have "wf_sup (snd (admit pool now op (new_run i now p sub) ?s1))" if "active_count ?s1 < max_active_runs ?s1" for op p
    using that by (intro admit_wf) (simp_all add: new_run_def rid_def)
  then show ?thesis using assms(1) \<open>wf_sup ?s1\<close> by (auto simp: start_def Let_def split: sum.splits)
qed

text \<open>The other operations change one run and write its journal.\<close>

lemma rewrite_wf:
  assumes s: "wf_sup s" and r: "map_of (runs s) i = Some r" and i: "rid r' = i"
    and same: "future r' = future r" "run_result r' = run_result r" "workdir r' = workdir r" "workdir_cleaned r' = workdir_cleaned r"
    and st: "is_active r' \<Longrightarrow> is_active r" "run_state r' \<noteq> Finished"
  shows "wf_sup (write_journal now r' (put_run r' s))"
proof -
  let ?s' = "write_journal now r' (put_run r' s)"
  have wf: "wf_run s i r" by (rule wf_sup_run [OF s r])
  have rel: "releases ?s' j = releases s j" for j by (rule releases_cong) simp
  have cap: "active_count ?s' \<le> active_count s"
    by (rule active_count_known [where i = i and r' = r' and r = r]) (use r i st in simp_all)
  show ?thesis
  proof (rule wf_sup_replace [OF s, where i = i and r' = r'])
    show "wf_run ?s' i r'" using wf same st i by (auto simp: wf_run_def rel recorded_state_journal_record)
  qed (use s i cap rel in \<open>auto simp: wf_sup_def distinct_update write_journal_distinct keeps_def\<close>)
qed

lemma wf_prune: "wf_sup s \<Longrightarrow> wf_sup (prune s)"
  using prune_distinct [of s] prune_keeps [of s]
  by (intro wf_sup_frame [of s "prune s"]) (simp_all add: wf_sup_def releases_def)

lemma settle_wf:
  assumes s: "wf_sup s"
  shows "wf_sup (settle runner i s)"
proof (cases "map_of (runs s) i")
  case (Some r)
  show ?thesis
  proof (cases "\<exists>op. future r = Some (Pending op)")
    case True
    then obtain op where op: "future r = Some (Pending op)" by blast
    let ?r' = "r\<lparr>future := Some (Settled (work runner r op))\<rparr>"
    have eq: "settle runner i s = put_run ?r' s" using Some op by (simp add: settle_def)
    have wf: "wf_run s i r" by (rule wf_sup_run [OF s Some])
    then have i: "rid ?r' = i" by (simp add: wf_run_def rid_def)
    have rel: "releases (put_run ?r' s) j = releases s j" for j by (rule releases_cong) simp
    have cap: "active_count (put_run ?r' s) \<le> active_count s"
      by (rule active_count_known [where i = i and r' = ?r' and r = r]) (use Some i in \<open>simp_all add: is_active_def\<close>)
    show ?thesis unfolding eq
    proof (rule wf_sup_replace [OF s, where i = i and r' = ?r'])
      show "wf_run (put_run ?r' s) i ?r'" using wf i by (auto simp: wf_run_def rel is_active_def rid_def)
    qed (use s i cap rel in \<open>auto simp: wf_sup_def distinct_update keeps_def\<close>)
  qed (use Some s in \<open>auto simp: settle_def split: option.splits future.splits\<close>)
qed (simp add: settle_def s)

lemma get_run_Inr: "get_run s i = Inr r \<longleftrightarrow> map_of (runs s) i = Some r"
  by (simp add: get_run_def split: option.splits)

lemma inspect_wf: "wf_sup s \<Longrightarrow> wf_sup (snd (inspect version h now i s))"
  by (auto simp: inspect_def Let_def get_run_Inr intro: collect_if_done_wf split: sum.splits)

lemma wait_wf: "wf_sup s \<Longrightarrow> wf_sup (snd (wait version h now i s))"
  by (auto simp: wait_def Let_def get_run_Inr intro: collect_wf split: sum.splits option.splits)

lemma cancel_request_wf: "wf_sup s \<Longrightarrow> wf_sup (snd (cancel_request now i s))"
  using wf_sup_run [of s i]
  by (auto simp: cancel_request_def Let_def get_run_Inr wf_run_def is_active_def rid_def intro!: rewrite_wf split: sum.splits)

lemma cancel_revert_wf: "wf_sup s \<Longrightarrow> wf_sup (cancel_revert now i s)"
  using wf_sup_run [of s i]
  by (auto simp: cancel_revert_def Let_def wf_run_def is_active_def rid_def intro!: rewrite_wf split: option.splits)

lemma cleanup_wf: "wf_sup s \<Longrightarrow> wf_sup (snd (cleanup now i s))"
  using wf_sup_run [of s i]
  by (auto simp: cleanup_def Let_def get_run_Inr wf_run_def is_active_def rid_def intro!: wf_prune rewrite_wf split: sum.splits)

subsection \<open>Restarting\<close>

lemma sweep_keeps [simp]:
  "runs (sweep now path c changed s) = runs s" "max_active_runs (sweep now path c changed s) = max_active_runs s"
  "max_completed (sweep now path c changed s) = max_completed s" "sup_registry (sweep now path c changed s) = sup_registry s"
  "distinct (map fst (journal s)) \<Longrightarrow> distinct (map fst (journal (sweep now path c changed s)))"
  by (simp_all add: sweep_def Let_def distinct_update)

lemma recover_file_cases:
  assumes "recover_file now path f s = Inr (s', ids)"
  obtains "content f = None" "s' = s" "ids = []"
  | c c' got where "content f = Some c" "recover_provider (sup_registry s) c = Inr (c', got)"
    "s' = sweep now path c' (got \<noteq> None) s" "ids = (case got of None \<Rightarrow> [] | Some i \<Rightarrow> [i])"
  using assms by (cases "content f") (auto simp: recover_file_def rbind_eq_Inr)

lemma recover_file_keeps:
  assumes "recover_file now path f s = Inr (s', ids)" "distinct (map fst (journal s))"
  shows "runs s' = runs s" "distinct (map fst (journal s'))" "max_active_runs s' = max_active_runs s"
    "max_completed s' = max_completed s" "sup_registry s' = sup_registry s"
  using assms(2) by (cases rule: recover_file_cases [OF assms(1)]; simp)+

lemma recover_files_keeps:
  assumes "recover_files now fs s = Inr (s', ids)" "distinct (map fst (journal s))"
  shows "runs s' = runs s \<and> distinct (map fst (journal s')) \<and> max_active_runs s' = max_active_runs s
    \<and> max_completed s' = max_completed s \<and> sup_registry s' = sup_registry s"
  using assms
proof (induction now fs s arbitrary: s' ids rule: recover_files.induct)
  case (2 now path f fs s)
  then obtain s1 ids1 ids2 where s1: "recover_file now path f s = Inr (s1, ids1)" and rest: "recover_files now fs s1 = Inr (s', ids2)"
    by (auto simp: rbind_eq_Inr)
  note k = recover_file_keeps [OF s1 "2.prems"(2)]
  with "2.IH" [OF rest] show ?case by simp
qed simp

lemma recover_wf:
  assumes "wf_sup s" "recover_orphans now (s\<lparr>runs := []\<rparr>) = Inr (s', ids)"
  shows "wf_sup s'"
proof -
  obtain s1 where s1: "recover_files now (sort_key fst (journal s)) (s\<lparr>runs := []\<rparr>) = Inr (s1, ids)" and s': "s' = prune s1"
    using assms(2) by (auto simp: recover_orphans_def rbind_eq_Inr)
  have "runs s1 = []" "distinct (map fst (journal s1))" using recover_files_keeps [OF s1] assms(1) by (simp_all add: wf_sup_def)
  then show ?thesis by (simp add: s' wf_sup_def prune_distinct active_count_def)
qed

subsection \<open>Reachable states\<close>

text \<open>
  The interleavings of the locked sections, with the worker threads settling their futures at any
  time, and restarts of the process, which lose the table and keep the disk. A run is given an
  identity that is new (\<open>uuid4\<close>).
\<close>

inductive sup_step :: "string \<Rightarrow> host \<Rightarrow> supervisor \<Rightarrow> supervisor \<Rightarrow> bool" for version h where
  starts: "map_of (runs s) i = None \<Longrightarrow> releases s i = 0 \<Longrightarrow>
     start version h pool now i sub s = (res, s') \<Longrightarrow> sup_step version h s s'"
| settles: "sup_step version h s (settle runner i s)"
| inspects: "inspect version h now i s = (res, s') \<Longrightarrow> sup_step version h s s'"
| waits: "wait version h now i s = (res, s') \<Longrightarrow> sup_step version h s s'"
| requests_cancel: "cancel_request now i s = (res, s') \<Longrightarrow> sup_step version h s s'"
| reverts_cancel: "sup_step version h s (cancel_revert now i s)"
| cleans: "cleanup now i s = (res, s') \<Longrightarrow> sup_step version h s s'"
| restarts: "recover_orphans now (s\<lparr>runs := []\<rparr>) = Inr (s', ids) \<Longrightarrow> sup_step version h s s'"

inductive sup_reachable :: "string \<Rightarrow> host \<Rightarrow> supervisor \<Rightarrow> bool" for version h where
  boots: "new_supervisor reg completed active files = Inr s \<Longrightarrow> distinct (map fst files) \<Longrightarrow> sup_reachable version h s"
| steps: "sup_reachable version h s \<Longrightarrow> sup_step version h s s' \<Longrightarrow> sup_reachable version h s'"

lemma sup_step_wf: "sup_step version h s s' \<Longrightarrow> wf_sup s \<Longrightarrow> wf_sup s'"
proof (induction rule: sup_step.induct)
  case (starts s i pool now sub res s')
  then show ?case using start_wf [of s i version h pool now sub] by simp
next
  case (inspects now i s res s')
  then show ?case using inspect_wf [of s version h now i] by simp
next
  case (waits now i s res s')
  then show ?case using wait_wf [of s version h now i] by simp
next
  case (requests_cancel now i s res s')
  then show ?case using cancel_request_wf [of s now i] by simp
next
  case (cleans now i s res s')
  then show ?case using cleanup_wf [of s now i] by simp
qed (auto intro: settle_wf cancel_revert_wf recover_wf)

lemma sup_reachable_wf: "sup_reachable version h s \<Longrightarrow> wf_sup s"
proof (induction rule: sup_reachable.induct)
  case (boots reg completed active files s)
  then show ?case by (auto simp: new_supervisor_def wf_sup_def active_count_def split: if_splits)
next
  case (steps s s')
  then show ?case using sup_step_wf by blast
qed

end
