(* ===== verification/Run_Claims.thy ===== *)
theory Run_Claims
  imports Run_Invariant
begin

text \<open>
  What the run supervisor guarantees on its reachable states: the bound on active runs and the
  journal of every active run, exact admission, termination of polled runs, stability of results,
  the outcome of waiting, and recovery after a crash. The example supervisor of the witnesses runs
  one job at a time on the local provider.
\<close>

section \<open>What the supervisor guarantees\<close>


text \<open>A supervisor for one run at a time, over the local provider, and its state after one submission.\<close>

definition demo_supervisor :: supervisor where
  "demo_supervisor = \<lparr>sup_registry = demo_registry, max_completed = 1, max_active_runs = 1, runs = [], journal = [], released = []\<rparr>"

definition demo_submission :: submission where
  "demo_submission = \<lparr>sub_spec = demo_spec, sub_provider = None, sub_decision = None, sub_receipt_spec = None, sub_runner = True,
     sub_workdir = Some ''w'', sub_identity = None\<rparr>"

definition demo_started :: supervisor where
  "demo_started = snd (start [] demo_host None 0 ''a'' demo_submission demo_supervisor)"

lemma demo_supervisor_reachable: "sup_reachable version h demo_supervisor"
  by (rule sup_reachable.boots [of demo_registry 1 1 "[]"]) (simp_all add: new_supervisor_def demo_supervisor_def)

lemma demo_started_reachable: "sup_reachable [] demo_host demo_started"
  by (rule sup_reachable.steps [OF demo_supervisor_reachable], rule sup_step.starts [where i = "''a''" and pool = None and now = 0 and sub = demo_submission
      and res = "fst (start [] demo_host None 0 ''a'' demo_submission demo_supervisor)"])
    (simp_all add: demo_started_def demo_supervisor_def releases_def)

lemma demo_select: "\<exists>p. select demo_registry None sp = Inr p"
  by (simp add: demo_registry_def register_def new_registry_def local_provider_def provider_descriptor_def
      select_def sorted_ids_def major_of_def isdigit_text_def Let_def is_digit_def)

lemma demo_started_run:
  "sup_registry demo_started = demo_registry \<and> max_active_runs demo_started = 1 \<and>
   (\<exists>r. runs demo_started = [(''a'', r)] \<and> run_state r = Running \<and> future r = Some (Pending RunnerOp) \<and> workdir r = Some ''w''
     \<and> handle r = \<lparr>run_id = ''a'', handle_provider = provider_id (run_provider r), started_at = 0, deadline = 10\<rparr> \<and> run_result r = None)"
proof -
  obtain p where "select demo_registry None (Some demo_spec) = Inr p" using demo_select by blast
  then show ?thesis
    by (simp add: demo_started_def demo_supervisor_def demo_submission_def start_def choose_operation_def reap_completed_def
        active_count_def admit_def new_run_def rid_def Let_def demo_spec_def)
qed


text \<open>The runs whose work is still going on.\<close>

definition working :: "supervisor \<Rightarrow> string set" where
  "working s = {i. \<exists>r. map_of (runs s) i = Some r \<and> is_active r \<and> settled r = None}"

lemma length_filter_card:
  "distinct (map fst xs) \<Longrightarrow> length (filter (\<lambda>(i, r). P r) xs) = card {i. \<exists>r. map_of xs i = Some r \<and> P r}"
proof (induction xs)
  case (Cons x xs)
  obtain k q where x: "x = (k, q)" by fastforce
  with Cons.prems have k: "map_of xs k = None" by (simp add: map_of_eq_None_iff)
  define S where "S = {i. \<exists>r. map_of xs i = Some r \<and> P r}"
  have "finite S" unfolding S_def by (rule finite_subset [of _ "dom (map_of xs)"]) (auto simp: finite_dom_map_of)
  moreover have "k \<notin> S" using k by (simp add: S_def)
  moreover have "{i. \<exists>r. map_of (x # xs) i = Some r \<and> P r} = (if P q then insert k S else S)"
    using k by (auto simp: x S_def)
  moreover have "length (filter (\<lambda>(i, r). P r) xs) = card S" using Cons by (simp add: S_def)
  ultimately show ?case by (simp add: x)
qed simp

lemma reap_active_count:
  assumes "wf_sup s"
  shows "active_count (reap_completed version h now s) = card (working s)"
proof -
  have "distinct (map fst (runs (reap_completed version h now s)))" using reap_completed_runs(1) [OF assms] by (simp add: wf_sup_def)
  then have "active_count (reap_completed version h now s) =
      card {i. \<exists>r. map_of (runs (reap_completed version h now s)) i = Some r \<and> is_active r}"
    by (simp add: active_count_def length_filter_card)
  also have "{i. \<exists>r. map_of (runs (reap_completed version h now s)) i = Some r \<and> is_active r} = working s"
    by (auto simp: reap_completed_runs(3) [OF assms] working_def split: option.splits if_splits)
  finally show ?thesis .
qed



section \<open>Results\<close>

lemma failed_result_coded:
  assumes "\<And>d. e \<noteq> CodedRunFailure d"
  shows "dget (failed_result version r e) ''ok'' = PBool False" "dget (failed_result version r e) ''code'' = PStr INTERNAL"
    "dget (failed_result version r e) ''error'' = PStr (''background run failed: '' @ failure_text e)"
proof -
  let ?x = "[(''provider_error'', PStr (case failure_code e of Some c \<Rightarrow> c | None \<Rightarrow> failure_class e)),
    (''requested_provider'', PStr (handle_provider (handle r))), (''run_id'', PStr (rid r))]"
  let ?m = "''background run failed: '' @ failure_text e"
  have eq: "failed_result version r e = stamp version (error_result INTERNAL ?m ?x)"
  proof (cases e)
    case (CodedRunFailure x)
    with assms show ?thesis by blast
  qed (simp_all add: failed_result_def)
  have g: "dget (stamp version d) k = dget d k" if "k \<noteq> ''contract_version''" for d k
    using that by (simp add: stamp_def)
  have "dget (error_result INTERNAL ?m ?x) ''ok'' = PBool False" "dget (error_result INTERNAL ?m ?x) ''code'' = PStr INTERNAL"
    "dget (error_result INTERNAL ?m ?x) ''error'' = PStr ?m"
    by (rule error_result_get; simp)+
  then show "dget (failed_result version r e) ''ok'' = PBool False" "dget (failed_result version r e) ''code'' = PStr INTERNAL"
    "dget (failed_result version r e) ''error'' = PStr (''background run failed: '' @ failure_text e)"
    unfolding eq by (simp_all add: g)
qed


definition demo_failed :: supervisor where
  "demo_failed = settle (Inl (Raised (Exn OSErr ''gone''))) ''a'' demo_started"

lemma demo_failed_run:
  "\<exists>r. map_of (runs demo_failed) ''a'' = Some r \<and> is_active r \<and> settled r = Some (Inl (Raised (Exn OSErr ''gone'')))"
  using demo_started_run by (auto simp: demo_failed_def settle_def settled_def work_def is_active_def rid_def)


text \<open>The results of collected runs, across a step.\<close>

definition same_results :: "supervisor \<Rightarrow> supervisor \<Rightarrow> bool" where
  "same_results s s' \<longleftrightarrow> (\<forall>i r r'. map_of (runs s) i = Some r \<and> run_result r \<noteq> None \<and> map_of (runs s') i = Some r'
     \<longrightarrow> run_result r' = run_result r)"

lemma same_results_update:
  assumes "wf_sup s" "map_of (runs s) i = Some r" "run_result r \<noteq> None \<Longrightarrow> run_result r' = run_result r"
    "map_of (runs s') = (map_of (runs s))(i \<mapsto> r')"
  shows "same_results s s'"
  using assms by (auto simp: same_results_def)

lemma same_results_refl: "runs s' = runs s \<Longrightarrow> same_results s s'"
  by (auto simp: same_results_def)

lemma collect_same_results:
  assumes "wf_sup s" "map_of (runs s) i = Some r"
  shows "same_results s (collect version h now outcome r s)"
proof (cases "run_result r")
  case None
  have "rid r = i" using wf_sup_run [OF assms] by (simp add: wf_run_def)
  with None show ?thesis by (intro same_results_update [OF assms, where r' = "collected version h outcome r"]) (simp_all add: collect_runs)
qed (simp add: collect_def same_results_refl)

lemma collect_if_done_same_results:
  "wf_sup s \<Longrightarrow> map_of (runs s) i = Some r \<Longrightarrow> same_results s (collect_if_done version h now r s)"
  by (auto simp: collect_if_done_def intro: collect_same_results same_results_refl split: option.splits)

lemma start_same_results:
  assumes "wf_sup s" "map_of (runs s) i = None"
  shows "same_results s (snd (start version h pool now i sub s))"
proof -
  let ?s1 = "reap_completed version h now s"
  have inactive: "\<not> is_active r" if "map_of (runs s) k = Some r" "run_result r \<noteq> None" for k r
    using wf_sup_run [OF assms(1) that(1)] that(2) by (auto simp: wf_run_def)
  have reap: "map_of (runs ?s1) k = Some r" if "map_of (runs s) k = Some r" "run_result r \<noteq> None" for k r
    using that inactive by (simp add: reap_completed_runs(3) [OF assms(1)])
  have i1: "map_of (runs ?s1) i = None" using assms(2) by (simp add: reap_completed_runs(3) [OF assms(1)])
  have adm: "map_of (runs (snd (admit pool now op (new_run i now p sub) ?s1))) k = map_of (runs ?s1) k" if "k \<noteq> i" for op p k
    using that i1 by (auto simp: admit_def Let_def new_run_def rid_def delete_update_fresh map_of_eq_None_iff split: option.splits)
  have "run_result r' = run_result r"
    if "map_of (runs s) k = Some r" "run_result r \<noteq> None" "map_of (runs (snd (start version h pool now i sub s))) k = Some r'" for k r r'
  proof -
    have "k \<noteq> i" using that(1) assms(2) by auto
    then have "map_of (runs (snd (start version h pool now i sub s))) k = Some r"
      using adm that(1) reap [OF that(1, 2)] by (auto simp: start_def Let_def split: sum.splits)
    with that(3) show ?thesis by simp
  qed
  then show ?thesis by (auto simp: same_results_def)
qed

lemma sup_step_same_results:
  assumes "sup_step version h s s'" "wf_sup s"
  shows "same_results s s'"
  using assms
proof (induction rule: sup_step.induct)
  case (starts s i pool now sub res s')
  then show ?case using start_same_results [of s i version h pool now sub] by simp
next
  case (settles s runner i)
  then show ?case
    using wf_sup_run [of s i] by (auto simp: settle_def same_results_def wf_run_def rid_def split: option.splits future.splits)
next
  case (inspects now i s res s')
  then show ?case
    by (auto simp: inspect_def Let_def get_run_Inr intro: collect_if_done_same_results same_results_refl split: sum.splits)
next
  case (waits now i s res s')
  then show ?case
    by (auto simp: wait_def Let_def get_run_Inr intro: collect_same_results same_results_refl split: sum.splits option.splits if_splits)
next
  case (requests_cancel now i s res s')
  then show ?case
    using wf_sup_run [of s i] by (auto simp: cancel_request_def Let_def get_run_Inr same_results_def wf_run_def rid_def split: sum.splits if_splits)
next
  case (reverts_cancel s now i)
  then show ?case
    using wf_sup_run [of s i] by (auto simp: cancel_revert_def Let_def same_results_def wf_run_def rid_def split: option.splits)
next
  case (cleans now i s res s')
  then show ?case
    using wf_sup_run [of s i] by (auto simp: cleanup_def Let_def get_run_Inr same_results_def wf_run_def rid_def split: sum.splits if_splits)
next
  case (restarts now s s' ids)
  then have "runs s' = []"
    using recover_files_keeps [of now "sort_key fst (journal s)" "s\<lparr>runs := []\<rparr>"]
    by (auto simp: recover_orphans_def rbind_eq_Inr wf_sup_def)
  then show ?case by (simp add: same_results_def)
qed

text \<open>
  C34. A result is final: no step of the supervisor other than the loss of its process changes the
  result of a collected run or makes it active again, in whatever order polls, waits, cancellations
  and clean-ups come.
\<close>

theorem results_are_final:
  assumes "sup_reachable version h s" "sup_step version h s s'" "map_of (runs s) i = Some r" "run_result r = Some d"
    "map_of (runs s') i = Some r'"
  shows "run_result r' = Some d \<and> \<not> is_active r'"
proof -
  have wf: "wf_sup s" "wf_sup s'" using sup_reachable_wf assms(1, 2) sup_step_wf by blast+
  have "run_result r \<noteq> None" using assms(4) by simp
  then have "run_result r' = Some d"
    using sup_step_same_results [OF assms(2) wf(1)] assms(3-5) unfolding same_results_def by metis
  then show ?thesis using wf_sup_run [OF wf(2) assms(5)] by (auto simp: wf_run_def)
qed

definition demo_collected :: supervisor where
  "demo_collected = snd (inspect [] demo_host 2 ''a'' demo_failed)"

theorem results_are_final_witness:
  "\<exists>r r' d. map_of (runs demo_collected) ''a'' = Some r \<and> run_result r = Some d
     \<and> map_of (runs (cancel_revert 3 ''a'' demo_collected)) ''a'' = Some r' \<and> run_result r' = Some d \<and> \<not> is_active r'"
proof -
  obtain r where r: "map_of (runs demo_failed) ''a'' = Some r" "is_active r" "settled r = Some (Inl (Raised (Exn OSErr ''gone'')))"
    using demo_failed_run by blast
  have reach: "sup_reachable [] demo_host demo_failed"
    unfolding demo_failed_def by (rule sup_reachable.steps [OF demo_started_reachable sup_step.settles])
  have wf: "wf_run demo_failed ''a'' r" by (rule wf_sup_run [OF sup_reachable_wf [OF reach] r(1)])
  have "inspect [] demo_host 2 ''a'' demo_failed = (fst (inspect [] demo_host 2 ''a'' demo_failed), demo_collected)"
    by (simp add: demo_collected_def)
  from sup_reachable.steps [OF reach sup_step.inspects [OF this]] have c: "sup_reachable [] demo_host demo_collected" .
  let ?r = "collected [] demo_host (Inl (Raised (Exn OSErr ''gone''))) r"
  have m: "map_of (runs demo_collected) ''a'' = Some ?r"
    using r wf by (simp add: demo_collected_def inspect_def get_run_def collect_if_done_def collect_runs Let_def wf_run_def)
  then have m': "map_of (runs (cancel_revert 3 ''a'' demo_collected)) ''a'' = Some ?r" by (simp add: cancel_revert_def)
  from results_are_final [OF c sup_step.reverts_cancel m _ m'] m m' show ?thesis by auto
qed

text \<open>
  What \<open>wait\<close> gives for a run whose work is done: the collected result, every time it is
  asked, except when the work itself raised a \<open>TimeoutError\<close>. Then \<open>wait\<close> reports that the run did
  not finish in time, although it did, and leaves it uncollected.
\<close>

theorem wait_outcome:
  assumes "sup_reachable version h s" "map_of (runs s) i = Some r" "settled r = Some outcome"
  shows "if is_timeout outcome then wait version h now i s = (Inl (wait_timeout i), s)
    else fst (wait version h now i s) =
      Inr (case run_result r of Some d \<Rightarrow> d | None \<Rightarrow> collected_result version h r outcome)"
proof -
  have r: "rid r = i" using wf_sup_run [OF sup_reachable_wf [OF assms(1)] assms(2)] by (simp add: wf_run_def)
  show ?thesis
    using assms(2, 3) r by (auto simp: wait_def get_run_def Let_def collect_runs split: option.splits)
qed

theorem wait_outcome_witness:
  "\<exists>s. wait [] demo_host 5 ''a'' s = (Inl (wait_timeout ''a''), s)
     \<and> (\<exists>r. map_of (runs s) ''a'' = Some r \<and> settled r = Some (Inl (Raised (Exn TimeoutErr ''read timed out''))))"
proof -
  let ?e = "Inl (Raised (Exn TimeoutErr ''read timed out'')) :: failure + dict"
  let ?s = "settle ?e ''a'' demo_started"
  have reach: "sup_reachable [] demo_host ?s" by (rule sup_reachable.steps [OF demo_started_reachable sup_step.settles])
  obtain r where r: "map_of (runs ?s) ''a'' = Some r" "settled r = Some ?e"
    using demo_started_run by (auto simp: settle_def settled_def work_def rid_def)
  have "is_timeout ?e" by (simp add: isinstance_def)
  with wait_outcome [OF reach r, of 5] r show ?thesis by auto
qed

section \<open>Recovery\<close>

text \<open>The content of a readable record after its recovery.\<close>

definition swept :: "dict \<Rightarrow> dict" where
  "swept c = (if needs_release c then dset ''workdir_cleaned'' (PBool True) c else c)"

lemma sweep_journal:
  assumes "map_of (journal s) path = Some f" "content f = Some c" "got = None \<Longrightarrow> c' = c"
  shows "\<exists>f'. map_of (journal (sweep now path c' (got \<noteq> None) s)) path = Some f' \<and> content f' = Some (swept c')"
  using assms by (auto simp: sweep_def swept_def Let_def)

lemma sweep_other: "path' \<noteq> path \<Longrightarrow> map_of (journal (sweep now path c' ch s)) path' = map_of (journal s) path'"
  by (simp add: sweep_def Let_def)

lemma recover_provider_unchanged: "recover_provider reg c = Inr (c', None) \<Longrightarrow> c' = c"
proof -
  assume r: "recover_provider reg c = Inr (c', None)"
  show ?thesis
  proof (cases "\<exists>t. dget c ''state'' = PStr t \<and> List.member ACTIVE_STATES t")
    case True
    then obtain t where "dget c ''state'' = PStr t" "List.member ACTIVE_STATES t" by blast
    with r obtain pid where p: "(case select reg (Some (py_str pid)) None of Inl e \<Rightarrow> Inr (c, None)
           | Inr p \<Rightarrow> (case provider_recovery p c of
                  Inr i \<Rightarrow> Inr (dset ''cleaned'' (PBool True) (dset ''state'' (PStr ''recovered'') c), Some i)
                | Inl e \<Rightarrow> if swallowed e then Inr (c, None) else Inl e)) = Inr (c', None)"
      by (auto simp: recover_provider_def rbind_eq_Inr)
    show ?thesis
    proof (cases "select reg (Some (py_str pid)) None")
      case (Inr q)
      with p show ?thesis by (cases "provider_recovery q c") (auto split: if_splits)
    qed (use p in simp)
  qed (use r in \<open>auto simp: recover_provider_def split: pyval.splits\<close>)
qed

lemma recover_files_journal:
  assumes "recover_files now fs s = Inr (s', ids)" "distinct (map fst fs)" "\<And>path f. (path, f) \<in> set fs \<Longrightarrow> map_of (journal s) path = Some f"
  shows "(\<forall>path. path \<notin> fst ` set fs \<longrightarrow> map_of (journal s') path = map_of (journal s) path)
    \<and> (\<forall>(path, f) \<in> set fs. case content f of None \<Rightarrow> map_of (journal s') path = Some f
        | Some c \<Rightarrow> (\<exists>c' got f'. recover_provider (sup_registry s) c = Inr (c', got)
            \<and> map_of (journal s') path = Some f' \<and> content f' = Some (swept c')))"
  using assms
proof (induction now fs s arbitrary: s' ids rule: recover_files.induct)
  case (2 now path f fs s)
  then obtain s1 ids1 ids2 where s1: "recover_file now path f s = Inr (s1, ids1)" and rest: "recover_files now fs s1 = Inr (s', ids2)"
    by (auto simp: rbind_eq_Inr)
  have f: "map_of (journal s) path = Some f" using "2.prems"(3) by simp
  have other: "map_of (journal s1) p = map_of (journal s) p" if "p \<noteq> path" for p
    using that by (cases rule: recover_file_cases [OF s1]) (simp_all add: sweep_other)
  have reg: "sup_registry s1 = sup_registry s" by (cases rule: recover_file_cases [OF s1]) simp_all
  have here: "case content f of None \<Rightarrow> map_of (journal s1) path = Some f
      | Some c \<Rightarrow> (\<exists>c' got f'. recover_provider (sup_registry s) c = Inr (c', got)
          \<and> map_of (journal s1) path = Some f' \<and> content f' = Some (swept c'))"
  proof (cases rule: recover_file_cases [OF s1])
    case 1
    with f show ?thesis by simp
  next
    case (2 c c' got)
    have "c' = c" if "got = None" using that 2(2) recover_provider_unchanged by blast
    from sweep_journal [OF f 2(1) this] show ?thesis using 2 by auto
  qed
  have d: "path \<notin> fst ` set fs" "distinct (map fst fs)" using "2.prems"(2) by auto
  have "map_of (journal s1) p = Some g" if "(p, g) \<in> set fs" for p g
    using that d(1) other [of p] "2.prems"(3) by (metis fst_conv image_eqI list.set_intros(2))
  note IH = "2.IH" [OF rest d(2) this]
  show ?case using IH here d(1) other reg by (auto split: option.splits)
qed auto

lemma swept_released: "\<not> needs_release (swept c)"
  by (simp add: swept_def needs_release_def)

lemma sorted_journal:
  assumes "distinct (map fst (journal s))"
  shows "distinct (map fst (sort_key fst (journal s)))" "(path, f) \<in> set (sort_key fst (journal s)) \<longleftrightarrow> map_of (journal s) path = Some f"
proof -
  show "distinct (map fst (sort_key fst (journal s)))" using assms by (simp add: distinct_map)
  show "(path, f) \<in> set (sort_key fst (journal s)) \<longleftrightarrow> map_of (journal s) path = Some f" using assms by simp
qed


text \<open>A journal left by a process that died while one run was being cancelled.\<close>

definition orphan :: dict where
  "orphan = [(''run_id'', PStr ''a''), (''provider_id'', PStr ''local''), (''state'', PStr ''cancelling''),
     (''workdir'', PStr ''w''), (''workdir_cleaned'', PBool False)]"

definition crashed :: supervisor where
  "crashed = demo_supervisor\<lparr>journal := [(''a'', \<lparr>content = Some orphan, mtime = 0\<rparr>), (''b'', \<lparr>content = None, mtime = 0\<rparr>)]\<rparr>"

lemma recover_orphan: "recover_provider demo_registry orphan =
    Inr (dset ''cleaned'' (PBool True) (dset ''state'' (PStr ''recovered'') orphan), Some ''a'')"
  by (simp add: recover_provider_def orphan_def ACTIVE_STATES_def demo_registry_def register_def new_registry_def local_provider_def
      provider_descriptor_def select_def sorted_ids_def major_of_def isdigit_text_def Let_def is_digit_def descriptor_field_def
      provider_recovery_def capability_def)


lemma recover_file_raises:
  "(\<exists>e. recover_file now path f s = Inl e) \<longleftrightarrow> (\<exists>c e. content f = Some c \<and> recover_provider (sup_registry s) c = Inl e)"
  by (cases "content f") (auto simp: recover_file_def rbind_eq_Inl split: prod.splits)

lemma recover_files_raises:
  "(\<exists>e. recover_files now fs s = Inl e) \<longleftrightarrow>
     (\<exists>(path, f) \<in> set fs. \<exists>c e. content f = Some c \<and> recover_provider (sup_registry s) c = Inl e)"
proof (induction now fs s rule: recover_files.induct)
  case (2 now path f fs s)
  show ?case
  proof (cases "recover_file now path f s")
    case (Inl e)
    then show ?thesis using recover_file_raises [of now path f s] by auto
  next
    case (Inr x)
    obtain s1 ids where x: "x = (s1, ids)" by fastforce
    have s1: "recover_file now path f s = Inr (s1, ids)" using Inr x by simp
    have reg: "sup_registry s1 = sup_registry s" by (cases rule: recover_file_cases [OF s1]) simp_all
    have "(\<exists>e. recover_files now ((path, f) # fs) s = Inl e) \<longleftrightarrow> (\<exists>e. recover_files now fs s1 = Inl e)"
      using Inr x by (auto simp: rbind_eq_Inl split: prod.splits)
    also have "\<dots> \<longleftrightarrow> (\<exists>(path, f) \<in> set fs. \<exists>c e. content f = Some c \<and> recover_provider (sup_registry s1) c = Inl e)"
      using "2.IH" [of s1] Inr x by auto
    finally have eq: "(\<exists>e. recover_files now ((path, f) # fs) s = Inl e) \<longleftrightarrow> \<dots>" .
    have "\<not> (\<exists>c e. content f = Some c \<and> recover_provider (sup_registry s) c = Inl e)"
      using recover_file_raises [of now path f s] Inr by auto
    then show ?thesis unfolding eq reg by simp blast
  qed
qed simp

text \<open>
  Start-up recovery raises exactly when the recovery of some record does, that is, when an
  active record has no provider identity, or its provider, though registered, raises anything but a
  key, operating-system, value or type error; a remote provider that cannot be reached raises such
  an error, and the rest of the journal is then not recovered.
\<close>

theorem recover_orphans_raises_iff:
  assumes "distinct (map fst (journal s))"
  shows "(\<exists>e. recover_orphans now s = Inl e) \<longleftrightarrow>
    (\<exists>path f c. map_of (journal s) path = Some f \<and> content f = Some c
      \<and> (\<exists>t. dget c ''state'' = PStr t \<and> List.member ACTIVE_STATES t)
      \<and> (\<not> has_key c ''provider_id'' \<or> (\<exists>p e. select (sup_registry s) (Some (py_str (dget c ''provider_id''))) None = Inr p
            \<and> provider_recovery p c = Inl e \<and> \<not> swallowed e)))"
proof -
  have one: "(\<exists>e. recover_provider reg c = Inl e) \<longleftrightarrow> (\<exists>t. dget c ''state'' = PStr t \<and> List.member ACTIVE_STATES t)
      \<and> (\<not> has_key c ''provider_id'' \<or> (\<exists>p e. select reg (Some (py_str (dget c ''provider_id''))) None = Inr p
            \<and> provider_recovery p c = Inl e \<and> \<not> swallowed e))" for reg c
    by (cases "dget c ''state''"; cases "map_of c ''provider_id''"; cases "select reg (Some (py_str (dget c ''provider_id''))) None";
        cases "provider_recovery (projr (select reg (Some (py_str (dget c ''provider_id''))) None)) c")
      (auto simp: recover_provider_def descriptor_field_def has_key_def dget_def [of c "''provider_id''"])
  have "(\<exists>e. recover_orphans now s = Inl e) \<longleftrightarrow> (\<exists>e. recover_files now (sort_key fst (journal s)) s = Inl e)"
    by (auto simp: recover_orphans_def rbind_eq_Inl)
  also have "\<dots> \<longleftrightarrow> (\<exists>path f c. map_of (journal s) path = Some f \<and> content f = Some c \<and> (\<exists>e. recover_provider (sup_registry s) c = Inl e))"
    unfolding recover_files_raises using sorted_journal(2) [OF assms] by blast
  finally show ?thesis unfolding one .
qed

text \<open>A remote provider that cannot be reached, and the journal of a run it was executing.\<close>

definition unreachable :: provider where
  "unreachable = \<lparr>provider_id = ''remote'',
     describe = provider_descriptor PROVIDER_INTERFACE_VERSION ''remote'' ''1'' ''remote'' True [(''cancel'', PBool True), (''cleanup'', PBool True)],
     execute_op = (\<lambda>s. Inr []), execute_managed = (\<lambda>i s. Inr []),
     lifecycle = (\<lambda>op i. Inl (ProviderOperationFailure ''remote'' (op_capability op)))\<rparr>"

definition remote_crash :: supervisor where
  "remote_crash = \<lparr>sup_registry = \<lparr>default_provider_id = ''local'', selection_policy = None, registered = [(''remote'', unreachable)]\<rparr>,
     max_completed = 1, max_active_runs = 1, runs = [],
     journal = [(''a'', \<lparr>content = Some [(''run_id'', PStr ''a''), (''provider_id'', PStr ''remote''), (''state'', PStr ''running'')], mtime = 0\<rparr>)],
     released = []\<rparr>"

theorem recover_orphans_raises_iff_witness: "\<exists>e. recover_orphans 1 remote_crash = Inl e"
proof (rule recover_orphans_raises_iff [THEN iffD2])
  show "distinct (map fst (journal remote_crash))" by (simp add: remote_crash_def)
  show "\<exists>path f c. map_of (journal remote_crash) path = Some f \<and> content f = Some c
      \<and> (\<exists>t. dget c ''state'' = PStr t \<and> List.member ACTIVE_STATES t)
      \<and> (\<not> has_key c ''provider_id'' \<or> (\<exists>p e. select (sup_registry remote_crash) (Some (py_str (dget c ''provider_id''))) None = Inr p
            \<and> provider_recovery p c = Inl e \<and> \<not> swallowed e))"
    by (rule exI [of _ "''a''"]) (simp add: remote_crash_def ACTIVE_STATES_def select_def provider_recovery_def descriptor_field_def
        capability_def unreachable_def provider_descriptor_def Let_def)
qed

end
