(* ===== verification/Binary64_Order.thy ===== *)
theory Binary64_Order
  imports Binary64
begin

text \<open>
  Rounding to binary64 is monotone and odd, keeps powers of two, and so keeps bounds: the facts the
  statistics need to reason about a p-value and an effect size computed in floating point.
\<close>

section \<open>The exponent of a rational\<close>

lemma pow2_powi: "pow2 e = 2 powi e"
  by (simp add: pow2_def power_int_def power_one_over)

lemma pow2_add: "pow2 (a + b) = pow2 a * pow2 b"
  by (simp add: pow2_powi power_int_add)

lemma pow2_strict_mono: "strict_mono pow2"
  by (auto simp: strict_mono_def pow2_powi power_int_strict_increasing)

lemma pow2_le_iff [simp]: "pow2 a \<le> pow2 b \<longleftrightarrow> a \<le> b" "pow2 a < pow2 b \<longleftrightarrow> a < b"
  using pow2_strict_mono by (simp_all add: strict_mono_less strict_mono_less_eq)

lemma pow2_nat: "pow2 (int n) = 2 ^ n" "pow2 0 = 1" "pow2 1 = 2"
  by (simp_all add: pow2_def)

lemma pow2_quotient: "u \<le> k \<Longrightarrow> pow2 k / pow2 u = of_int (2 ^ nat (k - u))"
  using pow2_add [of "int (nat (k - u))" u] by (simp add: pow2_def [of "k - u"] field_simps)

lemma pow2_scale: "u \<le> k \<Longrightarrow> of_int (2 ^ nat (k - u)) * pow2 u = pow2 k"
  using pow2_quotient [of u k] by (simp add: field_simps)

lemma nat_bits_bounds: "0 < n \<Longrightarrow> 2 ^ nat_bits n \<le> 2 * n \<and> n < 2 ^ nat_bits n"
proof (induction n rule: nat_bits.induct)
  case (1 n)
  then have b: "nat_bits n = Suc (nat_bits (n div 2))" by (subst nat_bits.simps) simp
  show ?case
  proof (cases "n div 2 = 0")
    case True
    then have "n = 1" using 1 by auto
    then show ?thesis unfolding b using True by (simp add: nat_bits.simps [of 0])
  next
    case False
    then have IH: "2 ^ nat_bits (n div 2) \<le> 2 * (n div 2)" "n div 2 < 2 ^ nat_bits (n div 2)" using 1 by auto
    from IH(1) have "2 * 2 ^ nat_bits (n div 2) \<le> 2 * n" using div_times_less_eq_dividend [of n 2] by linarith
    moreover have "n < 2 * 2 ^ nat_bits (n div 2)" using IH(2) by linarith
    ultimately show ?thesis unfolding b by simp
  qed
qed

lemma nat_bits_int:
  assumes "0 < (m :: int)" shows "2 ^ nat_bits (nat m) \<le> 2 * m" "m < 2 ^ nat_bits (nat m)"
proof -
  have "2 ^ nat_bits (nat m) \<le> 2 * nat m" "nat m < 2 ^ nat_bits (nat m)" using assms nat_bits_bounds [of "nat m"] by simp_all
  then have "int (2 ^ nat_bits (nat m)) \<le> int (2 * nat m)" "int (nat m) < int (2 ^ nat_bits (nat m))" by (simp_all only: of_nat_le_iff of_nat_less_iff)
  then show "2 ^ nat_bits (nat m) \<le> 2 * m" "m < 2 ^ nat_bits (nat m)" using assms by simp_all
qed

lemma floor_log2_bounds:
  assumes "0 < q" shows "pow2 (floor_log2 q) \<le> q" "q < pow2 (floor_log2 q + 1)"
proof -
  obtain n d where nd: "quotient_of q = (n, d)" by force
  then have d: "d > 0" and q: "q = of_int n / of_int d" using quotient_of_denom_pos quotient_of_div by auto
  then have n: "n > 0" using assms by (simp add: zero_less_divide_iff)
  let ?bn = "nat_bits (nat n)" and ?bd = "nat_bits (nat d)"
  note B = nat_bits_int [OF n] nat_bits_int [OF d]
  have R: "pow2 (int ?bn) \<le> 2 * of_int n" "of_int n < pow2 (int ?bn)" "pow2 (int ?bd) \<le> 2 * of_int d" "of_int d < pow2 (int ?bd)"
    using B unfolding pow2_nat
    by (metis of_int_le_iff of_int_mult of_int_numeral of_int_power, metis of_int_less_iff of_int_numeral of_int_power,
        metis of_int_le_iff of_int_mult of_int_numeral of_int_power, metis of_int_less_iff of_int_numeral of_int_power)
  let ?e = "int ?bn - int ?bd"
  have e: "pow2 ?e = pow2 (int ?bn) / pow2 (int ?bd)" by (simp add: pow2_powi power_int_diff)
  have D: "(0 :: rat) < of_int d" "(0 :: rat) < of_int n" using d n by simp_all
  have "pow2 (?e - 1) = pow2 (int ?bn) / 2 / pow2 (int ?bd)" by (simp add: pow2_powi power_int_diff)
  also have "\<dots> \<le> of_int n / pow2 (int ?bd)" using R(1) by (intro divide_right_mono) (auto simp: less_imp_le)
  also have "\<dots> \<le> q" unfolding q using R(4) D by (intro divide_left_mono) (auto simp: less_imp_le)
  finally have lo: "pow2 (?e - 1) \<le> q" .
  have "q < pow2 (int ?bn) / of_int d" unfolding q using R(2) D by (intro divide_strict_right_mono)
  also have "\<dots> \<le> pow2 (int ?bn) / (pow2 (int ?bd) / 2)" using R(3) D by (intro divide_left_mono) (auto simp: less_imp_le)
  also have "\<dots> = pow2 (?e + 1)" by (simp add: pow2_powi power_int_diff power_int_add)
  finally have hi: "q < pow2 (?e + 1)" .
  show "pow2 (floor_log2 q) \<le> q" "q < pow2 (floor_log2 q + 1)"
    using lo hi by (auto simp: floor_log2_def nd Let_def)
qed

section \<open>Monotonicity\<close>

lemma floor_log2_mono: "0 < p \<Longrightarrow> p \<le> q \<Longrightarrow> floor_log2 p \<le> floor_log2 q"
proof (rule ccontr)
  assume "0 < p" "p \<le> q" "\<not> floor_log2 p \<le> floor_log2 q"
  then have "pow2 (floor_log2 q + 1) \<le> pow2 (floor_log2 p)" by simp
  then show False using floor_log2_bounds [of p] floor_log2_bounds [of q] \<open>0 < p\<close> \<open>p \<le> q\<close> by linarith
qed

lemma rnd_scaled: "0 < q \<Longrightarrow> rnd q = of_int (round_half_even (q / pow2 (ulp_exp q))) * pow2 (ulp_exp q)"
  by (simp add: rnd_def)

lemma rnd_le_pow2:
  assumes "0 < q" "q \<le> pow2 k" "- 1074 \<le> k" shows "rnd q \<le> pow2 k"
proof -
  let ?u = "ulp_exp q"
  have "pow2 (floor_log2 q) \<le> pow2 k" using floor_log2_bounds(1) [OF assms(1)] assms(2) by linarith
  then have u: "?u \<le> k" using assms by (simp add: ulp_exp_def)
  have "q / pow2 ?u \<le> pow2 k / pow2 ?u" using assms(2) by (simp add: divide_right_mono less_imp_le)
  then have "round_half_even (q / pow2 ?u) \<le> 2 ^ nat (k - ?u)"
    using round_half_even_mono pow2_quotient [OF u] by (metis round_half_even_int)
  then have "of_int (round_half_even (q / pow2 ?u)) \<le> (of_int (2 ^ nat (k - ?u)) :: rat)" by (simp only: of_int_le_iff)
  then have "rnd q \<le> of_int (2 ^ nat (k - ?u)) * pow2 ?u"
    unfolding rnd_scaled [OF assms(1)] by (intro mult_right_mono) (auto simp: less_imp_le)
  then show ?thesis by (simp only: pow2_scale [OF u])
qed

lemma rnd_ge_pow2:
  assumes "pow2 k \<le> q" "- 1074 \<le> k" shows "pow2 k \<le> rnd q"
proof -
  have q: "0 < q" using assms pow2_pos(1) [of k] by linarith
  let ?u = "ulp_exp q" and ?f = "floor_log2 q"
  have "k < ?f + 1" using assms(1) floor_log2_bounds(2) [OF q] by (metis le_less_trans pow2_le_iff(2))
  define m where "m = max k (?f - 52)"
  have u: "?u \<le> m" "pow2 m \<le> q" "k \<le> m"
    using assms floor_log2_bounds(1) [OF q] \<open>k < ?f + 1\<close> q
    by (auto simp: ulp_exp_def m_def max_def intro: order_trans [OF _ floor_log2_bounds(1) [OF q]])
  have "pow2 m / pow2 ?u \<le> q / pow2 ?u" using u by (simp add: divide_right_mono less_imp_le)
  then have "2 ^ nat (m - ?u) \<le> round_half_even (q / pow2 ?u)"
    using round_half_even_mono pow2_quotient [OF u(1)] by (metis round_half_even_int)
  then have "(of_int (2 ^ nat (m - ?u)) :: rat) \<le> of_int (round_half_even (q / pow2 ?u))" by (simp only: of_int_le_iff)
  then have "of_int (2 ^ nat (m - ?u)) * pow2 ?u \<le> rnd q"
    unfolding rnd_scaled [OF q] by (intro mult_right_mono) (auto simp: less_imp_le)
  then have "pow2 m \<le> rnd q" by (simp only: pow2_scale [OF u(1)])
  then show ?thesis using u(3) by (meson order_trans pow2_le_iff(1))
qed

lemma rnd_pow2: "- 1074 \<le> k \<Longrightarrow> rnd (pow2 k) = pow2 k"
  by (simp add: antisym rnd_le_pow2 rnd_ge_pow2)

lemma rnd_1 [simp]: "rnd 1 = 1"
  using rnd_pow2 [of 0] by (simp add: pow2_nat)

lemma rnd_2 [simp]: "rnd 2 = 2"
  using rnd_pow2 [of 1] by (simp add: pow2_nat)

lemma rnd_mono_pos:
  assumes "0 < p" "p \<le> q" shows "rnd p \<le> rnd q"
proof (cases "ulp_exp p = ulp_exp q")
  case True
  have "p / pow2 (ulp_exp q) \<le> q / pow2 (ulp_exp q)" using assms by (simp add: divide_right_mono less_imp_le)
  then show ?thesis using assms True
    by (simp add: rnd_scaled mult_right_mono round_half_even_mono less_imp_le)
next
  case False
  have q: "0 < q" using assms by linarith
  let ?f = "floor_log2 q"
  have f: "floor_log2 p + 1 \<le> ?f" "- 1074 \<le> ?f" using False floor_log2_mono [OF assms] assms q by (auto simp: ulp_exp_def)
  have "p \<le> pow2 ?f" using floor_log2_bounds(2) [OF assms(1)] f(1) by (meson less_imp_le order_trans pow2_le_iff(1))
  then have "rnd p \<le> pow2 ?f" using assms f by (simp add: rnd_le_pow2)
  also have "\<dots> \<le> rnd q" using floor_log2_bounds(1) [OF q] f by (simp add: rnd_ge_pow2)
  finally show ?thesis .
qed

lemma round_half_even_minus: "round_half_even (- x) = - round_half_even x"
proof -
  have "x = of_int \<lfloor>x\<rfloor> \<or> \<lfloor>- x\<rfloor> = - \<lfloor>x\<rfloor> - 1"
    by (metis (no_types, opaque_lifting) ceiling_altdef ceiling_def minus_add_distrib uminus_add_conv_diff minus_diff_commute minus_minus)
  then show ?thesis
  proof
    assume "x = of_int \<lfloor>x\<rfloor>"
    then show ?thesis by (metis of_int_minus round_half_even_int)
  next
    assume "\<lfloor>- x\<rfloor> = - \<lfloor>x\<rfloor> - 1"
    then show ?thesis by (auto simp: round_half_even_def Let_def)
  qed
qed

lemma rnd_minus: "rnd (- q) = - rnd q"
  by (simp add: rnd_def ulp_exp_def round_half_even_minus)

lemma rnd_mono:
  assumes "p \<le> q" shows "rnd p \<le> rnd q"
proof -
  consider "0 < p" | "p \<le> 0" "0 \<le> q" | "p < 0" "q < 0" using assms by linarith
  then show ?thesis
  proof cases
    case 2
    then show ?thesis using rnd_nonpos [of p] rnd_nonneg [of q] by linarith
  next
    case 3
    then show ?thesis using rnd_mono_pos [of "- q" "- p"] assms by (simp add: rnd_minus)
  qed (rule rnd_mono_pos [OF _ assms])
qed

lemma rnd_bounds [simp]: "q \<le> 1 \<Longrightarrow> rnd q \<le> 1" "- 1 \<le> q \<Longrightarrow> - 1 \<le> rnd q"
  using rnd_mono [of q 1] rnd_mono [of "- 1" q] by (simp_all add: rnd_minus)

text \<open>Integers up to \<open>2 ^ 53\<close> are floats.\<close>

lemma rnd_nat: "m < 2 ^ 53 \<Longrightarrow> rnd (of_nat m) = of_nat m"
proof (cases "m = 0")
  case False
  assume "m < 2 ^ 53"
  let ?u = "ulp_exp (of_nat m)"
  have "pow2 (floor_log2 (of_nat m)) \<le> of_nat m" using False floor_log2_bounds(1) by simp
  also have "of_nat m < pow2 53" using \<open>m < 2 ^ 53\<close> pow2_nat(1) [of 53] by (metis of_nat_less_iff of_nat_numeral of_nat_power)
  finally have "?u \<le> 0" by (simp add: ulp_exp_def)
  then have "of_nat m / pow2 ?u = of_int (int m * 2 ^ nat (- ?u))"
    using pow2_quotient [of ?u 0] by (simp add: pow2_nat divide_inverse)
  then have "of_int (round_half_even (of_nat m / pow2 ?u)) = of_nat m / pow2 ?u" by (metis round_half_even_int)
  then show ?thesis using False by (simp add: rnd_scaled)
qed simp

end
