(* ===== verification/Rank_Stats.thy ===== *)
theory Rank_Stats
  imports Errors Binary64_Order "HOL-Library.Multiset"
begin

text \<open>
  \<open>codecalc/stats.py\<close>: the Mann-Whitney test behind the acceptance of an optimisation. Samples are
  lists of rational numbers (finite floats); ranks, sums of ranks and \<open>U\<close> are half-integers, which
  floats hold exactly, and every quotient is rounded to binary64. The normal tail of the approximation is an argument
  \<open>cdf\<close>: \<open>cdf x v\<close> stands for \<open>normal_cdf(x / math.sqrt(v))\<close>.
\<close>

section \<open>Ranks\<close>

text \<open>
  The loop of \<open>_ranks_with_ties\<close> over the rest of \<open>order\<close>, at position \<open>i\<close>: the group of the
  head is the longest run of equal values, and its members share the mean of its positions.
\<close>

function rank_loop :: "rat list \<Rightarrow> nat \<Rightarrow> nat list \<Rightarrow> rat list \<Rightarrow> nat list \<Rightarrow> rat list \<times> nat list" where
  "rank_loop xs i [] ranks ties = (ranks, ties)"
| "rank_loop xs i (k # ks) ranks ties =
     (let same = takeWhile (\<lambda>k'. xs ! k' = xs ! k) ks; j = i + length same;
          avg = (of_nat i + of_nat j) / 2 + 1
      in rank_loop xs (j + 1) (drop (length same) ks) (fold (\<lambda>k' r. r[k' := avg]) (k # same) ranks) (ties @ [j - i + 1]))"
  by pat_completeness auto
termination by (relation "measure (\<lambda>(xs, i, ks, r, t). length ks)") auto

definition ranks_with_ties :: "rat list \<Rightarrow> rat list \<times> nat list" where
  "ranks_with_ties xs = rank_loop xs 0 (sort_key (\<lambda>i. xs ! i) [0..<length xs]) (replicate (length xs) 0) []"

definition rank_biserial_correlation :: "rat \<Rightarrow> nat \<Rightarrow> nat \<Rightarrow> exn + rat" where
  "rank_biserial_correlation u n1 n2 =
    (if n1 = 0 \<or> n2 = 0 then Inl (Exn ValueErr ''n1 and n2 must be positive'')
     else Inr (rnd (rnd ((2 * u) / (of_nat n1 * of_nat n2)) - 1)))"

section \<open>The exact distribution\<close>

text \<open>The two accumulation loops of \<open>_exact_u_counts\<close>: shifted by \<open>n2\<close>, and in place.\<close>

definition add_shifted :: "nat \<Rightarrow> nat list \<Rightarrow> nat list \<Rightarrow> nat list" where
  "add_shifted d counts acc = fold (\<lambda>(u, count) t. if count \<noteq> 0 then t[u + d := t ! (u + d) + count] else t)
     (List.enumerate 0 counts) acc"

definition add_bounded :: "nat \<Rightarrow> nat list \<Rightarrow> nat list \<Rightarrow> nat list" where
  "add_bounded m counts acc = fold (\<lambda>(u, count) t. if u \<le> m then t[u := t ! u + count] else t) (List.enumerate 0 counts) acc"

function exact_u_counts :: "nat \<Rightarrow> nat \<Rightarrow> nat list" where
  "exact_u_counts n1 n2 =
    (if n1 = 0 \<or> n2 = 0 then (replicate (n1 * n2 + 1) 0)[0 := 1]
     else add_bounded (n1 * n2) (exact_u_counts n1 (n2 - 1))
            (add_shifted n2 (exact_u_counts (n1 - 1) n2) (replicate (n1 * n2 + 1) 0)))"
  by pat_completeness auto
termination by (relation "measure (\<lambda>(n1, n2). n1 + n2)") auto

declare exact_u_counts.simps [simp del]

definition unknown_alternative :: "string \<Rightarrow> exn" where
  "unknown_alternative alt = Exn ValueErr (''unknown alternative '' @ repr_str alt)"

text \<open>\<open>counts[a:]\<close> and \<open>counts[:b]\<close> for positions that are not negative.\<close>

definition exact_p :: "rat \<Rightarrow> nat \<Rightarrow> nat \<Rightarrow> string \<Rightarrow> exn + rat" where
  "exact_p u n1 n2 alt =
    (let counts = exact_u_counts n1 n2; total' = (n1 + n2) choose n1; k = nat (round_half_even u) in
     if alt = ''less'' then Inr (min 1 (rnd (of_nat (sum_list (take (k + 1) counts)) / of_nat total')))
     else if alt = ''greater'' then Inr (min 1 (rnd (of_nat (sum_list (drop k counts)) / of_nat total')))
     else Inl (unknown_alternative alt))"

section \<open>The approximation and the test\<close>

definition normal_p :: "(rat \<Rightarrow> rat \<Rightarrow> rat) \<Rightarrow> rat \<Rightarrow> nat \<Rightarrow> nat \<Rightarrow> nat list \<Rightarrow> string \<Rightarrow> exn + rat" where
  "normal_p cdf u n1 n2 tie_sizes alt =
    (let n = n1 + n2; tie_term = sum_list (map (\<lambda>t. t ^ 3 - t) tie_sizes);
         mean_u = of_nat (n1 * n2) / 2;
         var_u = (if n > 1 then rnd (rnd (of_nat (n1 * n2) / 12) * rnd (of_nat (n + 1) - rnd (of_nat tie_term / of_nat (n * (n - 1))))) else 0)
     in if var_u \<le> 0 then Inr 1
        else if alt = ''less'' then Inr (min 1 (cdf (u + 1 / 2 - mean_u) var_u))
        else if alt = ''greater'' then Inr (min 1 (rnd (1 - cdf (u - 1 / 2 - mean_u) var_u)))
        else Inl (unknown_alternative alt))"

abbreviation EXACT_MAX_N :: nat where "EXACT_MAX_N \<equiv> 20"

record mwu =
  mwu_u :: rat
  p_value :: rat
  mwu_n1 :: nat
  mwu_n2 :: nat
  mwu_exact :: bool
  mwu_alternative :: string

definition u_statistic :: "rat list \<Rightarrow> rat list \<Rightarrow> rat" where
  "u_statistic sample1 sample2 =
    sum_list (take (length sample1) (fst (ranks_with_ties (sample1 @ sample2)))) - of_nat (length sample1 * (length sample1 + 1)) / 2"

definition mann_whitney_u :: "(rat \<Rightarrow> rat \<Rightarrow> rat) \<Rightarrow> rat list \<Rightarrow> rat list \<Rightarrow> string \<Rightarrow> exn + mwu" where
  "mann_whitney_u cdf sample1 sample2 alt =
    (if \<not> List.member [''less'', ''greater'', ''two-sided''] alt
     then Inl (Exn ValueErr (''alternative must be '' @ repr_str ''less'' @ '', '' @ repr_str ''greater'' @ '', or ''
            @ repr_str ''two-sided'' @ '', got '' @ repr_str alt))
     else let n1 = length sample1; n2 = length sample2 in
       if n1 < 1 \<or> n2 < 1 then Inl (Exn ValueErr ''need at least 1 observation per sample'')
       else let tie_sizes = snd (ranks_with_ties (sample1 @ sample2)); u1 = u_statistic sample1 sample2;
                has_ties = length tie_sizes < n1 + n2;
                ex = (\<not> has_ties \<and> n1 + n2 \<le> EXACT_MAX_N);
                one_sided = (\<lambda>a. if ex then exact_p u1 n1 n2 a else normal_p cdf u1 n1 n2 tie_sizes a)
         in rbind (if alt = ''two-sided''
                   then rbind (one_sided ''less'') (\<lambda>l. rbind (one_sided ''greater'') (\<lambda>g. Inr (min 1 (2 * min l g))))
                   else one_sided alt)
              (\<lambda>p. Inr \<lparr>mwu_u = u1, p_value = p, mwu_n1 = n1, mwu_n2 = n2, mwu_exact = ex, mwu_alternative = alt\<rparr>))"

section \<open>The smallest sample that can reject\<close>

text \<open>
  The loop of \<open>min_testable_n\<close>. Dividing \<open>1.0\<close> by an integer converts it to a float first,
  which raises when it is out of range: that is what ends the search when no quotient is small enough.
\<close>

lemma central_binomial_double: "2 * ((2 * n) choose n) \<le> (2 * Suc n) choose (Suc n)"
proof -
  have sym: "Suc (2 * n) choose n = Suc (2 * n) choose (Suc n)"
    using binomial_symmetric [of n "Suc (2 * n)"] by (simp add: mult_2 del: binomial_Suc_Suc)
  have "(2 * n) choose n \<le> Suc (2 * n) choose (Suc n)" by simp
  moreover have "(2 * Suc n) choose (Suc n) = (Suc (2 * n) choose n) + (Suc (2 * n) choose (Suc n))"
    using binomial_Suc_Suc [of "Suc (2 * n)" n] by (simp del: binomial_Suc_Suc)
  ultimately show ?thesis unfolding sym by linarith
qed

lemma central_binomial_pow: "2 ^ n \<le> (2 * n) choose n"
proof (induction n)
  case (Suc n)
  have "2 ^ Suc n = 2 * (2 :: nat) ^ n" by (rule power_Suc)
  then show ?case using Suc central_binomial_double [of n] by linarith
qed simp

lemma comb_range: "rnd64 (of_nat ((2 * n) choose n)) \<noteq> None \<Longrightarrow> n < 1024"
proof (rule ccontr)
  assume r: "rnd64 (of_nat ((2 * n) choose n)) \<noteq> None" and "\<not> n < 1024"
  then have "(2 :: nat) ^ 1024 \<le> 2 ^ n" by (intro power_increasing) simp_all
  then have "(2 :: nat) ^ 1024 \<le> (2 * n) choose n" using central_binomial_pow [of n] by linarith
  then have "pow2 1024 \<le> of_nat ((2 * n) choose n)"
    using pow2_nat(1) [of 1024] by (metis of_nat_le_iff of_nat_numeral of_nat_power)
  then have "pow2 1024 \<le> rnd (of_nat ((2 * n) choose n))" by (simp add: rnd_ge_pow2)
  moreover have "MAX_FINITE < pow2 1024" by (simp add: MAX_FINITE_def)
  ultimately show False using r by (simp add: rnd64_def Let_def abs_if split: if_splits)
qed

function testable_from :: "rat \<Rightarrow> nat \<Rightarrow> exn + nat" where
  "testable_from alpha n =
    (case rnd64 (of_nat ((2 * n) choose n)) of
       None \<Rightarrow> Inl (Exn OverflowErr ''int too large to convert to float'')
     | Some c \<Rightarrow> if alpha \<le> rnd (1 / c) then testable_from alpha (n + 1) else Inr n)"
  by pat_completeness auto
termination by (relation "measure (\<lambda>(alpha, n). 1024 - n)") (use comb_range in fastforce)+

declare testable_from.simps [simp del]

definition min_testable_n :: "rat \<Rightarrow> exn + nat" where
  "min_testable_n alpha = testable_from alpha 2"

section \<open>Ranks are mid-ranks\<close>

definition below :: "'a::linorder list \<Rightarrow> 'a \<Rightarrow> nat" where
  "below vs x = length (filter (\<lambda>y. y < x) vs)"

definition ties_of :: "'a::linorder list \<Rightarrow> 'a \<Rightarrow> nat" where
  "ties_of vs x = length (filter (\<lambda>y. y = x) vs)"

definition mid_rank :: "rat list \<Rightarrow> rat \<Rightarrow> rat" where
  "mid_rank vs x = of_nat (below vs x) + (of_nat (ties_of vs x) + 1) / 2"

lemma below_append: "below (vs @ ws) x = below vs x + below ws x"
  by (simp add: below_def)

lemma ties_append: "ties_of (vs @ ws) x = ties_of vs x + ties_of ws x"
  by (simp add: ties_of_def)

lemma below_none: "\<forall>y \<in> set vs. x \<le> y \<Longrightarrow> below vs x = 0"
  by (auto simp: below_def filter_empty_conv not_less)

lemma below_all: "\<forall>y \<in> set vs. y < x \<Longrightarrow> below vs x = length vs"
  by (simp add: below_def)

lemma ties_none: "x \<notin> set vs \<Longrightarrow> ties_of vs x = 0"
  by (auto simp: ties_of_def filter_empty_conv)

lemma ties_all: "\<forall>y \<in> set vs. y = x \<Longrightarrow> ties_of vs x = length vs"
  by (simp add: ties_of_def)

lemma fold_update_length [simp]: "length (fold (\<lambda>k r. r[k := a]) ks r) = length r"
  by (induction ks arbitrary: r) auto

lemma fold_update_nth: "m < length r \<Longrightarrow> fold (\<lambda>k r. r[k := a]) ks r ! m = (if m \<in> set ks then a else r ! m)"
  by (induction ks arbitrary: r) (auto simp: nth_list_update)

text \<open>The head group of a sorted sequence of positions.\<close>

lemma group_split:
  fixes xs :: "rat list" and k ks
  defines "same \<equiv> takeWhile (\<lambda>k'. xs ! k' = xs ! k) ks"
  assumes "sorted (map (nth xs) (k # ks))"
  shows "ks = same @ drop (length same) ks" "\<forall>k' \<in> set (k # same). xs ! k' = xs ! k"
    "\<forall>k' \<in> set (drop (length same) ks). xs ! k < xs ! k'" "sorted (map (nth xs) (drop (length same) ks))"
proof -
  have rest: "drop (length same) ks = dropWhile (\<lambda>k'. xs ! k' = xs ! k) ks" by (simp add: same_def dropWhile_eq_drop)
  show "ks = same @ drop (length same) ks" unfolding rest by (simp add: same_def)
  show "\<forall>k' \<in> set (k # same). xs ! k' = xs ! k" by (auto simp: same_def dest: set_takeWhileD)
  show s: "sorted (map (nth xs) (drop (length same) ks))"
    using assms(2) by (simp add: drop_map [symmetric] sorted_wrt_drop)
  show "\<forall>k' \<in> set (drop (length same) ks). xs ! k < xs ! k'"
  proof (cases "drop (length same) ks")
    case (Cons m ms)
    then have "xs ! m \<noteq> xs ! k" unfolding rest using hd_dropWhile [of "\<lambda>k'. xs ! k' = xs ! k" ks] by auto
    moreover have "m \<in> set ks" using Cons by (metis in_set_dropD list.set_intros(1))
    then have "xs ! k \<le> xs ! m" using assms(2) by auto
    ultimately have "xs ! k < xs ! m" by simp
    then show ?thesis using s Cons by fastforce
  qed simp
qed

lemma rank_loop_correct:
  assumes "distinct ks" "set ks \<subseteq> {..<length ranks}" "sorted (map (nth xs) ks)"
    and "\<And>k. k \<in> set ks \<Longrightarrow> below vs (xs ! k) = i + below (map (nth xs) ks) (xs ! k)"
    and "\<And>k. k \<in> set ks \<Longrightarrow> ties_of vs (xs ! k) = ties_of (map (nth xs) ks) (xs ! k)"
  shows "length (fst (rank_loop xs i ks ranks ties)) = length ranks
    \<and> (\<forall>m < length ranks. fst (rank_loop xs i ks ranks ties) ! m = (if m \<in> set ks then mid_rank vs (xs ! m) else ranks ! m))
    \<and> length (snd (rank_loop xs i ks ranks ties)) = length ties + card (set (map (nth xs) ks))"
  using assms
proof (induction xs i ks ranks ties rule: rank_loop.induct)
  case (2 xs i k ks ranks ties)
  let ?v = "xs ! k"
  define same where "same = takeWhile (\<lambda>k'. xs ! k' = ?v) ks"
  define rest where "rest = drop (length same) ks"
  define j where "j = i + length same"
  define avg where "avg = (of_nat i + of_nat j) / 2 + (1 :: rat)"
  define ranks' where "ranks' = fold (\<lambda>k' r. r[k' := avg]) (k # same) ranks"
  note g = group_split [OF "2.prems"(3), folded same_def rest_def]
  have ks: "map (nth xs) (k # ks) = map (nth xs) (k # same) @ map (nth xs) rest" using g(1) by (metis append_Cons map_append)
  have gv: "\<forall>y \<in> set (map (nth xs) (k # same)). y = ?v" using g(2) by auto
  have rv: "\<forall>y \<in> set (map (nth xs) rest). ?v < y" using g(3) by auto
  have loop: "rank_loop xs i (k # ks) ranks ties = rank_loop xs (j + 1) rest ranks' (ties @ [j - i + 1])"
    by (simp add: same_def rest_def j_def avg_def ranks'_def Let_def)
  have len: "length ranks' = length ranks" by (simp add: ranks'_def)
  have sub: "set rest \<subseteq> set ks" "set same \<subseteq> set ks" using g(1) by (auto simp: rest_def dest: in_set_dropD set_takeWhileD simp: same_def)
  have disj: "set (k # same) \<inter> set rest = {}" using g(2, 3) by fastforce
  have IH: "length (fst (rank_loop xs (j + 1) rest ranks' (ties @ [j - i + 1]))) = length ranks'
    \<and> (\<forall>m < length ranks'. fst (rank_loop xs (j + 1) rest ranks' (ties @ [j - i + 1])) ! m =
        (if m \<in> set rest then mid_rank vs (xs ! m) else ranks' ! m))
    \<and> length (snd (rank_loop xs (j + 1) rest ranks' (ties @ [j - i + 1]))) = length (ties @ [j - i + 1]) + card (set (map (nth xs) rest))"
  proof (rule "2.IH" [of same j avg, folded ranks'_def rest_def])
    show "distinct rest" using "2.prems"(1) by (simp add: rest_def)
    show "set rest \<subseteq> {..<length ranks'}" using sub "2.prems"(2) len by auto
    show "sorted (map (nth xs) rest)" by (rule g(4))
    fix m assume m: "m \<in> set rest"
    then have mk: "m \<in> set (k # ks)" and vm: "?v < xs ! m" using sub g(3) by auto
    have "below (map (nth xs) (k # same)) (xs ! m) = Suc (length same)" "ties_of (map (nth xs) (k # same)) (xs ! m) = 0"
      using gv vm by (auto simp: below_all intro!: ties_none)
    moreover have "below vs (xs ! m) = i + (below (map (nth xs) (k # same)) (xs ! m) + below (map (nth xs) rest) (xs ! m))"
      "ties_of vs (xs ! m) = ties_of (map (nth xs) (k # same)) (xs ! m) + ties_of (map (nth xs) rest) (xs ! m)"
      using "2.prems"(4, 5) [OF mk] by (simp_all only: ks below_append ties_append)
    ultimately show "below vs (xs ! m) = j + 1 + below (map (nth xs) rest) (xs ! m)"
      "ties_of vs (xs ! m) = ties_of (map (nth xs) rest) (xs ! m)"
      by (simp_all add: j_def)
  qed (simp_all add: same_def j_def avg_def)
  have mid: "mid_rank vs (xs ! m) = avg" if "m \<in> set (k # same)" for m
  proof -
    have m: "xs ! m = ?v" using that g(2) by auto
    have "below (map (nth xs) (k # same)) ?v = 0" "below (map (nth xs) rest) ?v = 0"
      "ties_of (map (nth xs) (k # same)) ?v = Suc (length same)" "ties_of (map (nth xs) rest) ?v = 0"
      using gv rv by (fastforce simp: ties_all less_imp_le intro!: below_none ties_none)+
    then have "below (map (nth xs) (k # ks)) ?v = 0" and "ties_of (map (nth xs) (k # ks)) ?v = Suc (length same)"
      by (simp_all only: ks below_append ties_append)
    then have "below vs ?v = i" "ties_of vs ?v = Suc (length same)"
      using "2.prems"(4, 5) [of k] by auto
    then show ?thesis using m by (simp add: mid_rank_def avg_def j_def field_simps)
  qed
  have "set (map (nth xs) (k # ks)) = insert ?v (set (map (nth xs) rest))" unfolding ks using gv by auto
  moreover have "?v \<notin> set (map (nth xs) rest)" using rv by auto
  ultimately have "card (set (map (nth xs) (k # ks))) = Suc (card (set (map (nth xs) rest)))" by simp
  moreover have "ranks' ! m = (if m \<in> set (k # same) then mid_rank vs (xs ! m) else ranks ! m)" if "m < length ranks" for m
    using that mid by (simp add: ranks'_def fold_update_nth)
  moreover have "set (k # ks) = set (k # same) \<union> set rest" using g(1) by (metis append_Cons set_append)
  ultimately show ?case unfolding loop using IH len disj by auto
qed simp

lemma length_filter_sort: "length (filter P (sort_key f xs)) = length (filter P xs)"
  by (metis mset_filter mset_sort size_mset)

lemma map_nth_order:
  fixes xs :: "rat list"
  defines "order \<equiv> sort_key (nth xs) [0..<length xs]"
  shows "below (map (nth xs) order) x = below xs x" "ties_of (map (nth xs) order) x = ties_of xs x"
    "set (map (nth xs) order) = set xs"
proof -
  have idx: "map (nth xs) [0..<length xs] = xs" by (rule map_nth)
  have "length (filter P (map (nth xs) order)) = length (filter P xs)" for P
    using idx by (metis (no_types, lifting) filter_map length_filter_sort length_map order_def)
  then show "below (map (nth xs) order) x = below xs x" "ties_of (map (nth xs) order) x = ties_of xs x"
    by (simp_all add: below_def ties_of_def)
  show "set (map (nth xs) order) = set xs" using idx by (metis order_def set_map set_sort)
qed

lemma ranks_with_ties_correct:
  "length (fst (ranks_with_ties xs)) = length xs"
  "m < length xs \<Longrightarrow> fst (ranks_with_ties xs) ! m = mid_rank xs (xs ! m)"
  "length (snd (ranks_with_ties xs)) = card (set xs)"
proof -
  let ?order = "sort_key (nth xs) [0..<length xs]"
  have "length (fst (rank_loop xs 0 ?order (replicate (length xs) 0) [])) = length (replicate (length xs) (0 :: rat))
    \<and> (\<forall>m < length (replicate (length xs) (0 :: rat)). fst (rank_loop xs 0 ?order (replicate (length xs) 0) []) ! m =
        (if m \<in> set ?order then mid_rank xs (xs ! m) else replicate (length xs) 0 ! m))
    \<and> length (snd (rank_loop xs 0 ?order (replicate (length xs) 0) [])) = length ([] :: nat list) + card (set (map (nth xs) ?order))"
    by (rule rank_loop_correct) (simp_all only: map_nth_order distinct_sort set_sort, auto)
  then show "length (fst (ranks_with_ties xs)) = length xs"
    "m < length xs \<Longrightarrow> fst (ranks_with_ties xs) ! m = mid_rank xs (xs ! m)"
    "length (snd (ranks_with_ties xs)) = card (set xs)"
    unfolding ranks_with_ties_def map_nth_order by simp_all
qed

section \<open>What \<open>U\<close> counts\<close>

text \<open>The score of a pair: one for a win, a half for a tie.\<close>

definition score :: "rat \<Rightarrow> rat \<Rightarrow> rat" where
  "score x y = (if y < x then 1 else if y = x then 1 / 2 else 0)"

definition pair_score :: "rat list \<Rightarrow> rat list \<Rightarrow> rat" where
  "pair_score xs ys = sum_list (map (\<lambda>x. sum_list (map (score x) ys)) xs)"

lemma sum_score: "sum_list (map (score x) ys) = of_nat (below ys x) + of_nat (ties_of ys x) / 2"
  by (induction ys) (auto simp: score_def below_def ties_of_def field_simps)

lemma pair_score_append: "pair_score xs (ys @ zs) = pair_score xs ys + pair_score xs zs"
  by (induction xs) (auto simp: pair_score_def)

lemma sum_list_map_add: "sum_list (map (\<lambda>x. f x + g x) xs) = sum_list (map f xs) + (sum_list (map g xs) :: rat)"
  by (induction xs) auto

lemma pair_score_Cons: "pair_score ys (x # xs) = sum_list (map (\<lambda>y. score y x) ys) + pair_score ys xs"
  by (simp add: pair_score_def sum_list_map_add)

lemma score_both: "score x y + score y x = 1"
  by (auto simp: score_def)

lemma pair_score_self: "2 * pair_score xs xs = of_nat (length xs * length xs)"
proof (induction xs)
  case (Cons x xs)
  have both: "sum_list (map (score x) xs) + sum_list (map (\<lambda>y. score y x) xs) = of_nat (length xs)"
    by (induction xs) (auto simp: score_both algebra_simps)
  have "pair_score (x # xs) (x # xs) = score x x + sum_list (map (score x) xs) + (sum_list (map (\<lambda>y. score y x) xs) + pair_score xs xs)"
    using pair_score_Cons [of xs x xs] by (simp add: pair_score_def)
  then have "2 * pair_score (x # xs) (x # xs) = 1 + 2 * of_nat (length xs) + 2 * pair_score xs xs"
    using both by (simp add: score_def)
  then show ?case using Cons by (simp add: algebra_simps)
qed (simp add: pair_score_def)

lemma sum_mid_rank: "sum_list (map (mid_rank ys) xs) = pair_score xs ys + of_nat (length xs) / 2"
  by (induction xs) (auto simp: pair_score_def sum_score mid_rank_def add_divide_distrib algebra_simps)

lemma u_statistic_pairs: "u_statistic xs ys = pair_score xs ys"
proof -
  have "take (length xs) (fst (ranks_with_ties (xs @ ys))) = map (mid_rank (xs @ ys)) xs"
    by (rule nth_equalityI) (auto simp: ranks_with_ties_correct nth_append)
  then have "u_statistic xs ys = pair_score xs (xs @ ys) + of_nat (length xs) / 2 - of_nat (length xs * (length xs + 1)) / 2"
    by (simp add: u_statistic_def sum_mid_rank)
  then show ?thesis using pair_score_self [of xs] by (simp add: pair_score_append field_simps)
qed

end
