(* ===== verification/Rank_Exact.thy ===== *)
theory Rank_Exact
  imports Rank_Stats
begin

text \<open>
  The exact Mann-Whitney distribution: \<open>_exact_u_counts\<close> counts arrangements of ranks, the exact
  p-values are shares of them, and \<open>min_testable_n\<close> is the smallest sample that can reject.
\<close>

section \<open>The exact distribution counts arrangements\<close>

text \<open>
  An arrangement of \<open>n1 + n2\<close> distinct values is the set of ranks that the first group takes;
  its \<open>U\<close> is the number of pairs in which a member of the first group is above one of the second.
\<close>

definition arrangements :: "nat \<Rightarrow> nat \<Rightarrow> nat set set" where
  "arrangements n1 n2 = {A. A \<subseteq> {..<n1 + n2} \<and> card A = n1}"

definition pairs_won :: "nat \<Rightarrow> nat set \<Rightarrow> (nat \<times> nat) set" where
  "pairs_won n A = {(a, b). a \<in> A \<and> b < n \<and> b \<notin> A \<and> b < a}"

abbreviation arr_u :: "nat \<Rightarrow> nat set \<Rightarrow> nat" where
  "arr_u n A \<equiv> card (pairs_won n A)"

definition with_u :: "nat \<Rightarrow> nat \<Rightarrow> nat \<Rightarrow> nat set set" where
  "with_u n1 n2 u = {A \<in> arrangements n1 n2. arr_u (n1 + n2) A = u}"

lemma finite_arrangements [simp]: "finite (arrangements n1 n2)"
  by (simp add: arrangements_def)

lemma finite_with_u [simp]: "finite (with_u n1 n2 u)"
  by (simp add: with_u_def)

lemma card_arrangements: "card (arrangements n1 n2) = (n1 + n2) choose n1"
  by (simp add: arrangements_def n_subsets)

lemma pairs_won_product: "A \<subseteq> {..<n} \<Longrightarrow> pairs_won n A \<subseteq> A \<times> ({..<n} - A)"
  by (auto simp: pairs_won_def)

lemma arr_u_bound:
  assumes "A \<in> arrangements n1 n2" shows "arr_u (n1 + n2) A \<le> n1 * n2"
proof -
  have A: "A \<subseteq> {..<n1 + n2}" "card A = n1" "finite A" using assms finite_subset by (auto simp: arrangements_def)
  have "arr_u (n1 + n2) A \<le> card (A \<times> ({..<n1 + n2} - A))"
    by (rule card_mono [OF _ pairs_won_product]) (use A in auto)
  then show ?thesis using A by (simp add: card_cartesian_product card_Diff_subset)
qed

lemma with_u_beyond: "n1 * n2 < u \<Longrightarrow> with_u n1 n2 u = {}"
  by (auto simp: with_u_def dest: arr_u_bound)

lemma arrangements_0: "arrangements 0 n2 = {{}}" "arrangements n1 0 = {{..<n1}}"
proof -
  show "arrangements 0 n2 = {{}}" using finite_subset [of _ "{..<n2}"] by (auto simp: arrangements_def)
  have "A = {..<n1}" if "A \<subseteq> {..<n1}" "card A = n1" for A using that by (simp add: card_subset_eq)
  then show "arrangements n1 0 = {{..<n1}}" by (auto simp: arrangements_def)
qed

lemma pairs_won_everyone [simp]: "pairs_won n {} = {}" "pairs_won n {..<n} = {}"
  by (auto simp: pairs_won_def)

lemma card_with_u_0: "n1 = 0 \<or> n2 = 0 \<Longrightarrow> card (with_u n1 n2 u) = (if u = 0 then 1 else 0)"
  by (auto simp: with_u_def arrangements_0 Collect_conv_if)

text \<open>The largest value belongs to the second group and wins nothing, or to the first and wins \<open>n2\<close> pairs.\<close>

lemma pairs_won_low: "A \<subseteq> {..<n} \<Longrightarrow> pairs_won (Suc n) A = pairs_won n A"
  by (auto simp: pairs_won_def)

lemma arr_u_top:
  assumes "A \<subseteq> {..<n}" shows "arr_u (Suc n) (insert n A) = arr_u n A + (n - card A)"
proof -
  have "pairs_won (Suc n) (insert n A) = pairs_won n A \<union> Pair n ` ({..<n} - A)"
    using assms by (auto simp: pairs_won_def)
  moreover have "pairs_won n A \<inter> Pair n ` ({..<n} - A) = {}" using assms by (auto simp: pairs_won_def)
  moreover have "finite A" "finite (pairs_won n A)"
    using assms finite_subset [OF pairs_won_product [OF assms]] finite_subset [of A "{..<n}"] by auto
  ultimately show ?thesis using assms by (simp add: card_Un_disjoint card_image inj_on_def card_Diff_subset)
qed

lemma arrangements_Suc:
  "arrangements (Suc n1) (Suc n2) =
    insert (n1 + Suc n2) ` arrangements n1 (Suc n2) \<union> arrangements (Suc n1) n2"
proof (rule set_eqI)
  fix A
  let ?m = "n1 + Suc n2"
  show "A \<in> arrangements (Suc n1) (Suc n2) \<longleftrightarrow> A \<in> insert ?m ` arrangements n1 (Suc n2) \<union> arrangements (Suc n1) n2"
  proof (cases "?m \<in> A")
    case True
    have "A \<in> insert ?m ` arrangements n1 (Suc n2)" if "A \<in> arrangements (Suc n1) (Suc n2)"
    proof (rule image_eqI [of _ _ "A - {?m}"])
      have "finite A" "A \<subseteq> {..<Suc ?m}" using that finite_subset by (auto simp: arrangements_def)
      then show "A - {?m} \<in> arrangements n1 (Suc n2)"
        using that True by (auto simp: arrangements_def less_Suc_eq)
    qed (use True in auto)
    moreover have "A \<in> arrangements (Suc n1) (Suc n2)" if "A = insert ?m B" "B \<in> arrangements n1 (Suc n2)" for B
    proof -
      have "finite B" "?m \<notin> B" using that(2) finite_subset by (auto simp: arrangements_def)
      then show ?thesis using that by (auto simp: arrangements_def less_Suc_eq)
    qed
    moreover have "A \<notin> arrangements (Suc n1) n2" using True by (auto simp: arrangements_def)
    ultimately show ?thesis by auto
  next
    case False
    then show ?thesis by (auto simp: arrangements_def less_Suc_eq)
  qed
qed

lemma with_u_Suc:
  "with_u (Suc n1) (Suc n2) u =
    (if Suc n2 \<le> u then insert (n1 + Suc n2) ` with_u n1 (Suc n2) (u - Suc n2) else {}) \<union> with_u (Suc n1) n2 u"
proof -
  let ?m = "n1 + Suc n2"
  have top: "arr_u (Suc ?m) (insert ?m B) = arr_u ?m B + Suc n2" if "B \<in> arrangements n1 (Suc n2)" for B
    using that arr_u_top [of B ?m] by (simp add: arrangements_def)
  have low: "arr_u (Suc ?m) B = arr_u ?m B" if "B \<in> arrangements (Suc n1) n2" for B
    using that pairs_won_low [of B ?m] by (simp add: arrangements_def)
  have "with_u (Suc n1) (Suc n2) u = {A \<in> insert ?m ` arrangements n1 (Suc n2) \<union> arrangements (Suc n1) n2. arr_u (Suc ?m) A = u}"
    by (simp add: with_u_def arrangements_Suc)
  also have "\<dots> = insert ?m ` {B \<in> arrangements n1 (Suc n2). arr_u ?m B + Suc n2 = u} \<union> {A \<in> arrangements (Suc n1) n2. arr_u ?m A = u}"
    using top low by auto
  also have "{B \<in> arrangements n1 (Suc n2). arr_u ?m B + Suc n2 = u} = (if Suc n2 \<le> u then with_u n1 (Suc n2) (u - Suc n2) else {})"
    by (auto simp: with_u_def)
  finally show ?thesis by (simp add: with_u_def)
qed

lemma card_with_u_Suc:
  "card (with_u (Suc n1) (Suc n2) u) =
    (if Suc n2 \<le> u then card (with_u n1 (Suc n2) (u - Suc n2)) else 0) + card (with_u (Suc n1) n2 u)"
proof -
  let ?m = "n1 + Suc n2"
  have out: "?m \<notin> B" if "B \<in> with_u n1 (Suc n2) v" for B v using that by (auto simp: with_u_def arrangements_def)
  have "inj_on (insert ?m) (with_u n1 (Suc n2) v)" for v using out by (intro inj_onI) (meson insert_ident)
  moreover have "insert ?m ` S \<inter> with_u (Suc n1) n2 u = {}" for S by (auto simp: with_u_def arrangements_def)
  ultimately have "card (insert ?m ` with_u n1 (Suc n2) v \<union> with_u (Suc n1) n2 u) = card (with_u n1 (Suc n2) v) + card (with_u (Suc n1) n2 u)" for v
    by (simp only: card_Un_disjoint card_image finite_imageI finite_with_u)
  then show ?thesis by (simp only: with_u_Suc if_True if_False Un_empty_left add_0 split: if_split) simp
qed

section \<open>The table is the distribution\<close>

lemma add_loop_length [simp]: "length (fold (\<lambda>(u, c) t. if P u c then t[u + d := t ! (u + d) + c] else t) us acc) = length acc"
  by (induction us arbitrary: acc) auto

lemma add_loop_nth:
  assumes "s + d + length counts \<le> length acc" "\<And>u c. \<not> P u c \<Longrightarrow> u < s + length counts \<Longrightarrow> c = (0 :: nat)"
  shows "fold (\<lambda>(u, c) t. if P u c then t[u + d := t ! (u + d) + c] else t) (List.enumerate s counts) acc ! v =
    acc ! v + (if s + d \<le> v \<and> v < s + d + length counts then counts ! (v - s - d) else 0)"
  using assms
proof (induction counts arbitrary: s acc)
  case (Cons c cs)
  let ?acc = "if P s c then acc[s + d := acc ! (s + d) + c] else acc"
  have "?acc = acc[s + d := acc ! (s + d) + c]" using Cons.prems(2) [of s c] by auto
  moreover have "s + d < length acc" using Cons.prems(1) by simp
  ultimately have "?acc ! v = acc ! v + (if v = s + d then c else 0)" by (simp add: nth_list_update)
  moreover have "fold (\<lambda>(u, c) t. if P u c then t[u + d := t ! (u + d) + c] else t) (List.enumerate (Suc s) cs) ?acc ! v =
    ?acc ! v + (if Suc s + d \<le> v \<and> v < Suc s + d + length cs then cs ! (v - Suc s - d) else 0)"
    by (rule Cons.IH) (use Cons.prems in auto)
  ultimately show ?case by (auto simp: nth_Cons' Suc_le_eq)
qed simp

lemma add_bounded_loop: "add_bounded m counts acc =
  fold (\<lambda>(u, c) t. if u \<le> m then t[u + 0 := t ! (u + 0) + c] else t) (List.enumerate 0 counts) acc"
  unfolding add_bounded_def add_0_right ..

lemma add_shifted_nth: "d + length counts \<le> length acc \<Longrightarrow>
  add_shifted d counts acc ! v = acc ! v + (if d \<le> v \<and> v < d + length counts then counts ! (v - d) else 0)"
  unfolding add_shifted_def by (subst add_loop_nth) auto

lemma add_bounded_nth: "length counts \<le> m + 1 \<Longrightarrow> length counts \<le> length acc \<Longrightarrow>
  add_bounded m counts acc ! v = acc ! v + (if v < length counts then counts ! v else 0)"
  unfolding add_bounded_loop by (subst add_loop_nth) auto

lemma add_lengths [simp]: "length (add_shifted d counts acc) = length acc" "length (add_bounded m counts acc) = length acc"
  unfolding add_shifted_def add_bounded_loop by (rule add_loop_length)+

lemma length_exact_u_counts [simp]: "length (exact_u_counts n1 n2) = n1 * n2 + 1"
  by (subst exact_u_counts.simps) simp

lemma exact_u_counts_card: "u \<le> n1 * n2 \<Longrightarrow> exact_u_counts n1 n2 ! u = card (with_u n1 n2 u)"
proof (induction n1 n2 arbitrary: u rule: exact_u_counts.induct)
  case (1 n1 n2)
  show ?case
  proof (cases "n1 = 0 \<or> n2 = 0")
    case True
    then show ?thesis using 1 by (subst exact_u_counts.simps) (auto simp: card_with_u_0)
  next
    case False
    then obtain m1 m2 where n: "n1 = Suc m1" "n2 = Suc m2" by (metis not0_implies_Suc)
    let ?l = "exact_u_counts m1 (Suc m2)" and ?r = "exact_u_counts (Suc m1) m2"
    have l: "?l ! v = card (with_u m1 (Suc m2) v)" if "v \<le> m1 * Suc m2" for v using 1(2) [OF False] that n by simp
    have r: "?r ! v = card (with_u (Suc m1) m2 v)" if "v \<le> Suc m1 * m2" for v using 1(1) [OF False] that n by simp
    obtain z :: "nat list" where z: "z = replicate (n1 * n2 + 1) 0" by blast
    then have zu: "z ! u = 0" "length z = n1 * n2 + 1" using "1.prems" by (simp_all del: replicate.simps)
    have "exact_u_counts n1 n2 = add_bounded (n1 * n2) ?r (add_shifted n2 ?l z)"
      using n z by (subst exact_u_counts.simps) simp
    then have "exact_u_counts n1 n2 ! u =
      (if n2 \<le> u then ?l ! (u - n2) else 0) + (if u < Suc m1 * m2 + 1 then ?r ! u else 0)"
      using "1.prems" n zu by (simp add: add_bounded_nth add_shifted_nth)
    then show ?thesis using "1.prems" l [of "u - Suc m2"] r [of u] with_u_beyond [of "Suc m1" m2 u]
      by (auto simp: n card_with_u_Suc)
  qed
qed


section \<open>Tails\<close>

definition wins :: "rat list \<Rightarrow> rat list \<Rightarrow> nat" where
  "wins xs ys = length (filter (\<lambda>(x, y). y < x) (List.product xs ys))"

definition pair_ties :: "rat list \<Rightarrow> rat list \<Rightarrow> nat" where
  "pair_ties xs ys = length (filter (\<lambda>(x, y). y = x) (List.product xs ys))"

definition tail_le :: "nat \<Rightarrow> nat \<Rightarrow> nat \<Rightarrow> rat" where
  "tail_le n1 n2 k = of_nat (card {A \<in> arrangements n1 n2. arr_u (n1 + n2) A \<le> k}) / of_nat (card (arrangements n1 n2))"

definition tail_ge :: "nat \<Rightarrow> nat \<Rightarrow> nat \<Rightarrow> rat" where
  "tail_ge n1 n2 k = of_nat (card {A \<in> arrangements n1 n2. k \<le> arr_u (n1 + n2) A}) / of_nat (card (arrangements n1 n2))"

lemma wins_Cons: "wins (x # xs) ys = below ys x + wins xs ys"
  by (simp add: wins_def below_def filter_map comp_def)

lemma pair_ties_Cons: "pair_ties (x # xs) ys = ties_of ys x + pair_ties xs ys"
  by (simp add: pair_ties_def ties_of_def filter_map comp_def)

lemma pair_score_wins: "pair_score xs ys = of_nat (wins xs ys) + of_nat (pair_ties xs ys) / 2"
proof (induction xs)
  case (Cons x xs)
  then show ?case
    by (simp add: pair_score_def sum_score wins_Cons pair_ties_Cons add_divide_distrib)
qed (simp add: pair_score_def wins_def pair_ties_def)

lemma no_pair_ties: "distinct (xs @ ys) \<Longrightarrow> pair_ties xs ys = 0"
  by (auto simp: pair_ties_def filter_empty_conv)

lemma below_ties_above: "below ys x + ties_of ys x + length (filter (\<lambda>y. x < y) ys) = length ys"
  by (induction ys) (auto simp: below_def ties_of_def)

lemma wins_Cons_right: "wins ys (x # xs) = length (filter (\<lambda>y. x < y) ys) + wins ys xs"
proof (induction ys)
  case (Cons y ys)
  then show ?case by (auto simp: wins_Cons below_def)
qed (simp add: wins_def)

lemma wins_Nil [simp]: "wins [] ys = 0" "wins ys [] = 0" "pair_ties [] ys = 0"
  by (simp_all add: wins_def pair_ties_def)

lemma pairs_total: "wins xs ys + pair_ties xs ys + wins ys xs = length xs * length ys"
proof (induction xs)
  case (Cons x xs)
  then show ?case using below_ties_above [of ys x] by (simp add: wins_Cons pair_ties_Cons wins_Cons_right)
qed simp

lemma wins_le: "wins xs ys \<le> length xs * length ys"
  using pairs_total [of xs ys] by linarith

lemma sum_with_u: "finite S \<Longrightarrow> (\<Sum>u\<in>S. card (with_u n1 n2 u)) = card {A \<in> arrangements n1 n2. arr_u (n1 + n2) A \<in> S}"
proof -
  assume "finite S"
  then have "(\<Sum>u\<in>S. card (with_u n1 n2 u)) = card (\<Union>u\<in>S. with_u n1 n2 u)"
    by (subst card_UN_disjoint) (auto simp: with_u_def)
  also have "(\<Union>u\<in>S. with_u n1 n2 u) = {A \<in> arrangements n1 n2. arr_u (n1 + n2) A \<in> S}" by (auto simp: with_u_def)
  finally show ?thesis .
qed

lemma sum_nth_interval:
  assumes "\<And>i. a \<le> i \<Longrightarrow> i < b \<Longrightarrow> xs ! i = f i" "b \<le> length xs"
  shows "sum_list (drop a (take b xs)) = (\<Sum>i\<in>{a..<b}. f i :: nat)"
proof -
  have "drop a (take b xs) = map f [a..<b]" using assms by (intro nth_equalityI) auto
  then show ?thesis by (simp add: interv_sum_list_conv_sum_set_nat)
qed

lemma exact_counts_sum:
  "b \<le> n1 * n2 + 1 \<Longrightarrow>
    sum_list (drop a (take b (exact_u_counts n1 n2))) = card {A \<in> arrangements n1 n2. arr_u (n1 + n2) A \<in> {a..<b}}"
  by (subst sum_nth_interval [where f = "\<lambda>u. card (with_u n1 n2 u)"]) (simp_all add: exact_u_counts_card sum_with_u)

lemma fraction_min: "S \<subseteq> T \<Longrightarrow> finite T \<Longrightarrow> min 1 (rnd (of_nat (card S) / of_nat (card T))) = rnd (of_nat (card S) / of_nat (card T))"
  using card_mono [of T S] by (cases "card T = 0") (simp_all add: min_absorb2 divide_le_eq)

lemma exact_p_tails:
  assumes "k \<le> n1 * n2"
  shows "exact_p (of_nat k) n1 n2 ''less'' = Inr (rnd (tail_le n1 n2 k))"
    "exact_p (of_nat k) n1 n2 ''greater'' = Inr (rnd (tail_ge n1 n2 k))"
proof -
  have r: "nat (round_half_even (of_nat k :: rat)) = k" by (simp add: round_half_even_def)
  have "sum_list (take (k + 1) (exact_u_counts n1 n2)) = card {A \<in> arrangements n1 n2. arr_u (n1 + n2) A \<le> k}"
    using exact_counts_sum [of "k + 1" n1 n2 0] assms by (simp add: less_Suc_eq_le)
  then show "exact_p (of_nat k) n1 n2 ''less'' = Inr (rnd (tail_le n1 n2 k))"
    unfolding exact_p_def Let_def r tail_le_def card_arrangements [symmetric]
    by (simp add: fraction_min [of "{A \<in> arrangements n1 n2. arr_u (n1 + n2) A \<le> k}"])
  have "{A \<in> arrangements n1 n2. arr_u (n1 + n2) A \<in> {k..<n1 * n2 + 1}} = {A \<in> arrangements n1 n2. k \<le> arr_u (n1 + n2) A}"
    by (auto dest: arr_u_bound)
  then have "sum_list (drop k (exact_u_counts n1 n2)) = card {A \<in> arrangements n1 n2. k \<le> arr_u (n1 + n2) A}"
    using exact_counts_sum [of "n1 * n2 + 1" n1 n2 k] by simp
  then show "exact_p (of_nat k) n1 n2 ''greater'' = Inr (rnd (tail_ge n1 n2 k))"
    unfolding exact_p_def Let_def r tail_ge_def card_arrangements [symmetric]
    by (simp add: fraction_min [of "{A \<in> arrangements n1 n2. k \<le> arr_u (n1 + n2) A}"])
qed

lemma tie_count_distinct: "length (snd (ranks_with_ties xs)) < length xs \<longleftrightarrow> \<not> distinct xs"
  using card_distinct [of xs] distinct_card [of xs] card_length [of xs] by (fastforce simp: ranks_with_ties_correct)


section \<open>What the test returns\<close>

abbreviation alternatives :: "string list" where
  "alternatives \<equiv> [''less'', ''greater'', ''two-sided'']"

lemma normal_p_ok: "alt = ''less'' \<or> alt = ''greater'' \<Longrightarrow> \<exists>p. normal_p cdf u n1 n2 ts alt = Inr p"
  by (auto simp: normal_p_def Let_def)

lemma u_statistic_wins: "u_statistic xs ys = of_nat (wins xs ys) + of_nat (pair_ties xs ys) / 2"
  by (simp add: u_statistic_pairs pair_score_wins)

lemma exact_p_samples:
  assumes "distinct (xs @ ys)"
  shows "exact_p (u_statistic xs ys) (length xs) (length ys) ''less'' = Inr (rnd (tail_le (length xs) (length ys) (wins xs ys)))"
    "exact_p (u_statistic xs ys) (length xs) (length ys) ''greater'' = Inr (rnd (tail_ge (length xs) (length ys) (wins xs ys)))"
  using exact_p_tails [OF wins_le, of xs ys] no_pair_ties [OF assms] by (simp_all add: u_statistic_wins)

text \<open>The test in terms of one side of it.\<close>

definition one_sided :: "(rat \<Rightarrow> rat \<Rightarrow> rat) \<Rightarrow> rat list \<Rightarrow> rat list \<Rightarrow> string \<Rightarrow> exn + rat" where
  "one_sided cdf xs ys a =
    (if distinct (xs @ ys) \<and> length xs + length ys \<le> EXACT_MAX_N then exact_p (u_statistic xs ys) (length xs) (length ys) a
     else normal_p cdf (u_statistic xs ys) (length xs) (length ys) (snd (ranks_with_ties (xs @ ys))) a)"

lemma one_sided_ok: "a = ''less'' \<or> a = ''greater'' \<Longrightarrow> \<exists>p. one_sided cdf xs ys a = Inr p"
  using normal_p_ok [of a] by (auto simp: one_sided_def exact_p_def Let_def)

lemma mann_whitney_u_run:
  assumes "alt \<in> set alternatives" "xs \<noteq> []" "ys \<noteq> []"
  shows "mann_whitney_u cdf xs ys alt =
    rbind (if alt = ''two-sided''
           then rbind (one_sided cdf xs ys ''less'') (\<lambda>l. rbind (one_sided cdf xs ys ''greater'') (\<lambda>g. Inr (min 1 (2 * min l g))))
           else one_sided cdf xs ys alt)
      (\<lambda>p. Inr \<lparr>mwu_u = u_statistic xs ys, p_value = p, mwu_n1 = length xs, mwu_n2 = length ys,
        mwu_exact = (distinct (xs @ ys) \<and> length xs + length ys \<le> EXACT_MAX_N), mwu_alternative = alt\<rparr>)"
proof -
  have ex: "(\<not> length (snd (ranks_with_ties (xs @ ys))) < length xs + length ys \<and> length xs + length ys \<le> EXACT_MAX_N)
    = (distinct (xs @ ys) \<and> length xs + length ys \<le> EXACT_MAX_N)" using tie_count_distinct [of "xs @ ys"] by auto
  have "List.member alternatives alt" "\<not> (length xs < 1 \<or> length ys < 1)" using assms by (auto simp: Suc_le_eq)
  then show ?thesis unfolding mann_whitney_u_def Let_def ex one_sided_def by (simp only: not_True_eq_False if_False)
qed

text \<open>
  For a known alternative and two samples that are not empty the test returns; its \<open>u\<close> is the
  number of pairs that the first sample wins plus half the tied pairs, it is exact just when no two
  observations are equal and there are at most twenty, and the effect size computed from \<open>u\<close> is the
  share of the pairs won less the share lost (but for the two roundings to binary64), so that it lies
  between -1 and 1.
\<close>

theorem mann_whitney_pairs:
  assumes "alt \<in> set alternatives" "xs \<noteq> []" "ys \<noteq> []"
  shows "\<exists>r e. mann_whitney_u cdf xs ys alt = Inr r
    \<and> mwu_u r = of_nat (wins xs ys) + of_nat (pair_ties xs ys) / 2
    \<and> (mwu_exact r \<longleftrightarrow> distinct (xs @ ys) \<and> length xs + length ys \<le> EXACT_MAX_N)
    \<and> mwu_n1 r = length xs \<and> mwu_n2 r = length ys \<and> mwu_alternative r = alt
    \<and> rank_biserial_correlation (mwu_u r) (mwu_n1 r) (mwu_n2 r) = Inr e
    \<and> e = rnd (rnd ((of_nat (wins xs ys) - of_nat (wins ys xs)) / (of_nat (length xs) * of_nat (length ys)) + 1) - 1)
    \<and> -1 \<le> e \<and> e \<le> 1"
proof -
  let ?n = "of_nat (length xs) * of_nat (length ys) :: rat" and ?w = "of_nat (wins xs ys) :: rat" and ?l = "of_nat (wins ys xs) :: rat"
  let ?u = "u_statistic xs ys" and ?ts = "snd (ranks_with_ties (xs @ ys))"
  have pos: "?n > 0" using assms by simp
  have all: "?w + of_nat (pair_ties xs ys) + ?l = ?n" using pairs_total [of xs ys] by (metis of_nat_add of_nat_mult)
  have "2 * ?u = (?w - ?l) + ?n" using all by (simp add: u_statistic_wins algebra_simps)
  then have e: "2 * ?u / ?n = (?w - ?l) / ?n + 1" using pos by (auto simp: add_divide_distrib)
  have "- ?n \<le> ?w - ?l" "?w - ?l \<le> ?n" using all by linarith+
  then have bounds: "-1 \<le> (?w - ?l) / ?n" "(?w - ?l) / ?n \<le> 1" using pos by (simp_all add: pos_le_divide_eq divide_le_eq)
  let ?e = "rnd (rnd ((?w - ?l) / ?n + 1) - 1)"
  have "rnd ((?w - ?l) / ?n + 1) \<le> rnd (pow2 1)" "0 \<le> rnd ((?w - ?l) / ?n + 1)"
    using bounds by (auto intro!: rnd_mono rnd_nonneg simp only: pow2_nat)
  then have e_bounds: "-1 \<le> ?e" "?e \<le> 1" by (auto simp: pow2_nat)
  obtain p where "mann_whitney_u cdf xs ys alt = Inr \<lparr>mwu_u = ?u, p_value = p, mwu_n1 = length xs, mwu_n2 = length ys,
      mwu_exact = (distinct (xs @ ys) \<and> length xs + length ys \<le> EXACT_MAX_N), mwu_alternative = alt\<rparr>"
    using one_sided_ok [of "''less''" cdf xs ys] one_sided_ok [of "''greater''" cdf xs ys] assms(1)
    by (auto simp: mann_whitney_u_run [OF assms])
  then show ?thesis using assms e e_bounds by (simp add: rank_biserial_correlation_def u_statistic_wins)
qed

theorem mann_whitney_pairs_witness:
  "\<exists>r e. mann_whitney_u (\<lambda>x v. 0) [1, 3] [2, 3] ''less'' = Inr r
    \<and> mwu_u r = of_nat (wins [1, 3] [2, 3]) + of_nat (pair_ties [1, 3] [2, 3]) / 2
    \<and> (mwu_exact r \<longleftrightarrow> distinct ([1, 3] @ [2, 3 :: rat]) \<and> length [1, 3 :: rat] + length [2, 3 :: rat] \<le> EXACT_MAX_N)
    \<and> mwu_n1 r = length [1, 3 :: rat] \<and> mwu_n2 r = length [2, 3 :: rat] \<and> mwu_alternative r = ''less''
    \<and> rank_biserial_correlation (mwu_u r) (mwu_n1 r) (mwu_n2 r) = Inr e
    \<and> e = rnd (rnd ((of_nat (wins [1, 3] [2, 3]) - of_nat (wins [2, 3] [1, 3])) / (of_nat (length [1, 3 :: rat]) * of_nat (length [2, 3 :: rat])) + 1) - 1)
    \<and> -1 \<le> e \<and> e \<le> 1"
  by (rule mann_whitney_pairs) simp_all

lemma mann_whitney_less:
  assumes "distinct (xs @ ys)" "xs \<noteq> []" "ys \<noteq> []" "length xs + length ys \<le> EXACT_MAX_N"
  shows "map_sum id p_value (mann_whitney_u cdf xs ys ''less'') = Inr (rnd (tail_le (length xs) (length ys) (wins xs ys)))"
  using assms exact_p_samples [OF assms(1)] by (simp add: mann_whitney_u_run one_sided_def)

text \<open>
  C39. On at most twenty observations without a tie the p-value is exact: the one-sided values are the
  shares of the \<open>(n1 + n2) choose n1\<close> equally likely arrangements of the ranks whose \<open>U\<close> is at most
  (at least) the observed number of pairs won, and the two-sided value is twice the smaller, capped at 1.
\<close>

theorem mann_whitney_exact:
  assumes "distinct (xs @ ys)" "xs \<noteq> []" "ys \<noteq> []" "length xs + length ys \<le> EXACT_MAX_N"
  shows "map_sum id p_value (mann_whitney_u cdf xs ys ''less'') = Inr (rnd (tail_le (length xs) (length ys) (wins xs ys)))
    \<and> map_sum id p_value (mann_whitney_u cdf xs ys ''greater'') = Inr (rnd (tail_ge (length xs) (length ys) (wins xs ys)))
    \<and> map_sum id p_value (mann_whitney_u cdf xs ys ''two-sided'') =
      Inr (min 1 (2 * min (rnd (tail_le (length xs) (length ys) (wins xs ys))) (rnd (tail_ge (length xs) (length ys) (wins xs ys)))))"
  using assms exact_p_samples [OF assms(1)] by (simp add: mann_whitney_u_run one_sided_def)

theorem mann_whitney_exact_witness:
  "map_sum id p_value (mann_whitney_u (\<lambda>x v. 0) [1, 2] [3, 4] ''less'') = Inr (rnd (tail_le (length [1, 2 :: rat]) (length [3, 4 :: rat]) (wins [1, 2] [3, 4])))
    \<and> map_sum id p_value (mann_whitney_u (\<lambda>x v. 0) [1, 2] [3, 4] ''greater'') = Inr (rnd (tail_ge (length [1, 2 :: rat]) (length [3, 4 :: rat]) (wins [1, 2] [3, 4])))
    \<and> map_sum id p_value (mann_whitney_u (\<lambda>x v. 0) [1, 2] [3, 4] ''two-sided'') =
      Inr (min 1 (2 * min (rnd (tail_le (length [1, 2 :: rat]) (length [3, 4 :: rat]) (wins [1, 2] [3, 4])))
        (rnd (tail_ge (length [1, 2 :: rat]) (length [3, 4 :: rat]) (wins [1, 2] [3, 4])))))"
  by (rule mann_whitney_exact) simp_all

section \<open>The smallest sample that can reject\<close>

definition floor_p :: "nat \<Rightarrow> rat" where
  "floor_p n = rnd (1 / rnd (of_nat ((2 * n) choose n)))"

text \<open>The search at a number within the range of floats, and beyond.\<close>

lemma rnd64_Some: "rnd64 q = Some c \<longleftrightarrow> c = rnd q \<and> \<bar>rnd q\<bar> \<le> MAX_FINITE"
  by (auto simp: rnd64_def Let_def)

lemma testable_from_cases:
  "testable_from alpha n = Inr m \<Longrightarrow> n \<le> m \<and> floor_p m < alpha \<and> (\<forall>i. n \<le> i \<longrightarrow> i < m \<longrightarrow> alpha \<le> floor_p i)"
proof (induction alpha n rule: testable_from.induct)
  case (1 alpha n)
  show ?case
  proof (cases "alpha \<le> floor_p n")
    case True
    then have "testable_from alpha (n + 1) = Inr m" "\<exists>c. rnd64 (of_nat ((2 * n) choose n)) = Some c \<and> alpha \<le> rnd (1 / c)"
      using "1.prems" by (auto simp: testable_from.simps [of alpha n] rnd64_Some floor_p_def split: option.splits if_splits)
    then have "n + 1 \<le> m \<and> floor_p m < alpha \<and> (\<forall>i. n + 1 \<le> i \<longrightarrow> i < m \<longrightarrow> alpha \<le> floor_p i)" using "1.IH" by blast
    moreover have "i = n \<or> n + 1 \<le> i" if "n \<le> i" for i using that by auto
    ultimately show ?thesis using True by (auto simp: Suc_le_eq)
  next
    case False
    then show ?thesis using "1.prems"
      by (auto simp: testable_from.simps [of alpha n] rnd64_Some floor_p_def split: option.splits if_splits)
  qed
qed

lemma central_binomial_mono: "i \<le> j \<Longrightarrow> (2 * i) choose i \<le> (2 * j) choose j"
proof (induction rule: dec_induct)
  case (step m)
  then show ?case using central_binomial_double [of m] by linarith
qed simp

lemma comb_out_of_range:
  assumes "rnd64 (of_nat ((2 * i) choose i)) = None" "i \<le> j" shows "rnd64 (of_nat ((2 * j) choose j)) = None"
proof -
  have "rnd (of_nat ((2 * i) choose i)) \<le> rnd (of_nat ((2 * j) choose j))" "0 \<le> rnd (of_nat ((2 * i) choose i))"
    using central_binomial_mono [OF assms(2)] by (simp_all only: rnd_mono rnd_nonneg of_nat_le_iff of_nat_0_le_iff)
  then show ?thesis using assms(1) by (auto simp: rnd64_def Let_def split: if_splits)
qed

abbreviation overflow_exn :: exn where
  "overflow_exn \<equiv> Exn OverflowErr ''int too large to convert to float''"

lemma testable_from_error:
  "testable_from alpha n = Inl e \<Longrightarrow> e = overflow_exn
    \<and> (\<forall>i. n \<le> i \<longrightarrow> rnd64 (of_nat ((2 * i) choose i)) \<noteq> None \<longrightarrow> alpha \<le> floor_p i)"
proof (induction alpha n rule: testable_from.induct)
  case (1 alpha n)
  show ?case
  proof (cases "rnd64 (of_nat ((2 * n) choose n))")
    case None
    then show ?thesis using "1.prems" comb_out_of_range [OF None] by (simp add: testable_from.simps [of alpha n])
  next
    case (Some c)
    then have c: "alpha \<le> rnd (1 / c)" "alpha \<le> floor_p n" "testable_from alpha (n + 1) = Inl e"
      using "1.prems" Some [unfolded rnd64_Some] by (auto simp: testable_from.simps [of alpha n] Some floor_p_def split: if_splits)
    have "i = n \<or> n + 1 \<le> i" if "n \<le> i" for i using that by auto
    then show ?thesis using "1.IH" [OF Some c(1, 3)] c(2) by blast
  qed
qed

lemma floor_p_nonneg: "0 \<le> floor_p n"
  by (simp add: floor_p_def rnd_nonneg)

lemma floor_p_510: "rnd64 (of_nat ((2 * 510) choose 510)) \<noteq> None" "floor_p 510 \<le> pow2 (- 510)"
proof -
  let ?C = "(2 * 510) choose (510 :: nat)"
  have "?C \<le> 2 ^ (2 * 510)" by (rule binomial_le_pow2)
  then have "of_nat ?C \<le> pow2 (int (2 * 510))" unfolding pow2_nat by (metis of_nat_le_iff of_nat_numeral of_nat_power)
  moreover have C: "pow2 (int 510) \<le> of_nat ?C"
    unfolding pow2_nat using central_binomial_pow [of 510] by (metis of_nat_le_iff of_nat_numeral of_nat_power)
  moreover have pos: "0 < pow2 (int 510)" by simp
  ultimately have "rnd (of_nat ?C) \<le> pow2 (int (2 * 510))" by (intro rnd_le_pow2) (linarith | simp)+
  moreover have low: "pow2 (int 510) \<le> rnd (of_nat ?C)" using C by (intro rnd_ge_pow2) simp_all
  moreover have "pow2 1023 \<le> MAX_FINITE"
    using pow2_add [of 1 1023] pow2_le_iff(1) [of 971 1023] by (simp add: MAX_FINITE_def pow2_nat del: pow2_le_iff)
  moreover have "pow2 (int (2 * 510)) \<le> pow2 1023" by simp
  ultimately have "\<bar>rnd (of_nat ?C)\<bar> \<le> MAX_FINITE" using pos by linarith
  then show "rnd64 (of_nat ?C) \<noteq> None" by (simp only: rnd64_def Let_def if_True option.distinct not_False_eq_True)
  have rp: "0 < rnd (of_nat ?C)" by (rule less_le_trans [OF pos low])
  have "1 / rnd (of_nat ?C) \<le> 1 / pow2 (int 510)" by (rule divide_left_mono [OF low _ mult_pos_pos [OF rp pos]]) simp
  also have "1 / pow2 (int 510) = pow2 (- 510)" by (simp add: pow2_powi power_int_minus_divide)
  finally have "rnd (1 / rnd (of_nat ?C)) \<le> pow2 (- 510)" by (intro rnd_le_pow2 divide_pos_pos [OF zero_less_one rp]) simp_all
  then show "floor_p 510 \<le> pow2 (- 510)" by (simp only: floor_p_def)
qed

lemma min_testable_total:
  assumes "pow2 (- 510) < alpha" shows "\<exists>n. min_testable_n alpha = Inr n"
proof (cases "min_testable_n alpha")
  case (Inl e)
  then have "alpha \<le> floor_p 510" using testable_from_error [of alpha 2 e] floor_p_510(1) by (auto simp: min_testable_n_def)
  then show ?thesis using assms floor_p_510(2) by linarith
qed simp

lemma tail_le_floor:
  assumes "2 * n \<le> EXACT_MAX_N" shows "floor_p n \<le> rnd (tail_le n n k)"
proof -
  let ?T = "{A \<in> arrangements n n. arr_u (n + n) A \<le> k}" and ?C = "(2 * n) choose n"
  have "pairs_won (n + n) {..<n} = {}" by (auto simp: pairs_won_def)
  then have "{..<n} \<in> ?T" by (simp add: arrangements_def)
  then have "card ?T > 0" by (intro card_gt_0_iff [THEN iffD2] conjI) auto
  then have "1 \<le> card ?T" by simp
  moreover have "card (arrangements n n) = ?C" by (simp add: card_arrangements mult_2)
  ultimately have "1 / of_nat ?C \<le> tail_le n n k" by (simp add: tail_le_def divide_right_mono)
  moreover have "?C < 2 ^ 53"
    using binomial_le_pow2 [of "2 * n" n] power_increasing [of "2 * n" 20 "2 :: nat"] assms by simp
  ultimately show ?thesis by (simp add: floor_p_def rnd_nat rnd_mono)
qed

text \<open>
  C40. \<open>min_testable_n\<close> ends for every \<open>alpha\<close>. Above \<open>2 ^ -510\<close> it returns the smallest \<open>n\<close>, from
  2 on, for which \<open>1 / C(2n, n)\<close> is below \<open>alpha\<close>, and with fewer observations per side no two
  samples without ties can reject at level \<open>alpha\<close>; for an \<open>alpha\<close> that is not positive it ends
  when the binomial coefficient leaves the range of floats, with an overflow error.
\<close>

theorem min_testable_n_least:
  "(alpha \<le> 0 \<longrightarrow> min_testable_n alpha = Inl overflow_exn)
    \<and> (pow2 (- 510) < alpha \<longrightarrow> (\<exists>n. min_testable_n alpha = Inr n \<and> 2 \<le> n \<and> floor_p n < alpha
        \<and> (\<forall>i. 2 \<le> i \<longrightarrow> i < n \<longrightarrow> alpha \<le> floor_p i)
        \<and> (\<forall>xs ys cdf r. 2 \<le> length xs \<longrightarrow> length xs < n \<longrightarrow> length ys = length xs \<longrightarrow> distinct (xs @ ys)
            \<longrightarrow> 2 * length xs \<le> EXACT_MAX_N \<longrightarrow> mann_whitney_u cdf xs ys ''less'' = Inr r \<longrightarrow> alpha \<le> p_value r)))"
proof (intro conjI impI)
  assume a: "alpha \<le> 0"
  show "min_testable_n alpha = Inl overflow_exn"
  proof (cases "min_testable_n alpha")
    case (Inr n)
    then have "floor_p n < alpha" using testable_from_cases [of alpha 2 n] by (auto simp: min_testable_n_def)
    then show ?thesis using a floor_p_nonneg [of n] by linarith
  qed (use testable_from_error [of alpha 2] in \<open>auto simp: min_testable_n_def\<close>)
next
  assume a: "pow2 (- 510) < alpha"
  obtain n where n: "min_testable_n alpha = Inr n" using min_testable_total [OF a] by blast
  then have least: "2 \<le> n" "floor_p n < alpha" "\<And>i. 2 \<le> i \<Longrightarrow> i < n \<Longrightarrow> alpha \<le> floor_p i"
    using testable_from_cases [of alpha 2 n] by (auto simp: min_testable_n_def)
  have "alpha \<le> p_value r"
    if s: "2 \<le> length xs" "length xs < n" "length ys = length xs" "distinct (xs @ ys)" "2 * length xs \<le> EXACT_MAX_N"
      "mann_whitney_u cdf xs ys ''less'' = Inr r" for xs ys cdf r
  proof -
    have "p_value r = rnd (tail_le (length xs) (length xs) (wins xs ys))"
      using s mann_whitney_less [of xs ys cdf] by fastforce
    then show ?thesis using least(3) [OF s(1, 2)] tail_le_floor [OF s(5), of "wins xs ys"] by simp
  qed
  then show "\<exists>n. min_testable_n alpha = Inr n \<and> 2 \<le> n \<and> floor_p n < alpha
        \<and> (\<forall>i. 2 \<le> i \<longrightarrow> i < n \<longrightarrow> alpha \<le> floor_p i)
        \<and> (\<forall>xs ys cdf r. 2 \<le> length xs \<longrightarrow> length xs < n \<longrightarrow> length ys = length xs \<longrightarrow> distinct (xs @ ys)
            \<longrightarrow> 2 * length xs \<le> EXACT_MAX_N \<longrightarrow> mann_whitney_u cdf xs ys ''less'' = Inr r \<longrightarrow> alpha \<le> p_value r)"
    using n least by blast
qed

theorem min_testable_n_least_witness:
  "min_testable_n 0 = Inl overflow_exn \<and> (\<exists>n. min_testable_n (1 / 20) = Inr n \<and> 2 \<le> n \<and> floor_p n < 1 / 20)"
proof -
  have "pow2 (- 510) \<le> pow2 (- 5)" by simp
  then have "pow2 (- 510) < 1 / 20" by (simp add: pow2_def)
  then show ?thesis using min_testable_n_least [of 0] min_testable_n_least [of "1 / 20"] by blast
qed

end
