(* ===== verification/Languages.thy ===== *)
theory Languages
  imports Codecalc_Prelude
begin

text \<open>
  The names of \<open>codecalc/registry.py\<close>: the keys of its language table, its aliases, and the
  resolution of a name a caller wrote. The commands of the table are data for the executor.
\<close>

definition LANGUAGES :: "string list" where
  "LANGUAGES = [''python3'', ''node'', ''bun'', ''deno'', ''typescript'', ''ruby'', ''php'', ''perl'', ''lua'', ''tcl'', ''r'',
     ''elixir'', ''erlang'', ''bash'', ''zsh'', ''mojo'', ''swift'', ''c'', ''cpp'', ''c++'', ''rust'', ''go'', ''fortran'', ''zig'', ''java'',
     ''kotlin'', ''csharp'', ''gleam'', ''haskell'', ''sqlite'', ''jq'', ''awk'']"

definition ALIASES :: "(string \<times> string list) list" where
  "ALIASES = [(''python3'', [''python'', ''py'', ''python3.14'', ''python3.12'']), (''node'', [''js'', ''javascript'', ''nodejs'']),
     (''typescript'', [''ts'']), (''c++'', [''cpp'', ''cxx'']), (''r'', [''rscript'']), (''bash'', [''sh'', ''shell'']),
     (''csharp'', [''cs'', ''c#'', ''dotnet'']), (''haskell'', [''ghc'', ''hs''])]"

definition canonical :: "string \<Rightarrow> string option" where
  "canonical name = (let n = lower (strip is_space name) in
     if List.member LANGUAGES n then Some n
     else map_option fst (List.find (\<lambda>(canon, aliases). List.member aliases n) ALIASES))"

end
