(* ===== verification/Optimization.thy ===== *)
theory Optimization
  imports Rank_Exact Grades Languages
begin

text \<open>
  \<open>codecalc/optimization.py\<close> with \<open>tools._measure\<close>: whether a candidate program is a verified
  speed-up of an original. The executor and the monotonic clock are arguments (\<open>host\<close>), indexed by
  a counter that every call advances, so that two equal calls may answer differently. Durations are
  the numbers the executor reports; quotients are rounded to binary64. The calls of the correctness
  gate and those of the measurement are numbered apart. A dictionary the module passes between its
  own functions is a record here; the final report is a dictionary again, as the graders read it.
\<close>

section \<open>Measuring one program\<close>

record host =
  host_check :: runner
  host_run :: runner
  host_clock :: "nat \<Rightarrow> rat"

record timing =
  t_n :: nat
  t_ok :: bool
  t_duration :: "rat option"
  t_all :: "rat list"
  t_stdout :: string
  t_stderr :: string

text \<open>\<open>r.get("duration_ms")\<close>, a number or nothing.\<close>

definition duration_of :: "dict \<Rightarrow> rat option" where
  "duration_of r = (case dget r ''duration_ms'' of PInt i \<Rightarrow> Some (of_int i) | PFloat q t \<Rightarrow> Some q | _ \<Rightarrow> None)"

text \<open>The repeats of one size: the durations, the last result, and whether it timed out.\<close>

fun repeat_runs :: "(nat \<Rightarrow> dict) \<Rightarrow> nat \<Rightarrow> nat \<Rightarrow> rat list \<Rightarrow> dict option \<Rightarrow> rat list \<times> dict option \<times> bool \<times> nat" where
  "repeat_runs f 0 k ds last' = (ds, last', False, k)"
| "repeat_runs f (Suc j) k ds last' =
    (let r = f k in
     if truthy (dget r ''timed_out'') then (ds, Some r, True, k + 1)
     else if \<not> truthy (dget r ''ok'') then (ds, Some r, False, k + 1)
     else repeat_runs f j (k + 1) (case duration_of r of None \<Rightarrow> ds | Some d \<Rightarrow> ds @ [d]) (Some r))"

definition min_list_opt :: "rat list \<Rightarrow> rat option" where
  "min_list_opt ds = (case ds of [] \<Rightarrow> None | d # r \<Rightarrow> Some (fold min r d))"

definition timing_row :: "nat \<Rightarrow> rat list \<Rightarrow> dict option \<Rightarrow> timing" where
  "timing_row n ds last' =
    (let l = (case last' of None \<Rightarrow> [] | Some r \<Rightarrow> r) in
     \<lparr>t_n = n, t_ok = (ds \<noteq> []), t_duration = min_list_opt ds, t_all = ds,
      t_stdout = take 200 (stdout_of l), t_stderr = take 200 (text_of (dget l ''stderr''))\<rparr>)"

definition failure :: "string \<Rightarrow> dict option \<Rightarrow> dict" where
  "failure msg detail = [(''ok'', PBool False), (''error'', PStr msg)]
     @ (case detail of None \<Rightarrow> [] | Some d \<Rightarrow> [(''detail'', PDict d)])"

definition failed_message :: "nat \<Rightarrow> dict \<Rightarrow> string" where
  "failed_message n r = ''program failed at n='' @ nat_str n
     @ (if truthy (dget r ''error'') then '': '' @ py_str (dget r ''error'') else [])"

text \<open>\<open>_measure\<close>: the rows of the sizes that ran, and the error that stopped it, if any.\<close>

fun measure :: "host \<Rightarrow> string \<Rightarrow> string \<Rightarrow> nat \<Rightarrow> nat \<Rightarrow> rat option \<Rightarrow> nat list \<Rightarrow> nat \<Rightarrow> timing list \<times> dict option \<times> nat" where
  "measure h language code timeout repeats deadline [] k = ([], None, k)"
| "measure h language code timeout repeats deadline (n # ns) k =
    (if (case deadline of None \<Rightarrow> False | Some d \<Rightarrow> d \<le> host_clock h k)
     then ([], Some (failure (''measurement deadline exceeded before n='' @ nat_str n @ '' could run'') None), k + 1)
     else
       let k1 = (if deadline = None then k else k + 1);
           (ds, last', timed_out, k2) =
             repeat_runs (\<lambda>i. host_run h i language code (nat_str n @ [LF]) timeout) repeats k1 [] None
       in if timed_out
          then ([], Some (failure (''program timed out at n='' @ nat_str n @ '' ('' @ nat_str timeout
                 @ ''s); no growth estimate is possible from a timeout'') last'), k2)
          else case (case last' of None \<Rightarrow> None | Some r \<Rightarrow> if truthy (dget r ''ok'') then None else Some r) of
              Some r \<Rightarrow> ([], Some (failure (failed_message n r) (Some r)), k2)
            | None \<Rightarrow>
                let (rows, err, k3) = measure h language code timeout repeats deadline ns k2
                in (timing_row n ds last' # rows, err, k3))"

abbreviation REPEATS :: nat where "REPEATS \<equiv> 5"
abbreviation VISIBILITY_FLOOR_MS :: rat where "VISIBILITY_FLOOR_MS \<equiv> 5"
abbreviation MAX_RESCALE_ROUNDS :: nat where "MAX_RESCALE_ROUNDS \<equiv> 4"
abbreviation MEASUREMENT_BUDGET_S :: rat where "MEASUREMENT_BUDGET_S \<equiv> 120"

definition bounded_timeout :: "host \<Rightarrow> nat \<Rightarrow> rat option \<Rightarrow> nat \<Rightarrow> nat \<Rightarrow> (string + nat) \<times> nat" where
  "bounded_timeout h timeout deadline repeats k =
    (case deadline of
       None \<Rightarrow> (Inr timeout, k)
     | Some d \<Rightarrow>
         let remaining = rnd (d - host_clock h k) in
         if remaining \<le> 0 then (Inl ''measurement deadline exceeded before this batch could run'', k + 1)
         else (Inr (max 1 (nat \<lfloor>min (of_nat timeout) (rnd (remaining / of_nat (max 1 repeats)))\<rfloor>)), k + 1))"

record timed =
  d_sizes :: "nat list"
  durations_ms :: "rat option list"
  all_runs_ms :: "rat list list"

definition timed_of :: "timing list \<Rightarrow> timed" where
  "timed_of runs = \<lparr>d_sizes = map t_n runs, durations_ms = map t_duration runs, all_runs_ms = map t_all runs\<rparr>"

definition invisible :: "timing \<Rightarrow> bool" where
  "invisible r = (case t_duration r of None \<Rightarrow> True | Some d \<Rightarrow> d < VISIBILITY_FLOOR_MS)"

definition put_runs :: "nat list \<Rightarrow> timing list \<Rightarrow> timing list \<Rightarrow> timing list" where
  "put_runs idx new runs = fold (\<lambda>(i, r) rs. rs[i := r]) (zip idx new) runs"

text \<open>The rescale rounds of \<open>_timed\<close>: a round that fails to measure ends them, an exhausted clock fails.\<close>

fun rescale :: "host \<Rightarrow> string \<Rightarrow> string \<Rightarrow> nat \<Rightarrow> rat option \<Rightarrow> nat \<Rightarrow> timing list \<Rightarrow> nat \<Rightarrow> (string + timing list) \<times> nat" where
  "rescale h language code timeout deadline 0 runs k = (Inr runs, k)"
| "rescale h language code timeout deadline (Suc j) runs k =
    (let pending = filter (\<lambda>i. invisible (runs ! i)) [0..<length runs] in
     if pending = [] then (Inr runs, k)
     else let rescaled = map (\<lambda>i. t_n (runs ! i) * 10) pending in
       case bounded_timeout h timeout deadline REPEATS k of
         (Inl msg, k1) \<Rightarrow> (Inl msg, k1)
       | (Inr call_timeout, k1) \<Rightarrow>
           case measure h language code call_timeout REPEATS deadline rescaled k1 of
             (sub_runs, Some err, k2) \<Rightarrow> (Inr runs, k2)
           | (sub_runs, None, k2) \<Rightarrow> rescale h language code timeout deadline j (put_runs pending sub_runs runs) k2)"

definition error_of :: "dict \<Rightarrow> string" where
  "error_of err = py_str (dget err ''error'')"

definition timed_program :: "host \<Rightarrow> string \<Rightarrow> string \<Rightarrow> nat list \<Rightarrow> nat \<Rightarrow> rat option \<Rightarrow> nat \<Rightarrow> (string + timed) \<times> nat" where
  "timed_program h code language sizes timeout deadline k =
    (case bounded_timeout h timeout deadline REPEATS k of
       (Inl msg, k1) \<Rightarrow> (Inl msg, k1)
     | (Inr call_timeout, k1) \<Rightarrow>
         case measure h language code call_timeout REPEATS deadline sizes k1 of
           (runs, Some err, k2) \<Rightarrow> (Inl (error_of err), k2)
         | (runs, None, k2) \<Rightarrow>
             case rescale h language code timeout deadline MAX_RESCALE_ROUNDS runs k2 of
               (Inl msg, k3) \<Rightarrow> (Inl msg, k3)
             | (Inr runs', k3) \<Rightarrow> (Inr (timed_of runs'), k3))"

definition remeasure_positions ::
    "host \<Rightarrow> timed \<Rightarrow> string \<Rightarrow> string \<Rightarrow> nat \<Rightarrow> (nat \<times> nat) list \<Rightarrow> rat option \<Rightarrow> nat \<Rightarrow> (string + timed) \<times> nat" where
  "remeasure_positions h data code language timeout fixes deadline k =
    (case bounded_timeout h timeout deadline REPEATS k of
       (Inl msg, k1) \<Rightarrow> (Inl msg, k1)
     | (Inr call_timeout, k1) \<Rightarrow>
         case measure h language code call_timeout REPEATS deadline (map snd fixes) k1 of
           (runs, Some err, k2) \<Rightarrow> (Inl (error_of err), k2)
         | (runs, None, k2) \<Rightarrow>
             (Inr (fold (\<lambda>((i, n), r) d. d\<lparr>d_sizes := (d_sizes d)[i := t_n r], durations_ms := (durations_ms d)[i := t_duration r],
                     all_runs_ms := (all_runs_ms d)[i := t_all r]\<rparr>) (zip fixes runs) data), k2))"

definition fixes_after :: "timed \<Rightarrow> timed \<Rightarrow> (nat \<times> nat) list" where
  "fixes_after before after =
    map (\<lambda>(i, bn, an). (i, bn))
      (filter (\<lambda>(i, bn, an). an < bn \<and> (i < length (durations_ms before)
           \<and> (case durations_ms before ! i of None \<Rightarrow> False | Some bd \<Rightarrow> VISIBILITY_FLOOR_MS \<le> bd)))
        (List.enumerate 0 (zip (d_sizes before) (d_sizes after))))"

text \<open>The baseline is returned as it came: only the candidate is ever measured again.\<close>

definition align_sizes ::
    "host \<Rightarrow> timed \<Rightarrow> timed \<Rightarrow> string \<Rightarrow> string \<Rightarrow> nat \<Rightarrow> rat option \<Rightarrow> nat \<Rightarrow> (timed \<times> (string + timed)) \<times> nat" where
  "align_sizes h before after candidate language timeout deadline k =
    (if d_sizes before = [] \<or> d_sizes after = [] \<or> d_sizes before = d_sizes after then ((before, Inr after), k)
     else let fix_after = fixes_after before after in
       if fix_after = [] then ((before, Inr after), k)
       else case remeasure_positions h after candidate language timeout fix_after deadline k of (r, k') \<Rightarrow> ((before, r), k'))"

section \<open>Which positions count\<close>

record position =
  e_size :: nat
  before_ms :: rat
  after_ms :: rat
  b_sample :: "rat list"
  a_sample :: "rat list"
  size_after :: "nat option"

record exclusion =
  x_size :: nat
  x_before :: "rat option"
  x_after :: "rat option"
  x_reason :: "string option"

definition nth_or :: "'a list \<Rightarrow> nat \<Rightarrow> 'a \<Rightarrow> 'a" where
  "nth_or xs i d = (if i < length xs then xs ! i else d)"

text \<open>One position of \<open>_comparable_positions\<close>: excluded (left) or comparable (right).\<close>

definition compare_position :: "timed \<Rightarrow> timed \<Rightarrow> nat \<Rightarrow> exclusion + position" where
  "compare_position before after i =
    (let b_sizes = d_sizes before; a_sizes = d_sizes after; b = durations_ms before; a = durations_ms after in
     if length b_sizes \<le> i \<or> length b \<le> i \<or> length a \<le> i
     then Inl \<lparr>x_size = nth_or b_sizes i (nth_or a_sizes i i), x_before = None, x_after = None, x_reason = None\<rparr>
     else let bn = b_sizes ! i; an = nth_or a_sizes i bn in
       case (b ! i, a ! i) of
         (Some bb, Some aa) \<Rightarrow>
           if bb \<le> 1 \<or> bb < VISIBILITY_FLOOR_MS \<or> aa \<le> 0
           then Inl \<lparr>x_size = bn, x_before = Some bb, x_after = Some aa, x_reason = None\<rparr>
           else Inr \<lparr>e_size = bn, before_ms = bb, after_ms = aa, b_sample = nth_or (all_runs_ms before) i [],
                  a_sample = nth_or (all_runs_ms after) i [], size_after = (if an \<noteq> bn then Some an else None)\<rparr>
       | (bb, aa) \<Rightarrow> Inl \<lparr>x_size = bn, x_before = bb, x_after = aa, x_reason = None\<rparr>)"

text \<open>Both lists in the order of the positions.\<close>

definition lefts :: "('a + 'b) list \<Rightarrow> 'a list" where
  "lefts xs = List.map_filter (\<lambda>x. case x of Inl a \<Rightarrow> Some a | Inr b \<Rightarrow> None) xs"

definition rights :: "('a + 'b) list \<Rightarrow> 'b list" where
  "rights xs = List.map_filter (\<lambda>x. case x of Inl a \<Rightarrow> None | Inr b \<Rightarrow> Some b) xs"

definition comparable_positions :: "timed \<Rightarrow> timed \<Rightarrow> position list \<times> exclusion list" where
  "comparable_positions before after =
    (let ps = map (compare_position before after) [0..<max (length (d_sizes before)) (length (d_sizes after))]
     in (rights ps, lefts ps))"

abbreviation ALPHA :: rat where "ALPHA \<equiv> rnd (1 / 20)"
abbreviation DEFAULT_MIN_SPEEDUP :: rat where "DEFAULT_MIN_SPEEDUP \<equiv> rnd (115 / 100)"
abbreviation NORMAL_APPROX_MIN_N :: nat where "NORMAL_APPROX_MIN_N \<equiv> 8"
abbreviation FWER_UNANIMITY_MAX :: nat where "FWER_UNANIMITY_MAX \<equiv> 3"
abbreviation MIN_COUNTED_SIZES :: nat where "MIN_COUNTED_SIZES \<equiv> 2"

definition fwer_correction :: "nat \<Rightarrow> rat \<Rightarrow> rat \<times> string" where
  "fwer_correction k alpha =
    (if k = 0 then (alpha, ''n/a'') else if k \<le> FWER_UNANIMITY_MAX then (alpha, ''unanimity'')
     else (rnd (alpha / of_nat k), ''bonferroni''))"

definition ranges_overlap :: "rat list \<Rightarrow> rat list \<Rightarrow> bool" where
  "ranges_overlap a b = (\<not> (Max (set a) < Min (set b) \<or> Max (set b) < Min (set a)))"

definition fwer_satisfied :: "nat \<Rightarrow> nat \<Rightarrow> string option \<Rightarrow> bool" where
  "fwer_satisfied sizes_total sizes_rejecting correction =
    (if sizes_total = 0 then False
     else if correction \<noteq> None \<and> sizes_total < MIN_COUNTED_SIZES then False
     else if correction = Some ''unanimity'' then sizes_rejecting = sizes_total
     else sizes_rejecting * 2 > sizes_total)"

definition few_runs_reason :: "nat \<Rightarrow> nat \<Rightarrow> nat \<Rightarrow> rat \<Rightarrow> string" where
  "few_runs_reason min_n nb na alpha =
    ''fewer than '' @ nat_str min_n @ '' runs per side ('' @ nat_str nb @ '' before / '' @ nat_str na @ '' after) '' @ EM_DASH
     @ '' the smallest n whose exact one-sided p can be < alpha='' @ float_repr alpha @ '' at all is '' @ nat_str min_n
     @ '' (1/C(2n,n)); a smaller sample cannot reject the null no matter how clean the separation''"

definition tied_reason :: "nat \<Rightarrow> nat \<Rightarrow> string" where
  "tied_reason nb na =
    ''a tie routed this size to the normal approximation (stats.mann_whitney_u'' @ [CHR 0x27] @ ''s method) AND the two samples''
     @ [CHR 0x27] @ '' ranges overlap '' @ EM_DASH @ '' below 8 runs per side ('' @ nat_str nb @ '' before / '' @ nat_str na
     @ '' after here) that is below the timer'' @ [CHR 0x27] @ ''s resolution: the timer cannot always say which side a given pair of runs favoured ''
     @ EM_DASH @ '' see stats.py'' @ [CHR 0x27] @ ''s own module docstring on why n=5 is '' @ repr_str ''not a number worth calling alpha against''"

definition excluded_as :: "position \<Rightarrow> string \<Rightarrow> exclusion" where
  "excluded_as e reason = \<lparr>x_size = e_size e, x_before = Some (before_ms e), x_after = Some (after_ms e), x_reason = Some reason\<rparr>"

definition enough_runs :: "nat \<Rightarrow> position \<Rightarrow> bool" where
  "enough_runs min_n e = (\<not> (length (b_sample e) < min_n \<or> length (a_sample e) < min_n))"

text \<open>Gate (b) of one position that has enough runs.\<close>

definition test_position :: "(rat \<Rightarrow> rat \<Rightarrow> rat) \<Rightarrow> position \<Rightarrow> exn + exclusion + (position \<times> mwu)" where
  "test_position cdf e =
    rbind (mann_whitney_u cdf (a_sample e) (b_sample e) ''less'') (\<lambda>m.
      let nb = length (b_sample e); na = length (a_sample e) in
      Inr (if \<not> mwu_exact m \<and> (nb < NORMAL_APPROX_MIN_N \<or> na < NORMAL_APPROX_MIN_N) \<and> ranges_overlap (a_sample e) (b_sample e)
           then Inl (excluded_as e (tied_reason nb na)) else Inr (e, m)))"

definition testable_positions ::
    "(rat \<Rightarrow> rat \<Rightarrow> rat) \<Rightarrow> timed \<Rightarrow> timed \<Rightarrow> rat \<Rightarrow> exn + (position \<times> mwu) list \<times> exclusion list \<times> nat" where
  "testable_positions cdf before after alpha =
    (let (comparable, excluded) = comparable_positions before after in
     rbind (min_testable_n alpha) (\<lambda>min_n.
       let few = map (\<lambda>e. excluded_as e (few_runs_reason min_n (length (b_sample e)) (length (a_sample e)) alpha))
                   (filter (\<lambda>e. \<not> enough_runs min_n e) comparable);
           testable = filter (enough_runs min_n) comparable
       in rbind (rmap (test_position cdf) testable) (\<lambda>tested.
            Inr (rights tested, excluded @ few @ lefts tested, min_n))))"

section \<open>The ratio\<close>

definition ratio_of :: "position \<Rightarrow> rat" where
  "ratio_of e = rnd (before_ms e / after_ms e)"

text \<open>\<open>statistics.median\<close> of a list that is not empty.\<close>

definition median :: "rat list \<Rightarrow> rat" where
  "median xs = (let s = sort xs; n = length s in
     if odd n then s ! (n div 2) else rnd (rnd (s ! (n div 2 - 1) + s ! (n div 2)) / 2))"

record speedup =
  sp_ratio :: "rat option"
  sp_measurable :: bool
  sp_per_size :: "(nat \<times> rat \<times> rat \<times> rat \<times> nat option) list"

definition speedup_of :: "position list \<Rightarrow> speedup" where
  "speedup_of comparable =
    (if comparable = [] then \<lparr>sp_ratio = None, sp_measurable = False, sp_per_size = []\<rparr>
     else \<lparr>sp_ratio = Some (round_digits 2 (median (map ratio_of comparable))), sp_measurable = True,
           sp_per_size = map (\<lambda>e. (e_size e, before_ms e, after_ms e, round_digits 2 (ratio_of e), size_after e)) comparable\<rparr>)"

definition speedup :: "(rat \<Rightarrow> rat \<Rightarrow> rat) \<Rightarrow> timed \<Rightarrow> timed \<Rightarrow> position list option \<Rightarrow> exn + speedup" where
  "speedup cdf before after comparable =
    (case comparable of
       Some ps \<Rightarrow> Inr (speedup_of ps)
     | None \<Rightarrow> rbind (testable_positions cdf before after ALPHA) (\<lambda>(survivors, excluded, min_n). Inr (speedup_of (map fst survivors))))"

section \<open>The inference\<close>

record size_test =
  r_size :: nat
  n_before :: nat
  n_after :: nat
  r_u :: rat
  r_p :: rat
  r_biserial :: rat
  r_exact :: bool
  r_ratio :: rat
  r_size_after :: "nat option"

definition size_row :: "position \<times> mwu \<Rightarrow> exn + size_test" where
  "size_row em = (case em of (e, m) \<Rightarrow>
     rbind (rank_biserial_correlation (mwu_u m) (mwu_n1 m) (mwu_n2 m)) (\<lambda>rb.
       Inr \<lparr>r_size = e_size e, n_before = length (b_sample e), n_after = length (a_sample e), r_u = mwu_u m, r_p = p_value m,
            r_biserial = round_digits 4 rb, r_exact = mwu_exact m, r_ratio = round_digits 2 (ratio_of e), r_size_after = size_after e\<rparr>))"

definition rejects :: "rat \<Rightarrow> rat \<Rightarrow> size_test \<Rightarrow> bool" where
  "rejects effective_alpha min_speedup r = (r_p r < effective_alpha \<and> min_speedup \<le> r_ratio r)"

text \<open>\<open>format(x, '.4g')\<close> of a positive float.\<close>

definition format_4g :: "rat \<Rightarrow> string" where
  "format_4g x =
    (let e0 = dec_exp x; m0 = round_half_even (x * dec_pow (3 - e0));
         (m, e) = (if m0 = 10000 then (1000, e0 + 1) else (m0, e0));
         ds = rstrip (\<lambda>c. c = CHR ''0'') (nat_str (nat m))
     in if - 4 \<le> e \<and> e < 0 then ''0.'' @ replicate (nat (- e - 1)) (CHR ''0'') @ ds
        else if 0 \<le> e \<and> e < 4 then
          let k = nat e + 1; padded = ds @ replicate (k - length ds) (CHR ''0'')
          in take k padded @ (if drop k padded = [] then [] else ''.'' @ drop k padded)
        else take 1 ds @ (if length ds > 1 then ''.'' @ drop 1 ds else []) @ ''e'' @ (if e < 0 then ''-'' else ''+'')
             @ (if \<bar>e\<bar> < 10 then ''0'' else []) @ nat_str (nat \<bar>e\<bar>))"

definition vote_basis :: "nat \<Rightarrow> nat \<Rightarrow> rat \<Rightarrow> rat \<Rightarrow> string \<Rightarrow> rat \<Rightarrow> string" where
  "vote_basis sizes_total sizes_rejecting alpha effective_alpha correction min_speedup =
    (let votes = nat_str sizes_rejecting @ ''/'' @ nat_str sizes_total @ '' size(s) reject the null (after not faster, at its own ratio >= ''
           @ float_repr min_speedup @ ''x) at '' in
     if sizes_total = 0 then ''no size had enough comparable runs for a significance test''
     else if sizes_total < MIN_COUNTED_SIZES
     then ''only '' @ nat_str sizes_total @ '' size was testable (it '' @ (if sizes_rejecting \<noteq> 0 then ''rejects'' else ''does not reject'')
          @ '' the null at alpha='' @ float_repr alpha @ ''), and a single counted size is one uncorrected test, not a verified speedup: at least 2 ''
          @ ''counted sizes are required '' @ EM_DASH @ '' add sizes so more of them clear the floor''
     else if correction = ''unanimity''
     then votes @ ''alpha='' @ float_repr alpha @ ''; '' @ nat_str sizes_total @ '' counted size(s) (<= 3) requires EVERY one to reject, not a bare ''
          @ ''majority '' @ EM_DASH @ '' with this few independent tests a majority still lets one false-positive size carry the vote''
     else votes @ ''the Bonferroni-corrected alpha='' @ format_4g effective_alpha @ '' (alpha='' @ float_repr alpha @ '' / ''
          @ nat_str sizes_total @ '' sizes); a majority of those corrected tests is required'')"

definition excluded_basis :: "nat \<Rightarrow> nat \<Rightarrow> string" where
  "excluded_basis excluded min_n =
    (if excluded = 0 then []
     else ''; '' @ nat_str excluded @ '' size(s) excluded '' @ EM_DASH @ '' the baseline was unmeasurable, never cleared the 5.0ms visibility floor ''
          @ ''within the rescale budget, had fewer than '' @ nat_str min_n @ '' runs per side, or used the normal approximation on fewer than 8 ''
          @ ''runs per side '' @ EM_DASH @ '' see sizes_below_floor'')"

record inference =
  i_alpha :: rat
  i_effective :: rat
  i_correction :: string
  i_per_size :: "size_test list"
  i_rejecting :: nat
  i_below_floor :: "exclusion list"
  i_basis :: string

definition infer_speedup :: "(rat \<Rightarrow> rat \<Rightarrow> rat) \<Rightarrow> timed \<Rightarrow> timed \<Rightarrow> rat \<Rightarrow> rat
    \<Rightarrow> ((position \<times> mwu) list \<times> exclusion list \<times> nat) option \<Rightarrow> exn + inference" where
  "infer_speedup cdf before after alpha min_speedup positions =
    rbind (case positions of None \<Rightarrow> testable_positions cdf before after alpha | Some p \<Rightarrow> Inr p) (\<lambda>(survivors, excluded, min_n).
      rbind (rmap size_row survivors) (\<lambda>per_size.
        let sizes_total = length per_size; (effective_alpha, correction) = fwer_correction sizes_total alpha;
            sizes_rejecting = length (filter (rejects effective_alpha min_speedup) per_size)
        in Inr \<lparr>i_alpha = alpha, i_effective = effective_alpha, i_correction = correction, i_per_size = per_size,
             i_rejecting = sizes_rejecting, i_below_floor = excluded,
             i_basis = vote_basis sizes_total sizes_rejecting alpha effective_alpha correction min_speedup
               @ excluded_basis (length excluded) min_n\<rparr>))"

section \<open>The decision\<close>

definition accept_decision :: "speedup \<Rightarrow> rat \<Rightarrow> inference \<Rightarrow> bool \<times> string" where
  "accept_decision sp min_speedup i =
    (case sp_ratio sp of
       None \<Rightarrow> (False, ''equivalent but not measurably faster'')
     | Some ratio \<Rightarrow>
         if \<not> sp_measurable sp then (False, ''equivalent but not measurably faster'')
         else if min_speedup \<le> 1
         then (False, ''min_speedup='' @ float_repr min_speedup @ '' does not demand a speedup (it must be > 1) '' @ EM_DASH
                @ '' refusing to certify a non-improvement'')
         else if ratio \<le> 1
         then (False, ''measured ratio '' @ float_repr ratio @ ''x is not a speedup (> 1x); equivalent but not faster'')
         else if ratio < min_speedup
         then (False, ''measured '' @ float_repr ratio @ ''x is below the required '' @ float_repr min_speedup @ ''x'')
         else if \<not> fwer_satisfied (length (i_per_size i)) (i_rejecting i) (Some (i_correction i))
         then (False, ''measured '' @ float_repr ratio @ ''x clears '' @ float_repr min_speedup
                @ ''x, but the one-sided significance test does not: '' @ i_basis i @ '' '' @ EM_DASH @ '' could be noise'')
         else (True, ''verified faster: '' @ float_repr ratio @ ''x median, '' @ nat_str (i_rejecting i) @ ''/''
                @ nat_str (length (i_per_size i)) @ '' size(s) significant at alpha='' @ float_repr (i_effective i)))"

section \<open>The report\<close>

definition ms_value :: "rat \<Rightarrow> pyval" where
  "ms_value q = (if of_int \<lfloor>q\<rfloor> = q then PInt \<lfloor>q\<rfloor> else mk_float q)"

definition opt_value :: "('a \<Rightarrow> pyval) \<Rightarrow> 'a option \<Rightarrow> pyval" where
  "opt_value f v = (case v of None \<Rightarrow> PNone | Some x \<Rightarrow> f x)"

definition opt_entry :: "string \<Rightarrow> ('a \<Rightarrow> pyval) \<Rightarrow> 'a option \<Rightarrow> dict" where
  "opt_entry key f v = (case v of None \<Rightarrow> [] | Some x \<Rightarrow> [(key, f x)])"

abbreviation int_value :: "nat \<Rightarrow> pyval" where "int_value n \<equiv> PInt (int n)"

definition NOT_MEASURABLE :: string where
  "NOT_MEASURABLE = ''no size survived both the visibility floor and the significance test'' @ [CHR 0x27] @ ''s own filters (baseline below the ''
     @ ''visibility floor, the optimized run measured 0ms, too few runs a side, or a tied comparison the normal approximation ''
     @ ''doesn'' @ [CHR 0x27] @ ''t trust at that n) '' @ EM_DASH @ '' see inference.sizes_below_floor''"

definition speedup_dict :: "speedup \<Rightarrow> dict" where
  "speedup_dict sp =
    [(''ratio'', opt_value mk_float (sp_ratio sp)), (''measurable'', PBool (sp_measurable sp)),
     (''per_size'', PList (map (\<lambda>(n, b, a, r, n'). PDict ([(''n'', int_value n), (''before_ms'', ms_value b), (''after_ms'', ms_value a),
        (''ratio'', mk_float r)] @ opt_entry ''n_after'' int_value n')) (sp_per_size sp)))]
    @ (if sp_measurable sp then [] else [(''reason'', PStr NOT_MEASURABLE)])"

definition size_dict :: "size_test \<Rightarrow> dict" where
  "size_dict r = [(''size'', int_value (r_size r)), (''n_before'', int_value (n_before r)), (''n_after'', int_value (n_after r)),
     (''u'', mk_float (r_u r)), (''p_value'', mk_float (r_p r)), (''rank_biserial'', mk_float (r_biserial r)),
     (''method'', PStr (if r_exact r then ''exact'' else ''normal_approximation'')), (''ratio'', mk_float (r_ratio r))]
     @ opt_entry ''size_after'' int_value (r_size_after r)"

definition exclusion_dict :: "exclusion \<Rightarrow> dict" where
  "exclusion_dict x = [(''size'', int_value (x_size x)), (''before_ms'', opt_value ms_value (x_before x)),
     (''after_ms'', opt_value ms_value (x_after x))] @ opt_entry ''reason'' PStr (x_reason x)"

definition inference_dict :: "inference \<Rightarrow> dict" where
  "inference_dict i = [(''test'', PStr ''mann_whitney_u''), (''alternative'', PStr ''after_faster''), (''alpha'', mk_float (i_alpha i)),
     (''effective_alpha'', mk_float (i_effective i)), (''correction'', PStr (i_correction i)),
     (''per_size'', PList (map (\<lambda>r. PDict (size_dict r)) (i_per_size i))), (''sizes_rejecting'', int_value (i_rejecting i)),
     (''sizes_total'', int_value (length (i_per_size i))), (''sizes_below_floor'', PList (map (\<lambda>x. PDict (exclusion_dict x)) (i_below_floor i))),
     (''decision_basis'', PStr (i_basis i))]"

definition not_equivalent :: "dict \<Rightarrow> dict" where
  "not_equivalent ver = [(''ok'', PBool True), (''accepted'', PBool False), (''reason'', PStr ''not equivalent''), (''verification'', PDict ver),
     (''detail'', PStr (''the candidate does not reproduce the original'' @ [CHR 0x27] @ ''s output; speed was not measured, because a faster ''
       @ ''wrong answer is not an optimisation''))]"

definition decide :: "(rat \<Rightarrow> rat \<Rightarrow> rat) \<Rightarrow> timed \<Rightarrow> timed \<Rightarrow> rat \<Rightarrow> exn + bool \<times> string \<times> speedup \<times> inference" where
  "decide cdf before after min_speedup =
    rbind (testable_positions cdf before after ALPHA) (\<lambda>positions.
    rbind (speedup cdf before after (Some (map fst (fst positions)))) (\<lambda>sp.
    rbind (infer_speedup cdf before after ALPHA min_speedup (Some positions)) (\<lambda>inference'.
      case accept_decision sp min_speedup inference' of (accepted, reason) \<Rightarrow> Inr (accepted, reason, sp, inference'))))"

definition optimization_report :: "bool \<times> string \<times> speedup \<times> inference \<Rightarrow> rat \<Rightarrow> dict \<Rightarrow> string \<Rightarrow> dict" where
  "optimization_report d min_speedup ver language = (case d of (accepted, reason, sp, i) \<Rightarrow>
     [(''ok'', PBool True), (''accepted'', PBool accepted), (''reason'', PStr reason), (''speedup'', PDict (speedup_dict sp)),
      (''inference'', PDict (inference_dict i)), (''min_speedup'', mk_float min_speedup),
      (''verification'', PDict ver), (''language'', PStr language)])"

text \<open>
  \<open>verify_optimization\<close>: the progress events it reports, in order, and its result. The
  branch for a failed re-measurement of the baseline has no case here: \<open>_align_sizes\<close> never makes one.
\<close>

definition verify_optimization :: "host \<Rightarrow> (rat \<Rightarrow> rat \<Rightarrow> rat) \<Rightarrow> string \<Rightarrow> string \<Rightarrow> string \<Rightarrow> string list option
    \<Rightarrow> nat list option \<Rightarrow> rat \<Rightarrow> nat \<Rightarrow> nat list \<times> (exn + dict)" where
  "verify_optimization h cdf original candidate language test_inputs sizes min_speedup timeout =
    (let language = (case canonical language of Some l \<Rightarrow> l | None \<Rightarrow> language);
         inputs = (case test_inputs of Some (i # is) \<Rightarrow> i # is | _ \<Rightarrow> DEFAULT_EDGE_INPUTS);
         size_list = (case sizes of Some (n # ns) \<Rightarrow> n # ns | _ \<Rightarrow> [2000, 5000, 10000, 20000]);
         ver = verify_translation (host_check h) \<lparr>source_lang = language, source_code = original, target_lang = language,
           target_code = candidate, run_timeout = timeout\<rparr> inputs
     in if \<not> truthy (dget ver ''passed'') then ([], Inr (not_equivalent ver))
        else let deadline = Some (rnd (host_clock h 0 + MEASUREMENT_BUDGET_S)) in
          case timed_program h original language size_list timeout deadline 1 of
            (Inl e, k1) \<Rightarrow> ([1], Inr (failure (''baseline measurement failed: '' @ e) None))
          | (Inr before, k1) \<Rightarrow>
              case timed_program h candidate language size_list timeout deadline k1 of
                (Inl e, k2) \<Rightarrow> ([1, 2], Inr (failure (''candidate measurement failed: '' @ e) None))
              | (Inr after, k2) \<Rightarrow>
                  case fst (align_sizes h before after candidate language timeout deadline k2) of
                    (before', Inl e) \<Rightarrow> ([1, 2, 3], Inr (failure (''candidate re-measurement failed: '' @ e) None))
                  | (before', Inr after') \<Rightarrow>
                      ([1, 2, 3, 4], rbind (decide cdf before' after' min_speedup) (\<lambda>d. Inr (optimization_report d min_speedup ver language))))"

end
