(* ===== verification/Optimization_Claims.thy ===== *)
theory Optimization_Claims
  imports Optimization
begin

text \<open>
  What an accepted optimisation rests on: the accounting of the measured positions, the direction of
  the alignment, the evidence behind an acceptance, and the form of the report and of its grade.
\<close>

section \<open>Splitting and mapping\<close>

lemma lefts_simps [simp]: "lefts [] = []" "lefts (Inl a # xs) = a # lefts xs" "lefts (Inr b # xs) = lefts xs"
  by (simp_all add: lefts_def)

lemma rights_simps [simp]: "rights [] = []" "rights (Inl a # xs) = rights xs" "rights (Inr b # xs) = b # rights xs"
  by (simp_all add: rights_def)

lemma split_length: "length (lefts xs) + length (rights xs) = length xs"
proof (induction xs)
  case (Cons x xs)
  then show ?case by (cases x) auto
qed simp

lemma set_rights: "b \<in> set (rights xs) \<longleftrightarrow> Inr b \<in> set xs"
proof (induction xs)
  case (Cons x xs)
  then show ?case by (cases x) auto
qed simp

lemma rmap_list_all2: "rmap f xs = Inr ys \<longleftrightarrow> list_all2 (\<lambda>x y. f x = Inr y) xs ys"
  by (induction xs arbitrary: ys) (auto simp: rbind_eq_Inr list_all2_Cons1)

lemma rmap_total: "(\<And>x. x \<in> set xs \<Longrightarrow> \<exists>y. f x = Inr y) \<Longrightarrow> \<exists>ys. rmap f xs = Inr ys"
  by (induction xs) (auto, metis rbind.simps(2))

section \<open>The smallest testable sample at the level of the tool\<close>

lemma ALPHA_bounds: "pow2 (- 5) \<le> ALPHA" "ALPHA \<le> 1"
proof -
  show "pow2 (- 5) \<le> ALPHA" by (rule rnd_ge_pow2) (simp_all add: pow2_def)
qed simp

lemma floor_p_values: "floor_p 2 = rnd (1 / 6)" "floor_p 3 = rnd (1 / 20)" "floor_p 4 = rnd (1 / 70)"
proof -
  have c: "(4 choose 2) = (6 :: nat)" "(6 choose 3) = (20 :: nat)" "(8 choose 4) = (70 :: nat)" by (simp_all add: numeral_eq_Suc)
  show "floor_p 2 = rnd (1 / 6)" "floor_p 3 = rnd (1 / 20)" "floor_p 4 = rnd (1 / 70)"
    using rnd_nat [of 6] rnd_nat [of 20] rnd_nat [of 70] by (simp_all add: floor_p_def c)
qed

lemma min_testable_ALPHA: "min_testable_n ALPHA = Inr 4"
proof -
  have "pow2 (- 510) < pow2 (- 5)" by simp
  then have "pow2 (- 510) < ALPHA" using ALPHA_bounds(1) by linarith
  then obtain n where n: "min_testable_n ALPHA = Inr n" using min_testable_total by blast
  then have least: "2 \<le> n" "floor_p n < ALPHA" "\<And>i. 2 \<le> i \<Longrightarrow> i < n \<Longrightarrow> ALPHA \<le> floor_p i"
    using testable_from_cases [of ALPHA 2 n] by (auto simp: min_testable_n_def)
  have "ALPHA \<le> floor_p 2" "ALPHA \<le> floor_p 3" by (simp_all add: floor_p_values rnd_mono)
  moreover have "floor_p 4 \<le> pow2 (- 6)" unfolding floor_p_values by (rule rnd_le_pow2) (simp_all add: pow2_def)
  then have "floor_p 4 < ALPHA" using ALPHA_bounds(1) by (simp add: pow2_def)
  ultimately have "n \<noteq> 2" "n \<noteq> 3" "\<not> 4 < n" using least(2) least(3) [of 4] by auto
  then have "n = 4" using least(1) by arith
  then show ?thesis using n by simp
qed

section \<open>Accounting\<close>

lemma compare_position_comparable:
  assumes "compare_position before after i = Inr e"
  shows "i < length (d_sizes before)" "i < length (durations_ms before)" "e_size e = d_sizes before ! i"
    "durations_ms before ! i = Some (before_ms e)" "VISIBILITY_FLOOR_MS \<le> before_ms e" "0 < after_ms e"
    "size_after e = (if i < length (d_sizes after) \<and> d_sizes after ! i \<noteq> d_sizes before ! i then Some (d_sizes after ! i) else None)"
  using assms by (auto simp: compare_position_def Let_def nth_or_def split: if_splits option.splits)

lemma comparable_positions_iff:
  "e \<in> set (fst (comparable_positions before after)) \<longleftrightarrow>
    (\<exists>i < max (length (d_sizes before)) (length (d_sizes after)). compare_position before after i = Inr e)"
  by (force simp: comparable_positions_def Let_def set_rights image_iff)

lemma comparable_length:
  "length (fst (comparable_positions before after)) + length (snd (comparable_positions before after))
    = max (length (d_sizes before)) (length (d_sizes after))"
  using split_length [of "map (compare_position before after) [0..<max (length (d_sizes before)) (length (d_sizes after))]"]
  by (simp add: comparable_positions_def Let_def)

lemma testable_positions_cases:
  assumes "testable_positions cdf before after alpha = Inr (survivors, excluded, min_n)"
  obtains tested where "min_testable_n alpha = Inr min_n" "survivors = rights tested"
    "rmap (test_position cdf) (filter (enough_runs min_n) (fst (comparable_positions before after))) = Inr tested"
    "length survivors + length excluded = max (length (d_sizes before)) (length (d_sizes after))"
proof -
  obtain tested where t: "min_testable_n alpha = Inr min_n" "survivors = rights tested"
    "rmap (test_position cdf) (filter (enough_runs min_n) (fst (comparable_positions before after))) = Inr tested"
    "excluded = snd (comparable_positions before after) @ map (\<lambda>e. excluded_as e (few_runs_reason min_n (length (b_sample e)) (length (a_sample e)) alpha))
       (filter (\<lambda>e. \<not> enough_runs min_n e) (fst (comparable_positions before after))) @ lefts tested"
    using assms by (auto simp: testable_positions_def Let_def rbind_eq_Inr split: prod.splits)
  moreover have "length survivors + length excluded = max (length (d_sizes before)) (length (d_sizes after))"
    using comparable_length [of before after] split_length [of tested] rmap_length [OF t(3)] t(2, 4)
      sum_length_filter_compl [of "enough_runs min_n" "fst (comparable_positions before after)"] by simp
  ultimately show thesis using that by blast
qed

lemma test_position_Inr: "test_position cdf e = Inr (Inr (e', m)) \<Longrightarrow> e' = e \<and> mann_whitney_u cdf (a_sample e) (b_sample e) ''less'' = Inr m
    \<and> (mwu_exact m \<or> NORMAL_APPROX_MIN_N \<le> length (b_sample e) \<and> NORMAL_APPROX_MIN_N \<le> length (a_sample e)
       \<or> \<not> ranges_overlap (a_sample e) (b_sample e))"
  by (auto simp: test_position_def rbind_eq_Inr Let_def split: if_splits)

lemma list_all2_right: "list_all2 P xs ys \<Longrightarrow> y \<in> set ys \<Longrightarrow> \<exists>x \<in> set xs. P x y"
  by (induction rule: list_all2_induct) auto

lemma survivor_tested:
  assumes "testable_positions cdf before after alpha = Inr (survivors, excluded, min_n)" "(e, m) \<in> set survivors"
  shows "e \<in> set (fst (comparable_positions before after))" "enough_runs min_n e" "test_position cdf e = Inr (Inr (e, m))"
proof -
  obtain tested where t: "survivors = rights tested"
    "rmap (test_position cdf) (filter (enough_runs min_n) (fst (comparable_positions before after))) = Inr tested"
    using assms(1) by (elim testable_positions_cases)
  then have "Inr (e, m) \<in> set tested" using assms(2) set_rights by metis
  then obtain e' where e': "e' \<in> set (filter (enough_runs min_n) (fst (comparable_positions before after)))" "test_position cdf e' = Inr (Inr (e, m))"
    using t(2) by (auto simp: rmap_list_all2 dest: list_all2_right)
  then have "e' = e" using test_position_Inr by blast
  then show "e \<in> set (fst (comparable_positions before after))" "enough_runs min_n e" "test_position cdf e = Inr (Inr (e, m))"
    using e' by auto
qed

lemma size_row_keeps: "size_row (e, m) = Inr r \<Longrightarrow> r_size r = e_size e \<and> r_p r = p_value m \<and> r_ratio r = round_digits 2 (ratio_of e)
    \<and> r_size_after r = size_after e \<and> r_exact r = mwu_exact m"
  by (auto simp: size_row_def rbind_eq_Inr)

lemma size_row_runs: "size_row (e, m) = Inr r \<Longrightarrow> n_before r = length (b_sample e) \<and> n_after r = length (a_sample e)"
  by (auto simp: size_row_def rbind_eq_Inr)

lemma decide_cases:
  assumes "decide cdf before after min_speedup = Inr (accepted, reason, sp, i)"
  obtains survivors min_n where "testable_positions cdf before after ALPHA = Inr (survivors, i_below_floor i, min_n)"
    "sp = speedup_of (map fst survivors)" "rmap size_row survivors = Inr (i_per_size i)"
    "(i_effective i, i_correction i) = fwer_correction (length survivors) ALPHA"
    "i_rejecting i = length (filter (rejects (i_effective i) min_speedup) (i_per_size i))"
    "(accepted, reason) = accept_decision sp min_speedup i"
proof -
  obtain survivors excluded min_n where t: "testable_positions cdf before after ALPHA = Inr (survivors, excluded, min_n)"
    and sp: "sp = speedup_of (map fst survivors)"
    and inf: "infer_speedup cdf before after ALPHA min_speedup (Some (survivors, excluded, min_n)) = Inr i"
    and acc: "(accepted, reason) = accept_decision sp min_speedup i"
    using assms unfolding decide_def rbind_eq_Inr speedup_def option.case sum.inject by (force split: prod.splits)
  obtain per_size where rows: "rmap size_row survivors = Inr per_size" using inf by (auto simp: infer_speedup_def rbind_eq_Inr)
  obtain ea co where "fwer_correction (length survivors) ALPHA = (ea, co)" by force
  then have "i_per_size i = per_size" "i_below_floor i = excluded" "i_effective i = ea" "i_correction i = co"
    "i_rejecting i = length (filter (rejects ea min_speedup) per_size)" "(ea, co) = fwer_correction (length survivors) ALPHA"
    using inf rows rmap_length [OF rows] by (auto simp: infer_speedup_def Let_def)
  then show thesis using that [of survivors min_n] t sp rows acc by simp
qed

text \<open>
  Every position that was measured is accounted for: the counted sizes and the excluded ones
  together are as many as the positions, the reported ratio and the significance test are built from
  the same sizes in the same order, with the same ratio at each, and every counted size had a baseline
  at or above the visibility floor, a candidate that took time, and at least four runs on each side.
\<close>

theorem positions_accounted:
  assumes "decide cdf before after min_speedup = Inr (accepted, reason, sp, i)"
  shows "length (i_per_size i) + length (i_below_floor i) = max (length (d_sizes before)) (length (d_sizes after))
    \<and> map (\<lambda>(n, b, a, ratio, n'). (n, ratio, n')) (sp_per_size sp) = map (\<lambda>r. (r_size r, r_ratio r, r_size_after r)) (i_per_size i)
    \<and> list_all (\<lambda>r. 4 \<le> n_before r \<and> 4 \<le> n_after r) (i_per_size i)
    \<and> list_all (\<lambda>(n, b, a, ratio, n'). VISIBILITY_FLOOR_MS \<le> b \<and> 0 < a \<and> ratio = round_digits 2 (rnd (b / a))) (sp_per_size sp)"
proof -
  obtain survivors min_n where t: "testable_positions cdf before after ALPHA = Inr (survivors, i_below_floor i, min_n)"
    and sp: "sp = speedup_of (map fst survivors)" and rows: "list_all2 (\<lambda>em r. size_row em = Inr r) survivors (i_per_size i)"
    using assms by (elim decide_cases) (auto simp: rmap_list_all2)
  have min_n: "min_n = 4" using t min_testable_ALPHA by (elim testable_positions_cases) simp
  have len: "length survivors + length (i_below_floor i) = max (length (d_sizes before)) (length (d_sizes after))"
    using t by (elim testable_positions_cases)
  have per: "sp_per_size sp = map (\<lambda>(e, m). (e_size e, before_ms e, after_ms e, round_digits 2 (ratio_of e), size_after e)) survivors"
    by (auto simp: sp speedup_of_def)
  have same: "map (\<lambda>x. (e_size (fst x), round_digits 2 (ratio_of (fst x)), size_after (fst x))) survivors = map (\<lambda>r. (r_size r, r_ratio r, r_size_after r)) (i_per_size i)"
    using rows by (induction rule: list_all2_induct) (auto dest: size_row_keeps)
  have runs: "4 \<le> length (b_sample e) \<and> 4 \<le> length (a_sample e)" if "(e, m) \<in> set survivors" for e m
    using survivor_tested(2) [OF t that] min_n by (auto simp: enough_runs_def)
  then have "list_all (\<lambda>r. 4 \<le> n_before r \<and> 4 \<le> n_after r) (i_per_size i)"
    using list_all2_right [OF rows] by (fastforce simp: list_all_iff dest!: size_row_runs)
  moreover have "VISIBILITY_FLOOR_MS \<le> before_ms e \<and> 0 < after_ms e" if "(e, m) \<in> set survivors" for e m
    using survivor_tested(1) [OF t that] compare_position_comparable(5, 6) by (fastforce simp: comparable_positions_iff)
  ultimately show ?thesis using len same list_all2_lengthD [OF rows]
    by (auto simp: per comp_def case_prod_beta list_all_iff ratio_of_def)
qed

section \<open>The direction of the alignment\<close>

lemma measure_sizes: "measure h language code timeout repeats deadline ns k = (rows, None, k') \<Longrightarrow> map t_n rows = ns"
  by (induction h language code timeout repeats deadline ns k arbitrary: rows k' rule: measure.induct)
     (auto simp: Let_def timing_row_def split: if_splits prod.splits option.splits)

definition put_sizes :: "(nat \<times> nat) list \<Rightarrow> nat list \<Rightarrow> nat list" where
  "put_sizes fs sizes = fold (\<lambda>(i, n) s. s[i := n]) fs sizes"

lemma put_fixes_sizes:
  "map t_n runs = map snd fs \<Longrightarrow> d_sizes (fold (\<lambda>((i, n), r) d. d\<lparr>d_sizes := (d_sizes d)[i := t_n r], durations_ms := (durations_ms d)[i := t_duration r],
     all_runs_ms := (all_runs_ms d)[i := t_all r]\<rparr>) (zip fs runs) data) = put_sizes fs (d_sizes data)"
  by (induction fs arbitrary: runs data) (auto simp: put_sizes_def map_eq_Cons_conv)

lemma put_sizes_nth: "distinct (map fst fs) \<Longrightarrow> j < length sizes \<Longrightarrow>
   put_sizes fs sizes ! j = (case map_of fs j of None \<Rightarrow> sizes ! j | Some n \<Rightarrow> n)"
  by (induction fs arbitrary: sizes) (auto simp: put_sizes_def nth_list_update image_iff split: option.splits dest!: map_of_SomeD)

lemma put_sizes_length [simp]: "length (put_sizes fs sizes) = length sizes"
  by (induction fs arbitrary: sizes) (auto simp: put_sizes_def)

lemma fixes_after_map:
  "map_of (fixes_after before after) i =
    (if i < length (d_sizes before) \<and> i < length (d_sizes after) \<and> d_sizes after ! i < d_sizes before ! i
        \<and> i < length (durations_ms before) \<and> (\<exists>bd. durations_ms before ! i = Some bd \<and> VISIBILITY_FLOOR_MS \<le> bd)
     then Some (d_sizes before ! i) else None)" (is "_ = (if ?C then _ else _)")
  and fixes_after_distinct: "distinct (map fst (fixes_after before after))"
proof -
  let ?z = "List.enumerate 0 (zip (d_sizes before) (d_sizes after))"
  have fst': "map fst (map (\<lambda>(i, bn, an). (i, bn)) xs) = map fst xs" for xs :: "(nat \<times> nat \<times> nat) list" by auto
  have "distinct (map fst (filter P ?z))" for P by (rule distinct_map_filter) simp
  then show d: "distinct (map fst (fixes_after before after))" unfolding fixes_after_def fst' .
  have mem: "(i, n) \<in> set (fixes_after before after) \<longleftrightarrow> ?C \<and> n = d_sizes before ! i" for n
    by (auto simp: fixes_after_def in_set_enumerate_eq image_iff split: option.splits)
  show "map_of (fixes_after before after) i = (if ?C then Some (d_sizes before ! i) else None)"
    using map_of_is_SomeI [OF d] mem by (cases ?C) (auto simp: map_of_eq_None_iff image_iff dest: map_of_SomeD)
qed

lemma align_sizes_cases:
  assumes "align_sizes h before after candidate language timeout deadline k = ((before', Inr after'), k')"
  shows "before' = before" "d_sizes after' = d_sizes after \<and> (d_sizes before = [] \<or> d_sizes after = [] \<or> d_sizes before = d_sizes after)
    \<or> d_sizes after' = put_sizes (fixes_after before after) (d_sizes after)"
proof -
  show "before' = before" using assms by (auto simp: align_sizes_def Let_def split: if_splits prod.splits)
  have "d_sizes after' = put_sizes (fixes_after before after) (d_sizes after)"
    if "remeasure_positions h after candidate language timeout (fixes_after before after) deadline k = (Inr after', k')"
    using that put_fixes_sizes measure_sizes
    by (fastforce simp: remeasure_positions_def split: prod.splits sum.splits option.splits)
  then show "d_sizes after' = d_sizes after \<and> (d_sizes before = [] \<or> d_sizes after = [] \<or> d_sizes before = d_sizes after)
    \<or> d_sizes after' = put_sizes (fixes_after before after) (d_sizes after)"
    using assms by (auto simp: align_sizes_def Let_def put_sizes_def split: if_splits prod.splits)
qed

text \<open>
  Alignment only ever makes the comparison harder for the candidate: it leaves the baseline as it
  was measured, and afterwards every comparable position pairs the baseline with a candidate that ran
  at the same size or, disclosed as such, at a larger one.
\<close>

theorem alignment_conservative:
  assumes "align_sizes h before after candidate language timeout deadline k = ((before', Inr after'), k')"
    and "e \<in> set (fst (comparable_positions before' after'))"
  shows "before' = before \<and> (case size_after e of None \<Rightarrow> True | Some an \<Rightarrow> e_size e < an)"
proof -
  note al = align_sizes_cases [OF assms(1)]
  obtain i where i: "compare_position before after' i = Inr e" using assms(2) al(1) by (auto simp: comparable_positions_iff)
  note c = compare_position_comparable [OF i]
  have "d_sizes before ! i < d_sizes after' ! i" if m: "i < length (d_sizes after')" "d_sizes after' ! i \<noteq> d_sizes before ! i"
    using al(2)
  proof
    assume "d_sizes after' = put_sizes (fixes_after before after) (d_sizes after)"
    then have "d_sizes after' ! i = (case map_of (fixes_after before after) i of None \<Rightarrow> d_sizes after ! i | Some n \<Rightarrow> n)"
      "i < length (d_sizes after)" using m put_sizes_nth [OF fixes_after_distinct] by auto
    then show ?thesis using m c(1, 2, 4, 5) by (auto simp: fixes_after_map split: if_splits)
  qed (use m c(1) in auto)
  then show ?thesis using al(1) c(3, 7) by (auto split: option.splits)
qed

section \<open>What an acceptance rests on\<close>

text \<open>
  A counted size is trustworthy when its baseline is visible, its candidate took time, both sides ran
  at least four times, and its p-value is exact, or rests on eight runs a side, or on samples that do
  not overlap. It speaks for the candidate at a level when its p-value is below the level and its own
  ratio is the required one.
\<close>

definition trustworthy :: "position \<Rightarrow> bool" where
  "trustworthy e \<longleftrightarrow> VISIBILITY_FLOOR_MS \<le> before_ms e \<and> 0 < after_ms e \<and> 4 \<le> length (b_sample e) \<and> 4 \<le> length (a_sample e)
     \<and> (distinct (a_sample e @ b_sample e) \<and> length (a_sample e) + length (b_sample e) \<le> EXACT_MAX_N
        \<or> 8 \<le> length (b_sample e) \<and> 8 \<le> length (a_sample e) \<or> \<not> ranges_overlap (a_sample e) (b_sample e))"

definition speaks_for :: "(rat \<Rightarrow> rat \<Rightarrow> rat) \<Rightarrow> rat \<Rightarrow> rat \<Rightarrow> position \<Rightarrow> bool" where
  "speaks_for cdf level min_speedup e \<longleftrightarrow>
     (case mann_whitney_u cdf (a_sample e) (b_sample e) ''less'' of Inl x \<Rightarrow> False | Inr m \<Rightarrow> p_value m < level)
     \<and> min_speedup \<le> round_digits 2 (rnd (before_ms e / after_ms e))"

definition enough_votes :: "(rat \<Rightarrow> rat \<Rightarrow> rat) \<Rightarrow> rat \<Rightarrow> position list \<Rightarrow> bool" where
  "enough_votes cdf min_speedup es \<longleftrightarrow> 2 \<le> length es
     \<and> (if length es \<le> 3 then list_all (speaks_for cdf ALPHA min_speedup) es
        else length es < 2 * length (filter (speaks_for cdf (rnd (ALPHA / of_nat (length es))) min_speedup) es))"

definition convincing :: "(rat \<Rightarrow> rat \<Rightarrow> rat) \<Rightarrow> rat \<Rightarrow> position list \<Rightarrow> bool" where
  "convincing cdf min_speedup es \<longleftrightarrow> 1 < min_speedup
     \<and> (let ratio = round_digits 2 (median (map (\<lambda>e. rnd (before_ms e / after_ms e)) es)) in 1 < ratio \<and> min_speedup \<le> ratio)
     \<and> enough_votes cdf min_speedup es"

lemma four_runs_test:
  assumes "4 \<le> length (b_sample e)" "4 \<le> length (a_sample e)"
  shows "\<exists>m. mann_whitney_u cdf (a_sample e) (b_sample e) ''less'' = Inr m
    \<and> (mwu_exact m \<longleftrightarrow> distinct (a_sample e @ b_sample e) \<and> length (a_sample e) + length (b_sample e) \<le> EXACT_MAX_N)
    \<and> mwu_n1 m = length (a_sample e) \<and> mwu_n2 m = length (b_sample e)"
proof -
  have "a_sample e \<noteq> []" "b_sample e \<noteq> []" using assms by auto
  then show ?thesis using one_sided_ok [of "''less''" cdf "a_sample e" "b_sample e"]
    by (auto simp: mann_whitney_u_run)
qed

lemma survivor_trustworthy:
  assumes t: "testable_positions cdf before after ALPHA = Inr (survivors, excluded, min_n)" and em: "(e, m) \<in> set survivors"
  shows "trustworthy e" "mann_whitney_u cdf (a_sample e) (b_sample e) ''less'' = Inr m"
proof -
  have "min_n = 4" using t min_testable_ALPHA by (elim testable_positions_cases) simp
  then have runs: "4 \<le> length (b_sample e)" "4 \<le> length (a_sample e)"
    using survivor_tested(2) [OF t em] by (auto simp: enough_runs_def)
  have "VISIBILITY_FLOOR_MS \<le> before_ms e \<and> 0 < after_ms e"
    using survivor_tested(1) [OF t em] compare_position_comparable(5, 6) by (fastforce simp: comparable_positions_iff)
  moreover note m = test_position_Inr [OF survivor_tested(3) [OF t em]]
  ultimately show "trustworthy e" "mann_whitney_u cdf (a_sample e) (b_sample e) ''less'' = Inr m"
    using runs four_runs_test [OF runs, of cdf] by (auto simp: trustworthy_def)
qed

lemma rejects_speaks:
  assumes "size_row (e, m) = Inr r" "mann_whitney_u cdf (a_sample e) (b_sample e) ''less'' = Inr m"
  shows "rejects level min_speedup r \<longleftrightarrow> speaks_for cdf level min_speedup e"
  using size_row_keeps [OF assms(1)] assms(2) by (simp add: rejects_def speaks_for_def ratio_of_def)

lemma rejecting_rows:
  assumes "list_all2 (\<lambda>em r. size_row em = Inr r) survivors rows"
    and "\<And>e m. (e, m) \<in> set survivors \<Longrightarrow> mann_whitney_u cdf (a_sample e) (b_sample e) ''less'' = Inr m"
  shows "length (filter (rejects level min_speedup) rows) = length (filter (speaks_for cdf level min_speedup) (map fst survivors))"
  using assms
proof (induction rule: list_all2_induct)
  case (Cons em ems r rs)
  then have "rejects level min_speedup r \<longleftrightarrow> speaks_for cdf level min_speedup (fst em)"
    by (cases em) (simp add: rejects_speaks)
  then show ?case using Cons by simp
qed simp

lemma votes_unanimous: "length (filter P xs) = length xs \<longleftrightarrow> list_all P xs"
  unfolding list_all_iff by (metis filter_True length_filter_less less_irrefl)

lemma fwer_enough_votes:
  assumes "(ea, co) = fwer_correction (length es) ALPHA" "n = length (filter (speaks_for cdf ea min_speedup) es)"
  shows "fwer_satisfied (length es) n (Some co) \<longleftrightarrow> enough_votes cdf min_speedup es"
  using assms by (auto simp: fwer_correction_def fwer_satisfied_def enough_votes_def votes_unanimous mult.commute split: if_splits)

lemma accept_iff:
  assumes "sp = speedup_of es" "length (i_per_size i) = length es"
    and "(i_effective i, i_correction i) = fwer_correction (length es) ALPHA"
    and "i_rejecting i = length (filter (speaks_for cdf (i_effective i) min_speedup) es)"
  shows "fst (accept_decision sp min_speedup i) \<longleftrightarrow> convincing cdf min_speedup es"
proof (cases "es = []")
  case False
  let ?r = "round_digits 2 (median (map ratio_of es))"
  have ratios: "map (\<lambda>e. rnd (before_ms e / after_ms e)) es = map ratio_of es" by (simp add: ratio_of_def)
  have "fst (accept_decision sp min_speedup i) \<longleftrightarrow>
    1 < min_speedup \<and> 1 < ?r \<and> min_speedup \<le> ?r \<and> fwer_satisfied (length (i_per_size i)) (i_rejecting i) (Some (i_correction i))"
    using False by (simp add: accept_decision_def assms(1) speedup_of_def not_le not_less)
  then show ?thesis using fwer_enough_votes [OF assms(3, 4)] by (simp add: convincing_def ratios assms(2) Let_def)
qed (simp add: assms(1) accept_decision_def speedup_of_def convincing_def enough_votes_def)

lemma decide_iff:
  assumes "decide cdf before after min_speedup = Inr (accepted, reason, sp, i)"
  obtains survivors excluded min_n where "testable_positions cdf before after ALPHA = Inr (survivors, excluded, min_n)"
    "sp = speedup_of (map fst survivors)" "accepted \<longleftrightarrow> convincing cdf min_speedup (map fst survivors)"
    "map r_size (i_per_size i) = map (e_size \<circ> fst) survivors"
proof -
  obtain survivors min_n where d: "testable_positions cdf before after ALPHA = Inr (survivors, i_below_floor i, min_n)"
    "sp = speedup_of (map fst survivors)" "rmap size_row survivors = Inr (i_per_size i)"
    "(i_effective i, i_correction i) = fwer_correction (length survivors) ALPHA"
    "i_rejecting i = length (filter (rejects (i_effective i) min_speedup) (i_per_size i))"
    "(accepted, reason) = accept_decision sp min_speedup i" using assms by (rule decide_cases)
  have rows: "list_all2 (\<lambda>em r. size_row em = Inr r) survivors (i_per_size i)" using d(3) by (simp add: rmap_list_all2)
  have "i_rejecting i = length (filter (speaks_for cdf (i_effective i) min_speedup) (map fst survivors))"
    unfolding d(5) by (rule rejecting_rows [OF rows]) (rule survivor_trustworthy(2) [OF d(1)])
  then have "fst (accept_decision sp min_speedup i) \<longleftrightarrow> convincing cdf min_speedup (map fst survivors)"
    using d(2, 4) list_all2_lengthD [OF rows] by (intro accept_iff) simp_all
  moreover have "map r_size (i_per_size i) = map (e_size \<circ> fst) survivors"
    using rows by (induction rule: list_all2_induct) (auto dest: size_row_keeps)
  ultimately show thesis using that d(1, 2) d(6) [symmetric] by simp
qed

lemma test_position_total: "enough_runs 4 e \<Longrightarrow> \<exists>t. test_position cdf e = Inr t"
proof -
  assume "enough_runs 4 e"
  then obtain m where "mann_whitney_u cdf (a_sample e) (b_sample e) ''less'' = Inr m"
    using four_runs_test [of e cdf] by (auto simp: enough_runs_def not_less)
  then show ?thesis by (simp add: test_position_def Let_def)
qed

lemma testable_positions_total: "\<exists>p. testable_positions cdf before after ALPHA = Inr p"
proof -
  obtain tested where "rmap (test_position cdf) (filter (enough_runs 4) (fst (comparable_positions before after))) = Inr tested"
    using rmap_total [of "filter (enough_runs 4) (fst (comparable_positions before after))" "test_position cdf"] test_position_total by auto
  then show ?thesis by (auto simp: testable_positions_def min_testable_ALPHA Let_def split: prod.splits)
qed

lemma size_row_total:
  assumes "testable_positions cdf before after ALPHA = Inr (survivors, excluded, min_n)" "em \<in> set survivors"
  shows "\<exists>r. size_row em = Inr r"
proof -
  obtain e m where em: "em = (e, m)" by force
  note t = survivor_trustworthy [OF assms(1) assms(2) [unfolded em]]
  then have "mwu_n1 m = length (a_sample e)" "mwu_n2 m = length (b_sample e)"
    using four_runs_test [of e cdf] by (auto simp: trustworthy_def)
  moreover have "a_sample e \<noteq> []" "b_sample e \<noteq> []" using t(1) by (auto simp: trustworthy_def)
  ultimately show ?thesis unfolding em by (simp add: size_row_def rank_biserial_correlation_def)
qed

lemma decide_total: "\<exists>accepted reason sp i. decide cdf before after min_speedup = Inr (accepted, reason, sp, i)"
proof -
  obtain survivors excluded min_n where t: "testable_positions cdf before after ALPHA = Inr (survivors, excluded, min_n)"
    using testable_positions_total by (metis prod_cases3)
  obtain rows where "rmap size_row survivors = Inr rows" using rmap_total [of survivors size_row] size_row_total [OF t] by blast
  then have "\<exists>i. infer_speedup cdf before after ALPHA min_speedup (Some (survivors, excluded, min_n)) = Inr i"
    by (simp add: infer_speedup_def Let_def split: prod.splits)
  then show ?thesis using t by (fastforce simp: decide_def speedup_def split: prod.splits)
qed


section \<open>The report and its grade\<close>

lemma graded_exists:
  "\<exists>r. graded result UNGRADED basis = Inr r \<and> dget r ''grade'' = PStr UNGRADED"
  "\<exists>r. graded result CROSS_CHECKED basis = Inr r \<and> dget r ''grade'' = PStr CROSS_CHECKED"
  using graded_total [OF known_grades(1)] graded_total [OF known_grades(2)] graded_ok(1) by blast+

lemma grade_not_accepted:
  "\<not> truthy (dget r ''accepted'') \<Longrightarrow> \<exists>g. grade_verify_optimization r language = Inr g \<and> dget g ''grade'' = PStr UNGRADED"
  unfolding grade_verify_optimization_def by (simp only: if_True not_False_eq_True) (rule graded_exists)

lemma grade_accepted:
  assumes "ver \<noteq> []" "sp_ratio sp = Some q" "1 < q"
  shows "\<exists>g. grade_verify_optimization (optimization_report (True, reason, sp, i) min_speedup ver language) lang = Inr g
    \<and> dget g ''grade'' = PStr CROSS_CHECKED"
proof -
  let ?r = "optimization_report (True, reason, sp, i) min_speedup ver language"
  have keys: "dget ?r ''accepted'' = PBool True" "dget ?r ''verification'' = PDict ver" "dget ?r ''speedup'' = PDict (speedup_dict sp)"
    "dget ?r ''inference'' = PDict (inference_dict i)"
    by (simp_all add: optimization_report_def)
  have ratio: "dget (speedup_dict sp) ''ratio'' = mk_float q" "exceeds_one (mk_float q)"
    "\<exists>n. py_len (py_or (dget (speedup_dict sp) ''per_size'') (PList [])) = Inr n"
    using assms by (auto simp: speedup_dict_def opt_value_def mk_float_def py_or_def py_len_def)
  have "\<exists>c. significance_clause ?r = Inr c"
    by (simp add: significance_clause_def keys as_dict_def inference_dict_def dindex_def py_or_def py_len_def Let_def)
  moreover have "speedup_dict sp \<noteq> []" by (simp add: speedup_dict_def)
  ultimately show ?thesis using ratio assms(1)
    by (auto simp: grade_verify_optimization_def keys py_or_def as_dict_def Let_def simp del: append.simps intro!: graded_exists)
qed

lemma not_accepted_reports [simp]: "\<not> truthy (dget (not_equivalent ver) ''accepted'')" "\<not> truthy (dget (failure msg None) ''accepted'')"
  by (simp_all add: not_equivalent_def failure_def)

lemma verify_translation_not_Nil: "verify_translation run p ins \<noteq> []"
  by (simp add: verify_translation_def Let_def)

lemma decide_accepted_ratio:
  assumes "decide cdf before after min_speedup = Inr (True, reason, sp, i)"
  shows "\<exists>q. sp_ratio sp = Some q \<and> 1 < q"
proof -
  obtain survivors excluded min_n where "testable_positions cdf before after ALPHA = Inr (survivors, excluded, min_n)"
    "sp = speedup_of (map fst survivors)" "True \<longleftrightarrow> convincing cdf min_speedup (map fst survivors)"
    "map r_size (i_per_size i) = map (e_size \<circ> fst) survivors"
    by (rule decide_iff [OF assms])
  moreover have "map (\<lambda>e. rnd (before_ms e / after_ms e)) es = map ratio_of es" for es by (simp add: ratio_of_def)
  ultimately show ?thesis by (auto simp: convincing_def enough_votes_def speedup_of_def Let_def)
qed

lemma phase_lists: "[] = [1..<Suc 0]" "[1] = [1..<Suc 1]" "[1, 2] = [1..<Suc 2]" "[1, 2, 3] = [1..<Suc 3]" "[1, 2, 3, 4] = [1..<Suc 4]"
  by (simp_all add: upt_rec)

definition rejected_run :: "nat list \<times> (exn + dict) \<Rightarrow> bool" where
  "rejected_run x \<longleftrightarrow> (\<exists>r j. x = ([1..<Suc j], Inr r) \<and> \<not> truthy (dget r ''accepted'') \<and> j \<le> 4)"

lemma rejected_runs:
  "rejected_run ([], Inr (not_equivalent ver))" "rejected_run ([1], Inr (failure msg None))"
  "rejected_run ([1, 2], Inr (failure msg None))" "rejected_run ([1, 2, 3], Inr (failure msg None))"
  unfolding rejected_run_def phase_lists using not_accepted_reports by (blast intro: order_refl le_numeral_extra | force)+

lemma verify_optimization_phases:
  assumes "l = (case canonical language of Some l \<Rightarrow> l | None \<Rightarrow> language)"
    "p = \<lparr>source_lang = l, source_code = original, target_lang = l, target_code = candidate, run_timeout = timeout\<rparr>"
    "ins = (case test_inputs of Some (i # is) \<Rightarrow> i # is | _ \<Rightarrow> DEFAULT_EDGE_INPUTS)"
    "ver = verify_translation (host_check h) p ins"
    and run: "run = verify_optimization h cdf original candidate language test_inputs sizes min_speedup timeout"
  shows "rejected_run run \<or> truthy (dget ver ''passed'')
    \<and> (\<exists>b a. run = ([1..<Suc 4], rbind (decide cdf b a min_speedup) (\<lambda>d. Inr (optimization_report d min_speedup ver l))))"
  unfolding run verify_optimization_def Let_def assms(1 - 3) [symmetric] assms(4) [symmetric] phase_lists(5) [symmetric]
  by (simp only: split: if_split prod.split sum.split) (use rejected_runs in blast)

text \<open>
  C38. \<open>verify_optimization\<close> always returns a report, its progress events are the phases one after the
  other up to the last that completed, and the report can be graded. It is accepted only after all four
  phases and on programs that agreed on some input and were refuted by none, and then it is graded
  cross-checked; every other report is ungraded.
\<close>

theorem verify_optimization_report:
  "\<exists>r j g. verify_optimization h cdf original candidate language test_inputs sizes min_speedup timeout = ([1..<Suc j], Inr r)
    \<and> grade_verify_optimization r lang = Inr g
    \<and> (let l = (case canonical language of Some l \<Rightarrow> l | None \<Rightarrow> language);
           p = \<lparr>source_lang = l, source_code = original, target_lang = l, target_code = candidate, run_timeout = timeout\<rparr>;
           ins = (case test_inputs of Some (i # is) \<Rightarrow> i # is | _ \<Rightarrow> DEFAULT_EDGE_INPUTS)
       in if truthy (dget r ''accepted'')
          then j = 4 \<and> agreeing (host_check h) p ins \<noteq> {} \<and> refuting (host_check h) p ins = {} \<and> dget g ''grade'' = PStr CROSS_CHECKED
          else j \<le> 4 \<and> dget g ''grade'' = PStr UNGRADED)"
proof -
  define l where "l = (case canonical language of Some l \<Rightarrow> l | None \<Rightarrow> language)"
  define p where "p = \<lparr>source_lang = l, source_code = original, target_lang = l, target_code = candidate, run_timeout = timeout\<rparr>"
  define ins where "ins = (case test_inputs of Some (i # is) \<Rightarrow> i # is | _ \<Rightarrow> DEFAULT_EDGE_INPUTS)"
  define ver where "ver = verify_translation (host_check h) p ins"
  let ?run = "verify_optimization h cdf original candidate language test_inputs sizes min_speedup timeout"
  let ?goal = "\<lambda>r j g. if truthy (dget r ''accepted'')
    then j = 4 \<and> agreeing (host_check h) p ins \<noteq> {} \<and> refuting (host_check h) p ins = {} \<and> dget g ''grade'' = PStr CROSS_CHECKED
    else j \<le> 4 \<and> dget g ''grade'' = PStr UNGRADED"
  have rejected: "\<exists>g. grade_verify_optimization r lang = Inr g \<and> ?goal r j g" if "\<not> truthy (dget r ''accepted'')" "j \<le> 4" for r j
    using grade_not_accepted [OF that(1), of lang] that by auto
  have "rejected_run ?run \<or> truthy (dget ver ''passed'')
    \<and> (\<exists>b a. ?run = ([1..<Suc 4], rbind (decide cdf b a min_speedup) (\<lambda>d. Inr (optimization_report d min_speedup ver l))))"
    by (rule verify_optimization_phases [OF l_def p_def ins_def ver_def refl])
  then consider (failed) r j where "?run = ([1..<Suc j], Inr r)" "\<not> truthy (dget r ''accepted'')" "j \<le> 4"
    | (decided) b a where "truthy (dget ver ''passed'')"
        "?run = ([1..<Suc 4], rbind (decide cdf b a min_speedup) (\<lambda>d. Inr (optimization_report d min_speedup ver l)))"
    unfolding rejected_run_def by blast
  then have "\<exists>r j g. ?run = ([1..<Suc j], Inr r) \<and> grade_verify_optimization r lang = Inr g \<and> ?goal r j g"
  proof cases
    case failed
    then show ?thesis using rejected by blast
  next
    case (decided b a)
    obtain accepted reason sp i where d: "decide cdf b a min_speedup = Inr (accepted, reason, sp, i)" using decide_total by blast
    let ?r = "optimization_report (accepted, reason, sp, i) min_speedup ver l"
    have run: "?run = ([1..<Suc 4], Inr ?r)" using decided(2) d by simp
    have acc: "truthy (dget ?r ''accepted'') \<longleftrightarrow> accepted" by (simp add: optimization_report_def)
    have ev: "agreeing (host_check h) p ins \<noteq> {} \<and> refuting (host_check h) p ins = {}"
      using decided(1) by (simp add: ver_def verify_translation_passed)
    obtain g where "grade_verify_optimization ?r lang = Inr g" "dget g ''grade'' = PStr (if accepted then CROSS_CHECKED else UNGRADED)"
    proof (cases accepted)
      case True
      then show thesis using that decide_accepted_ratio [of cdf b a min_speedup reason sp i] d grade_accepted [of ver sp _ reason i min_speedup l lang]
          verify_translation_not_Nil [of "host_check h" p ins] by (auto simp: ver_def)
    next
      case False
      then show thesis using that grade_not_accepted [of ?r lang] acc by auto
    qed
    then show ?thesis
      by (intro exI [of _ ?r] exI [of _ 4] exI [of _ g] conjI run) (use acc ev in simp_all)
  qed
  then show ?thesis by (simp only: Let_def l_def [symmetric] p_def [symmetric] ins_def [symmetric])
qed

section \<open>Witnesses\<close>

text \<open>A baseline that ran at 100 and a candidate measured at 10, on a host whose runs take 7 ms.\<close>

definition slow_side :: timed where
  "slow_side = \<lparr>d_sizes = [100], durations_ms = [Some 50], all_runs_ms = [[50, 51, 52, 53, 54]]\<rparr>"

definition fast_side :: timed where
  "fast_side = \<lparr>d_sizes = [10], durations_ms = [Some 6], all_runs_ms = [[6, 6, 6, 6, 6]]\<rparr>"

definition steady_host :: host where
  "steady_host = \<lparr>host_check = (\<lambda>k l c s t. []), host_run = (\<lambda>k l c s t. [(''ok'', PBool True), (''duration_ms'', PInt 7)]), host_clock = (\<lambda>k. 0)\<rparr>"

definition aligned_side :: timed where
  "aligned_side = \<lparr>d_sizes = [100], durations_ms = [Some 7], all_runs_ms = [[7, 7, 7, 7, 7]]\<rparr>"

definition paired :: position where
  "paired = \<lparr>e_size = 100, before_ms = 50, after_ms = 7, b_sample = [50, 51, 52, 53, 54], a_sample = [7, 7, 7, 7, 7], size_after = None\<rparr>"

lemma aligned: "align_sizes steady_host slow_side fast_side [] [] 10 None 0 = ((slow_side, Inr aligned_side), 5)"
  by code_simp

lemma paired_comparable: "paired \<in> set (fst (comparable_positions slow_side aligned_side))"
  by code_simp

theorem alignment_conservative_witness:
  "slow_side = slow_side \<and> (case size_after paired of None \<Rightarrow> True | Some an \<Rightarrow> e_size paired < an)"
  by (rule alignment_conservative [OF aligned paired_comparable])

theorem positions_accounted_witness:
  "\<exists>accepted reason sp i. decide (\<lambda>x v. 0) slow_side aligned_side (3 / 2) = Inr (accepted, reason, sp, i)
    \<and> length (i_per_size i) + length (i_below_floor i) = max (length (d_sizes slow_side)) (length (d_sizes aligned_side))"
proof -
  obtain accepted reason sp i where "decide (\<lambda>x v. 0) slow_side aligned_side (3 / 2) = Inr (accepted, reason, sp, i)" using decide_total by blast
  then show ?thesis using positions_accounted by blast
qed

end
