(* ===== verification/Dependencies.thy ===== *)
theory Dependencies
  imports Languages Providers Binary64
begin

text \<open>
  \<open>codecalc/dependencies.py\<close>: what a run declares to need, from the inline metadata block of its
  source and from the explicit argument, whether fetching is refused, and the installation of the
  declared packages in order. The TOML parser, \<open>packages.install\<close>, the clock and the size of a
  directory are arguments.
\<close>

section \<open>The inline metadata block\<close>

abbreviation newline :: char where "newline \<equiv> char_of (10 :: nat)"
abbreviation return :: char where "return \<equiv> char_of (13 :: nat)"

fun lf_lines :: "string \<Rightarrow> string \<Rightarrow> string list" where
  "lf_lines acc [] = [rev acc]"
| "lf_lines acc (c # cs) = (if c = newline then rev acc # lf_lines [] cs else lf_lines (c # acc) cs)"

definition type_char :: "char \<Rightarrow> bool" where
  "type_char c \<longleftrightarrow> (let n = of_char c :: nat in 48 \<le> n \<and> n \<le> 57 \<or> 65 \<le> n \<and> n \<le> 90 \<or> 97 \<le> n \<and> n \<le> 122 \<or> n = 45)"

text \<open>The opening line and the type it names; a comment line; the closing line.\<close>

definition block_type :: "string \<Rightarrow> string option" where
  "block_type l = (let t = drop 6 l in if take 6 l = ''# /// '' \<and> t \<noteq> [] \<and> list_all type_char t then Some t else None)"

definition comment_line :: "string \<Rightarrow> bool" where
  "comment_line l \<longleftrightarrow> l = ''#'' \<or> take 2 l = ''# ''"

definition CLOSER :: string where "CLOSER = ''# ///''"

text \<open>
  The matches of the pattern, in order, over the lines of the source: an opening line, then at least
  one comment line, then the last closing line of that run of comment lines (the repetition of the
  pattern is greedy). The search goes on after the closing line.
\<close>

definition last_closer :: "string list \<Rightarrow> nat option" where
  "last_closer run = (case filter (\<lambda>k. run ! k = CLOSER) [1..<length run] of [] \<Rightarrow> None | ks \<Rightarrow> Some (last ks))"

function pep723_blocks :: "string list \<Rightarrow> (string \<times> string list) list" where
  "pep723_blocks [] = []"
| "pep723_blocks (l # ls) =
    (let run = takeWhile comment_line ls in
     case (block_type l, last_closer run) of
       (Some t, Some k) \<Rightarrow> (t, take k run) # pep723_blocks (drop (k + 1) ls)
     | _ \<Rightarrow> pep723_blocks ls)"
  by pat_completeness auto
termination by (relation "measure length") auto

text \<open>\<open>text.splitlines(keepends=True)\<close>.\<close>

definition line_break :: "char \<Rightarrow> bool" where
  "line_break c \<longleftrightarrow> of_char c \<in> {10 :: nat, 11, 12, 13, 28, 29, 30, 133}"

fun splitlines_keep :: "string \<Rightarrow> string \<Rightarrow> string list" where
  "splitlines_keep acc [] = (if acc = [] then [] else [rev acc])"
| "splitlines_keep acc (c # cs) =
    (if c = return \<and> cs \<noteq> [] \<and> hd cs = newline then splitlines_keep (c # acc) cs
     else if line_break c then rev (c # acc) # splitlines_keep [] cs
     else splitlines_keep (c # acc) cs)"

definition uncomment :: "string \<Rightarrow> string" where
  "uncomment line = (if take 2 line = ''# '' then drop 2 line else drop 1 line)"

definition parse_pep723_block :: "(string \<Rightarrow> string + dict) \<Rightarrow> string \<Rightarrow> string + dict option" where
  "parse_pep723_block toml code =
    (case filter (\<lambda>(t, content). t = ''script'') (pep723_blocks (lf_lines [] code)) of
       [] \<Rightarrow> Inr None
     | [(t, content)] \<Rightarrow>
         (case toml (concat (map uncomment (splitlines_keep [] (concat (map (\<lambda>l. l @ [newline]) content))))) of
            Inl msg \<Rightarrow> Inl (''malformed PEP 723 script block: '' @ msg)
          | Inr d \<Rightarrow> Inr (Some d))
     | _ \<Rightarrow> Inl (''multiple '' @ repr_str ''# /// script'' @ '' PEP 723 blocks found; the specification requires at most one''))"

section \<open>Merging\<close>

definition name_stop :: "char \<Rightarrow> bool" where
  "name_stop c \<longleftrightarrow> c \<in> set ''[=<>!~,'' \<or> is_space c"

definition separator :: "char \<Rightarrow> bool" where
  "separator c \<longleftrightarrow> c \<in> set ''-_.''"

text \<open>\<open>re.sub(r"[-_.]+", "-", name)\<close>.\<close>

fun collapse :: "bool \<Rightarrow> string \<Rightarrow> string" where
  "collapse after [] = []"
| "collapse after (c # cs) = (if separator c then (if after then [] else ''-'') @ collapse True cs else c # collapse False cs)"

definition normalize_name :: "string \<Rightarrow> string" where
  "normalize_name spec = lower (collapse False (takeWhile (\<lambda>c. \<not> name_stop c) spec))"

definition merge_dependencies :: "string list \<Rightarrow> string list option \<Rightarrow> string list" where
  "merge_dependencies block_deps explicit_deps =
    (let put = (\<lambda>dep merged. AList.update (normalize_name dep) dep merged)
     in map snd (fold put (case explicit_deps of None \<Rightarrow> [] | Some ds \<Rightarrow> ds) (fold put block_deps [])))"

record resolution =
  res_specs :: "string list"
  res_error :: "dict option"
  res_implicit :: bool

text \<open>\<open>for dep in value\<close>, each as text: a list, but also a text by its characters or a table by its keys.\<close>

definition iterate :: "pyval \<Rightarrow> exn + string list" where
  "iterate v = (case v of PList xs \<Rightarrow> Inr (map py_str xs) | PStr s \<Rightarrow> Inr (map (\<lambda>c. [c]) s) | PDict d \<Rightarrow> Inr (map fst d)
     | PInt i \<Rightarrow> Inl (Exn TypeErr (repr_str ''int'' @ '' object is not iterable''))
     | PBool b \<Rightarrow> Inl (Exn TypeErr (repr_str ''bool'' @ '' object is not iterable''))
     | PNone \<Rightarrow> Inl (Exn TypeErr (repr_str ''NoneType'' @ '' object is not iterable''))
     | _ \<Rightarrow> Inl (Exn TypeErr (repr_str ''float'' @ '' object is not iterable'')))"

definition block_dependencies :: "dict option \<Rightarrow> exn + string list" where
  "block_dependencies block = (case block of None \<Rightarrow> Inr []
     | Some d \<Rightarrow> if truthy (dget d ''dependencies'') then iterate (dget d ''dependencies'') else Inr [])"

definition resolve :: "(string \<Rightarrow> string + dict) \<Rightarrow> string \<Rightarrow> string \<Rightarrow> string list option \<Rightarrow> exn + resolution" where
  "resolve toml language code deps =
    (let lang = (case canonical language of Some l \<Rightarrow> l | None \<Rightarrow> language);
         explicit = (case deps of None \<Rightarrow> [] | Some ds \<Rightarrow> ds)
     in if lang = ''python3''
        then case parse_pep723_block toml code of
            Inl msg \<Rightarrow> Inr \<lparr>res_specs = [], res_error = Some (error_result VALIDATION msg []), res_implicit = False\<rparr>
          | Inr block \<Rightarrow> rbind (block_dependencies block) (\<lambda>block_deps.
              Inr \<lparr>res_specs = merge_dependencies block_deps deps, res_error = None, res_implicit = (block_deps \<noteq> [] \<and> explicit = [])\<rparr>)
        else Inr \<lparr>res_specs = explicit, res_error = None, res_implicit = False\<rparr>)"

section \<open>Refusal\<close>

definition network_refused :: "bool \<Rightarrow> policy option \<Rightarrow> bool" where
  "network_refused nonet pol = (if nonet then True else case pol of None \<Rightarrow> False | Some p \<Rightarrow> NETWORK \<in> default_deny p \<or> strict p)"

definition refusal_result :: "bool \<Rightarrow> policy option \<Rightarrow> dict" where
  "refusal_result nonet pol = error_result PERMISSION_DENIED
     (if nonet then ''dependency install needs network egress, which this run does not have: no_net=True was requested; the fetch was not attempted''
      else ''dependency install needs network egress, which this run does not have: the active capability policy denies or strictly limits network; the fetch was not attempted'')
     [(''provider_error'', PStr CAPABILITY_NOT_REQUESTED), (''requested_capabilities'', PList [PStr NETWORK])]"

section \<open>Installation\<close>

abbreviation INSTALL_BUDGET :: rat where "INSTALL_BUDGET \<equiv> 120"

definition INSTALLER_NAMES :: "(string \<times> string) list" where
  "INSTALLER_NAMES = [(''python3'', ''uv''), (''node'', ''npm'')]"

record installer =
  inst_install :: "nat \<Rightarrow> audit_log \<Rightarrow> string \<Rightarrow> string \<Rightarrow> string option \<Rightarrow> string option \<Rightarrow> nat \<Rightarrow> dict \<times> audit_log"
  inst_clock :: "nat \<Rightarrow> rat"
  inst_size :: "nat \<Rightarrow> string \<Rightarrow> nat"
  inst_quota :: "nat \<Rightarrow> nat"

definition budget_failure :: "nat \<Rightarrow> nat \<Rightarrow> string \<Rightarrow> dict" where
  "budget_failure done all spec = error_result TIMEOUT
     (''dependency install budget of 120s exceeded after installing '' @ nat_str done @ '' of '' @ nat_str all
      @ '' dependencies; '' @ repr_str spec @ '' was not attempted'')
     [(''provider_error'', PStr ''dependency_install_budget_exceeded''), (''budget_seconds'', PInt 120)]"

definition quota_failure :: "nat \<Rightarrow> nat \<Rightarrow> string \<Rightarrow> dict" where
  "quota_failure used quota spec = error_result RESOURCE_EXHAUSTED
     (''the run'' @ [CHR 0x27] @ ''s dependency workdir reached '' @ nat_str used @ '' bytes after installing '' @ repr_str spec @ '', over the ''
      @ nat_str quota @ ''-byte per-run quota (CODECALC_SESSION_DISK_QUOTA_MB, shared with the session workspace cap)'')
     [(''provider_error'', PStr ''dependency_workdir_quota_exceeded''), (''quota_bytes'', PInt (int quota)), (''measured_bytes'', PInt (int used))]"

definition dependency_entry :: "string \<Rightarrow> string \<Rightarrow> string \<Rightarrow> nat \<Rightarrow> dict \<Rightarrow> dict" where
  "dependency_entry spec lang inst elapsed raw =
    [(''spec'', PStr spec), (''language'', PStr lang), (''ok'', PBool (truthy (dget raw ''ok''))), (''installer'', PStr inst),
     (''elapsed_ms'', PInt (int elapsed))]
    @ (if truthy (dget raw ''unenforced'') then [(''unenforced'', dget raw ''unenforced'')] else [])"

text \<open>
  The loop of \<open>install_dependencies\<close>, from the counter of calls \<open>k\<close> and with the entries so far:
  every iteration reads the clock (\<open>k\<close> and \<open>k + 1\<close>), installs (\<open>k + 2\<close>), reads the clock (\<open>k + 3\<close>)
  and, for a run of its own, the size and the quota (\<open>k + 4\<close>).
\<close>

fun install_loop :: "installer \<Rightarrow> string \<Rightarrow> nat \<Rightarrow> string option \<Rightarrow> string option \<Rightarrow> rat \<Rightarrow> string list \<Rightarrow> nat \<Rightarrow> dict list \<Rightarrow> audit_log
    \<Rightarrow> dict list \<times> dict option \<times> audit_log" where
  "install_loop ins lang all session_id workdir started [] k rows audit = (rows, None, audit)"
| "install_loop ins lang all session_id workdir started (spec # specs) k rows audit =
    (let remaining = rnd (INSTALL_BUDGET - rnd (inst_clock ins k - started)) in
     if remaining \<le> 0 then (rows, Some (budget_failure (length rows) all spec), audit)
     else
       let inst = (case map_of INSTALLER_NAMES lang of Some i \<Rightarrow> i | None \<Rightarrow> lang);
           dep_started = inst_clock ins (k + 1);
           (raw, audit') = inst_install ins (k + 2) audit lang spec session_id
              (if session_id = None \<or> session_id = Some [] then workdir else None) (max 1 (nat \<lfloor>remaining\<rfloor>));
           elapsed = nat \<lfloor>rnd (rnd (inst_clock ins (k + 3) - dep_started) * 1000)\<rfloor>;
           rows' = rows @ [dependency_entry spec lang inst elapsed raw]
       in if \<not> truthy (dget raw ''ok'') then (rows', Some raw, audit')
          else case (workdir, session_id) of
              (Some w, None) \<Rightarrow>
                let used = inst_size ins (k + 4) w; quota = inst_quota ins (k + 4)
                in if used > quota then (rows', Some (quota_failure used quota spec), audit')
                   else install_loop ins lang all session_id workdir started specs (k + 5) rows' audit'
            | _ \<Rightarrow> install_loop ins lang all session_id workdir started specs (k + 5) rows' audit')"

definition install_dependencies :: "installer \<Rightarrow> string \<Rightarrow> string list \<Rightarrow> string option \<Rightarrow> string option \<Rightarrow> nat \<Rightarrow> audit_log
    \<Rightarrow> dict list \<times> dict option \<times> audit_log" where
  "install_dependencies ins language specs session_id workdir k audit =
    (let lang = (case canonical language of Some l \<Rightarrow> l | None \<Rightarrow> language)
     in install_loop ins lang (length specs) session_id workdir (inst_clock ins k) specs (k + 1) [] audit)"

end
