(* ===== verification/Execution_Service.thy ===== *)
theory Execution_Service
  imports Dependencies
begin

text \<open>
  \<open>codecalc/execution_service.py\<close>, class \<open>ExecutionService\<close>: provider selection, the declared
  dependencies, the capability broker, the installation, the run itself, the removal of the directory
  the service made, and the receipt. What an operation does to the outside is the list of its effects,
  in order. The run supervisor is an interface here (its own theory models it), as are the session
  service, the installer and the TOML parser; the policy is read anew at every use, so that reads are
  numbered.
\<close>

section \<open>The service\<close>

datatype effect =
    MakeDir string
  | Install "string list" "string option"
  | Execute spec
  | StartRun spec
  | RemoveDir string

record managed_runs =
  m_start :: "spec \<Rightarrow> string \<Rightarrow> failure + string"
  m_wait :: "string \<Rightarrow> int \<Rightarrow> failure + dict"
  m_cleanup :: "string \<Rightarrow> failure option"

record service =
  svc_registry :: registry
  svc_explicit :: "policy option"
  svc_from_env :: bool
  svc_env :: "nat \<Rightarrow> string option"
  svc_emit :: "audit_log \<Rightarrow> string \<Rightarrow> dict \<Rightarrow> dict \<times> audit_log"
  svc_version :: string
  svc_host :: host
  svc_toml :: "string \<Rightarrow> string + dict"
  svc_installer :: installer
  svc_tempdir :: string
  svc_supervisor :: "managed_runs option"
  svc_stream :: "provider \<Rightarrow> spec \<Rightarrow> failure + dict"
  svc_session :: "string \<Rightarrow> spec \<Rightarrow> failure + dict"

definition current_policy :: "service \<Rightarrow> nat \<Rightarrow> policy option" where
  "current_policy svc k = (case svc_explicit svc of Some p \<Rightarrow> Some p
     | None \<Rightarrow> if \<not> svc_from_env svc then None else policy_from_env (svc_env svc k))"

abbreviation DEPENDENCY_INSTALL_IMPLICIT :: string where "DEPENDENCY_INSTALL_IMPLICIT \<equiv> ''dependency_install_implicit''"
abbreviation CLEANUP :: string where "CLEANUP \<equiv> ''cleanup''"

section \<open>Coded refusals\<close>

definition unknown_provider_result :: "failure \<Rightarrow> dict" where
  "unknown_provider_result e = (case e of
     UnknownProvider p available \<Rightarrow> error_result VALIDATION (failure_text e)
       [(''provider_error'', PStr ''unknown_provider''), (''requested_provider'', PStr p), (''available_providers'', PList (map PStr available))]
   | _ \<Rightarrow> error_result VALIDATION (failure_text e) [])"

definition unsupported_result :: "string \<Rightarrow> string \<Rightarrow> dict" where
  "unsupported_result pid cap = error_result VALIDATION (failure_text (UnsupportedCapability pid cap))
     [(''provider_error'', PStr ''unsupported_capability''), (''requested_provider'', PStr pid), (''capability'', PStr cap)]"

definition no_dependencies_result :: "string \<Rightarrow> dict" where
  "no_dependencies_result pid = error_result VALIDATION (''provider '' @ repr_str pid @ '' does not support per-run dependencies'')
     [(''provider_error'', PStr ''unsupported_capability''), (''requested_provider'', PStr pid), (''capability'', PStr ''dependencies'')]"

definition no_supervisor_result :: "string \<Rightarrow> dict" where
  "no_supervisor_result pid = error_result INTERNAL ''managed execution provider requires a run supervisor''
     [(''provider_error'', PStr ''run_supervisor_unavailable''), (''requested_provider'', PStr pid)]"

section \<open>Running\<close>

text \<open>What the innermost block gives: a result that is returned at once, or one that gets a receipt.\<close>

datatype ran = Early dict | Ran dict

definition run_managed :: "service \<Rightarrow> provider \<Rightarrow> spec \<Rightarrow> audit_log \<Rightarrow> (failure + ran) \<times> audit_log \<times> effect list" where
  "run_managed svc p rs audit =
    (case svc_supervisor svc of
       None \<Rightarrow> (Inr (Early (no_supervisor_result (provider_id p))), audit, [])
     | Some m \<Rightarrow>
         (case m_start m rs (provider_id p) of
            Inl e \<Rightarrow> (Inl e, audit, [StartRun rs])
          | Inr rid \<Rightarrow>
              let waited = m_wait m rid (spec_timeout rs + 10) in
              case m_cleanup m rid of
                None \<Rightarrow>
                  (map_sum id Ran waited,
                   snd (svc_emit svc audit CLEANUP [(''run_id'', PStr rid), (''decision'', PStr ''cleaned''), (''provider_id'', PStr (provider_id p))]),
                   [StartRun rs])
              | Some (ProviderOperationFailure q op) \<Rightarrow>
                  (map_sum id (\<lambda>d. Ran (dset ''cleanup_error'' (PStr (failure_text (ProviderOperationFailure q op))) d)) waited,
                   snd (svc_emit svc audit CLEANUP [(''run_id'', PStr rid), (''decision'', PStr ''cleanup_failed''),
                     (''reason'', PStr (failure_text (ProviderOperationFailure q op))), (''provider_id'', PStr (provider_id p))]),
                   [StartRun rs])
              | Some e \<Rightarrow> (Inl e, audit, [StartRun rs])))"

definition run_now :: "service \<Rightarrow> provider \<Rightarrow> spec \<Rightarrow> audit_log \<Rightarrow> (failure + ran) \<times> audit_log \<times> effect list" where
  "run_now svc p rs audit =
    (case capability p ''managed_runs'' of
       Inl e \<Rightarrow> (Inl e, audit, [])
     | Inr is_managed \<Rightarrow>
         if is_managed then run_managed svc p rs audit
         else (map_sum id Ran (execute_op p rs), audit, [Execute rs]))"

definition run_stream :: "service \<Rightarrow> provider \<Rightarrow> spec \<Rightarrow> audit_log \<Rightarrow> (failure + ran) \<times> audit_log \<times> effect list" where
  "run_stream svc p rs audit = (map_sum id Ran (svc_stream svc p rs), audit, [Execute rs])"

text \<open>After the run: an unsupported capability is a coded refusal, every other exception goes on, a result gets its receipt.\<close>

definition settle_run :: "service \<Rightarrow> spec \<Rightarrow> provider \<Rightarrow> decision \<Rightarrow> dict list option \<Rightarrow> failure + ran \<Rightarrow> failure + dict" where
  "settle_run svc sp p dec deps r =
    (case r of
       Inl (UnsupportedCapability pid cap) \<Rightarrow> Inr (stamp (svc_version svc) (unsupported_result pid cap))
     | Inl e \<Rightarrow> Inl e
     | Inr (Early d) \<Rightarrow> Inr (stamp (svc_version svc) d)
     | Inr (Ran d) \<Rightarrow>
         let d' = (case deps of None \<Rightarrow> d | Some rows \<Rightarrow> dset ''dependencies'' (PList (map PDict rows)) d)
         in rbind (attach_receipt (svc_host svc) sp p d' None (Some dec)) (\<lambda>x. Inr (stamp (svc_version svc) x)))"

definition implicit_event :: "string option \<Rightarrow> spec \<Rightarrow> nat \<Rightarrow> dict" where
  "implicit_event session_id sp n = (case session_id of None \<Rightarrow> [] | Some s \<Rightarrow> [(''session_id'', PStr s)])
     @ [(''decision'', PStr ''detected''), (''language'', PStr (spec_language sp)), (''dependency_count'', PInt (int n))]"

definition failed_install :: "service \<Rightarrow> dict list \<Rightarrow> dict \<Rightarrow> dict" where
  "failed_install svc rows f = stamp (svc_version svc) (dset ''dependencies'' (PList (map PDict rows)) f)"

text \<open>
  \<open>execute\<close> and \<open>execute_stream\<close> differ only in the innermost call, the argument \<open>runner\<close>.
\<close>

definition execute_with :: "(service \<Rightarrow> provider \<Rightarrow> spec \<Rightarrow> audit_log \<Rightarrow> (failure + ran) \<times> audit_log \<times> effect list)
    \<Rightarrow> service \<Rightarrow> spec \<Rightarrow> string option \<Rightarrow> string list option \<Rightarrow> audit_log \<Rightarrow> (failure + dict) \<times> audit_log \<times> effect list" where
  "execute_with runner svc sp pid deps audit =
    (case select (svc_registry svc) pid (Some sp) of
       Inl e \<Rightarrow> (Inr (stamp (svc_version svc) (unknown_provider_result e)), audit, [])
     | Inr p \<Rightarrow>
    (case resolve (svc_toml svc) (spec_language sp) (spec_code sp) deps of
       Inl x \<Rightarrow> (Inl (Raised x), audit, [])
     | Inr res \<Rightarrow>
    (case res_error res of
       Some d \<Rightarrow> (Inr (stamp (svc_version svc) d), audit, [])
     | None \<Rightarrow>
         let specs = res_specs res;
             audit1 = (if specs \<noteq> [] \<and> res_implicit res
                       then snd (svc_emit svc audit DEPENDENCY_INSTALL_IMPLICIT (implicit_event None sp (length specs))) else audit);
             b = broker_run (svc_version svc) (svc_emit svc) sp (provider_id p) (describe p) (current_policy svc 0) None audit1
         in case rejection b of
              Some r \<Rightarrow> (Inr r, run_audit b, [])
            | None \<Rightarrow>
                if specs = [] then
                  (case runner svc p (run_spec b) (run_audit b) of
                     (r, a, eff) \<Rightarrow> (settle_run svc sp p (run_decision b) None r, a, eff))
                else if provider_id p \<noteq> ''local''
                then (Inr (stamp (svc_version svc) (no_dependencies_result (provider_id p))), run_audit b, [])
                else if network_refused (no_net sp) (current_policy svc 1)
                then (Inr (stamp (svc_version svc) (refusal_result (no_net sp) (current_policy svc 1))), run_audit b, [])
                else let w = svc_tempdir svc in
                  (case install_dependencies (svc_installer svc) (spec_language sp) specs None (Some w) 0 (run_audit b) of
                     (rows, Some f, a) \<Rightarrow> (Inr (failed_install svc rows f), a, [MakeDir w, Install specs (Some w), RemoveDir w])
                   | (rows, None, a) \<Rightarrow>
                       (case runner svc p ((run_spec b)\<lparr>spec_workdir := Some w\<rparr>) a of
                          (r, a', eff) \<Rightarrow> (settle_run svc sp p (run_decision b) (Some rows) r, a',
                             [MakeDir w, Install specs (Some w)] @ eff @ [RemoveDir w]))))))"

definition execute :: "service \<Rightarrow> spec \<Rightarrow> string option \<Rightarrow> string list option \<Rightarrow> audit_log \<Rightarrow> (failure + dict) \<times> audit_log \<times> effect list" where
  "execute = execute_with run_now"

definition execute_stream :: "service \<Rightarrow> spec \<Rightarrow> string option \<Rightarrow> string list option \<Rightarrow> audit_log \<Rightarrow> (failure + dict) \<times> audit_log \<times> effect list" where
  "execute_stream = execute_with run_stream"

definition execute_session :: "service \<Rightarrow> string \<Rightarrow> spec \<Rightarrow> string option \<Rightarrow> string list option \<Rightarrow> audit_log
    \<Rightarrow> (failure + dict) \<times> audit_log \<times> effect list" where
  "execute_session svc session_id sp pid deps audit =
    (case select (svc_registry svc) pid (Some sp) of
       Inl e \<Rightarrow> (Inr (stamp (svc_version svc) (unknown_provider_result e)), audit, [])
     | Inr p \<Rightarrow>
    (if provider_id p \<noteq> ''local'' then (Inr (stamp (svc_version svc) (unsupported_result (provider_id p) ''sessions'')), audit, [])
     else case resolve (svc_toml svc) (spec_language sp) (spec_code sp) deps of
       Inl x \<Rightarrow> (Inl (Raised x), audit, [])
     | Inr res \<Rightarrow>
    (case res_error res of
       Some d \<Rightarrow> (Inr (stamp (svc_version svc) d), audit, [])
     | None \<Rightarrow>
         let specs = res_specs res;
             audit1 = (if specs \<noteq> [] \<and> res_implicit res
                       then snd (svc_emit svc audit DEPENDENCY_INSTALL_IMPLICIT (implicit_event (Some session_id) sp (length specs))) else audit);
             b = broker_run (svc_version svc) (svc_emit svc) sp (provider_id p) (describe p) (current_policy svc 0) (Some session_id) audit1;
             go = (\<lambda>rows a. rbind (svc_session svc session_id (run_spec b)) (\<lambda>d.
                     let d' = (case rows of None \<Rightarrow> d | Some rs \<Rightarrow> dset ''dependencies'' (PList (map PDict rs)) d)
                     in rbind (attach_receipt (svc_host svc) sp p d' (Some session_id) (Some (run_decision b))) (\<lambda>x. Inr (stamp (svc_version svc) x))))
         in case rejection b of
              Some r \<Rightarrow> (Inr r, run_audit b, [])
            | None \<Rightarrow>
                if specs = [] then (go None (run_audit b), run_audit b, [Execute (run_spec b)])
                else if network_refused (no_net sp) (current_policy svc 1)
                then (Inr (stamp (svc_version svc) (refusal_result (no_net sp) (current_policy svc 1))), run_audit b, [])
                else
                  (case install_dependencies (svc_installer svc) (spec_language sp) specs (Some session_id) None 0 (run_audit b) of
                     (rows, Some f, a) \<Rightarrow> (Inr (failed_install svc rows f), a, [Install specs None])
                   | (rows, None, a) \<Rightarrow> (go (Some rows) a, a, [Install specs None, Execute (run_spec b)])))))"

section \<open>Two providers\<close>

definition VERIFICATION_FIELDS :: "string list" where
  "VERIFICATION_FIELDS = [''ok'', ''verdict'', ''stdout'', ''stderr'', ''exit_code'']"

text \<open>\<open>a == b\<close>: numbers by value, \<open>True\<close> being 1; everything else by structure.\<close>

definition number :: "pyval \<Rightarrow> rat option" where
  "number v = (case v of PBool b \<Rightarrow> Some (if b then 1 else 0) | PInt i \<Rightarrow> Some (of_int i) | PFloat q r \<Rightarrow> Some q | _ \<Rightarrow> None)"

definition py_equal :: "pyval \<Rightarrow> pyval \<Rightarrow> bool" where
  "py_equal v w = (case (number v, number w) of (Some a, Some b) \<Rightarrow> a = b | _ \<Rightarrow> v = w)"

definition verify_across_providers :: "service \<Rightarrow> spec \<Rightarrow> string \<Rightarrow> string \<Rightarrow> audit_log \<Rightarrow> (failure + dict) \<times> audit_log \<times> effect list" where
  "verify_across_providers svc sp p1 p2 audit =
    (case execute svc sp (Some p1) None audit of
       (Inl e, a, eff) \<Rightarrow> (Inl e, a, eff)
     | (Inr r1, a1, eff1) \<Rightarrow>
         (case execute svc sp (Some p2) None a1 of
            (Inl e, a2, eff2) \<Rightarrow> (Inl e, a2, eff1 @ eff2)
          | (Inr r2, a2, eff2) \<Rightarrow>
              let comparison = map (\<lambda>f. (f, py_equal (dget r1 f) (dget r2 f))) VERIFICATION_FIELDS;
                  agreement = list_all snd comparison
              in (Inr (stamp (svc_version svc)
                    [(''ok'', PBool (agreement \<and> dget r1 ''ok'' = PBool True \<and> dget r2 ''ok'' = PBool True)),
                     (''agreement'', PBool agreement),
                     (''comparison'', PDict (map (\<lambda>(f, e). (f, PBool e)) comparison)),
                     (''results'', PList [PDict r1, PDict r2])]), a2, eff1 @ eff2)))"

end
