(* ===== verification/Refusals.thy ===== *)
theory Refusals
  imports Guarded
begin

text \<open>
  The shape every refusal of the services has: \<open>ok\<close> is \<open>False\<close> and the code is one of the taxonomy.
  A refusal may carry its own remedy.
\<close>

definition coded_refusal :: "dict \<Rightarrow> bool" where
  "coded_refusal d \<longleftrightarrow> dget d ''ok'' = PBool False \<and> (\<exists>c \<in> set ALL_CODES. dget d ''code'' = PStr c)"

lemma error_result_code:
  assumes "code \<in> set ALL_CODES" "fst ` set extra \<inter> {''ok'', ''code''} = {}"
  shows "dget (error_result code m extra) ''ok'' = PBool False" "dget (error_result code m extra) ''code'' = PStr code"
proof -
  have "''ok'' \<notin> fst ` set extra" "''code'' \<notin> fst ` set extra" using assms(2) by blast+
  moreover have "List.member ALL_CODES code" using assms(1) by simp
  ultimately show "dget (error_result code m extra) ''ok'' = PBool False" "dget (error_result code m extra) ''code'' = PStr code"
    by (simp_all add: error_result_def dget_dmerge_new)
qed

lemma coded_error: "code \<in> set ALL_CODES \<Longrightarrow> fst ` set extra \<inter> {''ok'', ''code''} = {} \<Longrightarrow> coded_refusal (error_result code m extra)"
  using error_result_code [of code extra m] by (auto simp: coded_refusal_def)

lemma coded_plain [simp]: "code \<in> set ALL_CODES \<Longrightarrow> coded_refusal (error_result code m [])"
  by (rule coded_error) auto

end
