(* ===== verification/Service_Claims.thy ===== *)
theory Service_Claims
  imports Execution_Service Refusals
begin

text \<open>
  What the execution service promises: what a request may do to the outside and in which order, what
  its answer is, how declared dependencies are merged, and how their installation stops.
\<close>

section \<open>Coded refusals\<close>

lemma coded_stamp [simp]: "coded_refusal (stamp v d) \<longleftrightarrow> coded_refusal d"
  by (simp add: coded_refusal_def stamp_def)

lemma stamped [simp]: "has_key (stamp v d) ''contract_version''"
  by (simp add: stamp_def)

lemma coded_refusals:
  "coded_refusal (unknown_provider_result e)" "coded_refusal (unsupported_result pid cap)" "coded_refusal (no_dependencies_result pid)"
  "coded_refusal (no_supervisor_result pid)" "coded_refusal (refusal_result nonet pol)" "coded_refusal (rejection_result d (Some pid))"
  "coded_refusal (error_result VALIDATION m [])" "coded_refusal (budget_failure i n s)" "coded_refusal (quota_failure u q s)"
  unfolding unknown_provider_result_def unsupported_result_def no_dependencies_result_def no_supervisor_result_def refusal_result_def
    rejection_result_def budget_failure_def quota_failure_def
  by (auto simp del: append.simps intro!: coded_error simp: ALL_CODES_def split: failure.splits)

lemma broker_rejection: "rejection (broker_run v em sp pid desc pol sid a) = Some d \<Longrightarrow> d = stamp v (rejection_result (decide sp desc pol) (Some pid))"
  by (auto simp: broker_run_def Let_def split: if_splits)

lemma resolve_error: "resolve toml language code deps = Inr res \<Longrightarrow> res_error res = Some d \<Longrightarrow> \<exists>m. d = error_result VALIDATION m []"
  by (auto simp: resolve_def Let_def rbind_eq_Inr split: if_splits sum.splits)

section \<open>The innermost call\<close>

text \<open>What one request may have done, from the outside: nothing, a run, or a run within its installation.\<close>

definition plain_effects :: "service \<Rightarrow> spec \<Rightarrow> provider \<Rightarrow> effect list \<Rightarrow> bool" where
  "plain_effects svc sp p eff \<longleftrightarrow>
    (let rs = enforced_spec sp (decide sp (describe p) (current_policy svc 0)) in eff \<in> {[], [Execute rs], [StartRun rs]})"

definition install_effects :: "service \<Rightarrow> spec \<Rightarrow> provider \<Rightarrow> effect list \<Rightarrow> bool" where
  "install_effects svc sp p eff \<longleftrightarrow>
    (let w = svc_tempdir svc; rs = (enforced_spec sp (decide sp (describe p) (current_policy svc 0)))\<lparr>spec_workdir := Some w\<rparr> in
     provider_id p = ''local'' \<and> \<not> network_refused (no_net sp) (current_policy svc 1)
     \<and> (\<exists>specs inner. specs \<noteq> [] \<and> inner \<in> {[], [Execute rs], [StartRun rs]}
         \<and> eff = [MakeDir w, Install specs (Some w)] @ inner @ [RemoveDir w]))"

definition service_effects :: "service \<Rightarrow> spec \<Rightarrow> string option \<Rightarrow> effect list \<Rightarrow> bool" where
  "service_effects svc sp pid eff \<longleftrightarrow> eff = []
     \<or> (\<exists>p. select (svc_registry svc) pid (Some sp) = Inr p \<and> \<not> rejected (decide sp (describe p) (current_policy svc 0))
          \<and> (plain_effects svc sp p eff \<or> install_effects svc sp p eff))"

lemma broker_run_fields:
  "rejection (broker_run v em sp pid desc pol sid a) = None \<Longrightarrow> \<not> rejected (decide sp desc pol)"
  "rejection (broker_run v em sp pid desc pol sid a) = None \<Longrightarrow> run_spec (broker_run v em sp pid desc pol sid a) = enforced_spec sp (decide sp desc pol)"
  "run_decision (broker_run v em sp pid desc pol sid a) = decide sp desc pol"
  by (auto simp: broker_run_def Let_def split: if_splits)

fun run_of :: "effect \<Rightarrow> spec option" where
  "run_of (Execute rs) = Some rs"
| "run_of (StartRun rs) = Some rs"
| "run_of e = None"

lemma attach_receipt_raises: "attach_receipt h s p result sid dec = Inl e \<Longrightarrow> e \<noteq> UnsupportedCapability q cap"
  by (auto simp: attach_receipt_def execution_receipt_def descriptor_field_def spec_hash_of_def rbind_eq_Inl split: option.splits sum.splits)

lemma settle_run_raises: "settle_run svc sp p d rows q' = Inl e \<Longrightarrow> e \<noteq> UnsupportedCapability q cap"
  by (auto simp: settle_run_def rbind_eq_Inl Let_def dest: attach_receipt_raises split: sum.splits failure.splits ran.splits)

text \<open>
  What the service relies on of the innermost call, whether it executes, starts a managed run or
  streams: it runs at most the specification it was given, once, and makes no directory and installs
  nothing.
\<close>

locale spec_runner =
  fixes runner :: "service \<Rightarrow> provider \<Rightarrow> spec \<Rightarrow> audit_log \<Rightarrow> (failure + ran) \<times> audit_log \<times> effect list"
  assumes runs_given: "runner svc p rs audit = (r, audit', eff) \<Longrightarrow> eff \<in> {[], [Execute rs], [StartRun rs]}"
    and result_ran: "runner svc p rs audit = (Inr (Ran d), audit', eff) \<Longrightarrow> eff \<noteq> []"
    and early_coded: "runner svc p rs audit = (Inr (Early d), audit', eff) \<Longrightarrow> d = no_supervisor_result (provider_id p)"
begin

text \<open>The ways a request can end.\<close>

lemma execute_cases:
  assumes "execute_with runner svc sp pid deps audit = (r, audit', eff)"
  obtains
    (refused) d where "r = Inr (stamp (svc_version svc) d)" "coded_refusal d" "eff = []"
  | (raised) x where "resolve (svc_toml svc) (spec_language sp) (spec_code sp) deps = Inl x" "r = Inl (Raised x)" "eff = []"
  | (plain) p d a q where "select (svc_registry svc) pid (Some sp) = Inr p" "d = decide sp (describe p) (current_policy svc 0)" "\<not> rejected d"
      "runner svc p (enforced_spec sp d) a = (q, audit', eff)" "r = settle_run svc sp p d None q"
  | (failed) p d specs rows f where "select (svc_registry svc) pid (Some sp) = Inr p" "d = decide sp (describe p) (current_policy svc 0)" "\<not> rejected d"
      "specs \<noteq> []" "provider_id p = ''local''" "\<not> network_refused (no_net sp) (current_policy svc 1)" "r = Inr (failed_install svc rows f)"
      "eff = [MakeDir (svc_tempdir svc), Install specs (Some (svc_tempdir svc)), RemoveDir (svc_tempdir svc)]"
  | (installed) p d specs rows a q inner where "select (svc_registry svc) pid (Some sp) = Inr p" "d = decide sp (describe p) (current_policy svc 0)" "\<not> rejected d"
      "specs \<noteq> []" "provider_id p = ''local''" "\<not> network_refused (no_net sp) (current_policy svc 1)"
      "runner svc p ((enforced_spec sp d)\<lparr>spec_workdir := Some (svc_tempdir svc)\<rparr>) a = (q, audit', inner)" "r = settle_run svc sp p d (Some rows) q"
      "eff = [MakeDir (svc_tempdir svc), Install specs (Some (svc_tempdir svc))] @ inner @ [RemoveDir (svc_tempdir svc)]"
proof (cases "select (svc_registry svc) pid (Some sp)")
  case (Inl e)
  then show thesis using refused assms coded_refusals(1) by (auto simp: execute_with_def)
next
  case p: (Inr p)
  show thesis
  proof (cases "resolve (svc_toml svc) (spec_language sp) (spec_code sp) deps")
    case (Inl x)
    then show thesis using raised assms p by (auto simp: execute_with_def)
  next
    case res: (Inr res)
    show thesis
    proof (cases "res_error res")
      case (Some d)
      then have "coded_refusal d" using resolve_error [OF res] coded_refusals(7) by blast
      then show thesis using refused assms p res Some by (auto simp: execute_with_def)
    next
      case None
      define a1 where "a1 = (if res_specs res \<noteq> [] \<and> res_implicit res
        then snd (svc_emit svc audit DEPENDENCY_INSTALL_IMPLICIT (implicit_event None sp (length (res_specs res)))) else audit)"
      define b where "b = broker_run (svc_version svc) (svc_emit svc) sp (provider_id p) (describe p) (current_policy svc 0) None a1"
      note ex = assms [unfolded execute_with_def Let_def p res None sum.case option.case, folded a1_def, folded b_def]
      show thesis
      proof (cases "rejection b")
        case (Some d)
        then show thesis using refused ex broker_rejection [OF Some [unfolded b_def]] coded_refusals(6) by auto
      next
        case rej: None
        have bf: "\<not> rejected (decide sp (describe p) (current_policy svc 0))"
          "run_spec b = enforced_spec sp (decide sp (describe p) (current_policy svc 0))"
          "run_decision b = decide sp (describe p) (current_policy svc 0)"
          using broker_run_fields(1, 2) [OF rej [unfolded b_def]] by (simp_all add: b_def broker_run_fields(3))
        show thesis
        proof (cases "res_specs res = []")
          case True
          obtain q a' inner where q: "runner svc p (run_spec b) (run_audit b) = (q, a', inner)" by (metis prod_cases3)
          then have "audit' = a'" "eff = inner" "r = settle_run svc sp p (run_decision b) None q" using ex rej True by auto
          then show thesis using plain [OF p refl bf(1)] q bf(2, 3) by simp
        next
          case specs: False
          let ?w = "svc_tempdir svc"
          consider "provider_id p \<noteq> ''local''" | "provider_id p = ''local''" "network_refused (no_net sp) (current_policy svc 1)"
            | "provider_id p = ''local''" "\<not> network_refused (no_net sp) (current_policy svc 1)" by blast
          then show thesis
          proof cases
            case 3
            obtain rows f a where ins: "install_dependencies (svc_installer svc) (spec_language sp) (res_specs res) None (Some ?w) 0 (run_audit b) = (rows, f, a)"
              by (metis prod_cases3)
            show thesis
            proof (cases f)
              case None
              obtain q a' inner where q: "runner svc p ((run_spec b)\<lparr>spec_workdir := Some ?w\<rparr>) a = (q, a', inner)" by (metis prod_cases3)
              then show thesis using installed [OF p refl bf(1) specs 3] ex rej specs 3 ins None bf(2, 3) by auto
            next
              case (Some d)
              then show thesis using failed [OF p refl bf(1) specs 3] ex rej specs 3 ins by auto
            qed
          qed (use refused ex rej specs coded_refusals(3, 5) in auto)
        qed
      qed
    qed
  qed
qed

lemma execute_shape:
  assumes "execute_with runner svc sp pid deps audit = (r, audit', eff)"
  shows "service_effects svc sp pid eff"
  using assms
proof (cases rule: execute_cases)
  case (plain p d a q)
  then show ?thesis using runs_given [OF plain(4)] by (auto simp: service_effects_def plain_effects_def)
next
  case (failed p d specs rows f)
  then have "install_effects svc sp p eff" by (force simp: install_effects_def Let_def)
  then show ?thesis using failed by (auto simp: service_effects_def)
next
  case (installed p d specs rows a q inner)
  then have "install_effects svc sp p eff" using runs_given [OF installed(7)] by (auto simp: install_effects_def Let_def)
  then show ?thesis using installed by (auto simp: service_effects_def)
qed (simp_all add: service_effects_def)

text \<open>An answer carries a receipt for something that ran, or is coded, or is the installer's own.\<close>

lemma settle_run_answer:
  assumes "runner svc p rs a = (q, audit', inner)" "settle_run svc sp p d rows q = Inr x"
  shows "has_key x ''contract_version'' \<and> (coded_refusal x
    \<or> inner \<noteq> [] \<and> (\<exists>result y. attach_receipt (svc_host svc) sp p result None (Some d) = Inr y \<and> x = stamp (svc_version svc) y))"
proof (cases q)
  case (Inl e)
  then show ?thesis using assms(2) coded_refusals(2) by (cases e) (auto simp: settle_run_def)
next
  case q: (Inr o')
  show ?thesis
  proof (cases o')
    case (Early y)
    then have "coded_refusal y" using assms(1) q early_coded coded_refusals(4) by metis
    then show ?thesis using assms(2) q Early by (auto simp: settle_run_def)
  next
    case (Ran y)
    then have "inner \<noteq> []" using assms(1) q result_ran by blast
    then show ?thesis using assms(2) q Ran by (auto simp: settle_run_def rbind_eq_Inr Let_def)
  qed
qed

lemma execute_answer:
  assumes "execute_with runner svc sp pid deps audit = (Inr x, audit', eff)"
  shows "has_key x ''contract_version'' \<and> (coded_refusal x
    \<or> (\<exists>rows f specs w. x = failed_install svc rows f \<and> Install specs w \<in> set eff \<and> list_all (\<lambda>e. run_of e = None) eff)
    \<or> (\<exists>e \<in> set eff. run_of e \<noteq> None) \<and> (\<exists>p d result y. select (svc_registry svc) pid (Some sp) = Inr p
        \<and> d = decide sp (describe p) (current_policy svc 0)
        \<and> attach_receipt (svc_host svc) sp p result None (Some d) = Inr y \<and> x = stamp (svc_version svc) y))"
  using assms
proof (cases rule: execute_cases)
  case (plain p d a q)
  then show ?thesis using settle_run_answer [OF plain(4) plain(5) [symmetric]] runs_given [OF plain(4)] by auto
next
  case (failed p d specs rows f)
  then show ?thesis by (auto simp: failed_install_def)
next
  case (installed p d specs rows a q inner)
  then show ?thesis using settle_run_answer [OF installed(7) installed(8) [symmetric]] runs_given [OF installed(7)] by auto
qed auto

lemma execute_raises:
  assumes "execute_with runner svc sp pid deps audit = (Inl e, audit', eff)"
  shows "e \<noteq> UnsupportedCapability q cap"
  using assms
proof (cases rule: execute_cases)
  case (plain p d a q')
  then show ?thesis using settle_run_raises by metis
next
  case (installed p d specs rows a q' inner)
  then show ?thesis using settle_run_raises by metis
qed auto

end

lemma run_managed_effects: "run_managed svc p rs audit = (r, audit', eff) \<Longrightarrow> eff \<in> {[], [StartRun rs]}"
  by (auto simp: run_managed_def Let_def split: option.splits sum.splits failure.splits)

interpretation now: spec_runner run_now
proof
  fix svc p rs audit r audit' eff d
  show "eff \<in> {[], [Execute rs], [StartRun rs]}" if "run_now svc p rs audit = (r, audit', eff)"
    using that run_managed_effects by (fastforce simp: run_now_def split: sum.splits if_splits)
  show "eff \<noteq> []" if "run_now svc p rs audit = (Inr (Ran d), audit', eff)"
    using that by (auto simp: run_now_def run_managed_def Let_def split: sum.splits if_splits option.splits failure.splits)
  show "d = no_supervisor_result (provider_id p)" if "run_now svc p rs audit = (Inr (Early d), audit', eff)"
    using that by (auto simp: run_now_def run_managed_def Let_def map_sum_def split: sum.splits if_splits option.splits failure.splits)
qed

interpretation streaming: spec_runner run_stream
  by unfold_locales (auto simp: run_stream_def map_sum_def split: sum.splits)


lemma network_allowed:
  "\<not> network_refused nonet pol \<longleftrightarrow> \<not> nonet \<and> (case pol of None \<Rightarrow> True | Some p \<Rightarrow> NETWORK \<notin> default_deny p \<and> \<not> strict p)"
  by (simp add: network_refused_def split: option.splits)

section \<open>What the service does\<close>

definition requests :: "service \<Rightarrow> spec \<Rightarrow> string option \<Rightarrow> string list option \<Rightarrow> audit_log \<Rightarrow> ((failure + dict) \<times> audit_log \<times> effect list) set" where
  "requests svc sp pid deps audit = {execute svc sp pid deps audit, execute_stream svc sp pid deps audit}"

lemma request_effects: "(r, audit', eff) \<in> requests svc sp pid deps audit \<Longrightarrow> service_effects svc sp pid eff"
  unfolding requests_def execute_def execute_stream_def
  by (metis insertE now.execute_shape singletonD streaming.execute_shape)


definition demo_service :: service where
  "demo_service = \<lparr>svc_registry = \<lparr>default_provider_id = ''local'', selection_policy = None,
       registered = [(''local'', local_provider ''1'' True True (\<lambda>s. Inr [(''ok'', PBool True)]))]\<rparr>,
     svc_explicit = None, svc_from_env = False, svc_env = (\<lambda>k. None), svc_emit = (\<lambda>a ty given. ([], a)), svc_version = ''1'',
     svc_host = demo_host, svc_toml = (\<lambda>t. Inr []),
     svc_installer = \<lparr>inst_install = (\<lambda>k a l s sid w t. ([(''ok'', PBool True)], a)), inst_clock = (\<lambda>k. 0), inst_size = (\<lambda>k w. 0), inst_quota = (\<lambda>k. 1)\<rparr>,
     svc_tempdir = ''tmp'', svc_supervisor = None, svc_stream = (\<lambda>p s. Inr []), svc_session = (\<lambda>i s. Inr [])\<rparr>"

definition node_spec :: spec where
  "node_spec = \<lparr>no_net = False, spec_language = ''node'', spec_code = [], spec_stdin = [], spec_timeout = 10, spec_workdir = None,
     spec_max_memory_mb = 0, spec_max_output_kb = 0, spec_max_cpu = 0\<rparr>"

lemma demo_effects: "snd (snd (execute demo_service node_spec None (Some [''left-pad'']) (new_audit None []))) =
    [MakeDir ''tmp'', Install [''left-pad''] (Some ''tmp''), Execute (node_spec\<lparr>spec_workdir := Some ''tmp''\<rparr>), RemoveDir ''tmp'']"
  by code_simp


text \<open>
  C30. Every answer is accounted for. An answer carries the contract version and is one of three: a
  coded refusal; the installer's own failure, with the entries of what was attempted, when nothing was
  run; or a result with a receipt for this request and this decision, and then something ran. A provider
  that lacks a capability is always answered, never raised.
\<close>

theorem service_answers:
  assumes "(r, audit', eff) \<in> requests svc sp pid deps audit"
  shows "case r of
      Inl e \<Rightarrow> (\<forall>q cap. e \<noteq> UnsupportedCapability q cap)
    | Inr x \<Rightarrow> has_key x ''contract_version'' \<and> (coded_refusal x
        \<or> (\<exists>rows f specs w. x = failed_install svc rows f \<and> Install specs w \<in> set eff \<and> list_all (\<lambda>e. run_of e = None) eff)
        \<or> (\<exists>e \<in> set eff. run_of e \<noteq> None) \<and> (\<exists>p d result y. select (svc_registry svc) pid (Some sp) = Inr p
            \<and> d = decide sp (describe p) (current_policy svc 0)
            \<and> attach_receipt (svc_host svc) sp p result None (Some d) = Inr y \<and> x = stamp (svc_version svc) y))"
proof (cases r)
  case (Inl e)
  then have "e \<noteq> UnsupportedCapability q cap" for q cap
    using assms now.execute_raises streaming.execute_raises unfolding requests_def execute_def execute_stream_def by (metis insertE singletonD)
  then show ?thesis using Inl by simp
next
  case (Inr x)
  have "execute_with run_now svc sp pid deps audit = (Inr x, audit', eff) \<or> execute_with run_stream svc sp pid deps audit = (Inr x, audit', eff)"
    using assms Inr unfolding requests_def execute_def execute_stream_def by auto
  then show ?thesis unfolding Inr sum.case by (elim disjE) (rule now.execute_answer, assumption, rule streaming.execute_answer, assumption)
qed

lemma refused_run: "fst (execute demo_service (node_spec\<lparr>no_net := True\<rparr>) None (Some [''left-pad'']) (new_audit None []))
    = Inr (stamp ''1'' (refusal_result True None))"
  by code_simp

theorem service_answers_witness:
  "has_key (stamp ''1'' (refusal_result True None)) ''contract_version'' \<and> coded_refusal (stamp ''1'' (refusal_result True None))"
proof -
  let ?run = "execute demo_service (node_spec\<lparr>no_net := True\<rparr>) None (Some [''left-pad'']) (new_audit None [])"
  have "(Inr (stamp ''1'' (refusal_result True None)), fst (snd ?run), snd (snd ?run))
    \<in> requests demo_service (node_spec\<lparr>no_net := True\<rparr>) None (Some [''left-pad'']) (new_audit None [])"
    unfolding requests_def refused_run [symmetric] by simp
  from service_answers [OF this] show ?thesis using coded_refusals(5) by simp
qed

section \<open>Merging declared dependencies\<close>

abbreviation declare_one :: "string \<Rightarrow> (string \<times> string) list \<Rightarrow> (string \<times> string) list" where
  "declare_one dep merged \<equiv> AList.update (normalize_name dep) dep merged"

lemma merge_fold: "merge_dependencies bs es = map snd (fold declare_one (bs @ (case es of None \<Rightarrow> [] | Some ds \<Rightarrow> ds)) [])"
  by (simp add: merge_dependencies_def Let_def)

lemma find_append: "List.find P (xs @ ys) = (case List.find P xs of Some x \<Rightarrow> Some x | None \<Rightarrow> List.find P ys)"
  by (induction xs) auto

lemma find_SomeD: "List.find P xs = Some x \<Longrightarrow> x \<in> set xs \<and> P x"
  by (induction xs) (auto split: if_splits)

lemma declared_map: "map_of (fold declare_one ds al) k =
    (case List.find (\<lambda>d. normalize_name d = k) (rev ds) of Some d \<Rightarrow> Some d | None \<Rightarrow> map_of al k)"
  by (induction ds arbitrary: al) (auto simp: update_conv' find_append split: option.splits)

lemma declared_distinct: "distinct (map fst al) \<Longrightarrow> distinct (map fst (fold declare_one ds al))"
  by (induction ds arbitrary: al) (auto simp: distinct_update)

lemma declared_names: "list_all (\<lambda>(k, d). k = normalize_name d) al \<Longrightarrow> list_all (\<lambda>(k, d). k = normalize_name d) (fold declare_one ds al)"
proof (induction ds arbitrary: al)
  case (Cons d ds)
  have "list_all (\<lambda>(k, d). k = normalize_name d) (declare_one d al)" using Cons.prems by (induction al) auto
  then show ?case using Cons.IH by simp
qed simp

text \<open>
  Merging keeps one requirement per project, and the last word on it: no two requirements of the
  merged list name the same project, every declared project is there, and a requirement is in the list
  exactly when it is the last one declared for its project, the explicit ones counting after those of
  the block, so that an explicit requirement wins.
\<close>

theorem merge_dependencies_last_wins:
  "let declared = block_deps @ (case explicit_deps of None \<Rightarrow> [] | Some ds \<Rightarrow> ds); merged = merge_dependencies block_deps explicit_deps
   in distinct (map normalize_name merged) \<and> normalize_name ` set merged = normalize_name ` set declared
      \<and> (\<forall>d. d \<in> set merged \<longleftrightarrow> List.find (\<lambda>e. normalize_name e = normalize_name d) (rev declared) = Some d)"
proof -
  define declared where "declared = block_deps @ (case explicit_deps of None \<Rightarrow> [] | Some ds \<Rightarrow> ds)"
  define al where "al = fold declare_one declared []"
  have m: "merge_dependencies block_deps explicit_deps = map snd al" by (simp add: merge_fold al_def declared_def)
  have d: "distinct (map fst al)" unfolding al_def by (rule declared_distinct) simp
  have n: "list_all (\<lambda>(k, d). k = normalize_name d) al" unfolding al_def by (rule declared_names) simp
  then have key: "k = normalize_name d" if "(k, d) \<in> set al" for k d using that by (auto simp: list_all_iff)
  from n have fst_al: "map fst al = map normalize_name (map snd al)" by (induction al) auto
  have in_al: "d \<in> set (map snd al) \<longleftrightarrow> List.find (\<lambda>e. normalize_name e = normalize_name d) (rev declared) = Some d" for d
  proof -
    have "d \<in> set (map snd al) \<longleftrightarrow> (\<exists>k. (k, d) \<in> set al)" by (auto intro: rev_image_eqI)
    also have "\<dots> \<longleftrightarrow> (normalize_name d, d) \<in> set al" using key by blast
    also have "\<dots> \<longleftrightarrow> map_of al (normalize_name d) = Some d" using d by simp
    finally show ?thesis unfolding al_def declared_map by (simp split: option.splits)
  qed
  have "normalize_name ` set (map snd al) = normalize_name ` set declared"
  proof (intro equalityI subsetI)
    fix k assume "k \<in> normalize_name ` set declared"
    then obtain e where "List.find (\<lambda>e. normalize_name e = k) (rev declared) = Some e"
      by (cases "List.find (\<lambda>e. normalize_name e = k) (rev declared)") (auto simp: find_None_iff)
    moreover from this have "normalize_name e = k" using find_SomeD by fast
    ultimately have "e \<in> set (map snd al)" using in_al by blast
    then show "k \<in> normalize_name ` set (map snd al)" using \<open>normalize_name e = k\<close> by blast
  next
    fix k assume "k \<in> normalize_name ` set (map snd al)"
    then obtain d where d: "d \<in> set (map snd al)" "k = normalize_name d" by blast
    have "d \<in> set declared" using find_SomeD [OF in_al [THEN iffD1, OF d(1)]] by simp
    then show "k \<in> normalize_name ` set declared" using d(2) by simp
  qed
  then show ?thesis unfolding Let_def declared_def [symmetric] m using d in_al fst_al by simp
qed

section \<open>Installing\<close>

definition row_ok :: "dict \<Rightarrow> bool" where
  "row_ok row \<longleftrightarrow> dget row ''ok'' = PBool True"

definition row_spec :: "dict \<Rightarrow> pyval" where
  "row_spec row = dget row ''spec''"

lemma dependency_entry_row: "row_spec (dependency_entry spec lang inst t raw) = PStr spec" "row_ok (dependency_entry spec lang inst t raw) \<longleftrightarrow> truthy (dget raw ''ok'')"
  by (simp_all add: row_spec_def row_ok_def dependency_entry_def)

lemma install_step:
  assumes "install_loop ins lang all session_id workdir started (spec # specs) k rows audit = (rows', f, audit')"
  obtains (budget) d where "rows' = rows" "f = Some d" "coded_refusal d"
  | (failed) row raw where "rows' = rows @ [row]" "f = Some raw" "\<not> row_ok row" "\<not> truthy (dget raw ''ok'')" "row_spec row = PStr spec"
  | (quota) row d where "rows' = rows @ [row]" "f = Some d" "coded_refusal d" "row_ok row" "row_spec row = PStr spec"
  | (more) row a where "install_loop ins lang all session_id workdir started specs (k + 5) (rows @ [row]) a = (rows', f, audit')"
      "row_ok row" "row_spec row = PStr spec"
proof -
  let ?rem = "rnd (INSTALL_BUDGET - rnd (inst_clock ins k - started))"
  obtain raw a where i: "inst_install ins (k + 2) audit lang spec session_id
     (if session_id = None \<or> session_id = Some [] then workdir else None) (max 1 (nat \<lfloor>?rem\<rfloor>)) = (raw, a)" by force
  define row where "row = dependency_entry spec lang (case map_of INSTALLER_NAMES lang of Some i \<Rightarrow> i | None \<Rightarrow> lang)
     (nat \<lfloor>rnd (rnd (inst_clock ins (k + 3) - inst_clock ins (k + 1)) * 1000)\<rfloor>) raw"
  have row: "row_spec row = PStr spec" "row_ok row \<longleftrightarrow> truthy (dget raw ''ok'')" by (simp_all add: row_def dependency_entry_row)
  note loop = assms [unfolded install_loop.simps Let_def i prod.case, folded row_def]
  show thesis
  proof (cases "?rem \<le> 0")
    case True
    then show thesis using budget loop coded_refusals(8) by auto
  next
    case time: False
    show thesis
    proof (cases "truthy (dget raw ''ok'')")
      case False
      then show thesis using failed [of row raw] loop time row by auto
    next
      case True
      then show thesis using more [of row a] quota [of row] loop time row coded_refusals(9)
        by (auto split: option.splits if_splits)
    qed
  qed
qed

lemma install_loop_outcome:
  assumes "install_loop ins lang all session_id workdir started specs k rows audit = (rows', f, audit')" "list_all row_ok rows"
  shows "\<exists>new. rows' = rows @ new \<and> map row_spec new = map PStr (take (length new) specs) \<and> length new \<le> length specs
    \<and> (case f of None \<Rightarrow> length new = length specs \<and> list_all row_ok rows'
       | Some d \<Rightarrow> coded_refusal d \<and> list_all row_ok rows' \<or> new \<noteq> [] \<and> list_all row_ok (butlast rows') \<and> \<not> row_ok (last rows') \<and> \<not> truthy (dget d ''ok''))"
  using assms
proof (induction specs arbitrary: k rows audit)
  case (Cons spec specs)
  from Cons.prems(1) show ?case
  proof (cases rule: install_step)
    case (more row a)
    have "list_all row_ok (rows @ [row])" using Cons.prems(2) more(2) by simp
    then obtain new where "rows' = (rows @ [row]) @ new" "map row_spec new = map PStr (take (length new) specs)" "length new \<le> length specs"
      "case f of None \<Rightarrow> length new = length specs \<and> list_all row_ok rows'
         | Some d \<Rightarrow> coded_refusal d \<and> list_all row_ok rows' \<or> new \<noteq> [] \<and> list_all row_ok (butlast rows') \<and> \<not> row_ok (last rows') \<and> \<not> truthy (dget d ''ok'')"
      using Cons.IH [OF more(1)] by blast
    then show ?thesis using more(3) by (intro exI [of _ "row # new"]) (auto split: option.splits)
  next
    case (failed row raw)
    then show ?thesis using Cons.prems(2) by (intro exI [of _ "[row]"]) auto
  next
    case (quota row d)
    then show ?thesis using Cons.prems(2) by (intro exI [of _ "[row]"]) auto
  qed (use Cons.prems(2) in auto)
qed simp

text \<open>
  Installation goes in order and stops at the first trouble: the entries name a prefix of the
  requirements; without a failure all of them were installed; with one, either every attempted
  requirement was installed and the failure is coded (the time budget or the disk quota), or the last
  attempted one failed, every one before it was installed, and the failure is the installer's own.
\<close>

theorem install_in_order:
  assumes "install_dependencies ins language specs session_id workdir k audit = (rows, f, audit')"
  shows "map row_spec rows = map PStr (take (length rows) specs)
    \<and> (case f of None \<Rightarrow> length rows = length specs \<and> list_all row_ok rows
       | Some d \<Rightarrow> coded_refusal d \<and> list_all row_ok rows \<or> rows \<noteq> [] \<and> list_all row_ok (butlast rows) \<and> \<not> row_ok (last rows) \<and> \<not> truthy (dget d ''ok''))"
proof -
  obtain lang where "install_loop ins lang (length specs) session_id workdir (inst_clock ins k) specs (k + 1) [] audit = (rows, f, audit')"
    using assms by (auto simp: install_dependencies_def Let_def)
  from install_loop_outcome [OF this] show ?thesis by (auto split: option.splits)
qed


definition flaky_installer :: installer where
  "flaky_installer = \<lparr>inst_install = (\<lambda>k a l s sid w t. ([(''ok'', PBool (s = ''a''))], a)), inst_clock = (\<lambda>k. 0), inst_size = (\<lambda>k w. 0), inst_quota = (\<lambda>k. 1)\<rparr>"

lemma flaky_install: "install_dependencies flaky_installer ''node'' [''a'', ''b'', ''c''] None None 0 (new_audit None []) =
    ([dependency_entry ''a'' ''node'' ''npm'' 0 [(''ok'', PBool True)], dependency_entry ''b'' ''node'' ''npm'' 0 [(''ok'', PBool False)]],
     Some [(''ok'', PBool False)], new_audit None [])"
  by code_simp

theorem install_in_order_witness:
  "map row_spec [dependency_entry ''a'' ''node'' ''npm'' 0 [(''ok'', PBool True)], dependency_entry ''b'' ''node'' ''npm'' 0 [(''ok'', PBool False)]]
    = map PStr [''a'', ''b'']"
  using install_in_order [OF flaky_install] by simp

end
