(* ===== verification/Confirmation.thy ===== *)
theory Confirmation
  imports Audit_Log Capabilities
begin

text \<open>
  \<open>codecalc/confirmation.py\<close>: the confirmation a tool with side effects asks for before it acts, in
  the two generations of the protocol. What the MCP framework delivers (the protocol version, the
  answers of a retried call, the declared capabilities, the outcome of \<open>ctx.elicit\<close>) is the context,
  and the comparison of protocol versions an argument.
\<close>

section \<open>What the client sends\<close>

datatype wire_response = ElicitResult string "dict option" | OtherResponse

datatype elicitation = AcceptedElicitation bool | DeclinedElicitation | CancelledElicitation

text \<open>\<open>elicitation.form\<close> and \<open>elicitation.url\<close>: whether each is present.\<close>

record elicit_caps =
  caps_form :: bool
  caps_url :: bool

record context' =
  protocol_version :: "string option"
  request_state :: "string option"
  input_responses :: "(string \<times> wire_response) list option"
  client_elicitation :: "elicit_caps option"
  elicit :: "string \<Rightarrow> exn + elicitation"

abbreviation MRTR_VERSION :: string where "MRTR_VERSION \<equiv> ''2026-07-28''"
abbreviation WIRE_KEY :: string where "WIRE_KEY \<equiv> ''confirm''"
abbreviation PENDING_STATE :: string where "PENDING_STATE \<equiv> ''awaiting_confirmation''"

section \<open>The gate\<close>

text \<open>What the gate returns: \<open>None\<close>, a question for the client, or a result.\<close>

datatype gate = Proceed | InputRequired string string | Refuse dict

definition refusal :: "string \<Rightarrow> string \<Rightarrow> dict" where
  "refusal tool why =
    (if why = ''malformed'' then error_result VALIDATION (tool @ '': missing or malformed confirmation response'') []
     else error_result PERMISSION_DENIED (tool @ '': confirmation '' @ why) [])"

type_synonym emitter = "audit_log \<Rightarrow> string \<Rightarrow> dict \<Rightarrow> dict \<times> audit_log"

definition confirm_event :: "string \<Rightarrow> string \<Rightarrow> string option \<Rightarrow> dict \<Rightarrow> dict" where
  "confirm_event decision' tool session_id echo =
    [(''session_id'', opt_str session_id), (''decision'', PStr decision'), (''tool'', PStr tool)] @ echo"

definition record_decision :: "emitter \<Rightarrow> audit_log \<Rightarrow> string \<Rightarrow> string \<Rightarrow> string \<Rightarrow> string option \<Rightarrow> dict \<Rightarrow> audit_log" where
  "record_decision emit' al event_type decision' tool session_id echo = snd (emit' al event_type (confirm_event decision' tool session_id echo))"

definition supports_form_elicitation :: "elicit_caps option \<Rightarrow> bool" where
  "supports_form_elicitation c = (case c of None \<Rightarrow> False | Some e \<Rightarrow> caps_form e \<or> \<not> caps_url e)"

definition granted :: "emitter \<Rightarrow> string \<Rightarrow> string option \<Rightarrow> dict \<Rightarrow> audit_log \<Rightarrow> gate \<times> audit_log" where
  "granted emit' tool session_id echo al =
    (Proceed, record_decision emit' al CONFIRMATION_GRANTED ''confirmed'' tool session_id echo)"

definition refused :: "emitter \<Rightarrow> string \<Rightarrow> string \<Rightarrow> string option \<Rightarrow> dict \<Rightarrow> audit_log \<Rightarrow> gate \<times> audit_log" where
  "refused emit' why tool session_id echo al =
    (Refuse (refusal tool why), record_decision emit' al CONFIRMATION_REFUSED why tool session_id echo)"

definition mrtr_gate :: "emitter \<Rightarrow> context' \<Rightarrow> string \<Rightarrow> string \<Rightarrow> dict \<Rightarrow> audit_log \<Rightarrow> string option \<Rightarrow> gate \<times> audit_log" where
  "mrtr_gate emit' ctx tool message echo al session_id =
    (if request_state ctx = None then (InputRequired message PENDING_STATE, al)
     else case map_of (case input_responses ctx of None \<Rightarrow> [] | Some m \<Rightarrow> m) WIRE_KEY of
         Some (ElicitResult action content) \<Rightarrow>
           if action = ''accept'' then
             (case dget (case content of None \<Rightarrow> [] | Some c \<Rightarrow> c) ''confirm'' of
                PBool True \<Rightarrow> granted emit' tool session_id echo al
              | PBool False \<Rightarrow> refused emit' ''declined'' tool session_id echo al
              | _ \<Rightarrow> refused emit' ''malformed'' tool session_id echo al)
           else refused emit' (if action = ''cancel'' then ''cancelled'' else ''declined'') tool session_id echo al
       | _ \<Rightarrow> refused emit' ''malformed'' tool session_id echo al)"

definition legacy_gate :: "emitter \<Rightarrow> context' \<Rightarrow> string \<Rightarrow> string \<Rightarrow> dict \<Rightarrow> audit_log \<Rightarrow> string option \<Rightarrow> exn + gate \<times> audit_log" where
  "legacy_gate emit' ctx tool message echo al session_id =
    (if \<not> supports_form_elicitation (client_elicitation ctx)
     then Inr (Proceed, record_decision emit' al CONFIRMATION_GATE_SKIPPED ''unavailable'' tool session_id echo)
     else case elicit ctx message of
         Inl e \<Rightarrow> if isinstance e ValueErr then Inr (refused emit' ''malformed'' tool session_id echo al) else Inl e
       | Inr (AcceptedElicitation confirm) \<Rightarrow>
           Inr (if confirm then granted emit' tool session_id echo al else refused emit' ''declined'' tool session_id echo al)
       | Inr CancelledElicitation \<Rightarrow> Inr (refused emit' ''cancelled'' tool session_id echo al)
       | Inr DeclinedElicitation \<Rightarrow> Inr (refused emit' ''declined'' tool session_id echo al))"

definition require_confirmation :: "(string \<Rightarrow> string \<Rightarrow> bool) \<Rightarrow> emitter \<Rightarrow> context' option \<Rightarrow> string \<Rightarrow> string \<Rightarrow> dict \<Rightarrow> audit_log
    \<Rightarrow> string option \<Rightarrow> exn + gate \<times> audit_log" where
  "require_confirmation at_least emit' ctx tool message echo al session_id =
    (case ctx of
       None \<Rightarrow> Inr (Proceed, al)
     | Some c \<Rightarrow>
         (case protocol_version c of
            Some v \<Rightarrow> if at_least v MRTR_VERSION then Inr (mrtr_gate emit' c tool message echo al session_id)
                      else legacy_gate emit' c tool message echo al session_id
          | None \<Rightarrow> legacy_gate emit' c tool message echo al session_id))"

section \<open>What the gate promises\<close>

text \<open>An answer of the retried call that says yes.\<close>

definition confirmed_answer :: "wire_response option \<Rightarrow> bool" where
  "confirmed_answer a \<longleftrightarrow> (\<exists>content. a = Some (ElicitResult ''accept'' (Some content)) \<and> dget content ''confirm'' = PBool True)"

lemma confirmed_answer_simps [simp]:
  "\<not> confirmed_answer None" "\<not> confirmed_answer (Some OtherResponse)" "\<not> confirmed_answer (Some (ElicitResult a None))"
  "confirmed_answer (Some (ElicitResult a (Some content))) \<longleftrightarrow> a = ''accept'' \<and> dget content ''confirm'' = PBool True"
  by (auto simp: confirmed_answer_def simp del: list.inject)

text \<open>Whether the user said yes, in either generation of the protocol.\<close>

definition said_yes :: "(string \<Rightarrow> string \<Rightarrow> bool) \<Rightarrow> context' \<Rightarrow> string \<Rightarrow> bool" where
  "said_yes at_least c message \<longleftrightarrow>
    (if (case protocol_version c of None \<Rightarrow> False | Some v \<Rightarrow> at_least v MRTR_VERSION)
     then request_state c \<noteq> None \<and> confirmed_answer (map_of (case input_responses c of None \<Rightarrow> [] | Some m \<Rightarrow> m) WIRE_KEY)
     else supports_form_elicitation (client_elicitation c) \<and> elicit c message = Inr (AcceptedElicitation True))"

definition cannot_be_asked :: "(string \<Rightarrow> string \<Rightarrow> bool) \<Rightarrow> context' \<Rightarrow> bool" where
  "cannot_be_asked at_least c \<longleftrightarrow>
    \<not> (case protocol_version c of None \<Rightarrow> False | Some v \<Rightarrow> at_least v MRTR_VERSION) \<and> \<not> supports_form_elicitation (client_elicitation c)"

lemma refusal_coded: "dget (refusal tool why) ''ok'' = PBool False"
    "dget (refusal tool why) ''code'' = PStr (if why = ''malformed'' then VALIDATION else PERMISSION_DENIED)"
  unfolding refusal_def by (auto simp del: append.simps simp: error_result_get ALL_CODES_def)

text \<open>What a gate may do when the user said yes (\<open>yes\<close>) or cannot be asked (\<open>mute\<close>).\<close>

definition honest :: "bool \<Rightarrow> bool \<Rightarrow> emitter \<Rightarrow> string \<Rightarrow> string \<Rightarrow> string option \<Rightarrow> dict \<Rightarrow> audit_log \<Rightarrow> gate \<Rightarrow> audit_log \<Rightarrow> bool" where
  "honest yes mute emit' tool message session_id echo al g al' \<longleftrightarrow> (case g of
      Proceed \<Rightarrow> (yes \<and> al' = snd (emit' al CONFIRMATION_GRANTED (confirm_event ''confirmed'' tool session_id echo))
        \<or> mute \<and> al' = snd (emit' al CONFIRMATION_GATE_SKIPPED (confirm_event ''unavailable'' tool session_id echo)))
    | InputRequired m st \<Rightarrow> \<not> yes \<and> \<not> mute \<and> m = message \<and> al' = al
    | Refuse d \<Rightarrow> \<not> yes \<and> \<not> mute
        \<and> (\<exists>why \<in> {''declined'', ''cancelled'', ''malformed''}. dget d ''ok'' = PBool False
            \<and> dget d ''code'' = PStr (if why = ''malformed'' then VALIDATION else PERMISSION_DENIED)
            \<and> al' = snd (emit' al CONFIRMATION_REFUSED (confirm_event why tool session_id echo))))"

lemma honest_granted:
  assumes "granted emit' tool session_id echo al = (g, al')" "yes"
  shows "honest yes mute emit' tool message session_id echo al g al'"
  using assms by (auto simp: honest_def granted_def record_decision_def)

lemma honest_refused:
  assumes "refused emit' why tool session_id echo al = (g, al')" "\<not> yes" "\<not> mute" "why \<in> {''declined'', ''cancelled'', ''malformed''}"
  shows "honest yes mute emit' tool message session_id echo al g al'"
proof -
  have "g = Refuse (refusal tool why)" "al' = snd (emit' al CONFIRMATION_REFUSED (confirm_event why tool session_id echo))"
    using assms(1) by (simp_all add: refused_def record_decision_def)
  then show ?thesis unfolding honest_def using assms(2-) refusal_coded by (simp only: gate.case) blast
qed

text \<open>The outcome of a retried call, by its answer.\<close>

definition verdict :: "wire_response option \<Rightarrow> string option" where
  "verdict a = (case a of
      Some (ElicitResult action content) \<Rightarrow>
        if action = ''accept'' then
          (case dget (case content of None \<Rightarrow> [] | Some c \<Rightarrow> c) ''confirm'' of
             PBool True \<Rightarrow> None | PBool False \<Rightarrow> Some ''declined'' | _ \<Rightarrow> Some ''malformed'')
        else Some (if action = ''cancel'' then ''cancelled'' else ''declined'')
    | _ \<Rightarrow> Some ''malformed'')"

lemma verdict_None: "verdict a = None \<longleftrightarrow> confirmed_answer a"
  by (auto simp: verdict_def confirmed_answer_def simp del: list.inject split: option.splits wire_response.splits if_splits pyval.splits bool.splits)

lemma verdict_Some: "verdict a = Some why \<Longrightarrow> why \<in> {''declined'', ''cancelled'', ''malformed''}"
  by (auto simp: verdict_def simp del: list.inject split: option.splits wire_response.splits if_splits pyval.splits bool.splits)

lemma mrtr_gate_verdict:
  assumes "request_state c \<noteq> None"
  shows "mrtr_gate emit' c tool message echo al session_id =
    (case verdict (map_of (case input_responses c of None \<Rightarrow> [] | Some m \<Rightarrow> m) WIRE_KEY) of
       None \<Rightarrow> granted emit' tool session_id echo al
     | Some why \<Rightarrow> refused emit' why tool session_id echo al)"
  unfolding mrtr_gate_def verdict_def if_not_P [OF assms]
  by (cases "map_of (case input_responses c of None \<Rightarrow> [] | Some m \<Rightarrow> m) WIRE_KEY")
     (simp_all split: wire_response.split pyval.split bool.split)

lemma mrtr_honest:
  assumes "mrtr_gate emit' c tool message echo al session_id = (g, al')"
  shows "honest (request_state c \<noteq> None \<and> confirmed_answer (map_of (case input_responses c of None \<Rightarrow> [] | Some m \<Rightarrow> m) WIRE_KEY)) False
    emit' tool message session_id echo al g al'"
    (is "honest (_ \<and> confirmed_answer ?answer) _ _ _ _ _ _ _ _ _")
proof (cases "request_state c = None")
  case True
  then show ?thesis using assms by (auto simp: mrtr_gate_def honest_def)
next
  case False
  note by_verdict = mrtr_gate_verdict [OF False, of emit' tool message echo al session_id, unfolded assms]
  show ?thesis
  proof (cases "verdict ?answer")
    case None
    then show ?thesis using honest_granted [OF by_verdict [unfolded None option.case, symmetric]] False by (simp add: verdict_None)
  next
    case (Some why)
    then have "\<not> confirmed_answer ?answer" by (simp flip: verdict_None)
    then show ?thesis using honest_refused [OF by_verdict [unfolded Some option.case, symmetric] _ _ verdict_Some [OF Some]] by simp
  qed
qed

lemma legacy_honest:
  assumes "legacy_gate emit' c tool message echo al session_id = Inr (g, al')"
  shows "honest (supports_form_elicitation (client_elicitation c) \<and> elicit c message = Inr (AcceptedElicitation True))
    (\<not> supports_form_elicitation (client_elicitation c)) emit' tool message session_id echo al g al'"
    (is "honest ?yes ?mute _ _ _ _ _ _ _ _")
proof (cases "supports_form_elicitation (client_elicitation c)")
  case False
  then show ?thesis using assms by (auto simp: legacy_gate_def honest_def record_decision_def)
next
  case True
  then consider "?yes" "granted emit' tool session_id echo al = (g, al')"
    | why where "\<not> ?yes" "why \<in> {''declined'', ''cancelled'', ''malformed''}" "refused emit' why tool session_id echo al = (g, al')"
    using assms unfolding legacy_gate_def by (force split: if_splits sum.splits elicitation.splits)
  then show ?thesis
  proof cases
    case 1
    then show ?thesis using honest_granted [OF 1(2)] by simp
  next
    case 2
    then show ?thesis using honest_refused [OF 2(3) 2(1) _ 2(2)] True by simp
  qed
qed

lemma gate_honest:
  assumes "require_confirmation at_least emit' (Some c) tool message echo al session_id = Inr (g, al')"
  shows "honest (said_yes at_least c message) (cannot_be_asked at_least c) emit' tool message session_id echo al g al'"
proof (cases "case protocol_version c of None \<Rightarrow> False | Some v \<Rightarrow> at_least v MRTR_VERSION")
  case True
  then have gate: "mrtr_gate emit' c tool message echo al session_id = (g, al')"
    using assms by (cases "protocol_version c") (simp_all add: require_confirmation_def)
  show ?thesis unfolding said_yes_def cannot_be_asked_def if_P [OF True] using True mrtr_honest [OF gate] by simp
next
  case False
  then have gate: "legacy_gate emit' c tool message echo al session_id = Inr (g, al')"
    using assms by (cases "protocol_version c") (simp_all add: require_confirmation_def)
  show ?thesis unfolding said_yes_def cannot_be_asked_def if_not_P [OF False] using False legacy_honest [OF gate] by simp
qed

text \<open>
  C31. The gate is honest. A tool called by a client goes ahead exactly when the user said yes or the
  client cannot be asked, and then the trail records which of the two it was; otherwise the client is
  asked, with nothing recorded, or the tool is refused with a coded result and the refusal is recorded:
  a user's no as a denied permission, an answer of the wrong shape as a validation error.
\<close>

theorem confirmation_gate_honest:
  assumes "require_confirmation at_least emit' (Some c) tool message echo al session_id = Inr (g, al')"
  shows "case g of
      Proceed \<Rightarrow> (said_yes at_least c message \<and> al' = snd (emit' al CONFIRMATION_GRANTED (confirm_event ''confirmed'' tool session_id echo))
        \<or> cannot_be_asked at_least c \<and> al' = snd (emit' al CONFIRMATION_GATE_SKIPPED (confirm_event ''unavailable'' tool session_id echo)))
    | InputRequired m st \<Rightarrow> \<not> said_yes at_least c message \<and> \<not> cannot_be_asked at_least c \<and> m = message \<and> al' = al
    | Refuse d \<Rightarrow> \<not> said_yes at_least c message \<and> \<not> cannot_be_asked at_least c
        \<and> (\<exists>why \<in> {''declined'', ''cancelled'', ''malformed''}. dget d ''ok'' = PBool False
            \<and> dget d ''code'' = PStr (if why = ''malformed'' then VALIDATION else PERMISSION_DENIED)
            \<and> al' = snd (emit' al CONFIRMATION_REFUSED (confirm_event why tool session_id echo)))"
  using gate_honest [OF assms] unfolding honest_def .

text \<open>A client of the newer protocol whose user accepts the form but leaves the box unticked.\<close>

definition unticked :: "context'" where
  "unticked = \<lparr>protocol_version = Some ''2026-07-28'', request_state = Some PENDING_STATE,
    input_responses = Some [(WIRE_KEY, ElicitResult ''accept'' (Some [(''confirm'', PBool False)]))],
    client_elicitation = None, elicit = \<lambda>m. Inr DeclinedElicitation\<rparr>"

definition idle_log :: audit_log where
  "idle_log = \<lparr>audit_path = Some ''audit.jsonl'', audit_secrets = [], audit_warned = False, audit_files = []\<rparr>"

theorem confirmation_gate_honest_witness:
  "\<not> said_yes (=) unticked ''Install numpy?'' \<and> (\<exists>d al'. require_confirmation (=) (emit True 1000 ''t'') (Some unticked)
      ''install_package'' ''Install numpy?'' [] idle_log None = Inr (Refuse d, al') \<and> dget d ''ok'' = PBool False)"
proof -
  obtain d al' where run: "require_confirmation (=) (emit True 1000 ''t'') (Some unticked)
      ''install_package'' ''Install numpy?'' [] idle_log None = Inr (Refuse d, al')"
    by (simp add: require_confirmation_def unticked_def mrtr_gate_def refused_def)
  show ?thesis using confirmation_gate_honest [OF run] run by auto
qed

end
