(* ===== verification/Session_Paths.thy ===== *)
theory Session_Paths
  imports Refusals
begin

text \<open>
  \<open>codecalc/sessions.py\<close>, the paths of a session workspace: session identities, the names the runner
  keeps for itself, the two jails, and the deletion of one entry by a walk that follows no link. A path
  is the list of its components. What the operating system resolves a path to is an argument.
\<close>

section \<open>Splitting\<close>

text \<open>\<open>s.split(c)\<close> and \<open>re.split(r"[...]", s)\<close>: the separators are the characters that satisfy \<open>p\<close>.\<close>

fun split_by :: "('a \<Rightarrow> bool) \<Rightarrow> 'a list \<Rightarrow> 'a list list" where
  "split_by p [] = [[]]"
| "split_by p (c # cs) =
    (if p c then [] # split_by p cs else (c # hd (split_by p cs)) # tl (split_by p cs))"

abbreviation SLASH :: char where "SLASH \<equiv> CHR ''/''"
abbreviation BACKSLASH :: char where "BACKSLASH \<equiv> CHR 0x5C"

definition is_sep :: "char \<Rightarrow> bool" where
  "is_sep c \<longleftrightarrow> c = SLASH \<or> c = BACKSLASH"

section \<open>Identities\<close>

text \<open>
  \<open>_SAFE_NAME.match\<close> and \<open>_SNAPSHOT_ID_RE.match\<close>. The \<open>$\<close> of the patterns also matches in front of a
  final line feed.
\<close>

definition before_newline :: "string \<Rightarrow> string" where
  "before_newline s = (if s \<noteq> [] \<and> last s = char_of (10 :: nat) then butlast s else s)"

definition safe_char :: "char \<Rightarrow> bool" where
  "safe_char c \<longleftrightarrow> (let n = of_char c :: nat in
     48 \<le> n \<and> n \<le> 57 \<or> 65 \<le> n \<and> n \<le> 90 \<or> 97 \<le> n \<and> n \<le> 122 \<or> n = 45 \<or> n = 95)"

definition SAFE_NAME :: "string \<Rightarrow> bool" where
  "SAFE_NAME s \<longleftrightarrow> (let t = before_newline s in t \<noteq> [] \<and> length t \<le> 64 \<and> list_all safe_char t)"

definition SNAPSHOT_ID :: "string \<Rightarrow> bool" where
  "SNAPSHOT_ID s \<longleftrightarrow> (let t = before_newline s in length t = 32
     \<and> list_all (\<lambda>c. let n = of_char c :: nat in 48 \<le> n \<and> n \<le> 57 \<or> 97 \<le> n \<and> n \<le> 102) t)"

type_synonym path = "string list"

text \<open>A guard that raises \<open>ValueError\<close> returns its message on the left.\<close>

definition session_dir :: "(path \<Rightarrow> path) \<Rightarrow> path \<Rightarrow> string \<Rightarrow> string + path" where
  "session_dir realpath base session_id =
    (if \<not> SAFE_NAME session_id then Inl ''invalid session id''
     else let d = realpath (base @ [session_id])
          in if prefix base d then Inr d else Inl ''session path escapes session root'')"

definition guard_error :: "string \<Rightarrow> dict" where
  "guard_error message =
    (let code = (if contains ''invalid session id'' message then VALIDATION
                 else if contains ''too long'' message \<or> contains ''too many segments'' message then RESOURCE_EXHAUSTED
                 else PERMISSION_DENIED)
     in error_result code message [])"

section \<open>Names the runner keeps\<close>

abbreviation SPILL_DIRNAME :: string where "SPILL_DIRNAME \<equiv> ''.codecalc-spill''"
abbreviation RUNNER_SCRATCH_DIRNAME :: string where "RUNNER_SCRATCH_DIRNAME \<equiv> ''.codecalc-run''"
abbreviation LOCK_FILE_NAME :: string where "LOCK_FILE_NAME \<equiv> ''.codecalc-session-lock''"
abbreviation EXPIRED_MARKER_NAME :: string where "EXPIRED_MARKER_NAME \<equiv> ''.codecalc-session-expired''"

text \<open>
  \<open>str.casefold\<close> below code point 256. The micro sign folds to a letter beyond that range; it is
  compared with plain ASCII names only, which it equals neither before nor after.
\<close>

definition casefold :: "string \<Rightarrow> string" where
  "casefold s = concat (map (\<lambda>c. if of_char c = (223 :: nat) then ''ss'' else [lower_char c]) s)"

fun eight_dot_three :: "string \<Rightarrow> bool" where
  "eight_dot_three (c # d # cs) \<longleftrightarrow> c = CHR ''~'' \<and> is_digit d \<or> eight_dot_three (d # cs)"
| "eight_dot_three cs \<longleftrightarrow> False"

definition normalized_component_matches :: "string \<Rightarrow> string list \<Rightarrow> bool" where
  "normalized_component_matches name targets \<longleftrightarrow> eight_dot_three name
     \<or> (let cut = rstrip (\<lambda>c. c = CHR ''.'' \<or> c = CHR '' '') name; stripped = (if cut = [] then name else cut)
        in \<exists>candidate \<in> set [name, stripped]. casefold candidate \<in> set (map casefold targets))"

definition reserved_root_name :: "string \<Rightarrow> bool" where
  "reserved_root_name name = normalized_component_matches name [LOCK_FILE_NAME, EXPIRED_MARKER_NAME]"

definition is_runner_internal :: "path \<Rightarrow> bool" where
  "is_runner_internal rel_parts \<longleftrightarrow> rel_parts \<noteq> []
     \<and> (normalized_component_matches (hd rel_parts) [SPILL_DIRNAME, RUNNER_SCRATCH_DIRNAME]
        \<or> list_ex (\<lambda>part. casefold part = ''__pycache__'') rel_parts \<or> suffix ''.pyc'' (casefold (last rel_parts))
        \<or> length rel_parts = 1 \<and> reserved_root_name (hd rel_parts))"

section \<open>The jails\<close>

text \<open>
  \<open>_refuse_unrepresentable_component\<close>: with code points below 256 there is no surrogate to refuse.
\<close>

definition unrepresentable :: "string \<Rightarrow> bool" where
  "unrepresentable name \<longleftrightarrow> char_of (0 :: nat) \<in> set name"

definition path_segments :: "string \<Rightarrow> nat" where
  "path_segments s = count_list s SLASH + count_list s BACKSLASH + 1"

definition path_shape :: "string \<Rightarrow> string option" where
  "path_shape s =
    (if length s > 4096 then Some (''path too long ('' @ nat_str (length s) @ '' chars, max 4096)'')
     else if path_segments s > 256
     then Some (''path has too many segments ('' @ nat_str (path_segments s) @ '', max 256)'') else None)"

text \<open>\<open>base / path\<close> on POSIX: empty and \<open>.\<close> components vanish, an absolute path replaces the base.\<close>

definition path_join :: "path \<Rightarrow> string \<Rightarrow> path" where
  "path_join base s =
    (let parts = filter (\<lambda>c. c \<noteq> [] \<and> c \<noteq> ''.'') (split_by (\<lambda>c. c = SLASH) s)
     in if s \<noteq> [] \<and> hd s = SLASH then parts else base @ parts)"

abbreviation ESCAPES :: string where "ESCAPES \<equiv> ''path escapes session workspace''"

definition jail :: "(path \<Rightarrow> path) \<Rightarrow> path \<Rightarrow> string \<Rightarrow> string + path" where
  "jail realpath d s =
    (case path_shape s of
       Some message \<Rightarrow> Inl message
     | None \<Rightarrow>
         if list_ex unrepresentable (split_by is_sep s) then Inl ESCAPES
         else let base = realpath d; p = realpath (path_join base s)
              in if prefix base p then Inr p else Inl ESCAPES)"

definition jail_nofollow :: "string \<Rightarrow> string + path" where
  "jail_nofollow s =
    (case path_shape s of
       Some message \<Rightarrow> Inl message
     | None \<Rightarrow>
         if s \<noteq> [] \<and> hd s = SLASH \<or> length s \<ge> 2 \<and> s ! 1 = CHR '':'' then Inl ESCAPES
         else let parts = filter (\<lambda>p. p \<noteq> [] \<and> p \<noteq> ''.'') (split_by is_sep s)
              in if parts = [] \<or> list_ex (\<lambda>p. p = ''..'') parts then Inl ESCAPES
                 else if list_ex unrepresentable parts then Inl ESCAPES
                 else Inr parts)"

section \<open>Deleting one entry\<close>

datatype entry = Directory | Regular string | Symlink string

text \<open>The entries below a workspace, by their path; the workspace itself is the empty path.\<close>

type_synonym workspace = "path \<Rightarrow> entry option"

text \<open>
  \<open>os.open(component, O_DIRECTORY | O_NOFOLLOW, dir_fd=cur_fd)\<close>, one hop per component: a link, a file
  and a missing name all fail.
\<close>

fun open_hops :: "workspace \<Rightarrow> path \<Rightarrow> path \<Rightarrow> path option" where
  "open_hops fs cur [] = Some cur"
| "open_hops fs cur (c # cs) =
    (case fs (cur @ [c]) of Some Directory \<Rightarrow> open_hops fs (cur @ [c]) cs | _ \<Rightarrow> None)"

text \<open>
  \<open>_unlink_pinned\<close>: the last argument is the error of \<open>os.unlink\<close>, when it fails.
\<close>

definition no_such_file :: "string \<Rightarrow> dict" where
  "no_such_file display = error_result VALIDATION (''no such file: '' @ display) []"

definition unlink_pinned :: "string option \<Rightarrow> workspace \<Rightarrow> path \<Rightarrow> string \<Rightarrow> (dict + entry) \<times> workspace" where
  "unlink_pinned failing fs parts display =
    (if fs [] \<noteq> Some Directory then (Inl (no_such_file display), fs)
     else case open_hops fs [] (butlast parts) of
         None \<Rightarrow> (Inl (no_such_file display), fs)
       | Some dir \<Rightarrow>
           (case fs (dir @ [last parts]) of
              None \<Rightarrow> (Inl (no_such_file display), fs)
            | Some Directory \<Rightarrow>
                (Inl (error_result VALIDATION (repr_str display
                   @ '' is a directory; session_delete_file removes one file (or symlink) at a time, not a directory'') []), fs)
            | Some st \<Rightarrow>
                (case failing of
                   Some message \<Rightarrow> (Inl (error_result INTERNAL (''could not delete '' @ repr_str display @ '': '' @ message) []), fs)
                 | None \<Rightarrow> (Inr st, fs((dir @ [last parts]) := None)))))"

end
