(* ===== verification/Session_Life.thy ===== *)
theory Session_Life
  imports Session_Paths Languages Binary64
begin

text \<open>
  \<open>codecalc/sessions.py\<close>, the life of a session: its worker, its idle clock, the bounded cache of
  expired sessions with the marker on disk behind it, the liveness lock file, start, stop and the
  listing. The bookkeeping under the module's lock and the teardown after it are separate steps, as
  other threads may run in between. Clocks, fresh identities, the outcome of spawning a worker and
  what the operating system resolves a path to are arguments.
\<close>

section \<open>State\<close>

record worker =
  w_language :: string
  w_confined :: bool
  w_serial :: nat

record sessions =
  workers :: "(string \<times> worker) list"
  dir_identity :: "(string \<times> nat option) list"
  last_activity :: "(string \<times> rat) list"
  expired_set :: "string set"
  expired_order :: "string list"
  closing :: "(string \<times> worker) list"
  closed_serials :: "nat list"
  spawned :: nat
  dirs :: "path \<Rightarrow> workspace option"
  inode :: "path \<Rightarrow> nat option"
  outside :: "string list"

text \<open>
  \<open>closing\<close> are workers taken out of the table and not closed yet, \<open>closed_serials\<close> the serial numbers of the
  closed ones, \<open>spawned\<close> the number of workers ever made, \<open>outside\<close> the targets of links the server
  has written through.
\<close>

record site =
  realpath :: "path \<Rightarrow> path"
  session_root :: path
  link_is_file :: "string \<Rightarrow> bool"
  listing :: "workspace \<Rightarrow> dict list"

definition sdir :: "site \<Rightarrow> string \<Rightarrow> string + path" where
  "sdir st session_id = session_dir (realpath st) (session_root st) session_id"

section \<open>The idle time\<close>

datatype flt = Finite rat | Infinite bool | NotANumber

definition positive :: "flt \<Rightarrow> bool" where
  "positive v = (case v of Finite q \<Rightarrow> q > 0 | Infinite neg \<Rightarrow> \<not> neg | NotANumber \<Rightarrow> False)"

definition idle_ttl_seconds :: "(string \<Rightarrow> flt option) \<Rightarrow> string option \<Rightarrow> flt option" where
  "idle_ttl_seconds float env =
    (let raw = strip is_space (case env of None \<Rightarrow> [] | Some s \<Rightarrow> s)
     in if raw = [] then None
        else case float raw of None \<Rightarrow> None | Some ttl \<Rightarrow> if positive ttl then Some ttl else None)"

definition at_most :: "rat \<Rightarrow> flt \<Rightarrow> bool" where
  "at_most q v = (case v of Finite t \<Rightarrow> q \<le> t | Infinite neg \<Rightarrow> \<not> neg | NotANumber \<Rightarrow> False)"

section \<open>The cache of expired sessions\<close>

abbreviation EXPIRED_CAP :: nat where "EXPIRED_CAP \<equiv> 512"

fun trim_expired :: "string list \<Rightarrow> string set \<Rightarrow> string list \<times> string set" where
  "trim_expired [] known = ([], known)"
| "trim_expired (x # xs) known =
    (if length (x # xs) > EXPIRED_CAP then trim_expired xs (known - {x}) else (x # xs, known))"

definition mark_expired :: "string \<Rightarrow> sessions \<Rightarrow> sessions" where
  "mark_expired sid s =
    (if sid \<in> expired_set s then s
     else case trim_expired (expired_order s @ [sid]) (insert sid (expired_set s)) of
       (order, known) \<Rightarrow> s\<lparr>expired_order := order, expired_set := known\<rparr>)"

definition discard_expired :: "string \<Rightarrow> sessions \<Rightarrow> sessions" where
  "discard_expired sid s =
    (if sid \<notin> expired_set s then s
     else s\<lparr>expired_set := expired_set s - {sid}, expired_order := remove1 sid (expired_order s)\<rparr>)"

section \<open>Files in the workspace\<close>

definition put_entry :: "path \<Rightarrow> path \<Rightarrow> entry option \<Rightarrow> sessions \<Rightarrow> sessions" where
  "put_entry d p e s = s\<lparr>dirs := (dirs s)(d := map_option (\<lambda>fs. fs(p := e)) (dirs s d))\<rparr>"

text \<open>
  \<open>_write_expired_marker\<close> opens the marker with \<open>write_text\<close>, which follows a link; every failure is
  swallowed. \<open>writable\<close> is whether the file system takes the write.
\<close>

definition write_expired_marker :: "site \<Rightarrow> bool \<Rightarrow> string \<Rightarrow> string \<Rightarrow> sessions \<Rightarrow> sessions" where
  "write_expired_marker st writable content sid s =
    (case sdir st sid of
       Inl e \<Rightarrow> s
     | Inr d \<Rightarrow>
         (case dirs s d of
            None \<Rightarrow> s
          | Some fs \<Rightarrow>
              if \<not> writable then s
              else (case fs [EXPIRED_MARKER_NAME] of
                      Some Directory \<Rightarrow> s
                    | Some (Symlink t) \<Rightarrow> s\<lparr>outside := outside s @ [t]\<rparr>
                    | _ \<Rightarrow> put_entry d [EXPIRED_MARKER_NAME] (Some (Regular content)) s)))"

definition is_expired_on_disk :: "site \<Rightarrow> string \<Rightarrow> sessions \<Rightarrow> bool" where
  "is_expired_on_disk st sid s =
    (case sdir st sid of
       Inl e \<Rightarrow> False
     | Inr d \<Rightarrow>
         (case dirs s d of
            None \<Rightarrow> False
          | Some fs \<Rightarrow>
              (case fs [EXPIRED_MARKER_NAME] of
                 Some (Regular c) \<Rightarrow> True | Some (Symlink t) \<Rightarrow> link_is_file st t | _ \<Rightarrow> False)))"

text \<open>\<open>_write_lock_file\<close> follows no link; \<open>_remove_lock_file\<close> removes whatever is not a directory.\<close>

definition write_lock_file :: "bool \<Rightarrow> string \<Rightarrow> path \<Rightarrow> sessions \<Rightarrow> sessions" where
  "write_lock_file writable pid d s =
    (case dirs s d of
       None \<Rightarrow> s
     | Some fs \<Rightarrow>
         if \<not> writable then s
         else (case fs [LOCK_FILE_NAME] of
                 Some Directory \<Rightarrow> s | Some (Symlink t) \<Rightarrow> s
               | _ \<Rightarrow> put_entry d [LOCK_FILE_NAME] (Some (Regular pid)) s))"

definition remove_lock_file :: "site \<Rightarrow> string \<Rightarrow> sessions \<Rightarrow> sessions" where
  "remove_lock_file st sid s =
    (case sdir st sid of
       Inl e \<Rightarrow> s
     | Inr d \<Rightarrow>
         (case dirs s d of
            None \<Rightarrow> s
          | Some fs \<Rightarrow> if fs [LOCK_FILE_NAME] = Some Directory then s else put_entry d [LOCK_FILE_NAME] None s))"

section \<open>Activity and expiry\<close>

definition touch :: "rat \<Rightarrow> string \<Rightarrow> sessions \<Rightarrow> sessions" where
  "touch now sid s = s\<lparr>last_activity := AList.update sid now (last_activity s)\<rparr>"

definition note_activity :: "rat \<Rightarrow> string \<Rightarrow> sessions \<Rightarrow> sessions" where
  "note_activity now sid s = (if map_of (workers s) sid \<noteq> None then touch now sid s else s)"

definition maybe_reap_locked :: "flt option \<Rightarrow> rat \<Rightarrow> string \<Rightarrow> sessions \<Rightarrow> worker option \<times> sessions" where
  "maybe_reap_locked ttl now sid s =
    (case ttl of
       None \<Rightarrow> (None, s)
     | Some limit \<Rightarrow>
         (case (map_of (workers s) sid, map_of (last_activity s) sid) of
            (Some w, Some seen) \<Rightarrow>
              if at_most (rnd (now - seen)) limit then (None, s)
              else (Some w, mark_expired sid (s\<lparr>workers := AList.delete sid (workers s),
                     last_activity := AList.delete sid (last_activity s)\<rparr>))
          | _ \<Rightarrow> (None, s)))"

text \<open>The bookkeeping under the lock, with the worker it took out remembered until it is closed.\<close>

definition reap_locked :: "flt option \<Rightarrow> rat \<Rightarrow> string \<Rightarrow> sessions \<Rightarrow> worker option \<times> sessions" where
  "reap_locked ttl now sid s =
    (case maybe_reap_locked ttl now sid s of
       (None, s') \<Rightarrow> (None, s')
     | (Some w, s') \<Rightarrow> (Some w, s'\<lparr>closing := closing s' @ [(sid, w)]\<rparr>))"

definition close_worker :: "string \<Rightarrow> worker \<Rightarrow> sessions \<Rightarrow> sessions" where
  "close_worker sid w s = s\<lparr>closing := remove1 (sid, w) (closing s), closed_serials := closed_serials s @ [w_serial w]\<rparr>"

definition finish_reap :: "site \<Rightarrow> bool \<Rightarrow> string \<Rightarrow> string \<Rightarrow> worker \<Rightarrow> sessions \<Rightarrow> sessions" where
  "finish_reap st writable content sid w s =
    remove_lock_file st sid (write_expired_marker st writable content sid (close_worker sid w s))"

definition reap_if_idle :: "site \<Rightarrow> bool \<Rightarrow> string \<Rightarrow> flt option \<Rightarrow> rat \<Rightarrow> string \<Rightarrow> sessions \<Rightarrow> bool \<times> sessions" where
  "reap_if_idle st writable content ttl now sid s =
    (case reap_locked ttl now sid s of
       (None, s') \<Rightarrow> (False, s')
     | (Some w, s') \<Rightarrow> (True, finish_reap st writable content sid w s'))"

definition reap_then_note :: "site \<Rightarrow> bool \<Rightarrow> string \<Rightarrow> flt option \<Rightarrow> rat \<Rightarrow> string \<Rightarrow> sessions \<Rightarrow> sessions" where
  "reap_then_note st writable content ttl now sid s =
    note_activity now sid (snd (reap_if_idle st writable content ttl now sid s))"

definition get_worker_or_expired :: "site \<Rightarrow> bool \<Rightarrow> string \<Rightarrow> flt option \<Rightarrow> rat \<Rightarrow> string \<Rightarrow> sessions
    \<Rightarrow> (worker option \<times> bool) \<times> sessions" where
  "get_worker_or_expired st writable content ttl now sid s =
    (if sid \<in> expired_set s then ((None, True), s)
     else case reap_locked ttl now sid s of
         (Some w, s') \<Rightarrow> ((None, True), finish_reap st writable content sid w s')
       | (None, s') \<Rightarrow>
           let w = map_of (workers s') sid
           in if w = None \<and> ttl \<noteq> None \<and> is_expired_on_disk st sid s' then ((None, True), s')
              else ((w, False), s'))"

fun sweep_candidates :: "site \<Rightarrow> bool \<Rightarrow> string \<Rightarrow> flt option \<Rightarrow> rat \<Rightarrow> string list \<Rightarrow> sessions \<Rightarrow> string list \<times> sessions" where
  "sweep_candidates st writable content ttl now [] s = ([], s)"
| "sweep_candidates st writable content ttl now (sid # sids) s =
    (case reap_if_idle st writable content ttl now sid s of
       (reaped, s') \<Rightarrow>
         (case sweep_candidates st writable content ttl now sids s' of
            (rest, s'') \<Rightarrow> (if reaped then sid # rest else rest, s'')))"

definition sweep_idle_sessions :: "site \<Rightarrow> bool \<Rightarrow> string \<Rightarrow> flt option \<Rightarrow> rat \<Rightarrow> sessions \<Rightarrow> string list \<times> sessions" where
  "sweep_idle_sessions st writable content ttl now s =
    (if ttl = None then ([], s) else sweep_candidates st writable content ttl now (map fst (workers s)) s)"

section \<open>What a worker does not enforce\<close>

definition SESSION_STRUCTURAL_GAPS :: "(string \<times> string) list" where
  "SESSION_STRUCTURAL_GAPS =
    [(''sandbox_backend'', ''the worker is a plain subprocess, not codecalc-exec: the Rust executor'' @ [CHR 0x27]
       @ ''s ceilings, argv/env handling and its own unenforced reporting do not apply to this call''),
     (''no_net'', ''enforcement (seccomp where the Linux kernel supports it, a symbol shim otherwise) is applied at exec and a worker is long-lived, so this session reaches the network''),
     (''process_group_kill'', ''applied per call on the one-shot path; here the worker'' @ [CHR 0x27]
       @ ''s group is reaped at timeout or session_stop, so a background child outlives the call that started it''),
     (''peak_memory_kb'', ''not measured for worker calls; the field is null rather than zero'')]"

text \<open>The Landlock version of the kernel and what Landlock leaves open (\<open>landlock.py\<close>) are arguments.\<close>

definition session_unenforced :: "nat \<Rightarrow> string list \<Rightarrow> worker option \<Rightarrow> string list" where
  "session_unenforced abi reasons w =
    (case w of
       None \<Rightarrow> []
     | Some w \<Rightarrow> map (\<lambda>(k, v). k @ '': '' @ v) SESSION_STRUCTURAL_GAPS
         @ (if \<not> w_confined w
            then [''filesystem_confinement: the worker can read any path this user can; Landlock is unavailable here (''
                  @ (if abi = 0 then ''kernel reports Landlock ABI 0'' else ''ABI '' @ nat_str abi) @ '')'']
            else reasons))"

section \<open>Start, stop and the listing\<close>

definition identity :: "path \<Rightarrow> sessions \<Rightarrow> nat option" where
  "identity d s = (if dirs s d = None then None else inode s d)"

text \<open>\<open>mkdir(parents=True, exist_ok=True)\<close>: a new directory has the identity the file system gives it.\<close>

definition make_dir :: "nat option \<Rightarrow> path \<Rightarrow> sessions \<Rightarrow> sessions" where
  "make_dir ino d s = (if dirs s d \<noteq> None then s
     else s\<lparr>dirs := (dirs s)(d := Some (Map.empty([] \<mapsto> Directory))), inode := (inode s)(d := ino)\<rparr>)"

definition record_identity :: "string \<Rightarrow> path \<Rightarrow> sessions \<Rightarrow> sessions" where
  "record_identity sid d s = s\<lparr>dir_identity := AList.update sid (identity d s) (dir_identity s)\<rparr>"

definition WORKER_LANGS :: "string list" where
  "WORKER_LANGS = [''python3'', ''node'']"

definition new_session_id :: "string \<Rightarrow> string \<Rightarrow> string" where
  "new_session_id name hex = name @ ''-'' @ take 8 hex"

text \<open>
  The workdir and the files of a directory in a result; \<open>_spawn_worker\<close> answers with a reason or with
  whether the worker is confined.
\<close>

definition workdir_text :: "path \<Rightarrow> string" where
  "workdir_text d = concat (map (\<lambda>c. SLASH # c) d)"

definition files_of :: "site \<Rightarrow> path \<Rightarrow> sessions \<Rightarrow> pyval" where
  "files_of st d s = PList (map PDict (case dirs s d of None \<Rightarrow> [] | Some fs \<Rightarrow> listing st fs))"

definition publish_worker :: "rat \<Rightarrow> string \<Rightarrow> worker \<Rightarrow> sessions \<Rightarrow> sessions" where
  "publish_worker now sid w s = discard_expired sid (touch now sid (s\<lparr>workers := AList.update sid w (workers s)\<rparr>))"

definition start :: "site \<Rightarrow> nat \<Rightarrow> string list \<Rightarrow> bool \<Rightarrow> string \<Rightarrow> nat option \<Rightarrow> string option + bool \<Rightarrow> rat \<Rightarrow> string \<Rightarrow> string \<Rightarrow> sessions
    \<Rightarrow> (string + dict) \<times> sessions" where
  "start st abi reasons writable pid ino spawning now hex language s =
    (let name = (case canonical language of Some l \<Rightarrow> l | None \<Rightarrow> ''python3''); sid = new_session_id name hex in
     case sdir st sid of
       Inl e \<Rightarrow> (Inl e, s)
     | Inr d \<Rightarrow>
         let s1 = record_identity sid d (make_dir ino d s) in
         if \<not> List.member WORKER_LANGS name
         then (Inr [(''ok'', PBool True), (''session_id'', PStr sid), (''language'', PStr name), (''stateful'', PBool False),
                    (''workdir'', PStr (workdir_text d)), (''files'', files_of st d s1)], s1)
         else case spawning of
             Inl why \<Rightarrow>
               (Inr [(''ok'', PBool False), (''error'', PStr (''failed to start '' @ name @ '' REPL worker: ''
                  @ (case why of Some m \<Rightarrow> if m = [] then ''unknown cause'' else m | None \<Rightarrow> ''unknown cause'')))], s1)
           | Inr confined \<Rightarrow>
               let w = \<lparr>w_language = name, w_confined = confined, w_serial = spawned s1\<rparr>;
                   s2 = publish_worker now sid w (write_lock_file writable pid d (s1\<lparr>spawned := Suc (spawned s1)\<rparr>))
               in (Inr [(''ok'', PBool True), (''session_id'', PStr sid), (''language'', PStr name), (''stateful'', PBool True),
                        (''workdir'', PStr (workdir_text d)), (''files'', files_of st d s2), (''confined'', PBool confined),
                        (''unenforced'', PList (map PStr (session_unenforced abi reasons (Some w))))], s2))"

text \<open>The first half of \<open>stop\<close>, under the lock: the session is forgotten.\<close>

definition stop_locked :: "string \<Rightarrow> sessions \<Rightarrow> (worker option \<times> nat option) \<times> sessions" where
  "stop_locked sid s =
    (let w = map_of (workers s) sid
     in ((w, case map_of (dir_identity s) sid of Some i \<Rightarrow> i | None \<Rightarrow> None),
         discard_expired sid (s\<lparr>workers := AList.delete sid (workers s), dir_identity := AList.delete sid (dir_identity s),
            last_activity := AList.delete sid (last_activity s),
            closing := closing s @ (case w of None \<Rightarrow> [] | Some w \<Rightarrow> [(sid, w)])\<rparr>)))"

text \<open>\<open>executor._rmtree_checked\<close>: \<open>left\<close> is what the removal leaves behind.\<close>

definition rmtree_checked :: "workspace option \<Rightarrow> path \<Rightarrow> nat option \<Rightarrow> sessions \<Rightarrow> bool \<times> sessions" where
  "rmtree_checked left d created s =
    (if created = None \<or> identity d s \<noteq> created then (False, s)
     else (left = None, s\<lparr>dirs := (dirs s)(d := left)\<rparr>))"

definition stop_rest :: "site \<Rightarrow> workspace option \<Rightarrow> nat \<Rightarrow> bool \<Rightarrow> string \<Rightarrow> worker option \<Rightarrow> nat option \<Rightarrow> sessions \<Rightarrow> dict \<times> sessions" where
  "stop_rest st left snapshots keep_snapshots sid w created s =
    (let s1 = (case w of None \<Rightarrow> s | Some w \<Rightarrow> remove_lock_file st sid (close_worker sid w s)) in
     case sdir st sid of
       Inl e \<Rightarrow> (guard_error e, s1)
     | Inr d \<Rightarrow>
         (case rmtree_checked left d created s1 of
            (deleted, s2) \<Rightarrow>
              ([(''ok'', PBool True), (''session_id'', PStr sid), (''deleted'', PBool deleted)]
               @ (if keep_snapshots then [] else [(''snapshots_deleted'', PInt (int snapshots))]), s2)))"

definition stop :: "site \<Rightarrow> workspace option \<Rightarrow> nat \<Rightarrow> bool \<Rightarrow> string \<Rightarrow> sessions \<Rightarrow> dict \<times> sessions" where
  "stop st left snapshots keep_snapshots sid s =
    (case stop_locked sid s of ((w, created), s') \<Rightarrow> stop_rest st left snapshots keep_snapshots sid w created s')"

abbreviation SNAPSHOT_DIRNAME :: string where "SNAPSHOT_DIRNAME \<equiv> ''.codecalc-snapshots''"
abbreviation RESTORE_TMP_PREFIX :: string where "RESTORE_TMP_PREFIX \<equiv> ''.codecalc-restore-''"

text \<open>The entries of the session root, each with whether it is a directory, are an argument.\<close>

definition session_row :: "string \<Rightarrow> string \<Rightarrow> bool \<Rightarrow> string \<Rightarrow> bool \<Rightarrow> dict" where
  "session_row sid language stateful workdir alive =
    [(''session_id'', PStr sid), (''language'', PStr language), (''stateful'', PBool stateful), (''workdir'', PStr workdir), (''alive'', PBool alive)]"

definition list_sessions :: "site \<Rightarrow> (nat \<Rightarrow> bool) \<Rightarrow> (string \<times> bool) list \<Rightarrow> sessions \<Rightarrow> string + dict" where
  "list_sessions st alive entries s =
    rbind (rmap (\<lambda>(sid, w). rbind (sdir st sid) (\<lambda>d. Inr (session_row sid (w_language w) True (workdir_text d) (alive (w_serial w))))) (workers s))
      (\<lambda>live. Inr [(''ok'', PBool True), (''sessions'', PList (map PDict (live
         @ map (\<lambda>(name, is_dir). session_row name ''?'' False (workdir_text (session_root st @ [name])) False)
             (filter (\<lambda>(name, is_dir). name \<noteq> SNAPSHOT_DIRNAME \<and> \<not> prefix RESTORE_TMP_PREFIX name \<and> is_dir
                 \<and> map_of (workers s) name = None) entries))))])"

section \<open>A plain site\<close>

definition plain_site :: site where
  "plain_site = \<lparr>realpath = id, session_root = [''srv''], link_is_file = (\<lambda>t. False), listing = (\<lambda>fs. [])\<rparr>"

definition no_sessions :: sessions where
  "no_sessions = \<lparr>workers = [], dir_identity = [], last_activity = [], expired_set = {}, expired_order = [], closing = [],
     closed_serials = [], spawned = 0, dirs = Map.empty, inode = Map.empty, outside = []\<rparr>"

end
