(* ===== verification/Session_Invariant.thy ===== *)
theory Session_Invariant
  imports Session_Life "HOL-Library.Multiset"
begin

text \<open>
  The interleavings of the session table as a step relation, and the invariant of its bookkeeping: who
  has a worker, who has an idle clock, who is expired, and where every worker ever spawned is.
\<close>

section \<open>The steps of the session table\<close>

text \<open>
  One step of any thread: the parts of an operation under the module's lock are one step each, what
  they leave for later is another, and the programs that run in the workspaces may change any of them.
  The label is the identity a step starts, if any.
\<close>

inductive life_step :: "site \<Rightarrow> string option \<Rightarrow> sessions \<Rightarrow> sessions \<Rightarrow> bool" for st where
  started: "start st abi reasons writable pid ino spawning now hex language s = (r, s')
     \<Longrightarrow> sid = new_session_id (case canonical language of Some l \<Rightarrow> l | None \<Rightarrow> ''python3'') hex
     \<Longrightarrow> map_of (workers s) sid = None \<Longrightarrow> life_step st (Some sid) s s'"
| reaped: "reap_locked ttl now sid s = (w, s') \<Longrightarrow> life_step st None s s'"
| finished: "(sid, w) \<in> set (closing s) \<Longrightarrow> life_step st None s (finish_reap st writable content sid w s)"
| noted: "life_step st None s (note_activity now sid s)"
| stopping: "stop_locked sid s = (r, s') \<Longrightarrow> life_step st None s s'"
| stopped: "stop_rest st left snapshots keep sid w created s = (r, s') \<Longrightarrow> (case w of None \<Rightarrow> True | Some v \<Rightarrow> (sid, v) \<in> set (closing s))
     \<Longrightarrow> life_step st None s s'"
| ran: "life_step st None s (s\<lparr>dirs := fs, inode := ino\<rparr>)"

inductive life_reachable :: "site \<Rightarrow> sessions \<Rightarrow> bool" for st where
  fresh: "life_reachable st \<lparr>workers = [], dir_identity = [], last_activity = [], expired_set = {}, expired_order = [], closing = [],
     closed_serials = [], spawned = 0, dirs = fs, inode = ino, outside = []\<rparr>"
| more: "life_reachable st s \<Longrightarrow> life_step st a s s' \<Longrightarrow> life_reachable st s'"

section \<open>The invariant\<close>

definition serials :: "(string \<times> worker) list \<Rightarrow> nat list" where
  "serials ws = map (w_serial \<circ> snd) ws"

definition wf_life :: "sessions \<Rightarrow> bool" where
  "wf_life s \<longleftrightarrow> distinct (map fst (workers s)) \<and> dom (map_of (last_activity s)) = dom (map_of (workers s))
     \<and> distinct (expired_order s) \<and> set (expired_order s) = expired_set s \<and> length (expired_order s) \<le> EXPIRED_CAP
     \<and> expired_set s \<inter> dom (map_of (workers s)) = {}
     \<and> mset (serials (workers s)) + mset (serials (closing s)) + mset (closed_serials s) = mset [0..<spawned s]"

text \<open>The part of the state the invariant speaks of.\<close>

definition core :: "sessions \<Rightarrow> (string \<times> worker) list \<times> (string \<times> rat) list \<times> string set \<times> string list \<times> (string \<times> worker) list \<times> nat list \<times> nat" where
  "core s = (workers s, last_activity s, expired_set s, expired_order s, closing s, closed_serials s, spawned s)"

lemma wf_life_core: "core s = core s' \<Longrightarrow> wf_life s \<longleftrightarrow> wf_life s'"
  by (simp add: core_def wf_life_def)

lemma core_dirs [simp]:
  "core (put_entry d p e s) = core s" "core (write_expired_marker st b c sid s) = core s" "core (remove_lock_file st sid s) = core s"
  "core (write_lock_file b pid d s) = core s" "core (make_dir ino d s) = core s" "core (record_identity sid d s) = core s"
  "core (s\<lparr>dirs := fs, inode := ino'\<rparr>) = core s" "core (s\<lparr>dirs := fs\<rparr>) = core s"
  by (simp_all add: core_def put_entry_def write_expired_marker_def remove_lock_file_def write_lock_file_def make_dir_def record_identity_def
      split: sum.split option.split entry.split)

lemma core_fields: "core s = core s' \<Longrightarrow> workers s = workers s' \<and> last_activity s = last_activity s' \<and> expired_set s = expired_set s'
    \<and> expired_order s = expired_order s' \<and> closing s = closing s' \<and> closed_serials s = closed_serials s' \<and> spawned s = spawned s'"
  by (simp add: core_def)

lemma trim_short: "length xs \<le> EXPIRED_CAP \<Longrightarrow> trim_expired xs known = (xs, known)"
  by (cases xs) auto

lemma trim_append:
  assumes "distinct xs" "x \<notin> set xs" "length xs \<le> EXPIRED_CAP" "known = set xs"
  obtains order where "trim_expired (xs @ [x]) (insert x known) = (order, set order)" "distinct order" "x \<in> set order"
    "set order \<subseteq> insert x known" "length order \<le> EXPIRED_CAP"
proof (cases "length xs < EXPIRED_CAP")
  case True
  then have "trim_expired (xs @ [x]) (insert x known) = (xs @ [x], insert x known)" by (intro trim_short) simp
  with assms that [of "xs @ [x]"] True show thesis by auto
next
  case False
  with assms(3) have len: "length xs = EXPIRED_CAP" by simp
  then obtain y ys where xs: "xs = y # ys" by (cases xs) auto
  have "trim_expired (xs @ [x]) (insert x known) = (ys @ [x], insert x known - {y})"
    using len xs trim_short [of "ys @ [x]" "insert x known - {y}"] by simp
  moreover have "insert x known - {y} = set (ys @ [x])" using assms xs by auto
  ultimately show thesis using that [of "ys @ [x]"] assms xs len by auto
qed

lemma mark_expired_wf:
  assumes "distinct (expired_order s)" "set (expired_order s) = expired_set s" "length (expired_order s) \<le> EXPIRED_CAP"
  shows "distinct (expired_order (mark_expired sid s))" "set (expired_order (mark_expired sid s)) = expired_set (mark_expired sid s)"
    "length (expired_order (mark_expired sid s)) \<le> EXPIRED_CAP" "sid \<in> expired_set (mark_expired sid s)"
    "expired_set (mark_expired sid s) \<subseteq> insert sid (expired_set s)"
proof -
  have "distinct (expired_order (mark_expired sid s)) \<and> set (expired_order (mark_expired sid s)) = expired_set (mark_expired sid s)
    \<and> length (expired_order (mark_expired sid s)) \<le> EXPIRED_CAP \<and> sid \<in> expired_set (mark_expired sid s)
    \<and> expired_set (mark_expired sid s) \<subseteq> insert sid (expired_set s)"
  proof (cases "sid \<in> expired_set s")
    case True
    then show ?thesis using assms by (auto simp: mark_expired_def)
  next
    case False
    then have "sid \<notin> set (expired_order s)" using assms(2) by simp
    then obtain order where "trim_expired (expired_order s @ [sid]) (insert sid (expired_set s)) = (order, set order)" "distinct order"
      "sid \<in> set order" "set order \<subseteq> insert sid (expired_set s)" "length order \<le> EXPIRED_CAP"
      using trim_append [of "expired_order s" sid "expired_set s"] assms by metis
    then show ?thesis using False by (simp add: mark_expired_def)
  qed
  then show "distinct (expired_order (mark_expired sid s))" "set (expired_order (mark_expired sid s)) = expired_set (mark_expired sid s)"
    "length (expired_order (mark_expired sid s)) \<le> EXPIRED_CAP" "sid \<in> expired_set (mark_expired sid s)"
    "expired_set (mark_expired sid s) \<subseteq> insert sid (expired_set s)" by blast+
qed

lemma mark_expired_other [simp]:
  "workers (mark_expired sid s) = workers s" "last_activity (mark_expired sid s) = last_activity s" "closing (mark_expired sid s) = closing s"
  "closed_serials (mark_expired sid s) = closed_serials s" "spawned (mark_expired sid s) = spawned s" "dirs (mark_expired sid s) = dirs s"
  by (simp_all add: mark_expired_def split: prod.split)

lemma discard_expired_simps [simp]:
  "workers (discard_expired sid s) = workers s" "last_activity (discard_expired sid s) = last_activity s" "closing (discard_expired sid s) = closing s"
  "closed_serials (discard_expired sid s) = closed_serials s" "spawned (discard_expired sid s) = spawned s"
  "expired_set (discard_expired sid s) = expired_set s - {sid}"
  by (auto simp: discard_expired_def)

lemma discard_expired_order:
  assumes "distinct (expired_order s)" "set (expired_order s) = expired_set s"
  shows "distinct (expired_order (discard_expired sid s))" "set (expired_order (discard_expired sid s)) = expired_set s - {sid}"
    "length (expired_order (discard_expired sid s)) \<le> length (expired_order s)"
  using assms by (auto simp: discard_expired_def distinct_remove1 length_remove1)

text \<open>Taking a worker out of the table.\<close>

lemma serials_delete:
  assumes "distinct (map fst ws)" "map_of ws sid = Some w"
  shows "mset (serials ws) = add_mset (w_serial w) (mset (serials (AList.delete sid ws)))"
  using assms
proof (induction ws)
  case (Cons p ws)
  show ?case
  proof (cases "fst p = sid")
    case True
    then have "AList.delete sid ws = ws" using Cons.prems(1) by (intro delete_id) auto
    then show ?thesis using True Cons.prems by (cases p) (auto simp: serials_def)
  next
    case False
    then show ?thesis using Cons by (cases p) (auto simp: serials_def)
  qed
qed simp

lemma delete_absent [simp]: "map_of ws sid = None \<Longrightarrow> AList.delete sid ws = ws"
  by (intro delete_id) (simp add: map_of_eq_None_iff)

lemma serials_remove1:
  assumes "(sid, w) \<in> set ws"
  shows "mset (serials ws) = add_mset (w_serial w) (mset (serials (remove1 (sid, w) ws)))"
  using assms by (induction ws) (auto simp: serials_def)

lemma serials_update_new: "map_of ws sid = None \<Longrightarrow> mset (serials (AList.update sid w ws)) = add_mset (w_serial w) (mset (serials ws))"
  by (induction ws) (auto simp: serials_def split: if_splits)

lemma dom_map_of_delete [simp]: "dom (map_of (AList.delete k al)) = dom (map_of al) - {k}"
  by (auto simp: delete_conv' dom_def)

lemma dom_map_of_update [simp]: "dom (map_of (AList.update k v al)) = insert k (dom (map_of al))"
  by (auto simp: update_conv' dom_def)

lemma distinct_update' [simp]: "distinct (map fst al) \<Longrightarrow> distinct (map fst (AList.update k v al))"
  by (rule distinct_update)

lemma distinct_delete' [simp]: "distinct (map fst al) \<Longrightarrow> distinct (map fst (AList.delete k al))"
  by (rule distinct_delete)


lemma wf_lifeI:
  assumes "distinct (map fst (workers s))" "dom (map_of (last_activity s)) = dom (map_of (workers s))"
    "distinct (expired_order s)" "set (expired_order s) = expired_set s" "length (expired_order s) \<le> EXPIRED_CAP"
    "expired_set s \<inter> dom (map_of (workers s)) = {}"
    "mset (serials (workers s)) + mset (serials (closing s)) + mset (closed_serials s) = mset [0..<spawned s]"
  shows "wf_life s"
  using assms unfolding wf_life_def by (intro conjI)

lemma wf_lifeD:
  assumes "wf_life s"
  shows "distinct (map fst (workers s))" "dom (map_of (last_activity s)) = dom (map_of (workers s))"
    "distinct (expired_order s)" "set (expired_order s) = expired_set s" "length (expired_order s) \<le> EXPIRED_CAP"
    "expired_set s \<inter> dom (map_of (workers s)) = {}"
    "mset (serials (workers s)) + mset (serials (closing s)) + mset (closed_serials s) = mset [0..<spawned s]"
  using assms by (simp_all add: wf_life_def del: mset_upt)

text \<open>A session leaves the table, its worker, if any, waiting to be closed_serials.\<close>

lemma take_out_wf:
  assumes "wf_life s"
  shows "wf_life (s\<lparr>workers := AList.delete sid (workers s), dir_identity := ids, last_activity := AList.delete sid (last_activity s),
            closing := closing s @ (case map_of (workers s) sid of None \<Rightarrow> [] | Some w \<Rightarrow> [(sid, w)])\<rparr>)"
proof (rule wf_lifeI, simp_all del: mset_upt)
  note wf = wf_lifeD [OF assms]
  show "distinct (map fst (AList.delete sid (workers s)))" using wf(1) by (rule distinct_delete)
  show "dom (map_of (last_activity s)) - {sid} = dom (map_of (workers s)) - {sid}" using wf(2) by simp
  show "expired_set s \<inter> (dom (map_of (workers s)) - {sid}) = {}" using wf(6) by blast
  show "mset (serials (AList.delete sid (workers s)))
      + mset (serials (closing s @ (case map_of (workers s) sid of None \<Rightarrow> [] | Some w \<Rightarrow> [(sid, w)]))) + mset (closed_serials s) = mset [0..<spawned s]"
  proof (cases "map_of (workers s) sid")
    case None
    then show ?thesis using wf(7) by simp
  next
    case (Some w)
    then show ?thesis using wf(7) serials_delete [OF wf(1) Some] by (simp add: serials_def)
  qed
qed (use wf_lifeD [OF assms] in simp_all)

lemma discard_wf:
  assumes "wf_life s"
  shows "wf_life (discard_expired sid s)"
proof -
  note wf = wf_lifeD [OF assms]
  note o = discard_expired_order [OF wf(3,4), of sid]
  have "expired_set (discard_expired sid s) \<inter> dom (map_of (workers s)) = {}" using wf(6) by (simp only: discard_expired_simps) blast
  moreover have "length (expired_order (discard_expired sid s)) \<le> EXPIRED_CAP" using o(3) wf(5) by (rule le_trans)
  ultimately show ?thesis using wf(1,2,7) o(1,2) unfolding wf_life_def by (simp only: discard_expired_simps)
qed

lemma mark_wf:
  assumes "wf_life s" "map_of (workers s) sid = None"
  shows "wf_life (mark_expired sid s)"
proof -
  note wf = wf_lifeD [OF assms(1)]
  note m = mark_expired_wf [OF wf(3,4,5), of sid]
  have "expired_set (mark_expired sid s) \<inter> dom (map_of (workers s)) = {}"
    using m(5) wf(6) domIff [of sid "map_of (workers s)"] assms(2) by fast
  then show ?thesis using wf(1,2,7) m(1,2,3) unfolding wf_life_def by (simp only: mark_expired_other)
qed

lemma reap_locked_cases:
  assumes "reap_locked ttl now sid s = (r, s')"
  obtains (stays) "r = None" "s' = s"
  | (goes) w seen limit where "r = Some w" "ttl = Some limit" "map_of (workers s) sid = Some w" "map_of (last_activity s) sid = Some seen"
      "\<not> at_most (rnd (now - seen)) limit"
      "s' = mark_expired sid (s\<lparr>workers := AList.delete sid (workers s), dir_identity := dir_identity s,
              last_activity := AList.delete sid (last_activity s), closing := closing s @ [(sid, w)]\<rparr>)"
proof (cases "\<exists>w seen limit. ttl = Some limit \<and> map_of (workers s) sid = Some w \<and> map_of (last_activity s) sid = Some seen
    \<and> \<not> at_most (rnd (now - seen)) limit")
  case True
  then obtain w seen limit where c: "ttl = Some limit" "map_of (workers s) sid = Some w" "map_of (last_activity s) sid = Some seen"
    "\<not> at_most (rnd (now - seen)) limit" by blast
  have "mark_expired sid (s\<lparr>workers := ws, last_activity := la\<rparr>)\<lparr>closing := cl\<rparr>
    = mark_expired sid (s\<lparr>workers := ws, dir_identity := dir_identity s, last_activity := la, closing := cl\<rparr>)" for ws la cl
    by (simp add: mark_expired_def split: prod.split)
  with assms c show thesis by (intro goes [of w limit seen]) (auto simp: reap_locked_def maybe_reap_locked_def)
next
  case False
  then have "maybe_reap_locked ttl now sid s = (None, s)"
    unfolding maybe_reap_locked_def
    by (cases ttl; cases "map_of (workers s) sid"; cases "map_of (last_activity s) sid") auto
  with assms show thesis by (intro stays) (auto simp: reap_locked_def)
qed

lemma reap_locked_wf:
  assumes "wf_life s" "reap_locked ttl now sid s = (r, s')"
  shows "wf_life s'"
  using assms(2)
proof (cases rule: reap_locked_cases)
  case stays
  then show ?thesis using assms(1) by simp
next
  case (goes w seen limit)
  then show ?thesis using take_out_wf [OF assms(1), of sid "dir_identity s"] by (auto intro!: mark_wf simp: delete_conv')
qed

lemma close_worker_wf:
  assumes "wf_life s" "(sid, w) \<in> set (closing s)"
  shows "wf_life (close_worker sid w s)"
  using wf_lifeD [OF assms(1)] serials_remove1 [OF assms(2)] unfolding close_worker_def
  by (intro wf_lifeI) (simp_all del: mset_upt)

lemma finish_reap_wf:
  assumes "wf_life s" "(sid, w) \<in> set (closing s)"
  shows "wf_life (finish_reap st writable content sid w s)"
proof -
  have "core (finish_reap st writable content sid w s) = core (close_worker sid w s)" by (simp add: finish_reap_def)
  then show ?thesis using close_worker_wf [OF assms] wf_life_core by blast
qed

lemma note_activity_wf:
  assumes "wf_life s"
  shows "wf_life (note_activity now sid s)"
proof (cases "map_of (workers s) sid")
  case None
  then show ?thesis using assms by (simp add: note_activity_def)
next
  case (Some w)
  then have "insert sid (dom (map_of (workers s))) = dom (map_of (workers s))" by auto
  with Some show ?thesis using wf_lifeD [OF assms] unfolding note_activity_def touch_def
    by (intro wf_lifeI) (simp_all del: mset_upt)
qed

lemma stop_locked_wf:
  assumes "wf_life s" "stop_locked sid s = (r, s')"
  shows "wf_life s'"
  using assms(2) discard_wf [OF take_out_wf [OF assms(1)]] by (auto simp: stop_locked_def Let_def)

lemma stop_rest_core:
  assumes "stop_rest st left snapshots keep sid w created s = (r, s')"
  shows "core s' = core (case w of None \<Rightarrow> s | Some v \<Rightarrow> close_worker sid v s)"
  using assms by (auto simp: stop_rest_def rmtree_checked_def Let_def split: option.splits sum.splits if_splits)

lemma publish_wf:
  assumes "wf_life s" "map_of (workers s) sid = None" "w_serial w = spawned s" "core t = core (s\<lparr>spawned := Suc (spawned s)\<rparr>)"
  shows "wf_life (publish_worker now sid w t)"
proof -
  note wf = wf_lifeD [OF assms(1)]
  note c = core_fields [OF assms(4)]
  let ?u = "touch now sid (t\<lparr>workers := AList.update sid w (workers t)\<rparr>)"
  have "distinct (expired_order ?u)" "set (expired_order ?u) = expired_set ?u" using wf c by (auto simp: touch_def)
  note o = discard_expired_order [OF this, of sid]
  have serials: "mset (serials (AList.update sid w (workers s))) = add_mset (spawned s) (mset (serials (workers s)))"
    using serials_update_new [OF assms(2)] assms(3) by simp
  show ?thesis unfolding publish_worker_def
  proof (rule wf_lifeI)
    show "mset (serials (workers (discard_expired sid ?u))) + mset (serials (closing (discard_expired sid ?u))) + mset (closed_serials (discard_expired sid ?u))
        = mset [0..<spawned (discard_expired sid ?u)]"
      using wf(7) c serials by (simp add: touch_def)
    show "expired_set (discard_expired sid ?u) \<inter> dom (map_of (workers (discard_expired sid ?u))) = {}"
      using wf(6) c by (auto simp: touch_def)
    show "length (expired_order (discard_expired sid ?u)) \<le> EXPIRED_CAP" using o(3) wf(5) c by (simp add: touch_def)
    show "set (expired_order (discard_expired sid ?u)) = expired_set (discard_expired sid ?u)" using o(2) by simp
  qed (use o(1) wf(1,2) c in \<open>simp_all add: touch_def\<close>)
qed

lemma session_start_wf:
  assumes "wf_life s" "start st abi reasons writable pid ino spawning now hex language s = (r, s')"
    "map_of (workers s) (new_session_id (case canonical language of Some l \<Rightarrow> l | None \<Rightarrow> ''python3'') hex) = None"
  shows "wf_life s'"
proof -
  define name where "name = (case canonical language of Some l \<Rightarrow> l | None \<Rightarrow> ''python3'')"
  define sid where "sid = new_session_id name hex"
  have fresh: "map_of (workers s) sid = None" using assms(3) by (simp add: sid_def name_def)
  have known: "core (record_identity sid d (make_dir ino d s)) = core s" for d by simp
  consider "s' = s" | d where "s' = record_identity sid d (make_dir ino d s)"
    | d w where "s' = publish_worker now sid w (write_lock_file writable pid d
          ((record_identity sid d (make_dir ino d s))\<lparr>spawned := Suc (spawned (record_identity sid d (make_dir ino d s)))\<rparr>))"
        "w_serial w = spawned (record_identity sid d (make_dir ino d s))"
    using assms(2) unfolding start_def name_def [symmetric] sid_def [symmetric] Let_def
    by (auto split: sum.splits if_splits)
  then show ?thesis
  proof cases
    case 1
    then show ?thesis using assms(1) by simp
  next
    case (2 d)
    then show ?thesis using assms(1) wf_life_core [OF known [of d]] by simp
  next
    case (3 d w)
    let ?t = "record_identity sid d (make_dir ino d s)"
    have "wf_life ?t" "map_of (workers ?t) sid = None" using assms(1) fresh wf_life_core [OF known [of d]] core_fields [OF known [of d]] by auto
    then show ?thesis unfolding 3(1) by (rule publish_wf) (use 3(2) in simp_all)
  qed
qed

lemma life_step_wf: "life_step st a s s' \<Longrightarrow> wf_life s \<Longrightarrow> wf_life s'"
proof (induction rule: life_step.induct)
  case (stopped left snapshots keep sid w created s r s')
  then have "wf_life (case w of None \<Rightarrow> s | Some v \<Rightarrow> close_worker sid v s)" by (auto split: option.splits intro: close_worker_wf)
  then show ?case using wf_life_core [OF stop_rest_core [OF stopped(1)]] by simp
next
  case (ran s ino fs)
  then show ?case using wf_life_core [of "s\<lparr>dirs := fs, inode := ino\<rparr>" s] by simp
qed (auto intro: session_start_wf reap_locked_wf finish_reap_wf note_activity_wf stop_locked_wf)

lemma life_reachable_wf: "life_reachable st s \<Longrightarrow> wf_life s"
proof (induction rule: life_reachable.induct)
  case (fresh fs ino)
  show ?case by (rule wf_lifeI) (simp_all add: serials_def)
qed (rule life_step_wf)

end
