(* ===== verification/Session_Claims.thy ===== *)
theory Session_Claims
  imports Session_Invariant Binary64_Order
begin

text \<open>
  What the session table promises: every worker is accounted for, an expired session stays expired, and
  which languages a session can have.
\<close>


definition one_session :: sessions where
  "one_session = snd (start plain_site 0 [] True ''42'' (Some 7) (Inr True) 0 ''0123456789'' ''python'' no_sessions)"

lemma canonical_python: "canonical ''python'' = Some ''python3''"
  by code_simp

lemma one_session_reachable: "life_reachable plain_site one_session"
proof -
  have "life_step plain_site (Some (new_session_id ''python3'' ''0123456789'')) no_sessions one_session"
    unfolding one_session_def
    by (rule life_step.started [where language = "''python''" and hex = "''0123456789''" and s = no_sessions, OF surjective_pairing])
       (simp_all add: canonical_python no_sessions_def)
  then show ?thesis
    using life_reachable.more [OF life_reachable.fresh [of plain_site Map.empty Map.empty]] by (simp add: no_sessions_def)
qed

lemma one_session_eq: "one_session = publish_worker 0 ''python3-01234567'' \<lparr>w_language = ''python3'', w_confined = True, w_serial = 0\<rparr>
    (write_lock_file True ''42'' [''srv'', ''python3-01234567'']
      ((record_identity ''python3-01234567'' [''srv'', ''python3-01234567''] (make_dir (Some 7) [''srv'', ''python3-01234567''] no_sessions))\<lparr>spawned := 1\<rparr>))"
proof -
  have "SAFE_NAME ''python3-01234567''" by (simp add: SAFE_NAME_def before_newline_def safe_char_def)
  then have "sdir plain_site ''python3-01234567'' = Inr [''srv'', ''python3-01234567'']"
    by (simp add: sdir_def session_dir_def plain_site_def)
  then show ?thesis unfolding one_session_def start_def canonical_python
    by (simp add: new_session_id_def WORKER_LANGS_def Let_def make_dir_def record_identity_def no_sessions_def)
qed

lemma one_session_worker:
  "map_of (workers one_session) ''python3-01234567'' = Some \<lparr>w_language = ''python3'', w_confined = True, w_serial = 0\<rparr>"
  "map_of (last_activity one_session) ''python3-01234567'' = Some 0" "expired_set one_session = {}"
proof -
  have lock: "workers (write_lock_file b p d t) = workers t" "expired_set (write_lock_file b p d t) = expired_set t"
    "last_activity (write_lock_file b p d t) = last_activity t" for b p d t
    using core_fields [of "write_lock_file b p d t" t] by simp_all
  show "map_of (workers one_session) ''python3-01234567'' = Some \<lparr>w_language = ''python3'', w_confined = True, w_serial = 0\<rparr>"
    "map_of (last_activity one_session) ''python3-01234567'' = Some 0" "expired_set one_session = {}"
    unfolding one_session_eq
    by (simp_all add: publish_worker_def touch_def lock record_identity_def make_dir_def no_sessions_def update_conv')
qed


section \<open>Expiry\<close>

text \<open>A run of steps none of which starts \<open>sid\<close>.\<close>

inductive life_run :: "site \<Rightarrow> string \<Rightarrow> sessions \<Rightarrow> sessions \<Rightarrow> bool" for st sid where
  none: "life_run st sid s s"
| step: "life_step st a s s' \<Longrightarrow> a \<noteq> Some sid \<Longrightarrow> life_run st sid s' s'' \<Longrightarrow> life_run st sid s s''"

lemma start_workers:
  assumes "start st abi reasons writable pid ino spawning now hex language s = (r, s')"
    "sid \<noteq> new_session_id (case canonical language of Some l \<Rightarrow> l | None \<Rightarrow> ''python3'') hex"
  shows "map_of (workers s') sid = map_of (workers s) sid"
proof -
  have known: "workers (record_identity i d (make_dir ino d s)) = workers s" for i d
    using core_fields [of "record_identity i d (make_dir ino d s)" s] by simp
  have lock: "workers (write_lock_file b p d t) = workers t" for b p d t
    using core_fields [of "write_lock_file b p d t" t] by simp
  show ?thesis using assms known unfolding start_def Let_def
    by (auto simp: publish_worker_def touch_def lock update_conv' split: sum.splits if_splits)
qed

lemma step_absent:
  assumes "life_step st a s s'" "a \<noteq> Some sid" "map_of (workers s) sid = None"
  shows "map_of (workers s') sid = None"
  using assms
proof (induction rule: life_step.induct)
  case (started abi reasons writable pid ino spawning now hex language s r s' i)
  then show ?case using start_workers [OF started(1), of sid] by simp
next
  case (reaped ttl now i s w s')
  then show ?case by (cases rule: reap_locked_cases) (auto simp: delete_conv')
next
  case (finished i w s writable content)
  then show ?case using core_fields [of "finish_reap st writable content i w s" "close_worker i w s"]
    by (simp add: finish_reap_def close_worker_def)
next
  case (noted s now i)
  then show ?case by (simp add: note_activity_def touch_def)
next
  case (stopping i s r s')
  then show ?case by (auto simp: stop_locked_def Let_def delete_conv')
next
  case (stopped left snapshots keep i w created s r s')
  then show ?case using core_fields [OF stop_rest_core [OF stopped(1)]] by (auto simp: close_worker_def split: option.splits)
qed simp

lemma run_absent: "life_run st sid s s' \<Longrightarrow> map_of (workers s) sid = None \<Longrightarrow> map_of (workers s') sid = None"
  by (induction rule: life_run.induct) (auto dest: step_absent)

lemma lookup_expired:
  assumes "map_of (workers s) sid = None" "sid \<in> expired_set s \<or> ttl \<noteq> None \<and> is_expired_on_disk st sid s"
  shows "get_worker_or_expired st writable content ttl now sid s = ((None, True), s)"
proof -
  have "reap_locked ttl now sid s = (None, s)" using assms(1) by (simp add: reap_locked_def maybe_reap_locked_def split: option.split)
  then show ?thesis using assms by (auto simp: get_worker_or_expired_def Let_def)
qed

lemma expired_absent:
  assumes "wf_life s" "get_worker_or_expired st writable content ttl now sid s = ((w, True), s')"
  shows "w = None" "map_of (workers s') sid = None"
proof -
  obtain r t where reap: "reap_locked ttl now sid s = (r, t)" by fastforce
  have "w = None \<and> map_of (workers s') sid = None"
  proof (cases "sid \<in> expired_set s")
    case True
    then show ?thesis using assms(2) wf_lifeD(6) [OF assms(1)] by (auto simp: get_worker_or_expired_def)
  next
    case False
    show ?thesis using reap
    proof (cases rule: reap_locked_cases)
      case stays
      then show ?thesis using assms(2) False reap by (auto simp: get_worker_or_expired_def Let_def split: if_splits)
    next
      case (goes v seen limit)
      have "workers (finish_reap st writable content sid v t) = workers t"
        using core_fields [of "finish_reap st writable content sid v t" "close_worker sid v t"] by (simp add: finish_reap_def close_worker_def)
      then show ?thesis using assms(2) False reap goes by (auto simp: get_worker_or_expired_def delete_conv')
    qed
  qed
  then show "w = None" "map_of (workers s') sid = None" by auto
qed

lemma expired_marker_written:
  assumes "write_expired_marker st True content sid s = s'" "sdir st sid = Inr d" "dirs s d = Some fs"
    "case fs [EXPIRED_MARKER_NAME] of None \<Rightarrow> True | Some (Regular c) \<Rightarrow> True | _ \<Rightarrow> False"
  shows "is_expired_on_disk st sid s'"
  using assms by (auto simp: write_expired_marker_def is_expired_on_disk_def put_entry_def split: option.splits entry.splits)

lemma marker_survives_unlock: "is_expired_on_disk st sid (remove_lock_file st sid' s) = is_expired_on_disk st sid s"
proof -
  have "LOCK_FILE_NAME \<noteq> EXPIRED_MARKER_NAME" by simp
  then show ?thesis
    by (auto simp: is_expired_on_disk_def remove_lock_file_def put_entry_def fun_upd_apply split: sum.splits option.splits simp del: list.inject)
qed


lemma one_session_expires:
  "\<exists>s1. get_worker_or_expired plain_site True ''gone'' (Some (Finite 1)) 2 ''python3-01234567'' one_session = ((None, True), s1)"
  using one_session_worker by (simp add: get_worker_or_expired_def reap_locked_def maybe_reap_locked_def at_most_def rnd_2)


section \<open>Languages a session cannot have\<close>

definition hex_text :: "string \<Rightarrow> bool" where
  "hex_text h \<longleftrightarrow> list_all (\<lambda>c. let n = of_char c :: nat in 48 \<le> n \<and> n \<le> 57 \<or> 97 \<le> n \<and> n \<le> 102) h"

lemma canonical_known:
  assumes "canonical language = Some l"
  shows "l \<in> set LANGUAGES"
proof (cases "List.member LANGUAGES (lower (strip is_space language))")
  case True
  then show ?thesis using assms by (simp add: canonical_def Let_def)
next
  case False
  then obtain a where "List.find (\<lambda>(canon, aliases). List.member aliases (lower (strip is_space language))) ALIASES = Some a" "l = fst a"
    using assms by (auto simp: canonical_def Let_def)
  then have "l \<in> fst ` set ALIASES" using nth_mem by (fastforce simp only: find_Some_iff)
  moreover have "fst ` set ALIASES \<subseteq> set LANGUAGES" by code_simp
  ultimately show ?thesis by blast
qed

lemma safe_language:
  assumes "l \<in> set LANGUAGES"
  shows "list_all safe_char l \<and> length l \<le> 20 \<longleftrightarrow> l \<noteq> ''c++''"
proof -
  have "list_all (\<lambda>l. (list_all safe_char l \<and> length l \<le> 20) = (l \<noteq> ''c++'')) LANGUAGES" by code_simp
  with assms show ?thesis by (simp add: list_all_iff)
qed

lemma hex_safe: "hex_text h \<Longrightarrow> list_all safe_char h"
  by (auto simp: hex_text_def safe_char_def list_all_iff Let_def)

lemma last_not_newline: "list_all safe_char s \<Longrightarrow> before_newline s = s"
  by (cases s rule: rev_cases) (auto simp: before_newline_def safe_char_def)

lemma safe_session_id:
  assumes "hex_text hex" "l \<in> set LANGUAGES"
  shows "SAFE_NAME (new_session_id l hex) \<longleftrightarrow> l \<noteq> ''c++''"
proof (cases "l = ''c++''")
  case True
  have "CHR ''+'' \<in> set (before_newline (''c++-'' @ take 8 hex))"
    by (auto simp: before_newline_def butlast_append)
  moreover have "\<not> safe_char (CHR ''+'')" by (simp add: safe_char_def)
  ultimately show ?thesis using True by (auto simp: SAFE_NAME_def new_session_id_def list_all_iff Let_def)
next
  case False
  then have l: "list_all safe_char l" "length l \<le> 20" using safe_language [OF assms(2)] by auto
  have "list_all safe_char (take 8 hex)" using hex_safe [OF assms(1)] by (auto simp: list_all_iff dest: in_set_takeD)
  then have "list_all safe_char (new_session_id l hex)" using l by (simp add: new_session_id_def safe_char_def)
  then show ?thesis using False l last_not_newline [of "new_session_id l hex"] by (auto simp: SAFE_NAME_def new_session_id_def Let_def)
qed

text \<open>
  Starting a session raises exactly for C++. The identity of a new session begins with the language's
  name, and \<open>c++\<close> (which \<open>cpp\<close> is not an alias of, being a language of its own, but \<open>cxx\<close> is) holds a
  character no session identity may have; the \<open>ValueError\<close> is not turned into a result. For every other
  language, known or not, \<open>start\<close> returns a result.
\<close>

theorem start_raises_iff:
  assumes "hex_text hex" "\<forall>sid. prefix (session_root st) (realpath st (session_root st @ [sid]))"
  shows "(\<exists>e. fst (start st abi reasons writable pid ino spawning now hex language s) = Inl e) \<longleftrightarrow> canonical language = Some ''c++''"
proof -
  define l where "l = (case canonical language of Some l \<Rightarrow> l | None \<Rightarrow> ''python3'')"
  have "l \<in> set LANGUAGES" using canonical_known by (auto simp: l_def LANGUAGES_def split: option.splits)
  note safe = safe_session_id [OF assms(1) this]
  have "l = ''c++'' \<longleftrightarrow> canonical language = Some ''c++''" by (auto simp: l_def split: option.splits)
  moreover have "(\<exists>e. sdir st (new_session_id l hex) = Inl e) \<longleftrightarrow> l = ''c++''"
    using safe assms(2) by (auto simp: sdir_def session_dir_def Let_def)
  moreover have "(\<exists>e. fst (start st abi reasons writable pid ino spawning now hex language s) = Inl e) \<longleftrightarrow> (\<exists>e. sdir st (new_session_id l hex) = Inl e)"
    unfolding start_def l_def [symmetric] Let_def by (simp split: sum.split)
  ultimately show ?thesis by simp
qed

theorem start_raises_iff_witness:
  "\<exists>e. fst (start plain_site 0 [] True ''42'' (Some 7) (Inr True) 0 ''0123456789'' ''cxx'' no_sessions) = Inl e"
proof -
  have "canonical ''cxx'' = Some ''c++''" by code_simp
  moreover have "hex_text ''0123456789''" by code_simp
  moreover have "\<forall>sid. prefix (session_root plain_site) (realpath plain_site (session_root plain_site @ [sid]))" by (simp add: plain_site_def)
  ultimately show ?thesis using start_raises_iff by blast
qed

section \<open>The marker and links\<close>

text \<open>
  The marker is written through a link: a session that leaves a link in the marker's place makes the
  server write to the link's target when the session expires, wherever that is.
\<close>

lemma marker_follows_link:
  assumes "sdir st sid = Inr d" "dirs s d = Some fs" "fs [EXPIRED_MARKER_NAME] = Some (Symlink t)"
  shows "outside (finish_reap st True content sid w s) = outside s @ [t]"
proof -
  have "outside (remove_lock_file st sid u) = outside u" for u
    by (simp add: remove_lock_file_def put_entry_def split: sum.split option.split)
  then show ?thesis using assms by (simp add: finish_reap_def write_expired_marker_def close_worker_def)
qed

end
