(* ===== verification/Session_Files.thy ===== *)
theory Session_Files
  imports Session_Life
begin

text \<open>
  \<open>codecalc/sessions.py\<close>: deleting one file of a session, with the walk that follows no link, where
  directory descriptors are supported.
\<close>

definition unknown_session :: "string \<Rightarrow> dict" where
  "unknown_session sid = [(''ok'', PBool False), (''error'', PStr (''unknown session '' @ [CHR 0x27] @ sid @ [CHR 0x27]))]"

text \<open>The clock, the configured idle time and the content of a marker are those of \<open>_reap_then_note\<close>.\<close>

definition delete_file :: "site \<Rightarrow> bool \<Rightarrow> string \<Rightarrow> flt option \<Rightarrow> rat \<Rightarrow> string option \<Rightarrow> string \<Rightarrow> string \<Rightarrow> sessions \<Rightarrow> dict \<times> sessions" where
  "delete_file st writable content ttl now failing sid name s =
    (case sdir st sid of
       Inl message \<Rightarrow> (guard_error message, s)
     | Inr d \<Rightarrow>
         if dirs s d = None then (unknown_session sid, s)
         else let s1 = reap_then_note st writable content ttl now sid s in
              case jail_nofollow name of
                Inl message \<Rightarrow> (guard_error message, s1)
              | Inr parts \<Rightarrow>
                  if is_runner_internal parts
                  then (error_result PERMISSION_DENIED (repr_str name @ '' is a runner-internal path and cannot be deleted'') [], s1)
                  else let display = join [SLASH] parts; fs = (case dirs s1 d of Some fs \<Rightarrow> fs | None \<Rightarrow> Map.empty) in
                       case unlink_pinned failing fs parts display of
                         (Inl refusal, fs') \<Rightarrow> (refusal, s1)
                       | (Inr e, fs') \<Rightarrow>
                           ([(''ok'', PBool True), (''path'', PStr display),
                             (''deleted'', PStr (case e of Symlink t \<Rightarrow> ''symlink'' | _ \<Rightarrow> ''file''))],
                            s1\<lparr>dirs := (dirs s1)(d := Some fs')\<rparr>))"

section \<open>What a deletion does\<close>

text \<open>A path of the workspace reached through directories only.\<close>

definition plain_route :: "workspace \<Rightarrow> path \<Rightarrow> bool" where
  "plain_route fs parts \<longleftrightarrow> (\<forall>k < length parts. fs (take k parts) = Some Directory)"

lemma open_hops_Some: "open_hops fs cur cs = Some dir \<longleftrightarrow> dir = cur @ cs \<and> (\<forall>k < length cs. fs (cur @ take (Suc k) cs) = Some Directory)"
proof (induction cs arbitrary: cur)
  case (Cons c cs)
  have "(\<forall>k < length (c # cs). fs (cur @ take (Suc k) (c # cs)) = Some Directory)
    \<longleftrightarrow> fs (cur @ [c]) = Some Directory \<and> (\<forall>k < length cs. fs ((cur @ [c]) @ take (Suc k) cs) = Some Directory)"
    using less_Suc_eq_0_disj by auto
  then show ?case using Cons by (auto split: option.splits entry.splits)
qed auto

lemma split_by_not_Nil [simp]: "split_by p s \<noteq> []"
  by (cases s) auto

lemma split_by_no_sep: "w \<in> set (split_by p s) \<Longrightarrow> x \<in> set w \<Longrightarrow> \<not> p x"
proof (induction s arbitrary: w)
  case (Cons c cs)
  have "hd (split_by p cs) \<in> set (split_by p cs)" "set (tl (split_by p cs)) \<subseteq> set (split_by p cs)"
    by (simp_all add: list.set_sel(2) subsetI)
  then show ?case using Cons.prems Cons.IH by (fastforce simp del: list.set_sel split: if_splits)
qed simp

text \<open>A name a path may have.\<close>

definition plain_name :: "string \<Rightarrow> bool" where
  "plain_name p \<longleftrightarrow> p \<noteq> [] \<and> p \<noteq> ''.'' \<and> p \<noteq> ''..'' \<and> SLASH \<notin> set p \<and> BACKSLASH \<notin> set p \<and> char_of (0 :: nat) \<notin> set p"

lemma jail_nofollow_parts:
  assumes "jail_nofollow name = Inr parts"
  shows "parts \<noteq> []" "list_all plain_name parts"
proof -
  let ?ps = "filter (\<lambda>p. p \<noteq> [] \<and> p \<noteq> ''.'') (split_by is_sep name)"
  have parts: "parts = ?ps" "\<not> list_ex (\<lambda>p. p = ''..'') ?ps" "\<not> list_ex unrepresentable ?ps" "?ps \<noteq> []"
    using assms unfolding jail_nofollow_def Let_def by (auto split: option.splits if_splits)
  then show "parts \<noteq> []" by simp
  have "plain_name p" if "p \<in> set parts" for p
  proof -
    have "p \<in> set (split_by is_sep name)" using that parts(1) by simp
    then have "SLASH \<notin> set p" "BACKSLASH \<notin> set p" using split_by_no_sep [of p is_sep name] by (auto simp: is_sep_def)
    moreover have "p \<noteq> []" "p \<noteq> ''.''" using that parts(1) by simp_all
    moreover have "p \<noteq> ''..''" using that parts(1,2) unfolding list_ex_iff by blast
    moreover have "char_of (0 :: nat) \<notin> set p" using that parts(1,3) unfolding list_ex_iff unrepresentable_def by blast
    ultimately show ?thesis unfolding plain_name_def by blast
  qed
  then show "list_all plain_name parts" by (simp add: list_all_iff)
qed

text \<open>Two states of a workspace that differ at most in the runner's own marker and lock, neither a directory.\<close>

definition same_entries :: "workspace option \<Rightarrow> workspace option \<Rightarrow> bool" where
  "same_entries a b \<longleftrightarrow> rel_option (\<lambda>fs fs'. \<forall>p. (p \<noteq> [EXPIRED_MARKER_NAME] \<longrightarrow> p \<noteq> [LOCK_FILE_NAME] \<longrightarrow> fs' p = fs p)
     \<and> (fs' p = Some Directory \<longleftrightarrow> fs p = Some Directory)) a b"

lemma same_entries_refl [simp]: "same_entries a a"
  by (cases a) (simp_all add: same_entries_def)

lemma same_entries_trans: "same_entries a b \<Longrightarrow> same_entries b c \<Longrightarrow> same_entries a c"
  by (cases a; cases b; cases c) (auto simp: same_entries_def)

lemma marker_same_entries: "same_entries (dirs s d) (dirs (write_expired_marker st w c sid s) d)"
  by (cases "dirs s d") (auto simp: write_expired_marker_def put_entry_def same_entries_def split: sum.split option.split entry.split)

lemma unlock_same_entries: "same_entries (dirs s d) (dirs (remove_lock_file st sid s) d)"
  by (cases "dirs s d") (auto simp: remove_lock_file_def put_entry_def same_entries_def split: sum.split option.split)

lemma reap_same_entries: "same_entries (dirs s d) (dirs (reap_then_note st writable content ttl now sid s) d)"
proof -
  have note': "dirs (note_activity now sid t) = dirs t" for t by (simp add: note_activity_def touch_def)
  have mark: "dirs (mark_expired sid t) = dirs t" for t by (simp add: mark_expired_def split: prod.split)
  have reap: "dirs (snd (reap_locked ttl now sid s)) = dirs s"
    unfolding reap_locked_def maybe_reap_locked_def by (simp add: mark split: option.split)
  have finish: "same_entries (dirs t d) (dirs (finish_reap st writable content sid w t) d)" for w t
    using same_entries_trans [OF marker_same_entries unlock_same_entries, of "close_worker sid w t"]
    unfolding finish_reap_def by (simp add: close_worker_def)
  obtain r t where "reap_locked ttl now sid s = (r, t)" by fastforce
  then show ?thesis using reap finish [of t] unfolding reap_then_note_def reap_if_idle_def note' by (auto split: option.splits)
qed

lemma unlink_pinned_cases:
  assumes "unlink_pinned failing fs parts display = (r, fs')" "parts \<noteq> []"
  obtains (refused) d where "r = Inl d" "coded_refusal d" "fs' = fs"
  | (removed) e where "r = Inr e" "fs parts = Some e" "e \<noteq> Directory" "\<forall>k < length parts. fs (take k parts) = Some Directory"
      "fs' = fs(parts := None)"
proof (cases "fs [] = Some Directory \<and> open_hops fs [] (butlast parts) = Some (butlast parts)")
  case False
  then have "r = Inl (no_such_file display)" "fs' = fs"
    using assms(1) open_hops_Some [of fs "[]" "butlast parts"] by (auto simp: unlink_pinned_def split: option.splits if_splits)
  then show thesis using refused by (simp add: no_such_file_def)
next
  case True
  have whole: "butlast parts @ [last parts] = parts" using assms(2) by simp
  have "fs (take k parts) = Some Directory" if "k < length parts" for k
  proof (cases k)
    case (Suc m)
    then have "take k parts = take (Suc m) (butlast parts)" "m < length (butlast parts)" using that by (auto simp: take_butlast)
    then show ?thesis using True open_hops_Some [of fs "[]" "butlast parts"] by simp
  qed (use True in simp)
  with True whole assms(1) show thesis
    by (cases "fs parts"; cases "the (fs parts)"; cases failing)
       (auto simp: unlink_pinned_def no_such_file_def intro: refused removed)
qed

text \<open>
  C16. A deletion removes one entry of the workspace or nothing. If it reports success, the path it was
  given names, component by component, real directories of the session's own workspace down to one file or
  link that the runner does not keep for itself, that entry is gone and no other has changed, apart from
  the runner's own marker and lock; a link is removed, never followed. Otherwise no entry has changed, and
  the refusal is coded unless the session does not exist.
\<close>

theorem delete_file_exact:
  assumes "delete_file st writable content ttl now failing sid name s = (r, s')" "sdir st sid = Inr d" "dirs s d = Some fs"
  shows "\<exists>fs'. dirs s' d = Some fs' \<and>
    (if dget r ''ok'' = PBool True
     then \<exists>parts e. jail_nofollow name = Inr parts \<and> list_all plain_name parts \<and> \<not> is_runner_internal parts
        \<and> fs parts = Some e \<and> e \<noteq> Directory \<and> (\<forall>k < length parts. fs (take k parts) = Some Directory)
        \<and> fs' parts = None \<and> (\<forall>p. p \<noteq> parts \<longrightarrow> p \<noteq> [EXPIRED_MARKER_NAME] \<longrightarrow> p \<noteq> [LOCK_FILE_NAME] \<longrightarrow> fs' p = fs p)
     else coded_refusal r \<and> (\<forall>p. p \<noteq> [EXPIRED_MARKER_NAME] \<longrightarrow> p \<noteq> [LOCK_FILE_NAME] \<longrightarrow> fs' p = fs p))"
proof -
  define s1 where "s1 = reap_then_note st writable content ttl now sid s"
  obtain fs1 where fs1: "dirs s1 d = Some fs1" and same: "\<And>p. p \<noteq> [EXPIRED_MARKER_NAME] \<Longrightarrow> p \<noteq> [LOCK_FILE_NAME] \<Longrightarrow> fs1 p = fs p"
    and dir: "\<And>p. fs1 p = Some Directory \<longleftrightarrow> fs p = Some Directory"
    using reap_same_entries [of s d st writable content ttl now sid] assms(3) by (auto simp: same_entries_def s1_def option_rel_Some1)
  have coded: ?thesis if "(r, s') = (d', s1)" "coded_refusal d'" for d'
    using that fs1 same by (auto simp: coded_refusal_def)
  have run: "delete_file st writable content ttl now failing sid name s = (case jail_nofollow name of
      Inl message \<Rightarrow> (guard_error message, s1)
    | Inr parts \<Rightarrow>
        if is_runner_internal parts
        then (error_result PERMISSION_DENIED (repr_str name @ '' is a runner-internal path and cannot be deleted'') [], s1)
        else case unlink_pinned failing fs1 parts (join [SLASH] parts) of
               (Inl refusal, fs') \<Rightarrow> (refusal, s1)
             | (Inr e, fs') \<Rightarrow>
                 ([(''ok'', PBool True), (''path'', PStr (join [SLASH] parts)),
                   (''deleted'', PStr (case e of Symlink t \<Rightarrow> ''symlink'' | _ \<Rightarrow> ''file''))], s1\<lparr>dirs := (dirs s1)(d := Some fs')\<rparr>))"
    unfolding delete_file_def assms(2,3) Let_def s1_def [symmetric] fs1 sum.case option.case by simp
  show ?thesis
  proof (cases "jail_nofollow name")
    case (Inl message)
    have "coded_refusal (guard_error message)" by (simp add: guard_error_def Let_def)
    with run Inl assms(1) show ?thesis by (intro coded) simp_all
  next
    case (Inr parts)
    note parts = jail_nofollow_parts [OF Inr]
    show ?thesis
    proof (cases "is_runner_internal parts")
      case True
      with run Inr assms(1) have "(r, s') = (error_result PERMISSION_DENIED (repr_str name @ '' is a runner-internal path and cannot be deleted'') [], s1)"
        by simp
      then show ?thesis by (rule coded) (rule coded_plain, simp)
    next
      case False
      have "reserved_root_name EXPIRED_MARKER_NAME" "reserved_root_name LOCK_FILE_NAME"
        by (simp_all add: reserved_root_name_def normalized_component_matches_def)
      with False have free: "parts \<noteq> [EXPIRED_MARKER_NAME]" "parts \<noteq> [LOCK_FILE_NAME]" by (auto simp: is_runner_internal_def)
      obtain u fs2 where unlink: "unlink_pinned failing fs1 parts (join [SLASH] parts) = (u, fs2)" by fastforce
      then show ?thesis using parts(1)
      proof (cases rule: unlink_pinned_cases)
        case (refused d')
        show ?thesis by (rule coded [OF _ refused(2)])
            (use run Inr False unlink refused(1) assms(1) in simp)
      next
        case (removed e)
        have out: "dget r ''ok'' = PBool True" "dirs s' d = Some fs2" using run Inr False unlink removed(1) assms(1) by auto
        have "fs parts = Some e" using removed(2) same [OF free] by simp
        moreover have "\<forall>k < length parts. fs (take k parts) = Some Directory" using removed(4) dir by blast
        moreover have "fs2 parts = None" "\<forall>p. p \<noteq> parts \<longrightarrow> p \<noteq> [EXPIRED_MARKER_NAME] \<longrightarrow> p \<noteq> [LOCK_FILE_NAME] \<longrightarrow> fs2 p = fs p"
          using removed(5) same by (simp_all del: list.inject)
        ultimately show ?thesis using out Inr parts(2) False removed(3) by (intro exI [of _ fs2]) auto
      qed
    qed
  qed
qed

definition small_workspace :: sessions where
  "small_workspace = no_sessions\<lparr>dirs := Map.empty([''srv'', ''python3-01234567''] \<mapsto>
     Map.empty([] \<mapsto> Directory, [''a''] \<mapsto> Directory, [''a'', ''x.txt''] \<mapsto> Regular ''1''))\<rparr>"

lemma small_deletion: "dget (fst (delete_file plain_site True [] None 0 None ''python3-01234567'' ''a/x.txt'' small_workspace)) ''ok'' = PBool True"
proof -
  have "sdir plain_site ''python3-01234567'' = Inr [''srv'', ''python3-01234567'']" by code_simp
  moreover have "jail_nofollow ''a/x.txt'' = Inr [''a'', ''x.txt'']" "\<not> is_runner_internal [''a'', ''x.txt'']" by code_simp+
  ultimately show ?thesis
    by (simp add: delete_file_def small_workspace_def no_sessions_def reap_then_note_def reap_if_idle_def reap_locked_def maybe_reap_locked_def
        note_activity_def unlink_pinned_def)
qed

theorem delete_file_exact_witness:
  "\<exists>fs'. dirs (snd (delete_file plain_site True [] None 0 None ''python3-01234567'' ''a/x.txt'' small_workspace)) [''srv'', ''python3-01234567''] = Some fs'
     \<and> fs' [''a'', ''x.txt''] = None \<and> fs' [''a''] = Some Directory"
proof -
  have d: "sdir plain_site ''python3-01234567'' = Inr [''srv'', ''python3-01234567'']" by code_simp
  have fs: "dirs small_workspace [''srv'', ''python3-01234567''] = Some (Map.empty([] \<mapsto> Directory, [''a''] \<mapsto> Directory, [''a'', ''x.txt''] \<mapsto> Regular ''1''))"
    by (simp add: small_workspace_def)
  have p: "jail_nofollow ''a/x.txt'' = Inr [''a'', ''x.txt'']" by code_simp
  show ?thesis using delete_file_exact [OF surjective_pairing d fs, of True "[]" None 0 None "''a/x.txt''"] small_deletion p by auto
qed

end
