(* ===== verification/Session_Quota.thy ===== *)
theory Session_Quota
  imports Session_Files Binary64_Order
begin

text \<open>
  \<open>codecalc/sessions.py\<close>, the disk quotas: the configured ceilings, the measurement of workspaces, the
  refusals in their order, the guard in front of every write of the server, and \<open>write_file\<close>. What is on
  disk is a listing per workspace, with what \<open>lstat\<close> says of each entry. The environment, the parsers of
  numbers and the free space of the host are arguments.
\<close>

section \<open>Ceilings\<close>

record environment =
  env_var :: "string \<Rightarrow> string option"
  env_float :: "string \<Rightarrow> flt option"
  env_int :: "string \<Rightarrow> int option"

definition env_raw :: "environment \<Rightarrow> string \<Rightarrow> string" where
  "env_raw e name = strip is_space (case env_var e name of None \<Rightarrow> [] | Some s \<Rightarrow> s)"

definition env_positive_float :: "environment \<Rightarrow> string \<Rightarrow> rat \<Rightarrow> flt" where
  "env_positive_float e name dflt =
    (if env_raw e name = [] then Finite dflt
     else case env_float e (env_raw e name) of
         None \<Rightarrow> Finite dflt
       | Some v \<Rightarrow> if positive v then v else Finite dflt)"

definition env_positive_int :: "environment \<Rightarrow> string \<Rightarrow> int \<Rightarrow> int" where
  "env_positive_int e name dflt =
    (if env_raw e name = [] then dflt
     else case env_int e (env_raw e name) of None \<Rightarrow> dflt | Some v \<Rightarrow> if v > 0 then v else dflt)"

text \<open>\<open>int(v * 1024 * 1024)\<close>: the products are binary64, and \<open>int\<close> refuses what is not finite.\<close>

definition too_large :: exn where
  "too_large = Exn OverflowErr ''cannot convert float infinity to integer''"

definition megabytes :: "flt \<Rightarrow> exn + int" where
  "megabytes v =
    (case v of
       Finite q \<Rightarrow>
         (case rnd64 (q * 1024) of
            None \<Rightarrow> Inl too_large
          | Some a \<Rightarrow> (case rnd64 (a * 1024) of None \<Rightarrow> Inl too_large | Some b \<Rightarrow> Inr \<lfloor>b\<rfloor>))
     | Infinite neg \<Rightarrow> Inl too_large
     | NotANumber \<Rightarrow> Inl (Exn ValueErr ''cannot convert float NaN to integer''))"

abbreviation SESSION_DISK_QUOTA_MB_ENV :: string where "SESSION_DISK_QUOTA_MB_ENV \<equiv> ''CODECALC_SESSION_DISK_QUOTA_MB''"
abbreviation TOTAL_DISK_QUOTA_MB_ENV :: string where "TOTAL_DISK_QUOTA_MB_ENV \<equiv> ''CODECALC_TOTAL_DISK_QUOTA_MB''"
abbreviation MAX_ARTIFACT_BYTES_ENV :: string where "MAX_ARTIFACT_BYTES_ENV \<equiv> ''CODECALC_MAX_ARTIFACT_BYTES''"
abbreviation MAX_ARTIFACT_COUNT_ENV :: string where "MAX_ARTIFACT_COUNT_ENV \<equiv> ''CODECALC_MAX_ARTIFACT_COUNT''"
abbreviation MIN_HOST_FREE_MB_ENV :: string where "MIN_HOST_FREE_MB_ENV \<equiv> ''CODECALC_MIN_HOST_FREE_MB''"
abbreviation MAX_SNAPSHOT_BYTES_ENV :: string where "MAX_SNAPSHOT_BYTES_ENV \<equiv> ''CODECALC_MAX_SNAPSHOT_BYTES''"

definition session_disk_quota_bytes :: "environment \<Rightarrow> exn + int" where
  "session_disk_quota_bytes e = megabytes (env_positive_float e SESSION_DISK_QUOTA_MB_ENV 512)"

definition total_disk_quota_bytes :: "environment \<Rightarrow> exn + int" where
  "total_disk_quota_bytes e = megabytes (env_positive_float e TOTAL_DISK_QUOTA_MB_ENV 8192)"

definition max_artifact_bytes :: "environment \<Rightarrow> int" where
  "max_artifact_bytes e = env_positive_int e MAX_ARTIFACT_BYTES_ENV (16 * 1024 * 1024)"

definition max_artifact_count :: "environment \<Rightarrow> int" where
  "max_artifact_count e = env_positive_int e MAX_ARTIFACT_COUNT_ENV 500"

definition min_host_free_bytes :: "environment \<Rightarrow> exn + int" where
  "min_host_free_bytes e = megabytes (env_positive_float e MIN_HOST_FREE_MB_ENV 256)"

definition max_snapshot_bytes :: "environment \<Rightarrow> int" where
  "max_snapshot_bytes e = env_positive_int e MAX_SNAPSHOT_BYTES_ENV (256 * 1024 * 1024)"

section \<open>Measuring\<close>

record fstat =
  f_regular :: bool
  f_size :: int
  f_mtime :: int
  f_nlink :: nat

text \<open>
  The sorted \<open>rglob("*")\<close> of a workspace, by relative path, for every directory below the session root;
  \<open>root_size\<close> is what \<open>lstat\<close> says of a workspace itself.
\<close>

type_synonym listing = "(path \<times> fstat) list"

record disk =
  workspaces :: "(path \<times> listing) list"
  host_free :: "nat option"
  root_size :: int

definition listing_size :: "listing \<Rightarrow> int" where
  "listing_size l = sum_list (map (\<lambda>(p, st). if f_regular st then f_size st else 0) l)"

definition workspace_scan :: "listing \<Rightarrow> listing \<times> int" where
  "workspace_scan l = (filter (\<lambda>(p, st). f_regular st \<and> \<not> is_runner_internal p) l, listing_size l)"

definition artifact_entries :: "listing \<Rightarrow> listing" where
  "artifact_entries l = fst (workspace_scan l)"

definition session_dir_size :: "site \<Rightarrow> disk \<Rightarrow> string \<Rightarrow> int" where
  "session_dir_size st dk sid =
    (case sdir st sid of Inl e \<Rightarrow> 0 | Inr d \<Rightarrow> (case map_of (workspaces dk) d of None \<Rightarrow> 0 | Some l \<Rightarrow> listing_size l))"

definition global_disk_usage :: "disk \<Rightarrow> int" where
  "global_disk_usage dk = sum_list (map (\<lambda>(d, l). listing_size l) (workspaces dk))"

section \<open>Refusals\<close>

definition quoted :: "string \<Rightarrow> string" where
  "quoted s = [CHR 0x27] @ s @ [CHR 0x27]"

definition QUOTA_RECOVERY_HINT :: string where
  "QUOTA_RECOVERY_HINT = ''free space by overwriting a large file with a smaller one (a same-size-or-shrinking write is always allowed, even over quota), or session_stop''"

definition session_over :: "string \<Rightarrow> int \<Rightarrow> int \<Rightarrow> int \<Rightarrow> dict" where
  "session_over sid usage incoming quota = error_result RESOURCE_EXHAUSTED
     (''session '' @ quoted sid @ '' disk quota exceeded: '' @ int_str (usage + incoming) @ '' bytes would exceed the '' @ int_str quota
      @ ''-byte per-session limit ('' @ SESSION_DISK_QUOTA_MB_ENV @ '')'')
     [(''remedy'', PStr (''delete files in this session'' @ [CHR 0x27] @ ''s workspace (session_files to see what'' @ [CHR 0x27]
         @ ''s there), raise '' @ SESSION_DISK_QUOTA_MB_ENV @ '', or '' @ QUOTA_RECOVERY_HINT)),
      (''usage_bytes'', PInt usage), (''quota_bytes'', PInt quota), (''scope'', PStr ''session'')]"

definition global_over :: "int \<Rightarrow> int \<Rightarrow> int \<Rightarrow> dict" where
  "global_over usage incoming quota = error_result RESOURCE_EXHAUSTED
     (''global session disk quota exceeded: '' @ int_str (usage + incoming) @ '' bytes across all sessions would exceed the '' @ int_str quota
      @ ''-byte total limit ('' @ TOTAL_DISK_QUOTA_MB_ENV @ '')'')
     [(''remedy'', PStr (''stop idle sessions (session_stop) to free disk shared across every session, or raise '' @ TOTAL_DISK_QUOTA_MB_ENV)),
      (''usage_bytes'', PInt usage), (''quota_bytes'', PInt quota), (''scope'', PStr ''global'')]"

definition host_low :: "int \<Rightarrow> int \<Rightarrow> dict" where
  "host_low free min_free = error_result RESOURCE_EXHAUSTED
     (''host free disk space ('' @ int_str free @ '' bytes) is below the configured floor ('' @ int_str min_free @ '' bytes, '' @ MIN_HOST_FREE_MB_ENV @ '')'')
     [(''remedy'', PStr (''free disk space on the host, or lower '' @ MIN_HOST_FREE_MB_ENV)),
      (''free_bytes'', PInt free), (''min_free_bytes'', PInt min_free), (''scope'', PStr ''host'')]"

definition disk_quota_refusal :: "environment \<Rightarrow> site \<Rightarrow> disk \<Rightarrow> string \<Rightarrow> int \<Rightarrow> int option \<Rightarrow> exn + dict option" where
  "disk_quota_refusal e st dk sid incoming total_bytes =
    (let usage = (case total_bytes of None \<Rightarrow> session_dir_size st dk sid | Some t \<Rightarrow> t) in
     rbind (session_disk_quota_bytes e) (\<lambda>quota.
       if usage + incoming > quota then Inr (Some (session_over sid usage incoming quota))
       else rbind (total_disk_quota_bytes e) (\<lambda>global_quota.
         if global_disk_usage dk + incoming > global_quota then Inr (Some (global_over (global_disk_usage dk) incoming global_quota))
         else case host_free dk of
             None \<Rightarrow> Inr None
           | Some free \<Rightarrow>
               rbind (min_host_free_bytes e) (\<lambda>min_free.
                 if int free < min_free then Inr (Some (host_low (int free) min_free)) else Inr None))))"

definition count_remedy :: pyval where
  "count_remedy = PStr (''delete unneeded files with session_delete_file (session_files to see what'' @ [CHR 0x27] @ ''s there), or raise ''
     @ MAX_ARTIFACT_COUNT_ENV)"

definition artifact_cap_refusal :: "environment \<Rightarrow> string \<Rightarrow> listing \<Rightarrow> int \<Rightarrow> bool \<Rightarrow> dict option" where
  "artifact_cap_refusal e sid l incoming is_new =
    (let max_bytes = max_artifact_bytes e; max_count = max_artifact_count e; n = int (length (artifact_entries l)) in
     if incoming > max_bytes
     then Some (error_result RESOURCE_EXHAUSTED
            (''write of '' @ int_str incoming @ '' bytes exceeds the per-artifact size cap of '' @ int_str max_bytes @ '' bytes ('' @ MAX_ARTIFACT_BYTES_ENV @ '')'')
            [(''remedy'', PStr (''write a smaller file, or raise '' @ MAX_ARTIFACT_BYTES_ENV)),
             (''incoming_bytes'', PInt incoming), (''max_artifact_bytes'', PInt max_bytes)])
     else if is_new \<and> n \<ge> max_count
     then Some (error_result RESOURCE_EXHAUSTED
            (''session '' @ quoted sid @ '' already has '' @ int_str n @ '' artifact file(s), at the '' @ int_str max_count @ ''-file cap ('' @ MAX_ARTIFACT_COUNT_ENV @ '')'')
            [(''remedy'', count_remedy), (''artifact_count'', PInt n), (''max_artifact_count'', PInt max_count)])
     else None)"

text \<open>With the entries of a scan at hand; the caller without one has it measured.\<close>

definition artifact_count_refusal :: "environment \<Rightarrow> string \<Rightarrow> listing \<Rightarrow> dict option" where
  "artifact_count_refusal e sid entries =
    (let max_count = max_artifact_count e; n = int (length entries) in
     if n > max_count
     then Some (error_result RESOURCE_EXHAUSTED
            (''session '' @ quoted sid @ '' has '' @ int_str n @ '' artifact file(s), over the '' @ int_str max_count @ ''-file cap ('' @ MAX_ARTIFACT_COUNT_ENV @ '')'')
            [(''remedy'', count_remedy), (''artifact_count'', PInt n), (''max_artifact_count'', PInt max_count)])
     else None)"

definition write_guard :: "environment \<Rightarrow> site \<Rightarrow> disk \<Rightarrow> string \<Rightarrow> listing \<Rightarrow> int \<Rightarrow> int \<Rightarrow> bool \<Rightarrow> exn + dict option" where
  "write_guard e st dk sid l incoming net is_new =
    (case artifact_cap_refusal e sid l incoming is_new of
       Some r \<Rightarrow> Inr (Some r)
     | None \<Rightarrow> if net \<le> 0 then Inr None else disk_quota_refusal e st dk sid net None)"

definition quota_precheck :: "environment \<Rightarrow> site \<Rightarrow> disk \<Rightarrow> string \<Rightarrow> listing \<Rightarrow> exn + dict option" where
  "quota_precheck e st dk sid l =
    (case workspace_scan l of
       (entries, bytes) \<Rightarrow>
         rbind (disk_quota_refusal e st dk sid 0 (Some bytes)) (\<lambda>refusal.
           case refusal of Some r \<Rightarrow> Inr (Some r) | None \<Rightarrow> Inr (artifact_count_refusal e sid entries)))"

section \<open>After a run\<close>

text \<open>A snapshot is the size and the modification time of every artifact; the MIME type is by name.\<close>

definition posix :: "path \<Rightarrow> string" where
  "posix p = join [SLASH] p"

definition artifact_snapshot :: "listing \<Rightarrow> (path \<times> int \<times> int) list" where
  "artifact_snapshot entries = map (\<lambda>(p, st). (p, f_size st, f_mtime st)) entries"

definition classify_new_artifacts :: "(string \<Rightarrow> string option) \<Rightarrow> string \<Rightarrow> (path \<times> int \<times> int) list \<Rightarrow> listing \<Rightarrow> dict list" where
  "classify_new_artifacts guess sid before entries =
    map (\<lambda>(p, st). [(''path'', PStr (posix p)), (''size'', PInt (f_size st)),
         (''mime'', PStr (case guess (last p) of Some m \<Rightarrow> m | None \<Rightarrow> ''application/octet-stream'')),
         (''resource'', PStr (''codecalc://session/'' @ sid @ ''/files/'' @ posix p))])
      (filter (\<lambda>(p, st). map_of before p \<noteq> Some (f_size st, f_mtime st)) entries)"

definition flag :: "bool \<Rightarrow> dict \<Rightarrow> dict \<Rightarrow> dict" where
  "flag b extra d = (if b then dmerge d extra else d)"

definition quota_postcheck :: "environment \<Rightarrow> (string \<Rightarrow> string option) \<Rightarrow> disk \<Rightarrow> string \<Rightarrow> dict \<Rightarrow> (path \<times> int \<times> int) list \<Rightarrow> listing \<Rightarrow> exn + dict" where
  "quota_postcheck e guess dk sid result before l =
    (case workspace_scan l of
       (entries, usage) \<Rightarrow>
         rbind (session_disk_quota_bytes e) (\<lambda>quota.
         rbind (total_disk_quota_bytes e) (\<lambda>global_quota.
           let n = int (length entries); max_count = max_artifact_count e;
               r1 = dset ''artifacts_created'' (PList (map PDict (classify_new_artifacts guess sid before entries))) result;
               r2 = flag (usage > quota) [(''disk_quota_exceeded'', PBool True), (''disk_usage_bytes'', PInt usage), (''disk_quota_bytes'', PInt quota)] r1;
               r3 = flag (global_disk_usage dk > global_quota) [(''global_disk_quota_exceeded'', PBool True),
                      (''global_disk_usage_bytes'', PInt (global_disk_usage dk)), (''global_disk_quota_bytes'', PInt global_quota)] r2;
               r4 = flag (artifact_count_refusal e sid entries \<noteq> None) [(''artifact_count_exceeded'', PBool True), (''artifact_count'', PInt n),
                      (''max_artifact_count'', PInt max_count)] r3
           in Inr r4)))"

section \<open>Writing a file\<close>

definition utf8_length :: "string \<Rightarrow> int" where
  "utf8_length s = sum_list (map (\<lambda>c. if of_char c < (128 :: nat) then 1 else 2) s)"

text \<open>
  The outcome of \<open>mkdir\<close> and of the opening that follows no link is the operating system's (\<open>io\<close>); it never
  opens anything but a regular file or a new one. \<open>mtime\<close> is the time of the write. Directories made on the
  way are no regular files, so that no measurement sees them, and are left out of the listing.
\<close>

definition put_file :: "path \<Rightarrow> fstat \<Rightarrow> listing \<Rightarrow> listing" where
  "put_file p st l = AList.update p st l"

definition write_file :: "environment \<Rightarrow> site \<Rightarrow> bool \<Rightarrow> string \<Rightarrow> flt option \<Rightarrow> rat \<Rightarrow> (path \<Rightarrow> exn option) \<Rightarrow> int \<Rightarrow> string \<Rightarrow> string \<Rightarrow> string
    \<Rightarrow> sessions \<Rightarrow> disk \<Rightarrow> (exn + dict) \<times> sessions \<times> disk" where
  "write_file e st writable marker ttl now io mtime sid name content s dk =
    (case sdir st sid of
       Inl message \<Rightarrow> (Inr (guard_error message), s, dk)
     | Inr d \<Rightarrow>
         (case map_of (workspaces dk) d of
            None \<Rightarrow> (Inr (unknown_session sid), s, dk)
          | Some l \<Rightarrow>
              let s1 = reap_then_note st writable marker ttl now sid s in
              (case jail (realpath st) d name of
                 Inl message \<Rightarrow> (Inr (guard_error message), s1, dk)
               | Inr target \<Rightarrow>
                   let rel = drop (length (realpath st d)) target;
                       size' = utf8_length content;
                       existing = (if rel = [] then Some \<lparr>f_regular = False, f_size = root_size dk, f_mtime = 0, f_nlink = 1\<rparr> else map_of l rel);
                       net = size' - (case existing of None \<Rightarrow> 0 | Some old \<Rightarrow> f_size old)
                   in case write_guard e st dk sid l size' net (existing = None) of
                        Inl x \<Rightarrow> (Inl x, s1, dk)
                      | Inr (Some refusal) \<Rightarrow> (Inr refusal, s1, dk)
                      | Inr None \<Rightarrow>
                          (case io rel of
                             Some x \<Rightarrow> (Inl x, s1, dk)
                           | None \<Rightarrow>
                               (Inr [(''ok'', PBool True), (''path'', PStr (posix rel))], s1,
                                dk\<lparr>workspaces := AList.update d (put_file rel \<lparr>f_regular = True, f_size = size', f_mtime = mtime, f_nlink = 1\<rparr> l) (workspaces dk)\<rparr>)))))"

section \<open>What a write keeps\<close>

definition regular_size :: "fstat option \<Rightarrow> int" where
  "regular_size st = (case st of None \<Rightarrow> 0 | Some x \<Rightarrow> if f_regular x then f_size x else 0)"

lemma sum_list_update:
  fixes f :: "'v \<Rightarrow> int"
  assumes "distinct (map fst al)"
  shows "sum_list (map (\<lambda>(k, v). f v) (AList.update k v al))
    = sum_list (map (\<lambda>(k, v). f v) al) - (case map_of al k of None \<Rightarrow> 0 | Some w \<Rightarrow> f w) + f v"
  using assms
proof (induction al)
  case (Cons a al)
  have "k \<notin> fst ` set al \<Longrightarrow> map_of al k = None" by (simp add: map_of_eq_None_iff)
  then show ?case using Cons by (cases a) auto
qed simp

lemma listing_size_put:
  "distinct (map fst l) \<Longrightarrow> listing_size (put_file p st l) = listing_size l - regular_size (map_of l p) + regular_size (Some st)"
  using sum_list_update [of l "\<lambda>st. if f_regular st then f_size st else 0" p st]
  by (simp add: listing_size_def put_file_def regular_size_def split: option.splits)

lemma global_usage_put:
  "distinct (map fst (workspaces dk)) \<Longrightarrow> map_of (workspaces dk) d = Some l \<Longrightarrow>
    global_disk_usage (dk\<lparr>workspaces := AList.update d l' (workspaces dk)\<rparr>) = global_disk_usage dk - listing_size l + listing_size l'"
  using sum_list_update [of "workspaces dk" listing_size d l'] by (simp add: global_disk_usage_def)

lemma filter_update_length:
  assumes "distinct (map fst l)"
  shows "length (filter (\<lambda>(p, st). P p st) (AList.update k v l)) \<le> length (filter (\<lambda>(p, st). P p st) l) + (if map_of l k = None then 1 else if P k (the (map_of l k)) then 0 else 1)"
  using assms
proof (induction l)
  case (Cons a l)
  have "k \<notin> fst ` set l \<Longrightarrow> map_of l k = None" by (simp add: map_of_eq_None_iff)
  then show ?case using Cons by (cases a) auto
qed simp

lemma artifact_count_put:
  assumes "distinct (map fst l)" "case map_of l p of None \<Rightarrow> True | Some st \<Rightarrow> f_regular st" "f_regular st"
  shows "length (artifact_entries (put_file p st l)) \<le> length (artifact_entries l) + (if map_of l p = None then 1 else 0)"
proof -
  let ?P = "\<lambda>q s. f_regular s \<and> \<not> is_runner_internal q"
  have eq: "artifact_entries m = filter (\<lambda>(q, s). ?P q s) m" for m by (simp add: artifact_entries_def workspace_scan_def)
  show ?thesis
  proof (cases "map_of l p = None \<or> \<not> is_runner_internal p")
    case True
    then show ?thesis using filter_update_length [OF assms(1), of ?P p st] assms(2) unfolding eq put_file_def by (auto split: option.splits)
  next
    case False
    have "filter (\<lambda>(q, s). ?P q s) (AList.update p st l) = filter (\<lambda>(q, s). ?P q s) l"
      using False by (induction l) (auto split: if_splits)
    then show ?thesis using False unfolding eq put_file_def by auto
  qed
qed

lemma disk_quota_passed:
  assumes "disk_quota_refusal e st dk sid incoming total_bytes = Inr None" "session_disk_quota_bytes e = Inr q" "total_disk_quota_bytes e = Inr g"
  shows "(case total_bytes of None \<Rightarrow> session_dir_size st dk sid | Some t \<Rightarrow> t) + incoming \<le> q" "global_disk_usage dk + incoming \<le> g"
  using assms by (auto simp: disk_quota_refusal_def Let_def split: if_splits)

lemma write_guard_passed:
  assumes "write_guard e st dk sid l incoming net is_new = Inr None"
  shows "incoming \<le> max_artifact_bytes e" "is_new \<Longrightarrow> int (length (artifact_entries l)) < max_artifact_count e"
    "net \<le> 0 \<or> disk_quota_refusal e st dk sid net None = Inr None"
  using assms by (auto simp: write_guard_def artifact_cap_refusal_def Let_def split: if_splits option.splits)

lemma quota_refusals_coded: "coded_refusal (session_over sid u i q)" "coded_refusal (global_over u i q)" "coded_refusal (host_low f m)"
  unfolding session_over_def global_over_def host_low_def by (rule coded_error; simp)+

lemma disk_quota_coded: "disk_quota_refusal e st dk sid incoming total_bytes = Inr (Some r) \<Longrightarrow> coded_refusal r"
  using quota_refusals_coded by (auto simp: disk_quota_refusal_def Let_def rbind_eq_Inr split: if_splits option.splits)

lemma artifact_cap_coded:
  assumes "artifact_cap_refusal e sid l incoming is_new = Some r"
  shows "coded_refusal r"
proof -
  have "coded_refusal (error_result RESOURCE_EXHAUSTED m [(''remedy'', a), (''incoming_bytes'', b), (''max_artifact_bytes'', c)])"
    "coded_refusal (error_result RESOURCE_EXHAUSTED m [(''remedy'', a), (''artifact_count'', b), (''max_artifact_count'', c)])" for m a b c
    by (rule coded_error; simp)+
  then show ?thesis using assms unfolding artifact_cap_refusal_def Let_def by (metis option.inject option.distinct(1))
qed

lemma write_file_cases:
  assumes "write_file e st writable marker ttl now io mtime sid name content s dk = (r, s', dk')" "sdir st sid = Inr d" "map_of (workspaces dk) d = Some l"
  obtains (unchanged) "dk' = dk" "\<forall>x. r = Inr x \<longrightarrow> dget x ''ok'' \<noteq> PBool True"
  | (written) rel existing where "existing = (if rel = [] then Some \<lparr>f_regular = False, f_size = root_size dk, f_mtime = 0, f_nlink = 1\<rparr> else map_of l rel)"
      "write_guard e st dk sid l (utf8_length content) (utf8_length content - (case existing of None \<Rightarrow> 0 | Some old \<Rightarrow> f_size old)) (existing = None) = Inr None"
      "io rel = None" "r = Inr [(''ok'', PBool True), (''path'', PStr (posix rel))]"
      "dk' = dk\<lparr>workspaces := AList.update d (put_file rel \<lparr>f_regular = True, f_size = utf8_length content, f_mtime = mtime, f_nlink = 1\<rparr> l) (workspaces dk)\<rparr>"
proof (cases "jail (realpath st) d name")
  case (Inl m)
  have "coded_refusal (guard_error m)" by (simp add: guard_error_def Let_def)
  then show thesis using unchanged Inl assms by (auto simp: write_file_def Let_def coded_refusal_def)
next
  case (Inr target)
  define rel where "rel = drop (length (realpath st d)) target"
  define existing where "existing = (if rel = [] then Some \<lparr>f_regular = False, f_size = root_size dk, f_mtime = 0, f_nlink = 1\<rparr> else map_of l rel)"
  define guard where "guard = write_guard e st dk sid l (utf8_length content)
    (utf8_length content - (case existing of None \<Rightarrow> 0 | Some old \<Rightarrow> f_size old)) (existing = None)"
  have run: "(r, s', dk') = (case guard of
       Inl x \<Rightarrow> (Inl x, reap_then_note st writable marker ttl now sid s, dk)
     | Inr (Some refusal) \<Rightarrow> (Inr refusal, reap_then_note st writable marker ttl now sid s, dk)
     | Inr None \<Rightarrow> (case io rel of Some x \<Rightarrow> (Inl x, reap_then_note st writable marker ttl now sid s, dk)
        | None \<Rightarrow> (Inr [(''ok'', PBool True), (''path'', PStr (posix rel))], reap_then_note st writable marker ttl now sid s,
            dk\<lparr>workspaces := AList.update d (put_file rel \<lparr>f_regular = True, f_size = utf8_length content, f_mtime = mtime, f_nlink = 1\<rparr> l) (workspaces dk)\<rparr>)))"
    using assms(1) [symmetric] unfolding write_file_def assms(2,3) Inr Let_def sum.case option.case guard_def existing_def rel_def .
  show thesis
  proof (cases guard)
    case (Inl x)
    then show thesis using run unchanged by simp
  next
    case (Inr g)
    show thesis
    proof (cases g)
      case None
      then show thesis using run Inr unchanged written [OF existing_def] by (cases "io rel") (simp_all add: guard_def)
    next
      case (Some refusal)
      have "coded_refusal refusal" using Inr Some unfolding guard_def write_guard_def
        by (auto dest: disk_quota_coded artifact_cap_coded split: if_splits option.splits)
      then show thesis using run Inr Some unchanged by (simp add: coded_refusal_def)
    qed
  qed
qed


definition plain_env :: environment where
  "plain_env = \<lparr>env_var = (\<lambda>n. None), env_float = (\<lambda>s. None), env_int = (\<lambda>s. None)\<rparr>"

definition small_disk :: disk where
  "small_disk = \<lparr>workspaces = [([''srv'', ''python3-01234567''], [([''a.txt''], \<lparr>f_regular = True, f_size = 5, f_mtime = 0, f_nlink = 1\<rparr>)])],
     host_free = None, root_size = 4096\<rparr>"

definition small_io :: "path \<Rightarrow> exn option" where
  "small_io rel = (if rel = [] then Some (Exn OSErr ''Is a directory'') else None)"

lemma rnd64_nat:
  assumes "m < 2 ^ 53"
  shows "rnd64 (of_nat m) = Some (of_nat m)"
proof -
  have "(2 ^ 53 :: rat) \<le> 2 ^ 1024 - 2 ^ 971" by (simp add: algebra_simps)
  moreover have "(of_nat m :: rat) < 2 ^ 53" using assms by (metis of_nat_less_iff of_nat_numeral of_nat_power)
  ultimately have "(of_nat m :: rat) \<le> MAX_FINITE" by (simp add: MAX_FINITE_def pow2_def)
  then show ?thesis using rnd_nat [OF assms] by (simp add: rnd64_def)
qed

lemma megabytes_nat:
  assumes "n * 1048576 < 2 ^ 53"
  shows "megabytes (Finite (of_nat n)) = Inr (int n * 1048576)"
proof -
  have "rnd64 (of_nat n * 1024) = Some (of_nat n * 1024)" "rnd64 (of_nat n * 1024 * 1024) = Some (of_nat (n * 1048576))"
    using rnd64_nat [of "n * 1024"] rnd64_nat [of "n * 1048576"] assms by (simp_all add: mult.assoc)
  moreover have "\<lfloor>of_nat (n * 1048576) :: rat\<rfloor> = int n * 1048576" by (simp only: floor_of_nat)
  ultimately show ?thesis by (simp only: megabytes_def flt.case option.case)
qed


text \<open>A ceiling configured as infinite makes every check of it raise.\<close>

lemma infinite_quota_raises:
  "env_raw e SESSION_DISK_QUOTA_MB_ENV \<noteq> [] \<Longrightarrow> env_float e (env_raw e SESSION_DISK_QUOTA_MB_ENV) = Some (Infinite False) \<Longrightarrow>
    session_disk_quota_bytes e = Inl too_large"
  by (simp add: session_disk_quota_bytes_def env_positive_float_def positive_def megabytes_def)

end
