(* ===== verification/Session_Archive.thy ===== *)
theory Session_Archive
  imports Session_Quota
begin

text \<open>
  \<open>codecalc/sessions.py\<close>, restoring a snapshot: the archive is planned member by member, extracted into
  a fresh directory, and swapped in for the workspace. What \<open>tarfile\<close> reads from the archive, each time it
  is opened, is an argument, as are the failures of the file system.
\<close>

section \<open>Archives\<close>

datatype stream_error = TarError string | OSFail string | EOFFail string | OtherFail string

fun stream_text :: "stream_error \<Rightarrow> string" where
  "stream_text (TarError m) = m"
| "stream_text (OSFail m) = m"
| "stream_text (EOFFail m) = m"
| "stream_text (OtherFail m) = m"

text \<open>The classes \<open>except (tarfile.TarError, OSError, EOFError)\<close> catches; \<open>zlib.error\<close> is another.\<close>

definition caught :: "stream_error \<Rightarrow> bool" where
  "caught x = (case x of OtherFail m \<Rightarrow> False | _ \<Rightarrow> True)"

datatype member_kind = RegularMember | DirectoryMember | LinkMember | OtherMember

record tar_member =
  m_name :: string
  m_kind :: member_kind
  m_size :: int
  m_data :: "stream_error + string"

text \<open>The answers of successive calls of \<open>tf.next()\<close>: a member, or an exception; the end of the list is \<open>None\<close>.\<close>

type_synonym tar_stream = "(stream_error + tar_member) list"

definition corrupt :: "stream_error \<Rightarrow> dict" where
  "corrupt x = error_result VALIDATION (''corrupt snapshot archive: '' @ stream_text x) []"

definition bare_root :: "string \<Rightarrow> bool" where
  "bare_root name \<longleftrightarrow> name = [] \<or> name = ''.'' \<or> name = ''./''"

section \<open>Collisions\<close>

datatype path_kind = KFile | KDir

definition kind_text :: "path_kind \<Rightarrow> string" where
  "kind_text k = (case k of KFile \<Rightarrow> ''file'' | KDir \<Rightarrow> ''dir'')"

type_synonym known_paths = "string \<Rightarrow> path_kind option"

fun register_ancestors :: "string \<Rightarrow> path \<Rightarrow> nat list \<Rightarrow> known_paths \<Rightarrow> string + known_paths" where
  "register_ancestors relpath parts [] known = Inr known"
| "register_ancestors relpath parts (i # is) known =
    (let ancestor = join [SLASH] (take i parts) in
     if known ancestor = Some KFile
     then Inl (''snapshot member '' @ repr_str relpath @ '' treats '' @ repr_str ancestor
            @ '' as a directory, but an earlier member declared it a file'')
     else register_ancestors relpath parts is (known(ancestor \<mapsto> KDir)))"

definition tar_path_collision :: "known_paths \<Rightarrow> string \<Rightarrow> path_kind \<Rightarrow> string + known_paths" where
  "tar_path_collision known relpath kind =
    (let parts = split_by (\<lambda>c. c = SLASH) relpath in
     rbind (register_ancestors relpath parts [1..<length parts] known) (\<lambda>known'.
       case known' relpath of
         Some existing \<Rightarrow>
           if existing = KDir \<and> kind = KDir then Inr (known'(relpath \<mapsto> kind))
           else Inl (''snapshot member '' @ repr_str relpath @ '' collides with an earlier member of a different kind (''
                  @ kind_text existing @ '' vs '' @ kind_text kind @ '')'')
       | None \<Rightarrow> Inr (known'(relpath \<mapsto> kind))))"

section \<open>Planning\<close>

record tar_limits =
  max_members :: int
  max_member_bytes :: int
  byte_budget :: int

definition extraction_byte_budget :: "environment \<Rightarrow> int" where
  "extraction_byte_budget e = max_snapshot_bytes e + max_artifact_bytes e"

definition drive_letter :: "string \<Rightarrow> bool" where
  "drive_letter name \<longleftrightarrow> length name \<ge> 2 \<and> name ! 1 = CHR '':''
     \<and> (let n = of_char (hd name) :: nat in 65 \<le> n \<and> n \<le> 90 \<or> 97 \<le> n \<and> n \<le> 122)"

text \<open>
  The checks of a member's name and kind, in order; \<open>None\<close> when it passes. A hyphen stands for the long
  dash of some messages, which is beyond the characters modelled.
\<close>

definition member_field :: "string \<Rightarrow> dict" where
  "member_field name = [(''member'', PStr name)]"

definition member_refusal :: "tar_member \<Rightarrow> dict option" where
  "member_refusal m =
    (let name = m_name m; parts = split_by (\<lambda>c. c = SLASH) name; denied = (\<lambda>text'. Some (error_result PERMISSION_DENIED text' (member_field name))) in
     if char_of (0 :: nat) \<in> set name \<or> BACKSLASH \<in> set name
     then denied (''snapshot member name is malformed: '' @ repr_str name)
     else if hd name = SLASH \<or> drive_letter name
     then denied (''snapshot member has an absolute path: '' @ repr_str name)
     else if list_ex (\<lambda>part. part = [] \<or> part = ''.'' \<or> part = ''..'') parts
     then denied (''snapshot member path traverses out of the workspace: '' @ repr_str name)
     else if m_kind m = LinkMember
     then denied (''snapshot member '' @ repr_str name @ '' is a symlink/hardlink - refused'')
     else if m_kind m \<noteq> DirectoryMember \<and> m_kind m \<noteq> RegularMember
     then denied (''snapshot member '' @ repr_str name @ '' is not a regular file or directory (device/FIFO/socket) - refused'')
     else None)"

type_synonym plan = "(string \<times> bool \<times> int) list"

record plan_state =
  p_members :: plan
  p_known :: known_paths
  p_bytes :: int
  p_count :: int

definition too_many_members :: "tar_limits \<Rightarrow> dict" where
  "too_many_members caps = error_result RESOURCE_EXHAUSTED
     (''snapshot has more than '' @ int_str (max_members caps) @ '' member(s), over the cap ('' @ MAX_ARTIFACT_COUNT_ENV @ '')'')
     [(''remedy'', PStr (''raise '' @ MAX_ARTIFACT_COUNT_ENV)), (''max_members'', PInt (max_members caps))]"

definition member_too_large :: "tar_limits \<Rightarrow> tar_member \<Rightarrow> dict" where
  "member_too_large caps m = error_result RESOURCE_EXHAUSTED
     (''snapshot member '' @ repr_str (m_name m) @ '' is '' @ int_str (m_size m) @ '' bytes, over the '' @ int_str (max_member_bytes caps)
      @ ''-byte per-file cap ('' @ MAX_ARTIFACT_BYTES_ENV @ '')'')
     [(''remedy'', PStr (''raise '' @ MAX_ARTIFACT_BYTES_ENV)), (''member'', PStr (m_name m)), (''member_bytes'', PInt (m_size m)),
      (''max_member_bytes'', PInt (max_member_bytes caps))]"

definition over_budget :: "tar_limits \<Rightarrow> dict" where
  "over_budget caps = error_result RESOURCE_EXHAUSTED
     (''snapshot content exceeds the '' @ int_str (byte_budget caps) @ ''-byte decompression budget - refusing to read further'')
     [(''remedy'', PStr (''raise '' @ MAX_SNAPSHOT_BYTES_ENV)), (''budget_bytes'', PInt (byte_budget caps))]"

definition plan_member :: "tar_limits \<Rightarrow> tar_member \<Rightarrow> plan_state \<Rightarrow> dict + plan_state" where
  "plan_member caps m ps =
    (if bare_root (m_name m) then Inr ps
     else if p_count ps + 1 > max_members caps then Inl (too_many_members caps)
     else case member_refusal m of
         Some d \<Rightarrow> Inl d
       | None \<Rightarrow>
           let is_dir = (m_kind m = DirectoryMember); size' = (if is_dir then 0 else m_size m) in
           if \<not> is_dir \<and> m_size m > max_member_bytes caps then Inl (member_too_large caps m)
           else if \<not> is_dir \<and> p_bytes ps + size' > byte_budget caps then Inl (over_budget caps)
           else case tar_path_collision (p_known ps) (m_name m) (if is_dir then KDir else KFile) of
               Inl message \<Rightarrow> Inl (error_result PERMISSION_DENIED message (member_field (m_name m)))
             | Inr known \<Rightarrow>
                 Inr \<lparr>p_members = p_members ps @ [(m_name m, is_dir, size')], p_known = known, p_bytes = p_bytes ps + size', p_count = p_count ps + 1\<rparr>)"

text \<open>
  The loop: an exception outside the three classes goes on (left); otherwise the outcome is a refusal or a
  plan.
\<close>

fun plan_loop :: "tar_limits \<Rightarrow> tar_stream \<Rightarrow> plan_state \<Rightarrow> stream_error + (dict + plan_state)" where
  "plan_loop caps [] ps = Inr (Inr ps)"
| "plan_loop caps (Inl x # ms) ps = (if caught x then Inr (Inl (corrupt x)) else Inl x)"
| "plan_loop caps (Inr m # ms) ps =
    (case plan_member caps m ps of Inl d \<Rightarrow> Inr (Inl d) | Inr ps' \<Rightarrow> plan_loop caps ms ps')"

definition no_members :: plan_state where
  "no_members = \<lparr>p_members = [], p_known = Map.empty, p_bytes = 0, p_count = 0\<rparr>"

definition plan_tar_extraction :: "tar_limits \<Rightarrow> stream_error + tar_stream \<Rightarrow> stream_error + (dict + plan_state)" where
  "plan_tar_extraction caps archive =
    (case archive of
       Inl x \<Rightarrow> if caught x then Inr (Inl (corrupt x)) else Inl x
     | Inr ms \<Rightarrow> plan_loop caps ms no_members)"

definition file_count :: "plan \<Rightarrow> nat" where
  "file_count members = length (filter (\<lambda>(p, is_dir, n). \<not> is_dir) members)"

section \<open>Extraction\<close>

text \<open>\<open>mkdir(parents=True, exist_ok=True)\<close> below a directory without links: fails on a file in the way.\<close>

fun mkdirs :: "path \<Rightarrow> path \<Rightarrow> workspace \<Rightarrow> workspace option" where
  "mkdirs made [] fs = Some fs"
| "mkdirs made (c # cs) fs =
    (case fs (made @ [c]) of
       None \<Rightarrow> mkdirs (made @ [c]) cs (fs(made @ [c] \<mapsto> Directory))
     | Some Directory \<Rightarrow> mkdirs (made @ [c]) cs fs
     | _ \<Rightarrow> None)"

text \<open>
  \<open>(dest / relpath).resolve()\<close> in the fresh directory, which holds no link: \<open>None\<close> when it leaves it.
\<close>

fun resolve_below :: "path \<Rightarrow> path \<Rightarrow> path option" where
  "resolve_below cur [] = Some cur"
| "resolve_below cur (c # cs) =
    (if c = ''..'' then (if cur = [] then None else resolve_below (butlast cur) cs) else resolve_below (cur @ [c]) cs)"

definition target_of :: "string \<Rightarrow> path option" where
  "target_of relpath = (if relpath \<noteq> [] \<and> hd relpath = SLASH then None else resolve_below [] (path_join [] relpath))"

text \<open>An \<open>OSError\<close>, with the file it names, becomes a refusal.\<close>

definition extraction_failed :: "string option \<times> string \<Rightarrow> dict" where
  "extraction_failed x = error_result PERMISSION_DENIED
     (''snapshot extraction failed on '' @ (case fst x of Some f \<Rightarrow> if f = [] then ''?'' else f | None \<Rightarrow> ''?'') @ '': '' @ snd x) []"

definition changed_archive :: "string \<Rightarrow> dict" where
  "changed_archive what = error_result PERMISSION_DENIED (''snapshot archive changed between validation and extraction '' @ what) []"

record extraction_io =
  clash :: "path \<Rightarrow> string option \<times> string"
  fault :: "path \<Rightarrow> (string option \<times> string) option"

text \<open>
  One planned member: \<open>clash\<close> is the error of the operating system where a file is in the way, \<open>fault\<close> any
  other error it may report.
\<close>

definition extract_member :: "extraction_io \<Rightarrow> tar_member \<Rightarrow> path \<Rightarrow> bool \<Rightarrow> workspace \<Rightarrow> stream_error + (dict + workspace)" where
  "extract_member io m target is_dir fs =
    (case fault io target of
       Some x \<Rightarrow> Inr (Inl (extraction_failed x))
     | None \<Rightarrow>
         if is_dir then
           (case mkdirs [] target fs of None \<Rightarrow> Inr (Inl (extraction_failed (clash io target))) | Some fs' \<Rightarrow> Inr (Inr fs'))
         else
           (case mkdirs [] (butlast target) fs of
              None \<Rightarrow> Inr (Inl (extraction_failed (clash io target)))
            | Some fs' \<Rightarrow>
                if fs' target \<noteq> None then Inr (Inl (extraction_failed (clash io target)))
                else (case m_data m of
                        Inl (OSFail t) \<Rightarrow> Inr (Inl (extraction_failed (None, t)))
                      | Inl x \<Rightarrow> Inl x
                      | Inr content \<Rightarrow> Inr (Inr (fs'(target \<mapsto> Regular content))))))"

fun extract_loop :: "extraction_io \<Rightarrow> tar_stream \<Rightarrow> plan \<Rightarrow> workspace \<Rightarrow> stream_error + (dict + workspace)" where
  "extract_loop io [] members fs =
    (if members = [] then Inr (Inr fs) else Inr (Inl (changed_archive ''(fewer members than planned)'')))"
| "extract_loop io (Inl x # ms) members fs = (if caught x then Inr (Inl (corrupt x)) else Inl x)"
| "extract_loop io (Inr m # ms) members fs =
    (if bare_root (m_name m) then extract_loop io ms members fs
     else case members of
         [] \<Rightarrow> Inr (Inl (changed_archive ''(more members than planned)''))
       | (relpath, is_dir, n) # rest \<Rightarrow>
           if m_name m \<noteq> relpath \<or> (m_kind m = DirectoryMember) \<noteq> is_dir \<or> \<not> is_dir \<and> m_size m \<noteq> n
           then Inr (Inl (changed_archive (''at member '' @ repr_str relpath)))
           else case target_of relpath of
               None \<Rightarrow> Inr (Inl (error_result PERMISSION_DENIED
                         (''snapshot member resolves outside the new workspace: '' @ repr_str relpath) (member_field relpath)))
             | Some target \<Rightarrow>
                 rbind (extract_member io m target is_dir fs) (\<lambda>r.
                   case r of Inl d \<Rightarrow> Inr (Inl d) | Inr fs' \<Rightarrow> extract_loop io ms rest fs'))"

text \<open>Opening the archive again: here only \<open>OSError\<close> is caught.\<close>

definition extract_planned_tar :: "extraction_io \<Rightarrow> stream_error + tar_stream \<Rightarrow> plan \<Rightarrow> stream_error + (dict + workspace)" where
  "extract_planned_tar io archive members =
    (case archive of
       Inl (OSFail t) \<Rightarrow> Inr (Inl (extraction_failed (None, t)))
     | Inl x \<Rightarrow> Inl x
     | Inr ms \<Rightarrow> extract_loop io ms members (Map.empty([] \<mapsto> Directory)))"

end
