(* ===== verification/Session_Snapshot.thy ===== *)
theory Session_Snapshot
  imports Session_Archive
begin

text \<open>
  \<open>codecalc/sessions.py\<close>, snapshots: saving a workspace as an archive with a sidecar, deleting a snapshot,
  and restoring one into a new session or in place of a workspace. Directories are named by their resolved
  path. The archive writer and reader, the JSON writer and reader, the spawning of a worker, the errors of
  the file system and what other threads do while an archive is extracted are arguments.
\<close>

section \<open>Where a snapshot is\<close>

type_synonym store = "(path \<times> entry) list"

definition snapshot_root :: "site \<Rightarrow> path" where
  "snapshot_root st = realpath st (session_root st @ [SNAPSHOT_DIRNAME])"

definition snapshot_session_dir :: "site \<Rightarrow> string \<Rightarrow> string + path" where
  "snapshot_session_dir st sid =
    (if \<not> SAFE_NAME sid then Inl ''invalid session id''
     else let d = realpath st (snapshot_root st @ [sid])
          in if prefix (snapshot_root st) d then Inr d else Inl ''session path escapes snapshot root'')"

definition snapshot_paths :: "site \<Rightarrow> string \<Rightarrow> string \<Rightarrow> string + path \<times> path" where
  "snapshot_paths st sid snapshot_id =
    (if \<not> SNAPSHOT_ID snapshot_id then Inl ''invalid snapshot id''
     else rbind (snapshot_session_dir st sid) (\<lambda>d. Inr (d @ [snapshot_id @ ''.tar.gz''], d @ [snapshot_id @ ''.json''])))"

text \<open>The files of a directory with a suffix.\<close>

definition glob_suffix :: "string \<Rightarrow> path \<Rightarrow> store \<Rightarrow> path list" where
  "glob_suffix ending d files = filter (\<lambda>p. p \<noteq> [] \<and> butlast p = d \<and> suffix ending (last p)) (map fst files)"

definition rsplit_dash :: "string \<Rightarrow> string" where
  "rsplit_dash s = (if CHR ''-'' \<in> set s then butlast (rev (dropWhile (\<lambda>c. c \<noteq> CHR ''-'') (rev s))) else s)"

definition session_language :: "string \<Rightarrow> sessions \<Rightarrow> string" where
  "session_language sid s =
    (case map_of (workers s) sid of
       Some w \<Rightarrow> w_language w
     | None \<Rightarrow> (case canonical (rsplit_dash sid) of Some l \<Rightarrow> l | None \<Rightarrow> ''python3''))"

section \<open>Saving\<close>

abbreviation MAX_SNAPSHOTS_PER_SESSION_ENV :: string where "MAX_SNAPSHOTS_PER_SESSION_ENV \<equiv> ''CODECALC_MAX_SNAPSHOTS_PER_SESSION''"
abbreviation MAX_LABEL_LEN :: nat where "MAX_LABEL_LEN \<equiv> 200"

definition max_snapshots_per_session :: "environment \<Rightarrow> int" where
  "max_snapshots_per_session e = env_positive_int e MAX_SNAPSHOTS_PER_SESSION_ENV 10"

text \<open>The identity recorded for a session, \<open>None\<close> when there is none or it could not be read.\<close>

definition created_identity :: "string \<Rightarrow> sessions \<Rightarrow> nat option" where
  "created_identity sid s = (case map_of (dir_identity s) sid of Some i \<Rightarrow> i | None \<Rightarrow> None)"

definition unverified :: "string \<Rightarrow> path \<Rightarrow> sessions \<Rightarrow> bool" where
  "unverified sid d s \<longleftrightarrow> created_identity sid s = None \<or> identity d s \<noteq> created_identity sid s"

definition identity_refusal :: "string \<Rightarrow> string \<Rightarrow> dict" where
  "identity_refusal sid why = error_result PERMISSION_DENIED (''session '' @ quoted sid @ '' workspace identity '' @ why)
     [(''remedy'', PStr ''use a session this server process started'')]"

definition cannot_snapshot :: "string \<Rightarrow> dict" where
  "cannot_snapshot sid = identity_refusal sid
     ''could not be verified (swapped since creation, or this server never recorded one for it) - refusing to snapshot''"

definition cannot_replace :: "string \<Rightarrow> dict" where
  "cannot_replace sid = identity_refusal sid ''could not be verified - refusing to replace it''"

definition changed_during_restore :: "string \<Rightarrow> dict" where
  "changed_during_restore sid = identity_refusal sid ''changed during restore - refusing to replace it''"

definition to_archive :: "listing \<Rightarrow> listing" where
  "to_archive l = filter (\<lambda>(p, st). f_nlink st = 1) (artifact_entries l)"

definition raw_bytes :: "listing \<Rightarrow> int" where
  "raw_bytes l = sum_list (map (\<lambda>(p, st). f_size st) l)"

definition label_too_long :: "nat \<Rightarrow> dict" where
  "label_too_long n = error_result VALIDATION (''label is '' @ nat_str n @ '' chars, over the '' @ nat_str MAX_LABEL_LEN @ ''-char cap'')
     [(''remedy'', PStr (''shorten the label to '' @ nat_str MAX_LABEL_LEN @ '' characters or fewer''))]"

definition snapshot_too_large :: "int \<Rightarrow> int \<Rightarrow> dict" where
  "snapshot_too_large raw cap = error_result RESOURCE_EXHAUSTED
     (''snapshot would be at least '' @ int_str raw @ '' bytes, over the '' @ int_str cap @ ''-byte cap ('' @ MAX_SNAPSHOT_BYTES_ENV @ '')'')
     [(''remedy'', PStr (''delete files from the session first, or raise '' @ MAX_SNAPSHOT_BYTES_ENV)), (''raw_bytes'', PInt raw),
      (''max_snapshot_bytes'', PInt cap)]"

definition too_many_snapshots :: "string \<Rightarrow> int \<Rightarrow> int \<Rightarrow> dict" where
  "too_many_snapshots sid n cap = error_result RESOURCE_EXHAUSTED
     (''session '' @ quoted sid @ '' already has '' @ int_str n @ '' snapshot(s), at the '' @ int_str cap @ ''-snapshot cap ('' @ MAX_SNAPSHOTS_PER_SESSION_ENV @ '')'')
     [(''remedy'', PStr (''delete an old snapshot first (session_snapshot action='' @ [CHR 0x22] @ ''delete'' @ [CHR 0x22] @ ''), or raise '' @ MAX_SNAPSHOTS_PER_SESSION_ENV)),
      (''snapshot_count'', PInt n), (''max_snapshots'', PInt cap)]"

definition opt_str :: "string option \<Rightarrow> pyval" where
  "opt_str x = (case x of None \<Rightarrow> PNone | Some t \<Rightarrow> PStr t)"

text \<open>
  \<open>make_store\<close> is the error of making the directory, \<open>write_sidecar\<close> that of writing the sidecar; neither is
  caught. \<open>tgz\<close> is the archive of some entries, or the message of an \<open>OSError\<close>.
\<close>

record save_io =
  tgz :: "listing \<Rightarrow> string + string"
  dumps :: "dict \<Rightarrow> string"
  make_store :: "exn option"
  write_sidecar :: "exn option"
  save_hex :: string
  save_time :: string

definition snapshot_meta :: "save_io \<Rightarrow> string \<Rightarrow> string option \<Rightarrow> int \<Rightarrow> int \<Rightarrow> int \<Rightarrow> string \<Rightarrow> dict" where
  "snapshot_meta io sid label actual files raw language =
    [(''snapshot_id'', PStr (save_hex io)), (''session_id'', PStr sid), (''label'', opt_str label), (''created_at'', PStr (save_time io)),
     (''bytes'', PInt actual), (''files'', PInt files), (''raw_bytes'', PInt raw), (''language'', PStr language)]"

definition snapshot_saved :: "save_io \<Rightarrow> string \<Rightarrow> string option \<Rightarrow> int \<Rightarrow> int \<Rightarrow> int \<Rightarrow> dict" where
  "snapshot_saved io sid label actual files skipped =
    [(''ok'', PBool True), (''action'', PStr ''save''), (''session_id'', PStr sid), (''snapshot_id'', PStr (save_hex io)), (''bytes'', PInt actual),
     (''files'', PInt files), (''created_at'', PStr (save_time io)), (''label'', opt_str label)]
    @ (if skipped \<noteq> 0 then [(''skipped_hardlinks'', PInt skipped)] else [])"

definition write_snapshot :: "save_io \<Rightarrow> site \<Rightarrow> string \<Rightarrow> string option \<Rightarrow> listing \<Rightarrow> sessions \<Rightarrow> store \<Rightarrow> (exn + dict) \<times> store" where
  "write_snapshot io st sid label l s files =
    (case snapshot_paths st sid (save_hex io) of
       Inl message \<Rightarrow> (Inl (Exn ValueErr message), files)
     | Inr (tar_path, meta_path) \<Rightarrow>
         (case tgz io (to_archive l) of
            Inl message \<Rightarrow> (Inr (error_result INTERNAL (''failed to write snapshot: '' @ message) []), files)
          | Inr archive \<Rightarrow>
              let stored = AList.update tar_path (Regular archive) files; n = int (length (to_archive l));
                  meta = snapshot_meta io sid label (int (length archive)) n (raw_bytes (to_archive l)) (session_language sid s) in
              (case write_sidecar io of
                 Some x \<Rightarrow> (Inl x, stored)
               | None \<Rightarrow> (Inr (snapshot_saved io sid label (int (length archive)) n (int (length (artifact_entries l)) - n)),
                          AList.update meta_path (Regular (dumps io meta)) stored))))"

definition save_checked :: "environment \<Rightarrow> save_io \<Rightarrow> site \<Rightarrow> disk \<Rightarrow> string \<Rightarrow> string option \<Rightarrow> path \<Rightarrow> sessions \<Rightarrow> store \<Rightarrow> (exn + dict) \<times> store" where
  "save_checked e io st dk sid label d s files =
    (if unverified sid d s
     then (Inr (cannot_snapshot sid), files)
     else let l = (case map_of (workspaces dk) d of None \<Rightarrow> [] | Some l \<Rightarrow> l); raw = raw_bytes (to_archive l) in
       if raw > max_snapshot_bytes e then (Inr (snapshot_too_large raw (max_snapshot_bytes e)), files)
       else case disk_quota_refusal e st dk sid raw None of
           Inl x \<Rightarrow> (Inl x, files)
         | Inr (Some refusal) \<Rightarrow> (Inr refusal, files)
         | Inr None \<Rightarrow>
             (case snapshot_session_dir st sid of
                Inl message \<Rightarrow> (Inl (Exn ValueErr message), files)
              | Inr snap_dir \<Rightarrow>
                  let n = int (length (glob_suffix ''.json'' snap_dir files)) in
                  if n \<ge> max_snapshots_per_session e then (Inr (too_many_snapshots sid n (max_snapshots_per_session e)), files)
                  else case make_store io of
                      Some x \<Rightarrow> (Inl x, files)
                    | None \<Rightarrow> write_snapshot io st sid label l s files))"

definition snapshot_save :: "environment \<Rightarrow> save_io \<Rightarrow> site \<Rightarrow> bool \<Rightarrow> string \<Rightarrow> flt option \<Rightarrow> rat \<Rightarrow> disk \<Rightarrow> string \<Rightarrow> string option \<Rightarrow> sessions \<Rightarrow> store
    \<Rightarrow> (exn + dict) \<times> sessions \<times> store" where
  "snapshot_save e io st writable marker ttl now dk sid label s files =
    (case sdir st sid of
       Inl message \<Rightarrow> (Inr (guard_error message), s, files)
     | Inr d \<Rightarrow>
         if dirs s d = None then (Inr (unknown_session sid), s, files)
         else if label \<noteq> None \<and> length (the label) > MAX_LABEL_LEN then (Inr (label_too_long (length (the label))), s, files)
         else let s1 = reap_then_note st writable marker ttl now sid s in
              case save_checked e io st dk sid label d s1 files of (r, files') \<Rightarrow> (r, s1, files'))"

section \<open>Deleting\<close>

definition snapshot_delete :: "site \<Rightarrow> string \<Rightarrow> string \<Rightarrow> store \<Rightarrow> dict \<times> store" where
  "snapshot_delete st sid snapshot_id files =
    (case snapshot_paths st sid snapshot_id of
       Inl message \<Rightarrow> (guard_error message, files)
     | Inr (tar_path, meta_path) \<Rightarrow>
         let regular = (\<lambda>p. case map_of files p of Some (Regular c) \<Rightarrow> True | _ \<Rightarrow> False);
             gone = filter regular [tar_path, meta_path]
         in ([(''ok'', PBool True), (''action'', PStr ''delete''), (''session_id'', PStr sid), (''snapshot_id'', PStr snapshot_id),
              (''deleted'', PBool (gone \<noteq> []))], filter (\<lambda>(p, e). \<not> List.member gone p) files))"

text \<open>\<open>left\<close> is what the removal of the directory leaves behind.\<close>

definition delete_all_snapshots :: "site \<Rightarrow> (path \<Rightarrow> bool) \<Rightarrow> string \<Rightarrow> store \<Rightarrow> nat \<times> store" where
  "delete_all_snapshots st left sid files =
    (case snapshot_session_dir st sid of
       Inl message \<Rightarrow> (0, files)
     | Inr d \<Rightarrow> if map_of files d \<noteq> Some Directory then (0, files)
         else (length (glob_suffix ''.tar.gz'' d files), filter (\<lambda>(p, e). prefix d p \<longrightarrow> left p) files))"

section \<open>Restoring\<close>

datatype escape = Stream stream_error | Python exn

record restore_io =
  extraction :: extraction_io
  reread :: "stream_error + tar_stream"
  partial :: workspace
  mkdir_fault :: "string option"
  rename_fault :: "path \<Rightarrow> path \<Rightarrow> string option"
  left_behind :: "path \<Rightarrow> workspace option"
  restore_hex :: string
  aside_hex :: string
  id_hex :: string
  temp_inode :: "nat option"
  spawning :: "string option + bool"

text \<open>\<open>shutil.rmtree(ignore_errors=True)\<close> and \<open>Path.rename\<close> of directories.\<close>

definition rmtree_quiet :: "restore_io \<Rightarrow> path \<Rightarrow> sessions \<Rightarrow> sessions" where
  "rmtree_quiet io d s = s\<lparr>dirs := (dirs s)(d := left_behind io d)\<rparr>"

definition rename_dir :: "restore_io \<Rightarrow> path \<Rightarrow> path \<Rightarrow> sessions \<Rightarrow> string + sessions" where
  "rename_dir io old new s =
    (case rename_fault io old new of
       Some message \<Rightarrow> Inl message
     | None \<Rightarrow> Inr (s\<lparr>dirs := (dirs s)(new := dirs s old, old := None), inode := (inode s)(new := inode s old, old := None)\<rparr>))"

definition temp_dir :: "site \<Rightarrow> restore_io \<Rightarrow> path" where
  "temp_dir st io = realpath st (session_root st) @ [RESTORE_TMP_PREFIX @ restore_hex io]"

definition materialize_tar_plan :: "site \<Rightarrow> restore_io \<Rightarrow> plan \<Rightarrow> sessions \<Rightarrow> (escape + (dict + path)) \<times> sessions" where
  "materialize_tar_plan st io members s =
    (let temp = temp_dir st io in
     case mkdir_fault io of
       Some message \<Rightarrow> (Inl (Python (Exn OSErr message)), s)
     | None \<Rightarrow>
         if dirs s temp \<noteq> None then (Inl (Python (Exn OSErr ''File exists'')), s)
         else let s1 = make_dir (temp_inode io) temp s in
           case extract_planned_tar (extraction io) (reread io) members of
             Inl x \<Rightarrow> (Inl (Stream x), s1\<lparr>dirs := (dirs s1)(temp \<mapsto> partial io)\<rparr>)
           | Inr (Inl failure) \<Rightarrow> (Inr (Inl failure), rmtree_quiet io temp s1)
           | Inr (Inr fs) \<Rightarrow> (Inr (Inr temp), s1\<lparr>dirs := (dirs s1)(temp \<mapsto> fs)\<rparr>))"

record server =
  sv_abi :: nat
  sv_reasons :: "string list"
  sv_writable :: bool
  sv_pid :: string
  sv_marker :: string
  sv_ttl :: "flt option"
  sv_now :: rat

definition restored :: "site \<Rightarrow> string \<Rightarrow> path \<Rightarrow> string \<Rightarrow> plan_state \<Rightarrow> bool \<Rightarrow> dict \<Rightarrow> sessions \<Rightarrow> dict" where
  "restored st sid d language ps replaced worker_fields s =
    [(''ok'', PBool True), (''action'', PStr ''restore''), (''session_id'', PStr sid), (''language'', PStr language), (''workdir'', PStr (workdir_text d)),
     (''restored_files'', PInt (int (file_count (p_members ps)))), (''bytes'', PInt (p_bytes ps))]
    @ (if replaced then [(''replaced'', PBool True)] else []) @ worker_fields @ [(''files'', files_of st d s)]"

definition finish_restored_session :: "site \<Rightarrow> server \<Rightarrow> restore_io \<Rightarrow> string \<Rightarrow> path \<Rightarrow> string \<Rightarrow> plan_state \<Rightarrow> bool \<Rightarrow> sessions \<Rightarrow> dict \<times> sessions" where
  "finish_restored_session st sv io sid d language ps replaced s =
    (if \<not> List.member WORKER_LANGS language
     then (restored st sid d language ps replaced [(''stateful'', PBool False)] s, s)
     else case spawning io of
         Inl why \<Rightarrow>
           (restored st sid d language ps replaced [(''stateful'', PBool False), (''worker_restart_error'',
              PStr (case why of Some m \<Rightarrow> if m = [] then ''unknown cause'' else m | None \<Rightarrow> ''unknown cause''))] s, s)
       | Inr confined \<Rightarrow>
           let w = \<lparr>w_language = language, w_confined = confined, w_serial = spawned s\<rparr>;
               s1 = write_lock_file (sv_writable sv) (sv_pid sv) d (s\<lparr>spawned := Suc (spawned s)\<rparr>);
               s2 = touch (sv_now sv) sid (s1\<lparr>workers := AList.update sid w (workers s1)\<rparr>)
           in (restored st sid d language ps replaced [(''stateful'', PBool True), (''confined'', PBool confined),
                 (''unenforced'', PList (map PStr (session_unenforced (sv_abi sv) (sv_reasons sv) (Some w))))] s2, s2))"

definition not_finalized :: "string \<Rightarrow> dict" where
  "not_finalized message = error_result INTERNAL (''could not finalize the restored workspace: '' @ message) []"

definition snapshot_restore_new :: "environment \<Rightarrow> site \<Rightarrow> server \<Rightarrow> restore_io \<Rightarrow> disk \<Rightarrow> string \<Rightarrow> plan_state \<Rightarrow> string \<Rightarrow> sessions
    \<Rightarrow> (escape + dict) \<times> sessions" where
  "snapshot_restore_new e st sv io dk origin ps language s =
    (case disk_quota_refusal e st dk origin (p_bytes ps) None of
       Inl x \<Rightarrow> (Inl (Python x), s)
     | Inr (Some refusal) \<Rightarrow> (Inr refusal, s)
     | Inr None \<Rightarrow>
         (case materialize_tar_plan st io (p_members ps) s of
            (Inl x, s1) \<Rightarrow> (Inl x, s1)
          | (Inr (Inl failure), s1) \<Rightarrow> (Inr failure, s1)
          | (Inr (Inr temp), s1) \<Rightarrow>
              let new_id = new_session_id language (id_hex io); final = realpath st (session_root st) @ [new_id] in
              (case rename_dir io temp final s1 of
                 Inl message \<Rightarrow> (Inr (not_finalized message), rmtree_quiet io temp s1)
               | Inr s2 \<Rightarrow>
                   (case finish_restored_session st sv io new_id final language ps False (record_identity new_id final s2) of
                      (r, s3) \<Rightarrow> (Inr r, s3)))))"

text \<open>Under the lock: the worker of the session is taken out, and its expiry is forgotten.\<close>

definition take_worker :: "string \<Rightarrow> sessions \<Rightarrow> worker option \<times> sessions" where
  "take_worker sid s =
    (let w = map_of (workers s) sid
     in (w, discard_expired sid (s\<lparr>workers := AList.delete sid (workers s), last_activity := AList.delete sid (last_activity s),
            closing := closing s @ (case w of None \<Rightarrow> [] | Some w \<Rightarrow> [(sid, w)])\<rparr>)))"

definition retire_worker :: "site \<Rightarrow> string \<Rightarrow> sessions \<Rightarrow> sessions" where
  "retire_worker st sid s =
    (case take_worker sid s of
       (None, s') \<Rightarrow> s'
     | (Some w, s') \<Rightarrow> remove_lock_file st sid (close_worker sid w s'))"

definition aside_dir :: "restore_io \<Rightarrow> path \<Rightarrow> path" where
  "aside_dir io d = butlast d @ [RESTORE_TMP_PREFIX @ ''old-'' @ aside_hex io]"

text \<open>The swap: the workspace aside, the extracted one in, and back again when that fails.\<close>

definition swap_in :: "restore_io \<Rightarrow> path \<Rightarrow> path \<Rightarrow> sessions \<Rightarrow> (dict + unit) \<times> sessions" where
  "swap_in io temp d s =
    (case rename_dir io d (aside_dir io d) s of
       Inl message \<Rightarrow> (Inl (error_result INTERNAL (''could not set aside the existing workspace: '' @ message) []), rmtree_quiet io temp s)
     | Inr s1 \<Rightarrow>
         (case rename_dir io temp d s1 of
            Inl message \<Rightarrow>
              (Inl (not_finalized message),
               rmtree_quiet io temp (case rename_dir io (aside_dir io d) d s1 of Inl message' \<Rightarrow> s1 | Inr s2 \<Rightarrow> s2))
          | Inr s2 \<Rightarrow> (Inr (), rmtree_quiet io (aside_dir io d) s2)))"

definition snapshot_restore_replace :: "environment \<Rightarrow> site \<Rightarrow> server \<Rightarrow> restore_io \<Rightarrow> (sessions \<Rightarrow> sessions) \<Rightarrow> disk \<Rightarrow> string \<Rightarrow> plan_state \<Rightarrow> string \<Rightarrow> sessions
    \<Rightarrow> (escape + dict) \<times> sessions" where
  "snapshot_restore_replace e st sv io meanwhile dk sid ps language s =
    (case sdir st sid of
       Inl message \<Rightarrow> (Inr (guard_error message), s)
     | Inr d \<Rightarrow>
         if dirs s d = None then (Inr (unknown_session sid), s)
         else let s1 = reap_then_note st (sv_writable sv) (sv_marker sv) (sv_ttl sv) (sv_now sv) sid s in
           if unverified sid d s1 then (Inr (cannot_replace sid), s1)
           else case disk_quota_refusal e st dk sid (p_bytes ps) None of
               Inl x \<Rightarrow> (Inl (Python x), s1)
             | Inr (Some refusal) \<Rightarrow> (Inr refusal, s1)
             | Inr None \<Rightarrow>
                 (case materialize_tar_plan st io (p_members ps) s1 of
                    (Inl x, s2) \<Rightarrow> (Inl x, s2)
                  | (Inr (Inl failure), s2) \<Rightarrow> (Inr failure, s2)
                  | (Inr (Inr temp), s2) \<Rightarrow>
                      let s3 = meanwhile s2 in
                      if unverified sid d s3
                      then (Inr (changed_during_restore sid), rmtree_quiet io temp s3)
                      else case swap_in io temp d (retire_worker st sid s3) of
                          (Inl failure, s4) \<Rightarrow> (Inr failure, s4)
                        | (Inr u, s4) \<Rightarrow>
                            (case finish_restored_session st sv io sid d language ps True (record_identity sid d s4) of
                               (r, s5) \<Rightarrow> (Inr r, s5))))"

text \<open>
  A sidecar or an archive is found through a link as well (\<open>follow\<close>); \<open>loads\<close> and \<open>untar\<close> read the content. A
  sidecar that is JSON but no object has no \<open>get\<close>, and a language that is no text no \<open>strip\<close>.
\<close>

record readers =
  follow :: "string \<Rightarrow> string option"
  loads :: "string \<Rightarrow> string + pyval"
  untar :: "string \<Rightarrow> stream_error + tar_stream"

definition file_at :: "readers \<Rightarrow> store \<Rightarrow> path \<Rightarrow> string option" where
  "file_at rd files p = (case map_of files p of Some (Regular c) \<Rightarrow> Some c | Some (Symlink t) \<Rightarrow> follow rd t | _ \<Rightarrow> None)"

definition no_attribute :: "pyval \<Rightarrow> string \<Rightarrow> exn" where
  "no_attribute v name = Exn OtherExn (quoted (type_name v) @ '' object has no attribute '' @ quoted name)"

definition sidecar_language :: "pyval \<Rightarrow> exn + string" where
  "sidecar_language meta =
    (case meta of
       PDict d \<Rightarrow>
         (let v = dget d ''language'' in
          if \<not> truthy v then Inr ''python3''
          else case v of
              PStr t \<Rightarrow> Inr (case canonical t of Some l \<Rightarrow> l | None \<Rightarrow> ''python3'')
            | _ \<Rightarrow> Inl (no_attribute v ''strip''))
     | _ \<Rightarrow> Inl (no_attribute meta ''get''))"

definition restore_limits :: "environment \<Rightarrow> tar_limits" where
  "restore_limits e = \<lparr>max_members = max_artifact_count e, max_member_bytes = max_artifact_bytes e, byte_budget = extraction_byte_budget e\<rparr>"

definition snapshot_restore :: "environment \<Rightarrow> readers \<Rightarrow> site \<Rightarrow> server \<Rightarrow> restore_io \<Rightarrow> (sessions \<Rightarrow> sessions) \<Rightarrow> disk \<Rightarrow> store \<Rightarrow> string \<Rightarrow> string \<Rightarrow> bool \<Rightarrow> sessions
    \<Rightarrow> (escape + dict) \<times> sessions" where
  "snapshot_restore e rd st sv io meanwhile dk files sid snapshot_id replace s =
    (case snapshot_paths st sid snapshot_id of
       Inl message \<Rightarrow> (Inr (guard_error message), s)
     | Inr (tar_path, meta_path) \<Rightarrow>
         (case (file_at rd files tar_path, file_at rd files meta_path) of
            (Some archive, Some sidecar) \<Rightarrow>
              (case loads rd sidecar of
                 Inl message \<Rightarrow> (Inr (error_result INTERNAL (''snapshot metadata unreadable: '' @ message) []), s)
               | Inr meta \<Rightarrow>
                   (case sidecar_language meta of
                      Inl x \<Rightarrow> (Inl (Python x), s)
                    | Inr language \<Rightarrow>
                        (case plan_tar_extraction (restore_limits e) (untar rd archive) of
                           Inl x \<Rightarrow> (Inl (Stream x), s)
                         | Inr (Inl refusal) \<Rightarrow> (Inr refusal, s)
                         | Inr (Inr ps) \<Rightarrow>
                             if replace then snapshot_restore_replace e st sv io meanwhile dk sid ps language s
                             else snapshot_restore_new e st sv io dk sid ps language s)))
          | _ \<Rightarrow> (Inr [(''ok'', PBool False), (''error'', PStr (''unknown snapshot '' @ quoted snapshot_id @ '' for session '' @ quoted sid))], s)))"

end
