(* ===== verification/Archive_Claims.thy ===== *)
theory Archive_Claims
  imports Session_Archive
begin

text \<open>
  What the plan of an archive promises and why extracting a planned archive cannot fail half-way: the
  paths the plan registers mirror the tree the extraction makes, member by member.
\<close>

section \<open>Names and paths\<close>

abbreviation slashes :: "string \<Rightarrow> path" where
  "slashes s \<equiv> split_by (\<lambda>c. c = SLASH) s"

lemma join_slashes [simp]: "join [SLASH] (slashes s) = s"
proof (induction s)
  case (Cons c s)
  obtain w ws where "slashes s = w # ws" by (cases "slashes s") auto
  with Cons show ?case by (cases ws) auto
qed simp

lemma split_by_append: "list_all (\<lambda>x. \<not> p x) w \<Longrightarrow> split_by p (w @ s) = (w @ hd (split_by p s)) # tl (split_by p s)"
  by (induction w) auto

lemma slashes_join: "ps \<noteq> [] \<Longrightarrow> list_all (\<lambda>w. SLASH \<notin> set w) ps \<Longrightarrow> slashes (join [SLASH] ps) = ps"
proof (induction ps rule: induct_list012)
  case (2 w)
  then show ?case using split_by_append [of "\<lambda>c. c = SLASH" w "[]"] by (auto simp: list_all_iff)
next
  case (3 w v ps)
  have "list_all (\<lambda>c. \<not> c = SLASH) w" using "3.prems" by (auto simp: list_all_iff)
  from split_by_append [OF this, of "SLASH # join [SLASH] (v # ps)"] 3 show ?case by simp
qed simp

definition plain_path :: "path \<Rightarrow> bool" where
  "plain_path p \<longleftrightarrow> p \<noteq> [] \<and> list_all plain_name p"

lemma plain_path_slashes: "plain_path p \<Longrightarrow> slashes (join [SLASH] p) = p"
  by (rule slashes_join) (auto simp: plain_path_def plain_name_def list_all_iff)

lemma plain_path_take: "plain_path p \<Longrightarrow> 0 < k \<Longrightarrow> plain_path (take k p)"
  by (auto simp: plain_path_def list_all_iff dest: in_set_takeD)

lemma plain_join_eq: "plain_path p \<Longrightarrow> plain_path q \<Longrightarrow> join [SLASH] p = join [SLASH] q \<longleftrightarrow> p = q"
  using plain_path_slashes by metis

lemma member_refusal_plain:
  assumes "member_refusal m = None" "\<not> bare_root (m_name m)"
  shows "plain_path (slashes (m_name m))" "m_kind m \<in> {RegularMember, DirectoryMember}" "hd (m_name m) \<noteq> SLASH" "\<not> drive_letter (m_name m)"
proof -
  have f: "char_of (0 :: nat) \<notin> set (m_name m)" "BACKSLASH \<notin> set (m_name m)" "hd (m_name m) \<noteq> SLASH" "\<not> drive_letter (m_name m)"
    "\<not> list_ex (\<lambda>part. part = [] \<or> part = ''.'' \<or> part = ''..'') (slashes (m_name m))"
    "m_kind m \<noteq> LinkMember" "m_kind m = DirectoryMember \<or> m_kind m = RegularMember"
    using assms(1) unfolding member_refusal_def Let_def by (metis option.distinct(1))+
  have sub: "set w \<subseteq> set s" if "w \<in> set (slashes s)" for w s
    using that
  proof (induction s arbitrary: w)
    case (Cons c s)
    have "hd (slashes s) \<in> set (slashes s)" "set (tl (slashes s)) \<subseteq> set (slashes s)" by (simp_all add: list.set_sel(2) subsetI)
    then have "w = [] \<and> c = SLASH \<or> w \<in> set (slashes s) \<or> w = c # hd (slashes s) \<and> hd (slashes s) \<in> set (slashes s)"
      using Cons.prems by (auto split: if_splits)
    then show ?case using Cons.IH [of w] Cons.IH [of "hd (slashes s)"] by auto
  qed simp
  have "plain_name w" if "w \<in> set (slashes (m_name m))" for w
    using that f(1,2,5) sub [OF that] split_by_no_sep [OF that] unfolding plain_name_def list_ex_iff by blast
  then show "plain_path (slashes (m_name m))" by (simp add: plain_path_def list_all_iff)
  show "m_kind m \<in> {RegularMember, DirectoryMember}" "hd (m_name m) \<noteq> SLASH" "\<not> drive_letter (m_name m)" using f by auto
qed

lemma resolve_below_plain: "list_all plain_name ps \<Longrightarrow> resolve_below cur ps = Some (cur @ ps)"
  by (induction ps arbitrary: cur) (auto simp: plain_name_def simp del: list.inject)

lemma target_of_plain:
  assumes "plain_path (slashes name)" "hd name \<noteq> SLASH"
  shows "target_of name = Some (slashes name)"
proof -
  have "filter (\<lambda>c. c \<noteq> [] \<and> c \<noteq> ''.'') (slashes name) = slashes name"
    using assms(1) by (auto simp: plain_path_def plain_name_def list_all_iff filter_id_conv)
  then show ?thesis using assms resolve_below_plain [of "slashes name" "[]"] by (simp add: target_of_def path_join_def plain_path_def)
qed

section \<open>The known paths and the tree\<close>

text \<open>What the plan has registered is what the directory will hold.\<close>

definition same_kind :: "path_kind option \<Rightarrow> entry option \<Rightarrow> bool" where
  "same_kind k e \<longleftrightarrow> (case e of None \<Rightarrow> k = None | Some Directory \<Rightarrow> k = Some KDir | Some (Regular c) \<Rightarrow> k = Some KFile | Some (Symlink t) \<Rightarrow> False)"

definition mirrors :: "known_paths \<Rightarrow> workspace \<Rightarrow> bool" where
  "mirrors known fs \<longleftrightarrow> (\<forall>p. plain_path p \<longrightarrow> same_kind (known (join [SLASH] p)) (fs p))"

lemma same_kind_None: "same_kind None e \<longleftrightarrow> e = None"
  by (auto simp: same_kind_def split: option.splits entry.splits)

lemma same_kind_dir: "same_kind (Some KDir) e \<longleftrightarrow> e = Some Directory"
  by (auto simp: same_kind_def split: option.splits entry.splits)

lemma same_kind_entry: "same_kind k (Some e) \<Longrightarrow> k \<noteq> Some KFile \<Longrightarrow> k = Some KDir \<and> e = Directory"
  by (auto simp: same_kind_def split: entry.splits)

lemma mirrors_at: "mirrors known fs \<Longrightarrow> plain_path p \<Longrightarrow> same_kind (known (join [SLASH] p)) (fs p)"
  by (simp add: mirrors_def)

lemma mirrors_put:
  assumes "mirrors known fs" "plain_path p" "same_kind (Some k) (Some e)"
  shows "mirrors (known(join [SLASH] p \<mapsto> k)) (fs(p \<mapsto> e))"
  unfolding mirrors_def
proof (intro allI impI)
  fix q assume "plain_path q"
  then show "same_kind ((known(join [SLASH] p \<mapsto> k)) (join [SLASH] q)) ((fs(p \<mapsto> e)) q)"
    using assms(3) mirrors_at [OF assms(1)] plain_join_eq [OF _ assms(2)] by (cases "q = p") simp_all
qed

text \<open>Extraction only adds: below a planned path, directories first.\<close>

definition grown :: "path \<Rightarrow> workspace \<Rightarrow> workspace \<Rightarrow> bool" where
  "grown parts fs fs' \<longleftrightarrow> (\<forall>p e. fs p = Some e \<longrightarrow> fs' p = Some e) \<and> (\<forall>p. fs' p \<noteq> None \<longrightarrow> fs p \<noteq> None \<or> prefix p parts)"

lemma grown_refl [simp]: "grown parts fs fs"
  by (simp add: grown_def)

lemma grown_trans: "grown parts fs fs' \<Longrightarrow> grown parts fs' fs'' \<Longrightarrow> grown parts fs fs''"
  unfolding grown_def by metis

lemma grown_put: "fs p = None \<Longrightarrow> prefix p parts \<Longrightarrow> grown parts fs (fs(p \<mapsto> e))"
  by (auto simp: grown_def)

lemma ancestors_mkdirs:
  assumes "register_ancestors relpath parts [Suc j..<length parts] known = Inr known'" "mirrors known fs" "plain_path parts" "j < length parts"
  shows "\<exists>fs'. mkdirs (take j parts) (drop j (butlast parts)) fs = Some fs' \<and> mirrors known' fs' \<and> grown parts fs fs'"
  using assms
proof (induction "length parts - Suc j" arbitrary: j known fs)
  case 0
  then have "drop j (butlast parts) = []" "[Suc j..<length parts] = []" by auto
  then show ?case using "0.prems" by (auto intro!: exI [of _ fs])
next
  case (Suc n)
  then have j: "Suc j < length parts" by simp
  let ?p = "take (Suc j) parts"
  have upt: "[Suc j..<length parts] = Suc j # [Suc (Suc j)..<length parts]" using j by (simp add: upt_conv_Cons)
  have plain: "plain_path ?p" using Suc.prems(3) by (simp add: plain_path_take)
  have p: "take j parts @ [parts ! j] = ?p" "drop j (butlast parts) = parts ! j # drop (Suc j) (butlast parts)"
    using j by (simp_all add: take_Suc_conv_app_nth Cons_nth_drop_Suc [symmetric] nth_butlast)
  have free: "known (join [SLASH] ?p) \<noteq> Some KFile"
    and rest: "register_ancestors relpath parts [Suc (Suc j)..<length parts] (known(join [SLASH] ?p \<mapsto> KDir)) = Inr known'"
    using Suc.prems(1) by (auto simp: upt Let_def split: if_splits)
  have n: "n = length parts - Suc (Suc j)" using Suc.hyps(2) by simp
  note at = mirrors_at [OF Suc.prems(2) plain]
  show ?case
  proof (cases "fs ?p")
    case None
    have "mirrors (known(join [SLASH] ?p \<mapsto> KDir)) (fs(?p \<mapsto> Directory))"
      by (rule mirrors_put [OF Suc.prems(2) plain]) (simp add: same_kind_def)
    from Suc.hyps(1) [OF n rest this Suc.prems(3) j] obtain fs' where
      fs': "mkdirs ?p (drop (Suc j) (butlast parts)) (fs(?p \<mapsto> Directory)) = Some fs'" "mirrors known' fs'" "grown parts (fs(?p \<mapsto> Directory)) fs'" by blast
    have "grown parts fs (fs(?p \<mapsto> Directory))" by (rule grown_put) (simp_all add: None take_is_prefix)
    then have "grown parts fs fs'" using fs'(3) grown_trans by blast
    then show ?thesis using fs' None p by auto
  next
    case (Some e)
    then have e: "known (join [SLASH] ?p) = Some KDir" "fs ?p = Some Directory" using same_kind_entry [OF at [unfolded Some] free] by auto
    then have "known(join [SLASH] ?p \<mapsto> KDir) = known" by (simp add: fun_upd_idem)
    from Suc.hyps(1) [OF n rest [unfolded this] Suc.prems(2,3) j] obtain fs' where
      "mkdirs ?p (drop (Suc j) (butlast parts)) fs = Some fs'" "mirrors known' fs'" "grown parts fs fs'" by blast
    then show ?thesis using e p by auto
  qed
qed

text \<open>A member that does not collide can be created, as a directory or as a file.\<close>

lemma mkdirs_append: "mkdirs made (ps @ qs) fs = Option.bind (mkdirs made ps fs) (mkdirs (made @ ps) qs)"
  by (induction ps arbitrary: made fs) (simp_all split: option.split entry.split)

lemma mkdirs_keeps: "mkdirs made ps fs = Some fs' \<Longrightarrow> fs p = Some e \<Longrightarrow> fs' p = Some e"
proof (induction ps arbitrary: made fs)
  case (Cons c cs)
  then show ?case using Cons.IH [of "made @ [c]" "fs(made @ [c] \<mapsto> Directory)"] Cons.IH [of "made @ [c]" fs]
    by (cases "p = made @ [c]") (auto split: option.splits entry.splits)
qed simp

lemma mkdirs_made: "mkdirs made ps fs = Some fs' \<Longrightarrow> prefix q ps \<Longrightarrow> q \<noteq> [] \<Longrightarrow> fs' (made @ q) = Some Directory"
proof (induction ps arbitrary: made fs q)
  case (Cons c cs)
  obtain q' where q: "q = c # q'" "prefix q' cs" using Cons.prems(2,3) by (cases q) auto
  obtain fs1 where fs1: "fs1 (made @ [c]) = Some Directory" "mkdirs (made @ [c]) cs fs1 = Some fs'"
    using Cons.prems(1) that [of fs] that [of "fs(made @ [c] \<mapsto> Directory)"] by (auto split: option.splits entry.splits)
  then show ?case using q Cons.IH [OF fs1(2) q(2)] mkdirs_keeps [OF fs1(2,1)] by (cases "q' = []") simp_all
qed simp

lemma strict_prefix_butlast: "strict_prefix q p \<Longrightarrow> prefix q (butlast p)"
  by (auto simp: strict_prefix_def prefix_def butlast_append)

lemma collision_split:
  assumes "tar_path_collision known relpath kind = Inr known'"
  obtains known1 where "register_ancestors relpath (slashes relpath) [Suc 0..<length (slashes relpath)] known = Inr known1"
    "known1 relpath = None \<or> known1 relpath = Some KDir \<and> kind = KDir" "known' = known1(relpath \<mapsto> kind)"
  using assms that unfolding tar_path_collision_def Let_def rbind_def by (auto split: sum.splits option.splits if_splits)

lemma member_created:
  assumes "tar_path_collision known name (if is_dir then KDir else KFile) = Inr known'" "mirrors known fs"
    "plain_path (slashes name)" "\<not> is_dir \<longrightarrow> m_data m = Inr content" "fault io (slashes name) = None"
  shows "\<exists>fs'. extract_member io m (slashes name) is_dir fs = Inr (Inr fs') \<and> mirrors known' fs' \<and> grown (slashes name) fs fs'
    \<and> fs' (slashes name) = Some (if is_dir then Directory else Regular content)
    \<and> (\<forall>q. strict_prefix q (slashes name) \<longrightarrow> q \<noteq> [] \<longrightarrow> fs' q = Some Directory)"
proof -
  let ?p = "slashes name"
  obtain known1 where k1: "register_ancestors name ?p [Suc 0..<length ?p] known = Inr known1"
    "known1 name = None \<or> known1 name = Some KDir \<and> is_dir" "known' = known1(name \<mapsto> if is_dir then KDir else KFile)"
    using assms(1) by (rule collision_split) (use that in \<open>auto split: if_splits\<close>)
  have ne: "?p \<noteq> []" using assms(3) by (simp add: plain_path_def)
  obtain fs1 where fs1: "mkdirs [] (butlast ?p) fs = Some fs1" "mirrors known1 fs1" "grown ?p fs fs1"
    using ancestors_mkdirs [OF k1(1) assms(2,3)] ne by auto
  have at: "same_kind (known1 name) (fs1 ?p)" using mirrors_at [OF fs1(2) assms(3)] by simp
  let ?e = "if is_dir then Directory else Regular content"
  have put: "mirrors known' (fs1(?p \<mapsto> ?e))"
    unfolding k1(3) using mirrors_put [OF fs1(2) assms(3), of "if is_dir then KDir else KFile" ?e] by (simp add: same_kind_def)
  have dirs: "mkdirs [] ?p fs = Some (fs1(?p \<mapsto> Directory))" if is_dir
  proof -
    have "mkdirs [] ?p fs = mkdirs (butlast ?p) [last ?p] fs1"
      using mkdirs_append [of "[]" "butlast ?p" "[last ?p]" fs] fs1(1) ne by simp
    also have "\<dots> = Some (fs1(?p \<mapsto> Directory))"
      using at k1(2) ne by (auto simp: same_kind_None same_kind_dir fun_upd_idem)
    finally show ?thesis .
  qed
  have free: "fs1 ?p = None \<or> is_dir \<and> fs1 ?p = Some Directory" using at k1(2) by (auto simp: same_kind_None same_kind_dir)
  have "grown ?p fs1 (fs1(?p \<mapsto> ?e))" using free by (auto simp: grown_def)
  then have "grown ?p fs (fs1(?p \<mapsto> ?e))" using grown_trans fs1(3) by blast
  moreover have "extract_member io m ?p is_dir fs = Inr (Inr (fs1(?p \<mapsto> ?e)))"
    using assms(4,5) fs1(1) dirs free by (cases is_dir) (simp_all add: extract_member_def)
  moreover have "(fs1(?p \<mapsto> ?e)) q = Some Directory" if "strict_prefix q ?p" "q \<noteq> []" for q
    using mkdirs_made [OF fs1(1) strict_prefix_butlast [OF that(1)] that(2)] that(1) by auto
  ultimately show ?thesis using put by (intro exI [of _ "fs1(?p \<mapsto> ?e)"]) simp
qed

section \<open>Plans\<close>

text \<open>The members that count: all but the bare root.\<close>

fun named_members :: "tar_stream \<Rightarrow> tar_member list" where
  "named_members [] = []"
| "named_members (Inl x # ms) = named_members ms"
| "named_members (Inr m # ms) = (if bare_root (m_name m) then named_members ms else m # named_members ms)"

definition planned_size :: "tar_member \<Rightarrow> int" where
  "planned_size m = (if m_kind m = DirectoryMember then 0 else m_size m)"

definition planned_entry :: "tar_member \<Rightarrow> string \<times> bool \<times> int" where
  "planned_entry m = (m_name m, m_kind m = DirectoryMember, planned_size m)"

lemma planned_sizes: "map (\<lambda>(name, is_dir, n). n) (map planned_entry ms) = map planned_size ms"
  by (simp add: planned_entry_def comp_def)

definition admitted :: "tar_limits \<Rightarrow> tar_member \<Rightarrow> bool" where
  "admitted caps m \<longleftrightarrow> \<not> bare_root (m_name m) \<and> member_refusal m = None \<and> (m_kind m = RegularMember \<longrightarrow> m_size m \<le> max_member_bytes caps)"

lemma plan_member_named:
  assumes "plan_member caps m ps = Inr ps'" "\<not> bare_root (m_name m)"
  shows "p_members ps' = p_members ps @ [planned_entry m]" "p_count ps' = p_count ps + 1" "p_bytes ps' = p_bytes ps + planned_size m"
    "admitted caps m" "p_count ps' \<le> max_members caps" "p_bytes ps' = p_bytes ps \<or> p_bytes ps' \<le> byte_budget caps"
    "tar_path_collision (p_known ps) (m_name m) (if m_kind m = DirectoryMember then KDir else KFile) = Inr (p_known ps')"
  using assms unfolding plan_member_def Let_def
  by (auto simp: planned_entry_def planned_size_def admitted_def split: if_splits option.splits sum.splits)

lemma plan_member_root: "bare_root (m_name m) \<Longrightarrow> plan_member caps m ps = Inr ps"
  by (simp add: plan_member_def)

lemma plan_loop_sound:
  assumes "plan_loop caps ms ps = Inr (Inr ps')"
  shows "p_members ps' = p_members ps @ map planned_entry (named_members ms)"
    "p_count ps' = p_count ps + int (length (named_members ms))"
    "p_bytes ps' = p_bytes ps + sum_list (map planned_size (named_members ms))"
    "list_all (admitted caps) (named_members ms)"
    "p_count ps' \<le> max (p_count ps) (max_members caps)"
    "p_bytes ps' \<le> max (p_bytes ps) (byte_budget caps)"
    "list_all (\<lambda>r. \<exists>m. r = Inr m) ms"
  using assms
proof (atomize (full), induction caps ms ps rule: plan_loop.induct)
  case (3 caps m ms ps)
  then obtain ps1 where one: "plan_member caps m ps = Inr ps1" and rest: "plan_loop caps ms ps1 = Inr (Inr ps')"
    by (auto split: sum.splits)
  show ?case
  proof (cases "bare_root (m_name m)")
    case True
    then show ?thesis using "3.IH" [OF one] rest one by (simp add: plan_member_root)
  next
    case False
    then show ?thesis using "3.IH" [OF one] rest plan_member_named(1-6) [OF one False] by auto
  qed
qed (auto split: if_splits)

lemma plan_extract:
  assumes "plan_loop caps ms ps = Inr (Inr ps')" "mirrors (p_known ps) fs" "\<And>p. fault io p = None"
    "\<And>m. m \<in> set (named_members ms) \<Longrightarrow> m_kind m = RegularMember \<Longrightarrow> m_data m = Inr (content m)"
  shows "\<exists>fs'. extract_loop io ms (map planned_entry (named_members ms)) fs = Inr (Inr fs')
    \<and> (\<forall>p e. fs p = Some e \<longrightarrow> fs' p = Some e)
    \<and> (\<forall>p. fs' p \<noteq> None \<longrightarrow> fs p \<noteq> None \<or> (\<exists>m \<in> set (named_members ms). prefix p (slashes (m_name m))))
    \<and> (\<forall>m \<in> set (named_members ms). fs' (slashes (m_name m)) = Some (if m_kind m = DirectoryMember then Directory else Regular (content m))
        \<and> (\<forall>q. strict_prefix q (slashes (m_name m)) \<longrightarrow> q \<noteq> [] \<longrightarrow> fs' q = Some Directory))"
  using assms
proof (induction caps ms ps arbitrary: fs rule: plan_loop.induct)
  case (3 caps m ms ps)
  then obtain ps1 where one: "plan_member caps m ps = Inr ps1" and rest: "plan_loop caps ms ps1 = Inr (Inr ps')"
    by (auto split: sum.splits)
  show ?case
  proof (cases "bare_root (m_name m)")
    case True
    then show ?thesis using "3.IH" [OF one rest _ "3.prems"(3)] "3.prems"(2,4) one by (simp add: plan_member_root)
  next
    case False
    let ?p = "slashes (m_name m)"
    note named = plan_member_named [OF one False]
    have plain: "plain_path ?p" "m_kind m \<in> {RegularMember, DirectoryMember}" "hd (m_name m) \<noteq> SLASH"
      using member_refusal_plain [of m] named(4) by (auto simp: admitted_def)
    have data: "\<not> m_kind m = DirectoryMember \<longrightarrow> m_data m = Inr (content m)" using "3.prems"(4) [of m] False plain(2) by auto
    obtain fs1 where fs1: "extract_member io m ?p (m_kind m = DirectoryMember) fs = Inr (Inr fs1)" "mirrors (p_known ps1) fs1" "grown ?p fs fs1"
      "fs1 ?p = Some (if m_kind m = DirectoryMember then Directory else Regular (content m))"
      "\<And>q. strict_prefix q ?p \<Longrightarrow> q \<noteq> [] \<Longrightarrow> fs1 q = Some Directory"
      using member_created [OF named(7) "3.prems"(2) plain(1) data "3.prems"(3)] by blast
    have "m' \<in> set (named_members ms) \<Longrightarrow> m_kind m' = RegularMember \<Longrightarrow> m_data m' = Inr (content m')" for m'
      using "3.prems"(4) False by simp
    then obtain fs' where fs': "extract_loop io ms (map planned_entry (named_members ms)) fs1 = Inr (Inr fs')"
      "\<And>p e. fs1 p = Some e \<Longrightarrow> fs' p = Some e"
      "\<And>p. fs' p \<noteq> None \<Longrightarrow> fs1 p \<noteq> None \<or> (\<exists>m \<in> set (named_members ms). prefix p (slashes (m_name m)))"
      "\<And>m. m \<in> set (named_members ms) \<Longrightarrow> fs' (slashes (m_name m)) = Some (if m_kind m = DirectoryMember then Directory else Regular (content m))
        \<and> (\<forall>q. strict_prefix q (slashes (m_name m)) \<longrightarrow> q \<noteq> [] \<longrightarrow> fs' q = Some Directory)"
      using "3.IH" [OF one rest fs1(2) "3.prems"(3)] by blast
    have "extract_loop io (Inr m # ms) (map planned_entry (named_members (Inr m # ms))) fs = Inr (Inr fs')"
      using False fs1(1) fs'(1) target_of_plain [OF plain(1,3)] by (simp add: planned_entry_def planned_size_def)
    moreover have "fs' p = Some e" if "fs p = Some e" for p e
      using that fs1(3) fs'(2) unfolding grown_def by blast
    moreover have "fs p \<noteq> None \<or> (\<exists>m' \<in> set (named_members (Inr m # ms)). prefix p (slashes (m_name m')))" if "fs' p \<noteq> None" for p
      using fs'(3) [OF that] fs1(3) False unfolding grown_def by auto
    moreover have "fs' (slashes (m_name m')) = Some (if m_kind m' = DirectoryMember then Directory else Regular (content m'))
        \<and> (\<forall>q. strict_prefix q (slashes (m_name m')) \<longrightarrow> q \<noteq> [] \<longrightarrow> fs' q = Some Directory)"
      if "m' \<in> set (named_members (Inr m # ms))" for m'
      using that False fs'(2,4) fs1(4,5) by auto
    ultimately show ?thesis by blast
  qed
qed (auto split: if_splits)

lemma planned_extracts:
  assumes "plan_tar_extraction caps (Inr ms) = Inr (Inr ps)"
    and "\<And>p. fault io p = None"
    and "\<And>m. m \<in> set (named_members ms) \<Longrightarrow> m_kind m = RegularMember \<Longrightarrow> m_data m = Inr (content m)"
  shows "\<exists>fs. extract_planned_tar io (Inr ms) (p_members ps) = Inr (Inr fs) \<and> fs [] = Some Directory
    \<and> (\<forall>m \<in> set (named_members ms). fs (slashes (m_name m)) = Some (if m_kind m = DirectoryMember then Directory else Regular (content m)))
    \<and> (\<forall>m \<in> set (named_members ms). \<forall>q. strict_prefix q (slashes (m_name m)) \<longrightarrow> fs q = Some Directory)
    \<and> (\<forall>p. fs p \<noteq> None \<longrightarrow> p = [] \<or> (\<exists>m \<in> set (named_members ms). prefix p (slashes (m_name m))))"
proof -
  note planned = assms(1) [unfolded plan_tar_extraction_def sum.case]
  have "mirrors (p_known no_members) (Map.empty([] \<mapsto> Directory))"
    by (auto simp: mirrors_def no_members_def same_kind_def plain_path_def)
  from plan_extract [OF planned this assms(2,3)] obtain fs where loop:
    "extract_loop io ms (map planned_entry (named_members ms)) (Map.empty([] \<mapsto> Directory)) = Inr (Inr fs)"
    and old: "\<forall>p e. (Map.empty([] \<mapsto> Directory)) p = Some e \<longrightarrow> fs p = Some e"
    and only: "\<forall>p. fs p \<noteq> None \<longrightarrow> (Map.empty([] \<mapsto> Directory)) p \<noteq> None \<or> (\<exists>m \<in> set (named_members ms). prefix p (slashes (m_name m)))"
    and there: "\<forall>m \<in> set (named_members ms). fs (slashes (m_name m)) = Some (if m_kind m = DirectoryMember then Directory else Regular (content m))
        \<and> (\<forall>q. strict_prefix q (slashes (m_name m)) \<longrightarrow> q \<noteq> [] \<longrightarrow> fs q = Some Directory)"
    by blast
  have base: "fs [] = Some Directory" using old by simp
  have "p = [] \<or> (\<exists>m \<in> set (named_members ms). prefix p (slashes (m_name m)))" if "fs p \<noteq> None" for p
    using only that by (cases "p = []") auto
  moreover have "fs q = Some Directory" if "m \<in> set (named_members ms)" "strict_prefix q (slashes (m_name m))" for m q
    using there that base by (cases "q = []") auto
  moreover have "extract_planned_tar io (Inr ms) (p_members ps) = Inr (Inr fs)"
    using loop plan_loop_sound(1) [OF planned] by (simp add: extract_planned_tar_def no_members_def)
  ultimately show ?thesis using there base by blast
qed

text \<open>The bare root is skipped before its kind and its size are looked at.\<close>

lemma root_members_unbounded:
  assumes "list_all (\<lambda>r. case r of Inl x \<Rightarrow> False | Inr m \<Rightarrow> bare_root (m_name m)) ms"
  shows "plan_tar_extraction caps (Inr ms) = Inr (Inr no_members)"
proof -
  have "plan_loop caps ms ps = Inr (Inr ps)" for ps
    using assms by (induction caps ms ps rule: plan_loop.induct) (auto simp: plan_member_root)
  then show ?thesis by (simp add: plan_tar_extraction_def)
qed

text \<open>Any other exception of the stream is not turned into a refusal.\<close>

lemma stream_error_escapes: "\<not> caught x \<Longrightarrow> plan_tar_extraction caps (Inr (Inl x # ms)) = Inl x"
  by (simp add: plan_tar_extraction_def)

section \<open>Claims\<close>

text \<open>
  C17. An accepted plan is within every limit. When \<open>_plan_tar_extraction\<close> accepts an archive, no read of it
  failed, the plan is the archive's members in their order (the bare root apart), each is a regular file or
  a directory under a relative path without empty, dot or dot-dot component, each file is within the cap
  for one member, their number is within the cap on members, and the total is the sum of the planned sizes
  and within the decompression budget.
\<close>

theorem tar_plan_sound:
  assumes "plan_tar_extraction caps (Inr ms) = Inr (Inr ps)"
  shows "list_all (\<lambda>r. \<exists>m. r = Inr m) ms
    \<and> p_members ps = map planned_entry (named_members ms)
    \<and> list_all (\<lambda>m. plain_path (slashes (m_name m)) \<and> (m_kind m = DirectoryMember \<or> m_kind m = RegularMember \<and> m_size m \<le> max_member_bytes caps)) (named_members ms)
    \<and> int (length (p_members ps)) \<le> max 0 (max_members caps)
    \<and> p_bytes ps = sum_list (map (\<lambda>(name, is_dir, n). n) (p_members ps))
    \<and> p_bytes ps \<le> max 0 (byte_budget caps)"
proof -
  note sound = plan_loop_sound [OF assms [unfolded plan_tar_extraction_def sum.case]]
  have members: "p_members ps = map planned_entry (named_members ms)" using sound(1) by (simp add: no_members_def)
  have "plain_path (slashes (m_name m)) \<and> (m_kind m = DirectoryMember \<or> m_kind m = RegularMember \<and> m_size m \<le> max_member_bytes caps)"
    if "admitted caps m" for m
    using that member_refusal_plain [of m] by (auto simp: admitted_def)
  then have "list_all (\<lambda>m. plain_path (slashes (m_name m)) \<and> (m_kind m = DirectoryMember \<or> m_kind m = RegularMember \<and> m_size m \<le> max_member_bytes caps)) (named_members ms)"
    using sound(4) by (auto simp: list_all_iff)
  moreover have "p_bytes ps = sum_list (map (\<lambda>(name, is_dir, n). n) (p_members ps))"
    using sound(3) unfolding members planned_sizes by (simp add: no_members_def)
  moreover have "int (length (p_members ps)) \<le> max 0 (max_members caps)" "p_bytes ps \<le> max 0 (byte_budget caps)"
    using sound(2,5,6) by (simp_all add: members no_members_def)
  ultimately show ?thesis using sound(7) members by blast
qed

definition demo_member :: "string \<Rightarrow> member_kind \<Rightarrow> string \<Rightarrow> tar_member" where
  "demo_member name kind content = \<lparr>m_name = name, m_kind = kind, m_size = int (length content), m_data = Inr content\<rparr>"

definition demo_archive :: tar_stream where
  "demo_archive = [Inr (demo_member ''.'' DirectoryMember []), Inr (demo_member ''a'' DirectoryMember []), Inr (demo_member ''a/b'' RegularMember ''hi'')]"

definition demo_caps :: tar_limits where
  "demo_caps = \<lparr>max_members = 2, max_member_bytes = 5, byte_budget = 9\<rparr>"

lemma demo_planned: "\<exists>ps. plan_tar_extraction demo_caps (Inr demo_archive) = Inr (Inr ps)"
  by (simp add: plan_tar_extraction_def demo_archive_def demo_caps_def demo_member_def plan_member_def bare_root_def no_members_def Let_def
      member_refusal_def drive_letter_def tar_path_collision_def rbind_def char_of_def)

lemma demo_named: "named_members demo_archive = [demo_member ''a'' DirectoryMember [], demo_member ''a/b'' RegularMember ''hi'']"
  by (simp add: demo_archive_def demo_member_def bare_root_def)

theorem tar_plan_sound_witness:
  "\<exists>ps. plan_tar_extraction demo_caps (Inr demo_archive) = Inr (Inr ps)
    \<and> p_members ps = [(''a'', True, 0), (''a/b'', False, 2)] \<and> p_bytes ps \<le> 9"
proof -
  obtain ps where ps: "plan_tar_extraction demo_caps (Inr demo_archive) = Inr (Inr ps)" using demo_planned by blast
  from tar_plan_sound [OF this] have "p_members ps = [(''a'', True, 0), (''a/b'', False, 2)]" "p_bytes ps \<le> 9"
    by (simp_all add: demo_named planned_entry_def planned_size_def demo_member_def demo_caps_def)
  with ps show ?thesis by blast
qed

text \<open>
  C18. A planned archive extracts completely. When \<open>_plan_tar_extraction\<close> accepts an archive,
  \<open>_extract_planned_tar\<close> on the same archive, with readable contents and no failure of the file system,
  never meets a file where it needs a directory or the other way round: it succeeds, every member is there
  with its kind and its content, every path above a member is a directory, and nothing else is there.
\<close>

theorem planned_extraction_succeeds:
  assumes "plan_tar_extraction caps (Inr ms) = Inr (Inr ps)"
    and "\<And>p. fault io p = None"
    and "\<And>m. m \<in> set (named_members ms) \<Longrightarrow> m_kind m = RegularMember \<Longrightarrow> m_data m = Inr (content m)"
  shows "\<exists>fs. extract_planned_tar io (Inr ms) (p_members ps) = Inr (Inr fs)
    \<and> (\<forall>m \<in> set (named_members ms). fs (slashes (m_name m)) = Some (if m_kind m = DirectoryMember then Directory else Regular (content m)))
    \<and> (\<forall>m \<in> set (named_members ms). \<forall>q. strict_prefix q (slashes (m_name m)) \<longrightarrow> fs q = Some Directory)
    \<and> (\<forall>p. fs p \<noteq> None \<longrightarrow> p = [] \<or> (\<exists>m \<in> set (named_members ms). prefix p (slashes (m_name m))))"
  using planned_extracts [OF assms] by blast

definition demo_io :: extraction_io where
  "demo_io = \<lparr>clash = (\<lambda>p. (None, ''File exists'')), fault = (\<lambda>p. None)\<rparr>"

theorem planned_extraction_succeeds_witness:
  "\<exists>ps fs. plan_tar_extraction demo_caps (Inr demo_archive) = Inr (Inr ps) \<and> extract_planned_tar demo_io (Inr demo_archive) (p_members ps) = Inr (Inr fs)
    \<and> fs [''a''] = Some Directory \<and> fs [''a'', ''b''] = Some (Regular ''hi'')"
proof -
  obtain ps where ps: "plan_tar_extraction demo_caps (Inr demo_archive) = Inr (Inr ps)" using demo_planned by blast
  have "\<exists>fs. extract_planned_tar demo_io (Inr demo_archive) (p_members ps) = Inr (Inr fs)
    \<and> (\<forall>m \<in> set (named_members demo_archive). fs (slashes (m_name m)) = Some (if m_kind m = DirectoryMember then Directory else Regular ((\<lambda>m. ''hi'') m)))
    \<and> (\<forall>m \<in> set (named_members demo_archive). \<forall>q. strict_prefix q (slashes (m_name m)) \<longrightarrow> fs q = Some Directory)
    \<and> (\<forall>p. fs p \<noteq> None \<longrightarrow> p = [] \<or> (\<exists>m \<in> set (named_members demo_archive). prefix p (slashes (m_name m))))"
    by (rule planned_extraction_succeeds [OF ps]) (auto simp: demo_io_def demo_named demo_member_def)
  then obtain fs where fs: "extract_planned_tar demo_io (Inr demo_archive) (p_members ps) = Inr (Inr fs)"
    "\<forall>m \<in> set (named_members demo_archive). fs (slashes (m_name m)) = Some (if m_kind m = DirectoryMember then Directory else Regular ''hi'')" by blast
  from fs(2) have "fs [''a''] = Some Directory" "fs [''a'', ''b''] = Some (Regular ''hi'')" by (simp_all add: demo_named demo_member_def)
  with ps fs(1) show ?thesis by blast
qed

end
