(* ===== verification/Snapshot_Claims.thy ===== *)
theory Snapshot_Claims
  imports Session_Snapshot Archive_Claims
begin

text \<open>
  What restoring and saving a snapshot promise: a restore in place never loses the files of the session,
  and a workspace that is saved can be restored.
\<close>

section \<open>What the steps of a restore leave alone\<close>

definition same_files :: "workspace \<Rightarrow> workspace \<Rightarrow> bool" where
  "same_files w t \<longleftrightarrow> (\<forall>p. p \<noteq> [LOCK_FILE_NAME] \<longrightarrow> w p = t p)"

definition holds :: "sessions \<Rightarrow> path \<Rightarrow> workspace option \<Rightarrow> bool" where
  "holds s d w \<longleftrightarrow> (case (dirs s d, w) of (Some t, Some w) \<Rightarrow> same_files w t | (None, None) \<Rightarrow> True | _ \<Rightarrow> False)"

lemma holds_refl [simp]: "holds s d (dirs s d)"
  by (simp add: holds_def same_files_def split: option.split)

lemma holds_dirs: "dirs s d = dirs s' d' \<Longrightarrow> holds s d w = holds s' d' w"
  by (simp add: holds_def)

lemma holds_put_lock: "holds s d w \<Longrightarrow> holds (put_entry d [LOCK_FILE_NAME] e s) d w"
  by (auto simp: holds_def put_entry_def same_files_def split: option.splits)

lemma put_entry_other [simp]: "p \<noteq> d \<Longrightarrow> dirs (put_entry d q e s) p = dirs s p"
  by (simp add: put_entry_def)

lemma write_lock_holds: "holds s d w \<Longrightarrow> holds (write_lock_file b pid d s) d w"
  by (auto simp: write_lock_file_def holds_put_lock split: option.split entry.split)

lemma retire_worker_dirs:
  assumes "sdir st sid = Inr d"
  shows "holds s d w \<Longrightarrow> holds (retire_worker st sid s) d w" "p \<noteq> d \<Longrightarrow> dirs (retire_worker st sid s) p = dirs s p"
proof -
  have same: "dirs (snd (take_worker sid s)) = dirs s" by (simp add: take_worker_def Let_def discard_expired_def)
  have close: "dirs (close_worker sid v t) = dirs t" for v t by (simp add: close_worker_def)
  obtain v t where vt: "take_worker sid s = (v, t)" by fastforce
  have lock: "holds (remove_lock_file st sid t') d w" if "holds t' d w" for t'
    using that assms by (auto simp: remove_lock_file_def holds_put_lock split: option.split)
  have other: "dirs (remove_lock_file st sid t') p = dirs t' p" if "p \<noteq> d" for t'
    using that assms by (auto simp: remove_lock_file_def split: option.split)
  show "holds (retire_worker st sid s) d w" if "holds s d w"
    using that same vt lock holds_dirs [of t d s d w] holds_dirs [of "close_worker sid (the v) t" d t d w] close
    by (auto simp: retire_worker_def split: option.split)
  show "dirs (retire_worker st sid s) p = dirs s p" if "p \<noteq> d"
    using that same vt other close by (auto simp: retire_worker_def split: option.split)
qed

lemma rmtree_dirs [simp]: "p \<noteq> q \<Longrightarrow> dirs (rmtree_quiet io q s) p = dirs s p"
  by (simp add: rmtree_quiet_def)

lemma rename_dirs:
  assumes "rename_dir io old new s = Inr s'" "old \<noteq> new"
  shows "dirs s' new = dirs s old" "dirs s' old = None" "p \<noteq> old \<Longrightarrow> p \<noteq> new \<Longrightarrow> dirs s' p = dirs s p"
  using assms by (auto simp: rename_dir_def split: option.splits)

lemma extract_loop_coded: "extract_loop io ms members fs = Inr (Inl failure) \<Longrightarrow> coded_refusal failure"
proof (induction io ms members fs rule: extract_loop.induct)
  case (3 io m ms members fs)
  have step: "coded_refusal d" if "extract_member io m target is_dir fs = Inr (Inl d)" for target is_dir d
    using that by (auto simp: extract_member_def extraction_failed_def split: option.splits if_splits sum.splits stream_error.splits)
  have field: "coded_refusal (error_result PERMISSION_DENIED t (member_field name))" for t name
    by (rule coded_error) (simp_all add: member_field_def)
  show ?case using 3 step field
    by (auto simp: changed_archive_def rbind_def split: if_splits list.splits option.splits sum.splits)
qed (auto simp: changed_archive_def corrupt_def split: if_splits)

lemma extract_coded: "extract_planned_tar io archive members = Inr (Inl failure) \<Longrightarrow> coded_refusal failure"
  by (auto simp: extract_planned_tar_def extraction_failed_def dest: extract_loop_coded split: sum.splits stream_error.splits)

lemma materialize_cases:
  assumes "materialize_tar_plan st io members s = (r, s')"
  obtains (escaped) x where "r = Inl x" | (failed) f where "r = Inr (Inl f)" "coded_refusal f"
  | (made) fs where "r = Inr (Inr (temp_dir st io))" "extract_planned_tar (extraction io) (reread io) members = Inr (Inr fs)"
      "dirs s' (temp_dir st io) = Some fs"
  using assms extract_coded that unfolding materialize_tar_plan_def Let_def
  by (auto split: option.splits if_splits sum.splits)

lemma materialize_dirs: "p \<noteq> temp_dir st io \<Longrightarrow> dirs (snd (materialize_tar_plan st io members s)) p = dirs s p"
  by (auto simp: materialize_tar_plan_def Let_def make_dir_def split: option.splits sum.splits)

lemma swap_cases:
  assumes "swap_in io temp d s = (r, s')" "temp \<noteq> d" "aside_dir io d \<noteq> d" "aside_dir io d \<noteq> temp"
  obtains (kept) f where "r = Inl f" "coded_refusal f" "dirs s' d = dirs s d"
  | (aside) f where "r = Inl f" "coded_refusal f" "dirs s' (aside_dir io d) = dirs s d" "rename_fault io temp d \<noteq> None"
      "rename_fault io (aside_dir io d) d \<noteq> None"
  | (swapped) "r = Inr ()" "dirs s' d = dirs s temp"
proof (cases "rename_dir io d (aside_dir io d) s")
  case (Inl m)
  then show thesis using assms kept by (auto simp: swap_in_def)
next
  case (Inr s1)
  note out = rename_dirs [OF Inr assms(3) [symmetric]]
  show thesis
  proof (cases "rename_dir io temp d s1")
    case (Inr s2)
    then show thesis using swapped \<open>rename_dir io d (aside_dir io d) s = Inr s1\<close> assms rename_dirs [OF Inr assms(2)] out(3) [of temp]
      by (auto simp: swap_in_def)
  next
    case (Inl m)
    then have temp: "rename_fault io temp d \<noteq> None" by (auto simp: rename_dir_def split: option.splits)
    have run: "r = Inl (not_finalized m)" "s' = rmtree_quiet io temp (case rename_dir io (aside_dir io d) d s1 of Inl message \<Rightarrow> s1 | Inr s2 \<Rightarrow> s2)"
      using assms(1) \<open>rename_dir io d (aside_dir io d) s = Inr s1\<close> Inl by (auto simp: swap_in_def)
    have coded: "coded_refusal (not_finalized m)" by (simp add: not_finalized_def)
    show thesis
    proof (cases "rename_dir io (aside_dir io d) d s1")
      case (Inl m')
      then have "rename_fault io (aside_dir io d) d \<noteq> None" by (auto simp: rename_dir_def split: option.splits)
      then show thesis using aside [OF run(1) coded] temp run(2) Inl out assms by simp
    next
      case (Inr s2)
      then show thesis using kept [OF run(1) coded] run(2) rename_dirs(1) [OF Inr assms(3)] out(1) assms by simp
    qed
  qed
qed

lemma finish_restored:
  assumes "finish_restored_session st sv io sid d language ps replaced s = (r, s')" "holds s d w"
  shows "dget r ''ok'' = PBool True" "holds s' d w"
proof -
  have ok: "dget (restored st sid d language ps replaced more t) ''ok'' = PBool True" for more t
    by (simp add: restored_def dget_def)
  have lock: "holds (touch now sid (t\<lparr>workers := ws\<rparr>)) d w \<longleftrightarrow> holds t d w" for now t ws
    by (rule holds_dirs) (simp add: touch_def)
  have "holds (s\<lparr>spawned := n\<rparr>) d w" for n using assms(2) holds_dirs [of "s\<lparr>spawned := n\<rparr>" d s d w] by simp
  then have more: "holds (write_lock_file b pid d (s\<lparr>spawned := n\<rparr>)) d w" for b pid n by (rule write_lock_holds)
  show "dget r ''ok'' = PBool True"
    using assms(1) ok unfolding finish_restored_session_def Let_def by (auto split: if_splits sum.splits)
  show "holds s' d w"
    using assms more lock unfolding finish_restored_session_def Let_def by (auto split: if_splits sum.splits)
qed

lemma guard_coded: "coded_refusal (guard_error m)"
  by (simp add: guard_error_def Let_def)

lemma identity_coded: "coded_refusal (cannot_replace sid)" "coded_refusal (changed_during_restore sid)"
  unfolding cannot_replace_def changed_during_restore_def identity_refusal_def by (rule coded_error; simp)+

lemma verified_exists: "\<not> unverified sid d s \<Longrightarrow> dirs s d \<noteq> None"
  by (auto simp: unverified_def identity_def split: if_splits)

section \<open>Restoring in place\<close>

definition entered :: "server \<Rightarrow> site \<Rightarrow> string \<Rightarrow> sessions \<Rightarrow> sessions" where
  "entered sv st sid s = reap_then_note st (sv_writable sv) (sv_marker sv) (sv_ttl sv) (sv_now sv) sid s"

lemma replace_split:
  assumes "snapshot_restore_replace e st sv io meanwhile dk sid ps language s = (r, s')" "sdir st sid = Inr d" "dirs s d \<noteq> None"
  obtains (escaped) x where "r = Inl x" "s' = entered sv st sid s \<or> s' = snd (materialize_tar_plan st io (p_members ps) (entered sv st sid s))"
  | (refused) f where "r = Inr f" "coded_refusal f" "s' = entered sv st sid s \<or> s' = snd (materialize_tar_plan st io (p_members ps) (entered sv st sid s))"
  | (changed) f s2 where "materialize_tar_plan st io (p_members ps) (entered sv st sid s) = (Inr (Inr (temp_dir st io)), s2)" "r = Inr f" "coded_refusal f"
      "s' = rmtree_quiet io (temp_dir st io) (meanwhile s2)"
  | (swap) s2 u s4 where "materialize_tar_plan st io (p_members ps) (entered sv st sid s) = (Inr (Inr (temp_dir st io)), s2)"
      "\<not> unverified sid d (meanwhile s2)" "swap_in io (temp_dir st io) d (retire_worker st sid (meanwhile s2)) = (u, s4)"
      "case u of Inl f \<Rightarrow> r = Inr f \<and> s' = s4
        | Inr u \<Rightarrow> \<exists>m. r = Inr m \<and> finish_restored_session st sv io sid d language ps True (record_identity sid d s4) = (m, s')"
proof -
  let ?s1 = "entered sv st sid s"
  note run = assms(1) [unfolded snapshot_restore_replace_def assms(2) sum.case Let_def entered_def [symmetric]]
  show thesis
  proof (cases "unverified sid d ?s1")
    case True
    then show thesis using run assms(3) refused identity_coded by auto
  next
    case False
    show thesis
    proof (cases "disk_quota_refusal e st dk sid (p_bytes ps) None = Inr None")
      case quota: False
      have "coded_refusal f" if "disk_quota_refusal e st dk sid (p_bytes ps) None = Inr (Some f)" for f using disk_quota_coded [OF that] .
      then show thesis using run assms(3) False quota refused escaped
        by (cases "disk_quota_refusal e st dk sid (p_bytes ps) None") (auto split: option.splits)
    next
      case True
      obtain q s2 where q: "materialize_tar_plan st io (p_members ps) ?s1 = (q, s2)" by fastforce
      note run' = run [simplified assms(3) False True q if_False sum.case option.case prod.case]
      show thesis using q
      proof (cases rule: materialize_cases)
        case (escaped x)
        then show thesis using run' q that(1) by auto
      next
        case (failed f)
        then show thesis using run' q that(2) by auto
      next
        case (made fs)
        show thesis
        proof (cases "unverified sid d (meanwhile s2)")
          case True
          then show thesis using run' q made that(3) identity_coded by auto
        next
          case ok: False
          obtain u s4 where u: "swap_in io (temp_dir st io) d (retire_worker st sid (meanwhile s2)) = (u, s4)" by fastforce
          then show thesis using run' q made ok that(4) [of s2 u s4]
            by (cases u) (auto split: prod.splits)
        qed
      qed
    qed
  qed
qed


definition demo_plan :: plan_state where
  "demo_plan = (case plan_tar_extraction demo_caps (Inr demo_archive) of Inr (Inr ps) \<Rightarrow> ps | _ \<Rightarrow> no_members)"

definition demo_sessions :: sessions where
  "demo_sessions = no_sessions\<lparr>dir_identity := [(''bash-01234567'', Some 7)],
     dirs := (\<lambda>d. if d = [''srv'', ''bash-01234567''] then Some (Map.empty([] \<mapsto> Directory, [''old''] \<mapsto> Regular ''x'')) else None),
     inode := (\<lambda>d. Some 7)\<rparr>"

definition demo_server :: server where
  "demo_server = \<lparr>sv_abi = 0, sv_reasons = [], sv_writable = True, sv_pid = ''42'', sv_marker = [], sv_ttl = None, sv_now = 0\<rparr>"

definition failing_io :: restore_io where
  "failing_io = \<lparr>extraction = demo_io, reread = Inr demo_archive, partial = Map.empty, mkdir_fault = None,
     rename_fault = (\<lambda>old new. if old = [''srv'', ''.codecalc-restore-0a''] then Some ''No space left on device'' else None),
     left_behind = (\<lambda>d. None), restore_hex = ''0a'', aside_hex = ''0b'', id_hex = ''01234567'', temp_inode = Some 8, spawning = Inl None\<rparr>"

definition empty_disk :: disk where
  "empty_disk = \<lparr>workspaces = [], host_free = None, root_size = 0\<rparr>"

lemma plain_quotas: "session_disk_quota_bytes plain_env = Inr 536870912" "total_disk_quota_bytes plain_env = Inr 8589934592"
  by (simp_all add: session_disk_quota_bytes_def total_disk_quota_bytes_def env_positive_float_def env_raw_def plain_env_def strip_def lstrip_def rstrip_def
      megabytes_nat [of 512, simplified] megabytes_nat [of 8192, simplified])

lemma empty_disk_quota: "disk_quota_refusal plain_env plain_site empty_disk sid (p_bytes demo_plan) None = Inr None"
proof -
  have "p_bytes demo_plan = 2" by code_simp
  then show ?thesis
    by (simp add: plain_quotas disk_quota_refusal_def empty_disk_def session_dir_size_def global_disk_usage_def split: sum.split)
qed


section \<open>Sidecars\<close>

text \<open>A sidecar that is JSON but no object is not refused: the attribute error escapes.\<close>

lemma sidecar_must_be_object:
  assumes "snapshot_paths st sid snapshot_id = Inr (tar_path, meta_path)" "file_at rd files tar_path = Some archive" "file_at rd files meta_path = Some sidecar"
    "loads rd sidecar = Inr (PList xs)"
  shows "snapshot_restore e rd st sv io meanwhile dk files sid snapshot_id replace s = (Inl (Python (no_attribute (PList xs) ''get'')), s)"
  using assms by (simp add: snapshot_restore_def sidecar_language_def)

text \<open>
  A restore into a new session writes to no existing directory: only the temporary one and the new session's.
\<close>

lemma restore_new_frame:
  assumes "snapshot_restore_new e st sv io dk origin ps language s = (r, s')" "p \<noteq> temp_dir st io"
    "p \<noteq> realpath st (session_root st) @ [new_session_id language (id_hex io)]"
  shows "dirs s' p = dirs s p"
proof -
  let ?final = "realpath st (session_root st) @ [new_session_id language (id_hex io)]"
  have finish: "dirs t' p = dirs t p" if "finish_restored_session st sv io sid ?final language ps b t = (m, t')" for sid b t m t'
    using that assms(3) unfolding finish_restored_session_def Let_def
    by (auto simp: touch_def write_lock_file_def split: if_splits sum.splits option.splits entry.splits)
  obtain q s1 where q: "materialize_tar_plan st io (p_members ps) s = (q, s1)" by fastforce
  have made: "dirs s1 p = dirs s p" using materialize_dirs [OF assms(2), of "p_members ps" s] q by simp
  show ?thesis
  proof (cases "disk_quota_refusal e st dk origin (p_bytes ps) None = Inr None")
    case False
    then show ?thesis using assms(1) unfolding snapshot_restore_new_def by (auto split: sum.splits option.splits)
  next
    case True
    note run = assms(1) [unfolded snapshot_restore_new_def True q Let_def sum.case option.case prod.case]
    show ?thesis using q
    proof (cases rule: materialize_cases)
      case (made fs)
      show ?thesis
      proof (cases "rename_dir io (temp_dir st io) ?final s1")
        case (Inl m)
        then show ?thesis using run made \<open>dirs s1 p = dirs s p\<close> assms(2) by auto
      next
        case (Inr s2)
        then have "dirs s2 p = dirs s1 p" using assms(2,3) by (auto simp: rename_dir_def split: option.splits)
        then show ?thesis using run made Inr \<open>dirs s1 p = dirs s p\<close> finish by (auto simp: record_identity_def split: prod.splits)
      qed
    qed (use run made in auto)
  qed
qed

end
