(* ===== verification/Snapshot_Roundtrip.thy ===== *)
theory Snapshot_Roundtrip
  imports Snapshot_Claims
begin

text \<open>
  Saving a workspace and restoring the snapshot: the archive of a tree of ordinary files is always planned,
  extracted, and gives back exactly those files.
\<close>

section \<open>Names\<close>

lemma set_join: "set (join [SLASH] ps) \<subseteq> insert SLASH (\<Union>(set ` set ps))"
  by (induction ps rule: induct_list012) auto

lemma join_hd: "ps \<noteq> [] \<Longrightarrow> hd ps \<noteq> [] \<Longrightarrow> join [SLASH] ps \<noteq> [] \<and> hd (join [SLASH] ps) = hd (hd ps)"
  by (cases ps rule: remdups_adj.cases) auto

lemma plain_not_root: "plain_path p \<Longrightarrow> \<not> bare_root (join [SLASH] p)"
proof
  assume p: "plain_path p" and "bare_root (join [SLASH] p)"
  then have "slashes (join [SLASH] p) \<in> {[[]], [''.''], [''.'', []]}" by (auto simp: bare_root_def)
  then show False using p plain_path_slashes [OF p] by (auto simp: plain_path_def plain_name_def)
qed

lemma plain_accepted:
  assumes "plain_path p" "\<not> drive_letter (join [SLASH] p)"
  shows "member_refusal \<lparr>m_name = join [SLASH] p, m_kind = RegularMember, m_size = n, m_data = x\<rparr> = None"
proof -
  have plain: "\<And>w. w \<in> set p \<Longrightarrow> plain_name w" "p \<noteq> []" using assms(1) by (auto simp: plain_path_def list_all_iff)
  have "char_of (0 :: nat) \<notin> set (join [SLASH] p)" "BACKSLASH \<notin> set (join [SLASH] p)"
    using set_join [of p] plain(1) by (auto simp: plain_name_def char_of_def)
  moreover have "hd (join [SLASH] p) \<noteq> SLASH"
    using join_hd [of p] plain(1) [of "hd p"] plain(2) by (auto simp: plain_name_def) (metis list.set_sel(1))
  moreover have "\<not> list_ex (\<lambda>part. part = [] \<or> part = ''.'' \<or> part = ''..'') p" using plain(1) by (auto simp: list_ex_iff plain_name_def)
  ultimately show ?thesis using assms(2) plain_path_slashes [OF assms(1)] by (simp add: member_refusal_def)
qed

section \<open>No collisions in a tree\<close>

lemma register_all:
  assumes "\<And>i. i \<in> set ks \<Longrightarrow> known (join [SLASH] (take i parts)) \<noteq> Some KFile"
  shows "register_ancestors name parts ks known = Inr (\<lambda>x. if x \<in> (\<lambda>i. join [SLASH] (take i parts)) ` set ks then Some KDir else known x)"
  using assms
proof (induction ks arbitrary: known)
  case (Cons k ks)
  let ?known = "known(join [SLASH] (take k parts) \<mapsto> KDir)"
  have "register_ancestors name parts ks ?known = Inr (\<lambda>x. if x \<in> (\<lambda>i. join [SLASH] (take i parts)) ` set ks then Some KDir else ?known x)"
    by (rule Cons.IH) (use Cons.prems in auto)
  then show ?case using Cons.prems [of k] by (auto simp: Let_def fun_eq_iff)
qed simp

definition registered :: "path list \<Rightarrow> known_paths \<Rightarrow> bool" where
  "registered ps known \<longleftrightarrow> (\<forall>p. plain_path p \<longrightarrow> known (join [SLASH] p) =
     (if p \<in> set ps then Some KFile else if \<exists>q \<in> set ps. strict_prefix p q then Some KDir else None))"

lemma strict_prefix_take: "strict_prefix q p \<longleftrightarrow> (\<exists>k < length p. q = take k p)"
proof
  assume "strict_prefix q p"
  then obtain z zs where "p = q @ z # zs" by (rule strict_prefixE')
  then show "\<exists>k < length p. q = take k p" by (intro exI [of _ "length q"]) simp
next
  assume "\<exists>k < length p. q = take k p"
  then obtain k where k: "k < length p" "q = take k p" by blast
  then have "length q < length p" by simp
  then show "strict_prefix q p" using k(2) by (auto simp: strict_prefix_def take_is_prefix)
qed

lemma tree_no_collision:
  assumes "registered ps known" "plain_path p" "p \<notin> set ps" "\<And>q. q \<in> set ps \<Longrightarrow> \<not> strict_prefix p q \<and> \<not> strict_prefix q p"
  shows "\<exists>known'. tar_path_collision known (join [SLASH] p) KFile = Inr known' \<and> registered (ps @ [p]) known'"
proof -
  let ?up = "(\<lambda>i. join [SLASH] (take i p)) ` set [1..<length p]"
  define known1 where "known1 = (\<lambda>x. if x \<in> ?up then Some KDir else known x)"
  have above: "join [SLASH] q \<in> ?up \<longleftrightarrow> strict_prefix q p" if q: "plain_path q" for q
  proof -
    have "join [SLASH] q = join [SLASH] (take i p) \<longleftrightarrow> q = take i p" if "i \<in> set [1..<length p]" for i
      using plain_join_eq [OF q plain_path_take [OF assms(2)], of i] that by simp
    then have "join [SLASH] q \<in> ?up \<longleftrightarrow> (\<exists>i \<in> set [1..<length p]. q = take i p)" unfolding image_iff by blast
    also have "\<dots> \<longleftrightarrow> strict_prefix q p"
      using q by (auto simp: strict_prefix_take plain_path_def)
    finally show ?thesis .
  qed
  have reg: "register_ancestors (join [SLASH] p) p [1..<length p] known = Inr known1"
    unfolding known1_def
  proof (rule register_all)
    fix i assume i: "i \<in> set [1..<length p]"
    then have "plain_path (take i p)" "strict_prefix (take i p) p" using plain_path_take [OF assms(2), of i] by (auto simp: strict_prefix_take)
    then show "known (join [SLASH] (take i p)) \<noteq> Some KFile" using assms(1,4) by (auto simp: registered_def)
  qed
  have "known1 (join [SLASH] p) = None"
    using above [OF assms(2)] assms(1-4) by (auto simp: known1_def registered_def)
  then have "tar_path_collision known (join [SLASH] p) KFile = Inr (known1(join [SLASH] p \<mapsto> KFile))"
    using reg by (simp add: tar_path_collision_def plain_path_slashes [OF assms(2)])
  moreover have "registered (ps @ [p]) (known1(join [SLASH] p \<mapsto> KFile))"
    unfolding registered_def
  proof (intro allI impI)
    fix q assume q: "plain_path q"
    show "(known1(join [SLASH] p \<mapsto> KFile)) (join [SLASH] q)
      = (if q \<in> set (ps @ [p]) then Some KFile else if \<exists>r \<in> set (ps @ [p]). strict_prefix q r then Some KDir else None)"
      using q above [OF q] plain_join_eq [OF q assms(2)] assms(1,3,4) by (auto simp: known1_def registered_def)
  qed
  ultimately show ?thesis by blast
qed

section \<open>The archive of a workspace\<close>

text \<open>What \<open>tarfile\<close> reads from an archive it has written: a regular member per entry, with its content.\<close>

definition archived :: "(path \<Rightarrow> string) \<Rightarrow> path \<times> fstat \<Rightarrow> tar_member" where
  "archived content x = \<lparr>m_name = posix (fst x), m_kind = RegularMember, m_size = f_size (snd x), m_data = Inr (content (fst x))\<rparr>"

definition archive_of :: "(path \<Rightarrow> string) \<Rightarrow> listing \<Rightarrow> tar_stream" where
  "archive_of content l = map (Inr \<circ> archived content) l"

definition file_tree :: "listing \<Rightarrow> bool" where
  "file_tree l \<longleftrightarrow> distinct (map fst l) \<and> (\<forall>p \<in> fst ` set l. plain_path p \<and> \<not> drive_letter (posix p) \<and> (\<forall>q \<in> fst ` set l. \<not> strict_prefix p q))"

lemma tree_member:
  assumes "registered ps (p_known k)" "plain_path (fst x)" "\<not> drive_letter (posix (fst x))" "fst x \<notin> set ps"
    "\<And>q. q \<in> set ps \<Longrightarrow> \<not> strict_prefix (fst x) q \<and> \<not> strict_prefix q (fst x)"
    "p_count k + 1 \<le> max_members caps" "f_size (snd x) \<le> max_member_bytes caps" "p_bytes k + f_size (snd x) \<le> byte_budget caps"
  shows "\<exists>k'. plan_member caps (archived content x) k = Inr k' \<and> registered (ps @ [fst x]) (p_known k')
    \<and> p_count k' = p_count k + 1 \<and> p_bytes k' = p_bytes k + f_size (snd x)"
proof -
  obtain known' where "tar_path_collision (p_known k) (posix (fst x)) KFile = Inr known'" "registered (ps @ [fst x]) known'"
    using tree_no_collision [OF assms(1,2,4,5)] by (auto simp: posix_def)
  then show ?thesis
    using plain_accepted [OF assms(2) assms(3) [unfolded posix_def]] plain_not_root [OF assms(2)] assms(6-8)
    by (simp add: plan_member_def archived_def posix_def Let_def)
qed

lemma tree_plan:
  assumes "registered ps (p_known k)" "distinct (map fst l)"
    "\<And>x. x \<in> set l \<Longrightarrow> plain_path (fst x) \<and> \<not> drive_letter (posix (fst x)) \<and> fst x \<notin> set ps \<and> 0 \<le> f_size (snd x) \<and> f_size (snd x) \<le> max_member_bytes caps"
    "\<And>p q. p \<in> fst ` set l \<union> set ps \<Longrightarrow> q \<in> fst ` set l \<union> set ps \<Longrightarrow> \<not> strict_prefix p q"
    "p_count k + int (length l) \<le> max_members caps" "p_bytes k + raw_bytes l \<le> byte_budget caps"
  shows "\<exists>k'. plan_loop caps (archive_of content l) k = Inr (Inr k')"
  using assms
proof (induction l arbitrary: ps k)
  case (Cons x l)
  have "0 \<le> f_size (snd y)" if "y \<in> set l" for y using Cons.prems(3) that by simp
  then have sizes: "0 \<le> raw_bytes l" unfolding raw_bytes_def split_beta by (intro sum_list_nonneg) auto
  have "raw_bytes (x # l) = f_size (snd x) + raw_bytes l" by (simp add: raw_bytes_def split_beta)
  moreover obtain k1 where k1: "plan_member caps (archived content x) k = Inr k1" "registered (ps @ [fst x]) (p_known k1)"
    "p_count k1 = p_count k + 1" "p_bytes k1 = p_bytes k + f_size (snd x)"
    using tree_member [OF Cons.prems(1), of x caps content] Cons.prems(3) [of x] Cons.prems(4-6) sizes calculation by auto
  ultimately have "\<exists>k'. plan_loop caps (archive_of content l) k1 = Inr (Inr k')"
    using Cons.prems(2-6) by (intro Cons.IH [OF k1(2)]) (auto simp: image_iff split_pairs)
  then show ?case using k1(1) by (simp add: archive_of_def)
qed (simp add: archive_of_def)

lemma archive_named: "\<forall>x \<in> set l. plain_path (fst x) \<Longrightarrow> named_members (archive_of content l) = map (archived content) l"
  by (induction l) (auto simp: archive_of_def archived_def posix_def plain_not_root)

section \<open>Saving\<close>

lemma save_refusals_coded:
  "coded_refusal (label_too_long n)" "coded_refusal (cannot_snapshot sid)" "coded_refusal (snapshot_too_large a b)"
  "coded_refusal (too_many_snapshots sid a b)"
  unfolding label_too_long_def cannot_snapshot_def identity_refusal_def snapshot_too_large_def too_many_snapshots_def
  by (rule coded_error; simp)+

lemma coded_not_ok: "coded_refusal d \<Longrightarrow> dget d ''ok'' \<noteq> PBool True"
  by (simp add: coded_refusal_def)

lemma write_snapshot_ok:
  assumes "write_snapshot io st sid label l s files = (Inr r, files')" "dget r ''ok'' = PBool True"
  obtains tar_path meta_path archive where "snapshot_paths st sid (save_hex io) = Inr (tar_path, meta_path)" "tgz io (to_archive l) = Inr archive"
    "map_of files' tar_path = Some (Regular archive)"
proof -
  have refused: "dget (error_result INTERNAL m []) ''ok'' \<noteq> PBool True" for m by (rule coded_not_ok) simp
  obtain tar_path meta_path where p: "snapshot_paths st sid (save_hex io) = Inr (tar_path, meta_path)"
    using assms(1) by (cases "snapshot_paths st sid (save_hex io)") (auto simp: write_snapshot_def)
  obtain archive where a: "tgz io (to_archive l) = Inr archive"
    using assms refused by (cases "tgz io (to_archive l)") (auto simp: write_snapshot_def p)
  have "tar_path \<noteq> meta_path" using p by (auto simp: snapshot_paths_def rbind_def split: if_splits sum.splits)
  then have "map_of files' tar_path = Some (Regular archive)"
    using assms(1) unfolding write_snapshot_def p a sum.case prod.case Let_def by (auto simp: update_conv' split: option.splits)
  with that p a show thesis by blast
qed

lemma snapshot_save_ok:
  assumes "snapshot_save e io st writable marker ttl now dk sid label s files = (Inr r, s', files')" "dget r ''ok'' = PBool True"
    "sdir st sid = Inr d" "map_of (workspaces dk) d = Some l"
  obtains tar_path meta_path archive where "snapshot_paths st sid (save_hex io) = Inr (tar_path, meta_path)" "tgz io (to_archive l) = Inr archive"
    "map_of files' tar_path = Some (Regular archive)" "raw_bytes (to_archive l) \<le> max_snapshot_bytes e"
proof -
  note refused = save_refusals_coded [THEN coded_not_ok]
  have unknown: "dget (unknown_session sid) ''ok'' \<noteq> PBool True" by (simp add: unknown_session_def dget_def)
  obtain s1 where c: "save_checked e io st dk sid label d s1 files = (Inr r, files')"
    using assms(1-3) refused(1) unknown unfolding snapshot_save_def assms(3) sum.case Let_def
    by (auto split: if_splits prod.splits)
  note run = c [unfolded save_checked_def assms(4) option.case Let_def]
  have verified: "\<not> unverified sid d s1" using run assms(2) refused(2) by auto
  have small: "raw_bytes (to_archive l) \<le> max_snapshot_bytes e" using run assms(2) refused(3) verified by (auto split: if_splits)
  have "disk_quota_refusal e st dk sid (raw_bytes (to_archive l)) None = Inr None"
    using run assms(2) verified small disk_quota_coded [THEN coded_not_ok] by (auto split: sum.splits option.splits)
  then have "\<exists>s2. write_snapshot io st sid label l s2 files = (Inr r, files')"
    using run assms(2) verified small refused(4) by (auto split: sum.splits option.splits if_splits)
  then obtain s2 where "write_snapshot io st sid label l s2 files = (Inr r, files')" by blast
  from write_snapshot_ok [OF this assms(2)] small that show thesis by blast
qed

text \<open>
  C14. A saved workspace can be restored. Suppose \<open>snapshot_save\<close> reports success, and the archived files --
  the artifacts that are no hard links -- are a tree with ordinary names, no more and no larger than the caps
  on artifacts. Then the archive is stored under the snapshot's name, the plan of a restore accepts it with
  the same total, and its extraction succeeds and gives back exactly the archived files with their contents:
  every regular file restored is one of them. (\<open>tarfile\<close> reads back the members it wrote, and the file system
  reports no error.)
\<close>

theorem saved_snapshot_restores:
  assumes "snapshot_save e sio st writable marker ttl now dk sid label s files = (Inr r, s', files')" "dget r ''ok'' = PBool True"
    and "sdir st sid = Inr d" "map_of (workspaces dk) d = Some l"
    and "file_tree (to_archive l)" "int (length (to_archive l)) \<le> max_artifact_count e"
    and "list_all (\<lambda>(p, x). 0 \<le> f_size x \<and> f_size x \<le> max_artifact_bytes e) (to_archive l)"
    and "\<And>a. tgz sio (to_archive l) = Inr a \<Longrightarrow> untar rd a = Inr (archive_of content (to_archive l))"
    and "\<And>p. fault io p = None"
  shows "\<exists>tar_path meta_path a ps fs. snapshot_paths st sid (save_hex sio) = Inr (tar_path, meta_path) \<and> file_at rd files' tar_path = Some a
    \<and> plan_tar_extraction (restore_limits e) (untar rd a) = Inr (Inr ps) \<and> p_bytes ps = raw_bytes (to_archive l)
    \<and> extract_planned_tar io (untar rd a) (p_members ps) = Inr (Inr fs)
    \<and> (\<forall>p c. fs p = Some (Regular c) \<longleftrightarrow> p \<in> fst ` set (to_archive l) \<and> c = content p)"
proof -
  let ?l = "to_archive l" and ?ms = "archive_of content (to_archive l)"
  obtain tar_path meta_path a where saved: "snapshot_paths st sid (save_hex sio) = Inr (tar_path, meta_path)" "tgz sio ?l = Inr a"
    "map_of files' tar_path = Some (Regular a)" "raw_bytes ?l \<le> max_snapshot_bytes e"
    using snapshot_save_ok [OF assms(1-4)] by blast
  have tar: "untar rd a = Inr ?ms" using assms(8) saved(2) by blast
  have pos: "0 < max_artifact_bytes e" by (simp add: max_artifact_bytes_def env_positive_int_def split: option.split)
  have plain: "\<forall>x \<in> set ?l. plain_path (fst x)" using assms(5) by (auto simp: file_tree_def)
  have "\<exists>k. plan_loop (restore_limits e) ?ms no_members = Inr (Inr k)"
    using assms(5-7) saved(4) pos
    by (intro tree_plan [of "[]"]) (auto simp: registered_def no_members_def file_tree_def list_all_iff restore_limits_def extraction_byte_budget_def)
  then obtain ps where ps: "plan_tar_extraction (restore_limits e) (Inr ?ms) = Inr (Inr ps)" by (auto simp: plan_tar_extraction_def)
  note named = archive_named [OF plain, of content]
  have path: "slashes (m_name (archived content x)) = fst x" if "x \<in> set ?l" for x
    using plain that plain_path_slashes by (auto simp: archived_def posix_def)
  have data: "m_data m = Inr (case m_data m of Inr c \<Rightarrow> c | Inl x \<Rightarrow> [])" if "m \<in> set (named_members ?ms)" for m
    using that unfolding named by (auto simp: archived_def)
  obtain fs where ex: "extract_planned_tar io (Inr ?ms) (p_members ps) = Inr (Inr fs)" "fs [] = Some Directory"
    "\<forall>m \<in> set (named_members ?ms). fs (slashes (m_name m)) = Some (if m_kind m = DirectoryMember then Directory
       else Regular (case m_data m of Inr c \<Rightarrow> c | Inl x \<Rightarrow> []))"
    "\<forall>m \<in> set (named_members ?ms). \<forall>q. strict_prefix q (slashes (m_name m)) \<longrightarrow> fs q = Some Directory"
    "\<forall>p. fs p \<noteq> None \<longrightarrow> p = [] \<or> (\<exists>m \<in> set (named_members ?ms). prefix p (slashes (m_name m)))"
    using planned_extracts [OF ps assms(9) data] by blast
  have fs: "fs (fst x) = Some (Regular (content (fst x)))" "strict_prefix q (fst x) \<Longrightarrow> fs q = Some Directory" if "x \<in> set ?l" for x q
    using ex(3,4) that path [OF that] unfolding named by (auto simp: archived_def)
  have only: "p = [] \<or> (\<exists>x \<in> set ?l. prefix p (fst x))" if "fs p \<noteq> None" for p
    using ex(5) that path unfolding named by auto
  have "p_bytes ps = raw_bytes ?l"
    using plan_loop_sound(3) [OF ps [unfolded plan_tar_extraction_def sum.case]]
    unfolding raw_bytes_def split_beta by (simp add: named no_members_def planned_size_def archived_def comp_def)
  moreover have "fs p = Some (Regular c) \<longleftrightarrow> p \<in> fst ` set ?l \<and> c = content p" for p c
  proof
    assume p: "fs p = Some (Regular c)"
    then obtain x where x: "x \<in> set ?l" "prefix p (fst x)" using ex(2) only [of p] by (cases "p = []") auto
    then have "p = fst x" using fs(2) [OF x(1), of p] p by (cases "p = fst x") (auto simp: strict_prefix_def)
    then show "p \<in> fst ` set ?l \<and> c = content p" using x(1) fs(1) p by auto
  qed (use fs(1) in auto)
  moreover have "file_at rd files' tar_path = Some a" using saved(3) by (simp add: file_at_def)
  ultimately show ?thesis using saved(1) tar ps ex(1) by auto
qed

definition saved_disk :: disk where
  "saved_disk = \<lparr>workspaces = [([''srv'', ''bash-01234567''], [([''a''], \<lparr>f_regular = False, f_size = 4096, f_mtime = 0, f_nlink = 2\<rparr>),
     ([''a'', ''b''], \<lparr>f_regular = True, f_size = 2, f_mtime = 0, f_nlink = 1\<rparr>)])], host_free = None, root_size = 4096\<rparr>"

definition saved_files :: listing where
  "saved_files = [([''a'', ''b''], \<lparr>f_regular = True, f_size = 2, f_mtime = 0, f_nlink = 1\<rparr>)]"

definition demo_save :: save_io where
  "demo_save = \<lparr>tgz = (\<lambda>l. Inr ''T''), dumps = (\<lambda>d. ''{}''), make_store = None, write_sidecar = None,
     save_hex = replicate 32 (CHR ''0''), save_time = ''2026-01-01T00:00:00Z''\<rparr>"

definition demo_readers :: readers where
  "demo_readers = \<lparr>follow = (\<lambda>t. None), loads = (\<lambda>t. Inr (PDict [])), untar = (\<lambda>a. Inr (archive_of (\<lambda>p. ''hi'') saved_files))\<rparr>"

lemma saved_disk_quota: "disk_quota_refusal plain_env plain_site saved_disk ''bash-01234567'' 2 None = Inr None"
proof -
  have "sdir plain_site ''bash-01234567'' = Inr [''srv'', ''bash-01234567'']" by code_simp
  then show ?thesis
    by (simp add: disk_quota_refusal_def plain_quotas saved_disk_def session_dir_size_def global_disk_usage_def listing_size_def)
qed

theorem saved_snapshot_restores_witness:
  "\<exists>s' files' ps fs. snapshot_save plain_env demo_save plain_site True [] None 0 saved_disk ''bash-01234567'' None demo_sessions [] = (Inr (snapshot_saved demo_save ''bash-01234567'' None 1 1 0), s', files')
    \<and> plan_tar_extraction (restore_limits plain_env) (untar demo_readers ''T'') = Inr (Inr ps) \<and> p_bytes ps = 2
    \<and> extract_planned_tar demo_io (untar demo_readers ''T'') (p_members ps) = Inr (Inr fs) \<and> fs [''a'', ''b''] = Some (Regular ''hi'')"
proof -
  let ?run = "snapshot_save plain_env demo_save plain_site True [] None 0 saved_disk ''bash-01234567'' None demo_sessions []"
  let ?l = "[([''a''], \<lparr>f_regular = False, f_size = 4096, f_mtime = 0, f_nlink = 2\<rparr>), ([''a'', ''b''], \<lparr>f_regular = True, f_size = 2, f_mtime = 0, f_nlink = 1\<rparr>)]"
  have d: "sdir plain_site ''bash-01234567'' = Inr [''srv'', ''bash-01234567'']" by code_simp
  have l: "map_of (workspaces saved_disk) [''srv'', ''bash-01234567''] = Some ?l" by (simp add: saved_disk_def)
  have kept: "to_archive ?l = saved_files" by code_simp
  have raw: "raw_bytes (to_archive ?l) = 2" unfolding kept by (simp add: saved_files_def raw_bytes_def)
  have "fst ?run = Inr (snapshot_saved demo_save ''bash-01234567'' None 1 1 0)"
    unfolding snapshot_save_def save_checked_def d sum.case l option.case Let_def raw saved_disk_quota sum.case option.case by code_simp
  then obtain s' files' where run: "?run = (Inr (snapshot_saved demo_save ''bash-01234567'' None 1 1 0), s', files')" by (cases ?run) auto
  have ok: "dget (snapshot_saved demo_save ''bash-01234567'' None 1 1 0) ''ok'' = PBool True" by (simp add: snapshot_saved_def dget_def)
  have tree: "file_tree saved_files" by (simp add: file_tree_def saved_files_def plain_path_def plain_name_def drive_letter_def posix_def char_of_def)
  have caps: "int (length saved_files) \<le> max_artifact_count plain_env"
    "list_all (\<lambda>(p, x). 0 \<le> f_size x \<and> f_size x \<le> max_artifact_bytes plain_env) saved_files" by code_simp+
  have "\<exists>tar_path meta_path a ps fs. snapshot_paths plain_site ''bash-01234567'' (save_hex demo_save) = Inr (tar_path, meta_path)
    \<and> file_at demo_readers files' tar_path = Some a
    \<and> plan_tar_extraction (restore_limits plain_env) (untar demo_readers a) = Inr (Inr ps) \<and> p_bytes ps = raw_bytes (to_archive ?l)
    \<and> extract_planned_tar demo_io (untar demo_readers a) (p_members ps) = Inr (Inr fs)
    \<and> (\<forall>p c. fs p = Some (Regular c) \<longleftrightarrow> p \<in> fst ` set (to_archive ?l) \<and> c = (\<lambda>p. ''hi'') p)"
    by (rule saved_snapshot_restores [OF run ok d l]) (simp_all only: kept tree caps, simp_all add: demo_readers_def demo_io_def)
  then obtain a ps fs where "plan_tar_extraction (restore_limits plain_env) (untar demo_readers a) = Inr (Inr ps)" "p_bytes ps = 2"
    "extract_planned_tar demo_io (untar demo_readers a) (p_members ps) = Inr (Inr fs)" "fs [''a'', ''b''] = Some (Regular ''hi'')"
    unfolding raw kept by (auto simp: saved_files_def raw_bytes_def)
  moreover have "untar demo_readers a = untar demo_readers ''T''" by (simp add: demo_readers_def)
  ultimately show ?thesis using run by auto
qed

end
