(* ===== verification/Output_Capture.thy ===== *)
theory Output_Capture
  imports Codecalc_Prelude Errors "HOL-Library.Word" "HOL-Library.Sublist"
begin

text \<open>
  \<open>codecalc/executor.py\<close>, the capture of a program's output by the Python backend: the bounded reader of one
  pipe, the cut at a character boundary, and the one budget shared by the two streams. What successive reads
  of a pipe give is an argument.
\<close>

type_synonym bytes = "8 word list"

section \<open>Reading a pipe\<close>

text \<open>An answer of \<open>read(65536)\<close> is an exception or a chunk; an empty chunk is the end.\<close>

record reader =
  d_cap :: nat
  d_buf :: bytes
  d_seen :: nat
  d_error :: "string option"

definition new_drain :: "nat \<Rightarrow> reader" where
  "new_drain cap = \<lparr>d_cap = cap, d_buf = [], d_seen = 0, d_error = None\<rparr>"

definition take_chunk :: "bytes \<Rightarrow> reader \<Rightarrow> reader" where
  "take_chunk chunk r =
    (let room = int (d_cap r + 1) - int (length (d_buf r)) in
     r\<lparr>d_seen := d_seen r + length chunk, d_buf := (if room > 0 then d_buf r @ take (nat room) chunk else d_buf r)\<rparr>)"

definition drain_failed :: "string \<Rightarrow> exn \<Rightarrow> reader \<Rightarrow> reader" where
  "drain_failed name x r = r\<lparr>d_error := Some (name @ '': '' @ exn_msg x @ '' (after '' @ nat_str (d_seen r) @ '' bytes)'')\<rparr>"

fun drain :: "(exn \<Rightarrow> string) \<Rightarrow> (exn + bytes) list \<Rightarrow> reader \<Rightarrow> reader" where
  "drain type_of [] r = r"
| "drain type_of (Inl x # reads) r = drain_failed (type_of x) x r"
| "drain type_of (Inr chunk # reads) r = (if chunk = [] then r else drain type_of reads (take_chunk chunk r))"

definition seen :: "reader \<Rightarrow> nat option" where
  "seen r = (if d_error r \<noteq> None then None else Some (d_seen r))"

section \<open>Cutting\<close>

text \<open>A continuation byte of UTF-8.\<close>

definition continuation :: "8 word \<Rightarrow> bool" where
  "continuation b \<longleftrightarrow> 0x80 \<le> unat b \<and> unat b \<le> 0xBF"

fun back_off :: "bytes \<Rightarrow> nat \<Rightarrow> nat \<Rightarrow> nat" where
  "back_off data keep 0 = 0"
| "back_off data keep (Suc pos) =
    (if keep - Suc pos < 3 \<and> continuation (data ! Suc pos) then back_off data keep pos else Suc pos)"

definition cut_utf8 :: "bytes \<Rightarrow> nat \<Rightarrow> nat" where
  "cut_utf8 data keep = (if keep \<ge> length data then length data else back_off data keep keep)"

text \<open>A line feed, the character of three dots and \<open>[truncated]\<close>.\<close>

definition TRUNCATION_MARKER :: bytes where
  "TRUNCATION_MARKER = [0x0A, 0xE2, 0x80, 0xA6] @ map (\<lambda>c. word_of_nat (of_char c)) ''[truncated]''"

definition keep_bytes :: "bytes \<Rightarrow> nat \<Rightarrow> bytes" where
  "keep_bytes data budget = (if length data \<le> budget then data else take (cut_utf8 data budget) data @ TRUNCATION_MARKER)"

definition out_share :: "nat \<Rightarrow> nat \<Rightarrow> nat \<Rightarrow> nat" where
  "out_share cap out err =
    (let out_keep = min out (cap div 2); err_keep = min err (cap div 2); spare = cap - out_keep - err_keep
     in out_keep + min spare (out - out_keep))"

definition err_share :: "nat \<Rightarrow> nat \<Rightarrow> nat \<Rightarrow> nat" where
  "err_share cap out err =
    (let out_keep = min out (cap div 2); err_keep = min err (cap div 2); spare = cap - out_keep - err_keep;
         grow = min spare (out - out_keep)
     in err_keep + min (spare - grow) (err - err_keep))"

definition split_output_budget :: "nat \<Rightarrow> bytes \<Rightarrow> bytes \<Rightarrow> bytes \<times> bytes \<times> bool" where
  "split_output_budget cap out err =
    (if length out + length err \<le> cap then (out, err, False)
     else (keep_bytes out (out_share cap (length out) (length err)), keep_bytes err (err_share cap (length out) (length err)), True))"

definition capped_streams :: "(bytes \<Rightarrow> string) \<Rightarrow> nat \<Rightarrow> bytes \<Rightarrow> bytes \<Rightarrow> string \<times> string \<times> bool" where
  "capped_streams decode cap out err =
    (case split_output_budget cap out err of (o', e', truncated) \<Rightarrow> (decode o', decode e', truncated))"

section \<open>The shares\<close>

lemma out_share_eq: "out_share cap out err = min out (cap - min err (cap div 2))"
proof -
  obtain h where h: "cap div 2 = h" "2 * h \<le> cap" by simp
  show ?thesis using h(2) unfolding out_share_def Let_def h(1) by (cases "out \<le> h"; cases "err \<le> h") auto
qed

lemma err_share_eq: "err_share cap out err = min err (cap - out_share cap out err)"
proof -
  obtain h where h: "cap div 2 = h" "2 * h \<le> cap" by simp
  show ?thesis using h(2) unfolding out_share_def err_share_def Let_def h(1) by (cases "out \<le> h"; cases "err \<le> h") (auto simp: min_def)
qed

lemma shares_fill: "cap < out + err \<Longrightarrow> out_share cap out err + err_share cap out err = cap"
  unfolding err_share_eq out_share_eq by (auto simp: min_def)

lemma shares_guaranteed:
  "min out (cap div 2) \<le> out_share cap out err" "min err (cap div 2) \<le> err_share cap out err"
proof -
  obtain h where h: "cap div 2 = h" "2 * h \<le> cap" by simp
  show "min out (cap div 2) \<le> out_share cap out err" "min err (cap div 2) \<le> err_share cap out err"
    using h(2) unfolding err_share_eq out_share_eq h(1) by (auto simp: min_def)
qed

lemma shares_le: "out_share cap out err \<le> cap" "err_share cap out err \<le> cap"
  unfolding err_share_eq out_share_eq by (rule le_trans [OF min.cobounded2 diff_le_self])+

text \<open>The shares do not depend on what is beyond one byte over the budget.\<close>

lemma shares_capped:
  "out_share cap (min out (Suc cap)) (min err (Suc cap)) = out_share cap out err"
  "err_share cap (min out (Suc cap)) (min err (Suc cap)) = err_share cap out err"
proof -
  have "min (min err (Suc cap)) (cap div 2) = min err (cap div 2)" using div_le_dividend [of cap 2] by (auto simp: min_def simp del: div_le_dividend)
  then show out: "out_share cap (min out (Suc cap)) (min err (Suc cap)) = out_share cap out err"
    unfolding out_share_eq by (auto simp: min_def)
  show "err_share cap (min out (Suc cap)) (min err (Suc cap)) = err_share cap out err"
    unfolding err_share_eq out by (auto simp: min_def)
qed

section \<open>The cut\<close>

lemma back_off_le: "back_off data keep pos \<le> pos"
  by (induction pos) auto

lemma back_off_near: "pos \<le> keep \<Longrightarrow> keep \<le> pos + 3 \<Longrightarrow> keep \<le> back_off data keep pos + 3"
  by (induction pos) auto

lemma cut_bounds: "keep \<le> length data \<Longrightarrow> cut_utf8 data keep \<le> keep \<and> keep \<le> cut_utf8 data keep + 3"
  using back_off_le [of data keep keep] back_off_near [of keep keep data] by (simp add: cut_utf8_def)

lemma back_off_take: "pos \<le> keep \<Longrightarrow> keep < n \<Longrightarrow> back_off (take n data) keep pos = back_off data keep pos"
  by (induction pos) auto

lemma keep_bytes_take: "budget < n \<Longrightarrow> keep_bytes (take n data) budget = keep_bytes data budget"
proof (cases "length data \<le> budget")
  case False
  assume n: "budget < n"
  have "back_off data budget budget \<le> n" using back_off_le [of data budget budget] n by simp
  then show ?thesis using False n back_off_take [of budget budget n data] by (simp add: keep_bytes_def cut_utf8_def min_absorb1)
qed (simp add: keep_bytes_def)

lemma split_capped: "split_output_budget cap (take (Suc cap) out) (take (Suc cap) err) = split_output_budget cap out err"
proof (cases "length out + length err \<le> cap")
  case True
  then show ?thesis by (simp add: split_output_budget_def)
next
  case False
  then have "\<not> min (length out) (Suc cap) + min (length err) (Suc cap) \<le> cap" by arith
  then show ?thesis using False shares_le [of cap "length out" "length err"]
    by (simp add: split_output_budget_def shares_capped keep_bytes_take)
qed

section \<open>The reader\<close>

lemma take_chunk_buf:
  "d_buf r = take (Suc (d_cap r)) all \<Longrightarrow> d_buf (take_chunk chunk r) = take (Suc (d_cap r)) (all @ chunk)"
proof -
  assume buf: "d_buf r = take (Suc (d_cap r)) all"
  then have len: "length (d_buf r) = min (length all) (Suc (d_cap r))" by simp
  show ?thesis
  proof (cases "length all \<le> d_cap r")
    case True
    then have "nat (int (d_cap r + 1) - int (length (d_buf r))) = Suc (d_cap r) - length all" using len by simp
    then show ?thesis using True buf by (simp add: take_chunk_def Let_def)
  next
    case False
    then show ?thesis using len buf by (simp add: take_chunk_def Let_def)
  qed
qed

lemma drain_reads:
  assumes "list_all (\<lambda>c. c \<noteq> []) chunks" "d_buf r = take (Suc (d_cap r)) all" "d_seen r = length all" "d_error r = None"
  shows "drain t (map Inr chunks @ end') r
    = drain t end' (r\<lparr>d_buf := take (Suc (d_cap r)) (all @ concat chunks), d_seen := length (all @ concat chunks)\<rparr>)"
  using assms
proof (induction chunks arbitrary: r all)
  case (Cons c chunks)
  have "d_cap (take_chunk c r) = d_cap r" "d_error (take_chunk c r) = None" "d_seen (take_chunk c r) = length (all @ c)"
    using Cons.prems by (simp_all add: take_chunk_def Let_def)
  moreover have "d_buf (take_chunk c r) = take (Suc (d_cap r)) (all @ c)" using take_chunk_buf Cons.prems(2) by blast
  ultimately show ?case using Cons.IH [of "take_chunk c r" "all @ c"] Cons.prems by (simp add: take_chunk_def Let_def)
next
  case Nil
  then have "r\<lparr>d_buf := take (Suc (d_cap r)) all, d_seen := length all\<rparr> = r" by (cases r) simp
  then show ?case by simp
qed

section \<open>Character boundaries\<close>

text \<open>
  A code whose characters begin with a byte that is no continuation byte and go on with at most three that
  are: what the cut relies on of UTF-8.
\<close>

locale lead_code =
  fixes enc :: "'a \<Rightarrow> bytes"
  assumes enc_shape: "\<exists>b t. enc c = b # t \<and> \<not> continuation b \<and> list_all continuation t \<and> length t \<le> 3"
begin

lemma back_to_lead:
  assumes "data = pre @ enc c @ post" "length pre \<le> pos" "pos \<le> keep" "keep < length pre + length (enc c)"
  shows "back_off data keep pos = length pre"
  using assms(2,3)
proof (induction pos)
  case (Suc pos)
  obtain b t where c: "enc c = b # t" "\<not> continuation b" "list_all continuation t" "length t \<le> 3" using enc_shape by blast
  show ?case
  proof (cases "Suc pos = length pre")
    case True
    then have "data ! Suc pos = b" using assms(1) c(1) by (simp add: nth_append)
    then have "back_off data keep (Suc pos) = Suc pos" using c(2) by simp
    then show ?thesis using True by simp
  next
    case False
    then have low: "length pre \<le> pos" using Suc.prems by simp
    let ?i = "pos - length pre"
    have i: "?i < length t" using assms(4) Suc.prems low c(1) by simp
    have "data ! Suc pos = (enc c @ post) ! Suc ?i"
      using low unfolding assms(1) by (simp add: nth_append Suc_diff_le)
    then have "data ! Suc pos = t ! ?i" using i by (simp add: c(1) nth_append)
    then have "continuation (data ! Suc pos)" using i c(3) by (simp add: list_all_length)
    moreover have "keep - Suc pos < 3" using assms(4) low c(1,4) by simp
    ultimately show ?thesis using Suc.IH [OF low] Suc.prems by simp
  qed
qed simp

lemma character_at: "keep < length (concat (map enc cs)) \<Longrightarrow>
    \<exists>k < length cs. length (concat (map enc (take k cs))) \<le> keep \<and> keep < length (concat (map enc (take k cs))) + length (enc (cs ! k))"
proof (induction cs arbitrary: keep)
  case (Cons c cs)
  show ?case
  proof (cases "keep < length (enc c)")
    case True
    then show ?thesis by (intro exI [of _ 0]) simp
  next
    case False
    then have "keep - length (enc c) < length (concat (map enc cs))" using Cons.prems by simp
    from Cons.IH [OF this] obtain k where "k < length cs" "length (concat (map enc (take k cs))) \<le> keep - length (enc c)"
      "keep - length (enc c) < length (concat (map enc (take k cs))) + length (enc (cs ! k))"
      by blast
    then show ?thesis using False by (intro exI [of _ "Suc k"]) auto
  qed
qed simp

lemma cut_at_boundary: "\<exists>k \<le> length cs. take (cut_utf8 (concat (map enc cs)) keep) (concat (map enc cs)) = concat (map enc (take k cs))"
proof (cases "keep < length (concat (map enc cs))")
  case True
  from character_at [OF this] obtain k where k: "k < length cs" "length (concat (map enc (take k cs))) \<le> keep"
    "keep < length (concat (map enc (take k cs))) + length (enc (cs ! k))" by blast
  have cs: "concat (map enc cs) = concat (map enc (take k cs)) @ enc (cs ! k) @ concat (map enc (drop (Suc k) cs))"
    using id_take_nth_drop [OF k(1)] by (metis concat.simps(2) concat_append list.simps(9) map_append)
  have "cut_utf8 (concat (map enc cs)) keep = length (concat (map enc (take k cs)))"
    using True back_to_lead [OF cs k(2) order_refl k(3)] by (simp add: cut_utf8_def)
  then show ?thesis using cs k(1) by (intro exI [of _ k]) simp
next
  case False
  then show ?thesis by (intro exI [of _ "length cs"]) (simp add: cut_utf8_def)
qed

end

text \<open>UTF-8.\<close>

definition tail_byte :: "nat \<Rightarrow> 8 word" where
  "tail_byte n = word_of_nat (0x80 + n mod 64)"

definition utf8_char :: "nat \<Rightarrow> bytes" where
  "utf8_char c =
    (if c < 0x80 then [word_of_nat c]
     else if c < 0x800 then [word_of_nat (0xC0 + c div 64), tail_byte c]
     else if c < 0x10000 then [word_of_nat (0xE0 + c div 4096), tail_byte (c div 64), tail_byte c]
     else [word_of_nat (0xF0 + c div 262144 mod 8), tail_byte (c div 4096), tail_byte (c div 64), tail_byte c])"

lemma continuation_of_nat: "n < 256 \<Longrightarrow> continuation (word_of_nat n) \<longleftrightarrow> 0x80 \<le> n \<and> n \<le> 0xBF"
  by (simp add: continuation_def unat_of_nat take_bit_nat_eq_self)

lemma tail_continuation: "continuation (tail_byte n)"
proof -
  have "n mod 64 < 64" by simp
  then have "128 + n mod 64 < 256" "128 + n mod 64 \<le> 191" by linarith+
  then show ?thesis unfolding tail_byte_def by (subst continuation_of_nat) simp_all
qed

interpretation utf8: lead_code utf8_char
proof
  fix c :: nat
  have lead: "c < 0x80 \<Longrightarrow> \<not> continuation (word_of_nat c)" "c < 0x800 \<Longrightarrow> \<not> continuation (word_of_nat (0xC0 + c div 64))"
    "c < 0x10000 \<Longrightarrow> \<not> continuation (word_of_nat (0xE0 + c div 4096))" "\<not> continuation (word_of_nat (0xF0 + c div 262144 mod 8))"
    by (subst continuation_of_nat; simp add: div_less_iff_less_mult)+
  show "\<exists>b t. utf8_char c = b # t \<and> \<not> continuation b \<and> list_all continuation t \<and> length t \<le> 3"
    using lead tail_continuation by (simp add: utf8_char_def)
qed

section \<open>Claims\<close>

text \<open>
  C19. The capture is exact. However the pipes deliver the two streams, in whatever chunks, the two bounded
  buffers -- never more than one byte over the budget each -- give the split of the complete streams, cuts,
  markers and flag included, and the byte counts are those of the complete streams.
\<close>

theorem captured_output_exact:
  assumes "list_all (\<lambda>c. c \<noteq> []) outs" "list_all (\<lambda>c. c \<noteq> []) errs"
  shows "split_output_budget cap (d_buf (drain t (map Inr outs @ [Inr []]) (new_drain cap))) (d_buf (drain t (map Inr errs @ [Inr []]) (new_drain cap)))
      = split_output_budget cap (concat outs) (concat errs)
    \<and> length (d_buf (drain t (map Inr outs @ [Inr []]) (new_drain cap))) \<le> cap + 1
    \<and> seen (drain t (map Inr outs @ [Inr []]) (new_drain cap)) = Some (length (concat outs))"
proof -
  have whole: "drain t (map Inr chunks @ [Inr []]) (new_drain cap)
      = \<lparr>d_cap = cap, d_buf = take (Suc cap) (concat chunks), d_seen = length (concat chunks), d_error = None\<rparr>"
    if "list_all (\<lambda>c. c \<noteq> []) chunks" for chunks
    using drain_reads [OF that, of "new_drain cap" "[]" t "[Inr []]"] by (simp add: new_drain_def)
  show ?thesis unfolding whole [OF assms(1)] whole [OF assms(2)] by (simp add: split_capped seen_def)
qed

theorem captured_output_exact_witness:
  "split_output_budget 2 (d_buf (drain (\<lambda>x. []) (map Inr [[1], [2, 3, 4, 5]] @ [Inr []]) (new_drain 2))) (d_buf (drain (\<lambda>x. []) (map Inr [] @ [Inr []]) (new_drain 2)))
    = ([1, 2] @ TRUNCATION_MARKER, [], True)"
proof -
  have "split_output_budget 2 (d_buf (drain (\<lambda>x. []) (map Inr [[1], [2, 3, 4, 5]] @ [Inr []]) (new_drain 2))) (d_buf (drain (\<lambda>x. []) (map Inr [] @ [Inr []]) (new_drain 2)))
    = split_output_budget 2 (concat [[1], [2, 3, 4, 5]]) (concat [])"
    using captured_output_exact [of "[[1], [2, 3, 4, 5]]" "[]" 2 "\<lambda>x. []"] by simp
  also have "split_output_budget 2 (concat [[1], [2, 3, 4, 5]]) (concat []) = ([1, 2] @ TRUNCATION_MARKER, [], True)" by code_simp
  finally show ?thesis .
qed

text \<open>
  C20. One budget, fairly shared. The output is cut exactly when the two streams together are over the budget;
  then the shares add up to the budget, each stream has at least the smaller of its length and half the
  budget, and a stream over its share is cut at most three bytes below it and marked. A cut of UTF-8 text
  never splits a character.
\<close>

theorem output_budget_fair:
  assumes "split_output_budget cap out err = (o', e', truncated)"
  shows "(truncated \<longleftrightarrow> cap < length out + length err) \<and> (\<not> truncated \<longrightarrow> o' = out \<and> e' = err)
    \<and> (truncated \<longrightarrow> (\<exists>ko ke. ko + ke = cap \<and> min (length out) (cap div 2) \<le> ko \<and> min (length err) (cap div 2) \<le> ke
        \<and> o' = keep_bytes out ko \<and> e' = keep_bytes err ke))
    \<and> (\<forall>data k. k < length data \<longrightarrow> (\<exists>n. n \<le> k \<and> k \<le> n + 3 \<and> keep_bytes data k = take n data @ TRUNCATION_MARKER
        \<and> (\<forall>cs. data = concat (map utf8_char cs) \<longrightarrow> (\<exists>j \<le> length cs. take n data = concat (map utf8_char (take j cs))))))"
proof -
  have cut: "\<exists>n. n \<le> k \<and> k \<le> n + 3 \<and> keep_bytes data k = take n data @ TRUNCATION_MARKER
        \<and> (\<forall>cs. data = concat (map utf8_char cs) \<longrightarrow> (\<exists>j \<le> length cs. take n data = concat (map utf8_char (take j cs))))"
    if "k < length data" for data k
    using that cut_bounds [of k data] utf8.cut_at_boundary [of _ k] by (intro exI [of _ "cut_utf8 data k"]) (auto simp: keep_bytes_def)
  have shares: "\<exists>ko ke. ko + ke = cap \<and> min (length out) (cap div 2) \<le> ko \<and> min (length err) (cap div 2) \<le> ke
        \<and> o' = keep_bytes out ko \<and> e' = keep_bytes err ke" if truncated
    using assms that shares_fill [of cap "length out" "length err"] shares_guaranteed [of "length out" cap "length err"]
      shares_guaranteed(2) [of "length err" cap "length out"]
    by (intro exI [of _ "out_share cap (length out) (length err)"] exI [of _ "err_share cap (length out) (length err)"])
       (auto simp: split_output_budget_def split: if_splits)
  show ?thesis using assms cut shares by (auto simp: split_output_budget_def split: if_splits)
qed

theorem output_budget_fair_witness:
  "split_output_budget 4 (utf8_char 0x41 @ utf8_char 0x20AC) [1] = (utf8_char 0x41 @ TRUNCATION_MARKER, [1], True)
    \<and> (\<exists>ko ke. ko + ke = (4 :: nat) \<and> 2 \<le> ko \<and> 1 \<le> ke)"
proof -
  have enc: "utf8_char 0x41 = [0x41]" "utf8_char 0x20AC = [0xE2, 0x82, 0xAC]" by (simp_all add: utf8_char_def tail_byte_def)
  have run: "split_output_budget 4 (utf8_char 0x41 @ utf8_char 0x20AC) [1] = (utf8_char 0x41 @ TRUNCATION_MARKER, [1], True)"
    unfolding enc by code_simp
  have len: "length (utf8_char 0x41 @ utf8_char 0x20AC) = 4" by (simp add: enc)
  obtain ko ke where "ko + ke = 4" "min (length (utf8_char 0x41 @ utf8_char 0x20AC)) (4 div 2) \<le> ko" "min (length [1 :: 8 word]) (4 div 2) \<le> ke"
    using output_budget_fair [OF run] by blast
  then have "ko + ke = 4 \<and> 2 \<le> ko \<and> 1 \<le> ke" unfolding len by simp
  then show ?thesis using run by blast
qed

end
