(* ===== verification/Fallback_Executor.thy ===== *)
theory Fallback_Executor
  imports Output_Capture Session_Paths Languages Exact_Tools
begin

text \<open>
  \<open>codecalc/executor.py\<close>, the Python backend that runs a program when the native one is absent: the environment
  and the ceilings of a step, the scratch directory, one step, the shapes of its results, and compile and run
  under one wall-clock budget. The programs, the clock, the file system's errors and the rendered commands of
  the language table are arguments.
\<close>

section \<open>The environment of a step\<close>

definition ENV_ALLOWLIST :: "string list" where
  "ENV_ALLOWLIST = [''PATH'', ''HOME'', ''LANG'', ''LC_ALL'', ''TMPDIR'', ''PYTHONUNBUFFERED'', ''JAVA_HOME'', ''CARGO_HOME'', ''RUSTUP_HOME'', ''GOPATH'',
     ''GOMODCACHE'', ''SystemRoot'', ''SYSTEMROOT'', ''windir'', ''COMSPEC'', ''PATHEXT'', ''TEMP'', ''TMP'', ''USERPROFILE'', ''APPDATA'', ''LOCALAPPDATA'',
     ''NUMBER_OF_PROCESSORS'', ''PROCESSOR_ARCHITECTURE'']"

definition upper_char :: "char \<Rightarrow> char" where
  "upper_char c = (let n = of_char c :: nat in if 97 \<le> n \<and> n \<le> 122 then char_of (n - 32) else c)"

text \<open>Names of variables are ASCII here; \<open>upper\<close> of other letters is beyond the characters modelled.\<close>

definition upper :: "string \<Rightarrow> string" where
  "upper s = map upper_char s"

definition ENV_ALLOWLIST_NT :: "string list" where
  "ENV_ALLOWLIST_NT = map upper ENV_ALLOWLIST"

definition env :: "bool \<Rightarrow> (string \<times> string) list \<Rightarrow> string \<Rightarrow> string option \<Rightarrow> (string \<times> string) list \<Rightarrow> (string \<times> string) list" where
  "env windows os_environ runtime_path pythonpath extra =
    (let inherited = filter (\<lambda>(k, v). if windows then List.member ENV_ALLOWLIST_NT (upper k) else List.member ENV_ALLOWLIST k) os_environ;
         base = AList.update ''PYTHONUNBUFFERED'' ''1'' (AList.update ''PATH'' runtime_path inherited);
         withpath = (case pythonpath of None \<Rightarrow> base | Some p \<Rightarrow> AList.update ''PYTHONPATH'' p base)
     in fold (\<lambda>(k, v) e. AList.update k v e) extra withpath)"

section \<open>Ceilings\<close>

abbreviation MAX_OUTPUT_BYTES :: nat where "MAX_OUTPUT_BYTES \<equiv> 64 * 1024"
abbreviation DEFAULT_PROCESS_HEADROOM :: int where "DEFAULT_PROCESS_HEADROOM \<equiv> 512"
abbreviation FALLBACK_NPROC_LIMIT :: int where "FALLBACK_NPROC_LIMIT \<equiv> 4096"

text \<open>\<open>isdigit()\<close> also holds of superscript digits, which \<open>int()\<close> refuses.\<close>

definition digits_value :: "string \<Rightarrow> exn + int" where
  "digits_value s = (if list_all is_digit s then Inr (int (nat_of_digits s)) else Inl (Exn ValueErr (''invalid literal for int() with base 10: '' @ repr_str s)))"

definition set_digits :: "string option \<Rightarrow> bool" where
  "set_digits v \<longleftrightarrow> (case v of None \<Rightarrow> False | Some s \<Rightarrow> s \<noteq> [] \<and> list_all isdigit_char s)"

definition nproc_limit :: "string option \<Rightarrow> string option \<Rightarrow> int option \<Rightarrow> exn + int" where
  "nproc_limit override headroom_env tasks =
    (if set_digits override then digits_value (the override)
     else rbind (if set_digits headroom_env then digits_value (the headroom_env) else Inr DEFAULT_PROCESS_HEADROOM)
       (\<lambda>headroom. Inr (case tasks of Some n \<Rightarrow> n + headroom | None \<Rightarrow> FALLBACK_NPROC_LIMIT)))"

record rlimits =
  rl_cpu :: int
  rl_as :: int
  rl_fsize :: int
  rl_nofile :: int
  rl_nproc :: int
  rl_core :: int

definition limits :: "bool \<Rightarrow> int \<Rightarrow> rat \<Rightarrow> int \<Rightarrow> int \<Rightarrow> rlimits option" where
  "limits windows nproc timeout max_memory_mb max_cpu =
    (if windows then None
     else Some \<lparr>rl_cpu = (if max_cpu > 0 then max_cpu else \<lceil>timeout\<rceil> + 8),
                rl_as = (if max_memory_mb > 0 then max_memory_mb * 1024 * 1024 else 2048 * 1024 ^ 3),
                rl_fsize = 256 * 1024 ^ 2, rl_nofile = 256, rl_nproc = nproc, rl_core = 0\<rparr>)"

section \<open>The scratch directory\<close>

text \<open>
  The workdir is a workspace; anything that is no plain file and no directory is a link in it. \<open>below\<close> is what
  \<open>rglob\<close> lists in the scratch directory, \<open>removed\<close> whether the checked removal went through, \<open>failing\<close> any other
  error of the operating system. The dash of a message, which is beyond the characters modelled, is \<open>-\<close>.
\<close>

definition tainted :: "workspace \<Rightarrow> path \<Rightarrow> bool" where
  "tainted fs p \<longleftrightarrow> (case fs p of Some (Symlink t) \<Rightarrow> True | _ \<Rightarrow> False)"

definition not_plain :: "string \<Rightarrow> string" where
  "not_plain d = ''refusing to use '' @ d @ '' as the runner scratch directory: it already exists and is not a plain directory''"

definition tampered :: "string \<Rightarrow> string" where
  "tampered entry = ''refusing to run: '' @ entry @ '' inside the runner scratch directory is not a plain file or directory (symlink, device, FIFO or socket) - this session''
     @ [CHR 0x27] @ ''s own workspace may have been tampered with between calls''"

definition identity_changed :: "string \<Rightarrow> string" where
  "identity_changed d = ''refusing to reset the runner scratch directory '' @ d @ '': its identity changed between being scanned and being removed''"

definition reset_run_scratch_dir :: "(path \<Rightarrow> string) \<Rightarrow> string option \<Rightarrow> path list \<Rightarrow> bool \<Rightarrow> workspace \<Rightarrow> string + workspace" where
  "reset_run_scratch_dir show failing below removed fs =
    (let d = [RUNNER_SCRATCH_DIRNAME] in
     if failing \<noteq> None then Inl (the failing)
     else case fs d of
       None \<Rightarrow> Inr (fs(d \<mapsto> Directory))
     | Some Directory \<Rightarrow>
         (case List.find (tainted fs) below of
            Some p \<Rightarrow> Inl (tampered (show p))
          | None \<Rightarrow> if \<not> removed then Inl (identity_changed (show d))
                    else Inr (\<lambda>p. if p = d then Some Directory else if prefix d p then None else fs p))
     | _ \<Rightarrow> Inl (not_plain (show d)))"

text \<open>Exclusive creation without following a link; a write that fails later ends the request.\<close>

definition write_scratch_nofollow :: "(path \<Rightarrow> string) \<Rightarrow> string option \<Rightarrow> path \<Rightarrow> string \<Rightarrow> workspace \<Rightarrow> string + workspace" where
  "write_scratch_nofollow show failing p content fs =
    (if fs p \<noteq> None then Inl (''[Errno 17] File exists: '' @ repr_str (show p))
     else case failing of Some message \<Rightarrow> Inl message | None \<Rightarrow> Inr (fs(p \<mapsto> Regular content)))"

section \<open>One step\<close>

text \<open>
  What a spawned program does: the reads of its two pipes, whether a reader is still busy when it is given up,
  its exit status, whether it was killed at the wall clock, and the CPU time of reaped children.
\<close>

record child =
  c_out :: "(exn + bytes) list"
  c_err :: "(exn + bytes) list"
  c_out_busy :: bool
  c_err_busy :: bool
  c_returncode :: int
  c_timed_out :: bool
  c_cpu_ms :: int

record step =
  s_rc :: int
  s_out :: bytes
  s_err :: bytes
  s_timed_out :: bool
  s_cpu_ms :: int
  s_error :: "string option"
  s_seen :: "nat option \<times> nat option"

definition KILLED :: string where
  "KILLED = ''<killed: exceeded wall-clock timeout>''"

definition ascii :: "string \<Rightarrow> bytes" where
  "ascii s = map (\<lambda>c. word_of_nat (of_char c)) s"

definition drain_errors :: "string option \<Rightarrow> string option \<Rightarrow> string option" where
  "drain_errors o' e' =
    (let parts = (case o' of None \<Rightarrow> [] | Some m \<Rightarrow> [''stdout: '' @ m]) @ (case e' of None \<Rightarrow> [] | Some m \<Rightarrow> [''stderr: '' @ m])
     in if parts = [] then None else Some (join ''; '' parts))"

definition run_step :: "(exn \<Rightarrow> string) \<Rightarrow> nat \<Rightarrow> child \<Rightarrow> step" where
  "run_step type_of cap c =
    (let out = drain type_of (c_out c) (new_drain cap); err = drain type_of (c_err c) (new_drain cap);
         counts = (if c_out_busy c then None else seen out, if c_err_busy c then None else seen err)
     in if c_timed_out c
        then \<lparr>s_rc = -1, s_out = [], s_err = ascii KILLED, s_timed_out = True, s_cpu_ms = c_cpu_ms c, s_error = None, s_seen = counts\<rparr>
        else \<lparr>s_rc = c_returncode c, s_out = d_buf out, s_err = d_buf err, s_timed_out = False, s_cpu_ms = c_cpu_ms c,
              s_error = drain_errors (d_error out) (d_error err), s_seen = counts\<rparr>)"

definition remaining_run_budget :: "rat \<Rightarrow> rat \<Rightarrow> rat option" where
  "remaining_run_budget deadline now = (if deadline - now > 0 then Some (deadline - now) else None)"

section \<open>Results\<close>

record host =
  h_windows :: bool
  h_euid :: "nat option"
  h_platform :: string

definition FALLBACK_UNMEASURED :: "string list" where
  "FALLBACK_UNMEASURED = [''peak_memory_kb: ru_maxrss is a high-water mark and cannot be attributed to one run'']"

definition NO_NET_NATIVE_MISSING :: string where
  "NO_NET_NATIVE_MISSING = ''no_net: needs the native executor (seccomp where the Linux kernel supports it, a symbol shim otherwise)''"

definition no_rlimits :: "string \<Rightarrow> string" where
  "no_rlimits what = ''the Python fallback applies no '' @ what @ '' ceiling on Windows''"

definition unmeasured :: "host \<Rightarrow> int \<Rightarrow> int \<Rightarrow> string list" where
  "unmeasured h max_memory_mb max_cpu =
    FALLBACK_UNMEASURED
    @ (if h_euid h = Some 0 then [''max_processes: RLIMIT_NPROC does not bind a process running as uid 0''] else [])
    @ (if h_windows h
       then [''max_processes: '' @ no_rlimits ''process'']
         @ (if max_memory_mb > 0 then [''max_memory_mb: '' @ no_rlimits ''memory''] else [])
         @ (if max_cpu > 0 then [''max_cpu: '' @ no_rlimits ''CPU''] else [])
       else if h_platform h = ''darwin'' \<and> max_memory_mb > 0
       then [''max_memory_mb: setrlimit(RLIMIT_AS) is accepted and then ignored on macOS''] else [])"

definition unenforced :: "host \<Rightarrow> bool \<Rightarrow> int \<Rightarrow> int \<Rightarrow> pyval" where
  "unenforced h no_net max_memory_mb max_cpu =
    PList (map PStr ((if no_net then [NO_NET_NATIVE_MISSING] else []) @ unmeasured h max_memory_mb max_cpu))"

definition fallback_verdict :: "int \<Rightarrow> bool \<Rightarrow> bool \<Rightarrow> string" where
  "fallback_verdict rc timed_out truncated =
    (if timed_out then ''TLE'' else if truncated then ''OLE'' else if rc \<noteq> 0 then ''RTE'' else ''OK'')"

definition opt_int :: "int option \<Rightarrow> pyval" where
  "opt_int x = (case x of None \<Rightarrow> PNone | Some i \<Rightarrow> PInt i)"

definition opt_nat :: "nat option \<Rightarrow> pyval" where
  "opt_nat x = (case x of None \<Rightarrow> PNone | Some n \<Rightarrow> PInt (int n))"

definition opt_text :: "string option \<Rightarrow> pyval" where
  "opt_text x = (case x of None \<Rightarrow> PNone | Some t \<Rightarrow> PStr t)"

text \<open>What a request asks for.\<close>

record request =
  r_stdin :: string
  r_timeout :: int
  r_workdir :: "string option"
  r_memory_mb :: int
  r_output_kb :: int
  r_cpu :: int
  r_no_net :: bool

definition fallback_compile_failure :: "host \<Rightarrow> request \<Rightarrow> string \<Rightarrow> string \<Rightarrow> string \<Rightarrow> int option \<Rightarrow> bool \<Rightarrow> bool \<Rightarrow> int \<Rightarrow> string \<Rightarrow> string option
    \<Rightarrow> nat option \<times> nat option \<Rightarrow> dict" where
  "fallback_compile_failure h q name stdout stderr exit_code timed_out truncated elapsed_ms workdir output_error counts =
    [(''ok'', PBool False), (''language'', PStr name), (''phase'', PStr ''compile''), (''stdout'', PStr stdout), (''stderr'', PStr stderr),
     (''exit_code'', opt_int exit_code), (''duration_ms'', PInt elapsed_ms), (''workdir'', PStr workdir), (''compile_ms'', PInt elapsed_ms),
     (''total_ms'', PInt elapsed_ms), (''timed_out'', PBool timed_out), (''output_truncated'', PBool truncated),
     (''verdict'', PStr (fallback_verdict (case exit_code of Some rc \<Rightarrow> rc | None \<Rightarrow> -1) timed_out truncated)), (''cpu_ms'', PInt 0),
     (''peak_memory_kb'', PNone), (''platform'', PStr (h_platform h)), (''unenforced'', unenforced h (r_no_net q) (r_memory_mb q) (r_cpu q)),
     (''output_error'', opt_text output_error), (''stdout_bytes'', opt_nat (fst counts)), (''stderr_bytes'', opt_nat (snd counts)),
     (''backend'', PStr ''python'')]"

definition fallback_budget_exhausted :: "host \<Rightarrow> request \<Rightarrow> string \<Rightarrow> int \<Rightarrow> int \<Rightarrow> string \<Rightarrow> dict" where
  "fallback_budget_exhausted h q name compile_ms total_ms workdir =
    [(''ok'', PBool False), (''language'', PStr name), (''phase'', PStr ''run''), (''stdout'', PStr []), (''stderr'', PStr KILLED), (''exit_code'', PNone),
     (''duration_ms'', PInt 0), (''workdir'', PStr workdir), (''compile_ms'', PInt compile_ms), (''total_ms'', PInt total_ms), (''timed_out'', PBool True),
     (''output_truncated'', PBool False), (''verdict'', PStr ''TLE''), (''cpu_ms'', PInt 0), (''peak_memory_kb'', PNone), (''platform'', PStr (h_platform h)),
     (''unenforced'', unenforced h (r_no_net q) (r_memory_mb q) (r_cpu q)), (''output_error'', PNone), (''stdout_bytes'', PNone), (''stderr_bytes'', PNone),
     (''backend'', PStr ''python'')]"

definition runtime_unavailable_result :: "host \<Rightarrow> request \<Rightarrow> string \<Rightarrow> string \<Rightarrow> string list \<Rightarrow> string \<Rightarrow> string \<Rightarrow> int \<Rightarrow> dict" where
  "runtime_unavailable_result h q name phase argv exc workdir elapsed_ms =
    (let missing = (if argv = [] then ''?'' else hd argv);
         detail = ''runtime unavailable for the '' @ phase @ '' phase of '' @ repr_str name @ '': '' @ repr_str missing @ '' ('' @ exc @ '')'' in
     [(''ok'', PBool False), (''language'', PStr name), (''phase'', PStr phase), (''stdout'', PStr []), (''stderr'', PStr detail), (''exit_code'', PNone),
      (''duration_ms'', PInt elapsed_ms), (''workdir'', PStr workdir), (''compile_ms'', PInt (if phase = ''compile'' then elapsed_ms else 0)),
      (''total_ms'', PInt elapsed_ms), (''timed_out'', PBool False), (''output_truncated'', PBool False), (''output_error'', PNone), (''verdict'', PStr ''RTE''),
      (''cpu_ms'', PInt 0), (''peak_memory_kb'', PNone), (''platform'', PStr (h_platform h)), (''unenforced'', unenforced h (r_no_net q) 0 0),
      (''stdout_bytes'', PNone), (''stderr_bytes'', PNone), (''backend'', PStr ''python''), (''error'', PStr detail)])"

definition run_result :: "host \<Rightarrow> request \<Rightarrow> string \<Rightarrow> step \<Rightarrow> string \<Rightarrow> string \<Rightarrow> bool \<Rightarrow> int \<Rightarrow> int \<Rightarrow> int \<Rightarrow> string \<Rightarrow> dict" where
  "run_result h q name st out err truncated duration_ms compile_ms total_ms workdir =
    [(''ok'', PBool (s_rc st = 0 \<and> s_error st = None)), (''language'', PStr name), (''phase'', PStr ''run''), (''stdout'', PStr out), (''stderr'', PStr err),
     (''exit_code'', PInt (s_rc st)), (''duration_ms'', PInt duration_ms), (''workdir'', PStr workdir), (''compile_ms'', PInt compile_ms),
     (''total_ms'', PInt total_ms), (''timed_out'', PBool (s_timed_out st)), (''output_truncated'', PBool truncated),
     (''verdict'', PStr (fallback_verdict (s_rc st) (s_timed_out st) truncated)), (''cpu_ms'', PInt (s_cpu_ms st)), (''peak_memory_kb'', PNone),
     (''platform'', PStr (h_platform h)), (''unenforced'', unenforced h (r_no_net q) (r_memory_mb q) (r_cpu q)), (''output_error'', opt_text (s_error st)),
     (''stdout_bytes'', opt_nat (fst (s_seen st))), (''stderr_bytes'', opt_nat (snd (s_seen st))), (''backend'', PStr ''python'')]"

text \<open>The keys every result that got as far as a step carries (\<open>contract.py\<close>).\<close>

definition ENVELOPE_KEYS :: "string list" where
  "ENVELOPE_KEYS = [''ok'', ''language'', ''phase'', ''backend'', ''platform'', ''stdout'', ''stderr'', ''exit_code'', ''timed_out'', ''verdict'',
     ''output_truncated'', ''output_error'', ''duration_ms'', ''compile_ms'', ''total_ms'', ''cpu_ms'', ''peak_memory_kb'', ''unenforced'', ''workdir'',
     ''stdout_bytes'', ''stderr_bytes'']"

section \<open>Compile and run\<close>

text \<open>
  Where a step runs (\<open>in_scratch\<close>), what it runs, its wall-clock budget, its standard input, its environment and
  its ceilings: the record of a spawn. \<open>spawn\<close> is the outcome of a step, an \<open>OSError\<close> or a program's behaviour; \<open>plan\<close>
  the rendered compile and run commands of a language; \<open>nproc\<close> what \<open>nproc_limit\<close> gave (when it raises there is
  no result). The instants are successive readings of the clock.
\<close>

record spawned =
  in_scratch :: bool
  sp_argv :: "string list"
  sp_budget :: rat
  sp_stdin :: string
  sp_env :: "(string \<times> string) list"
  sp_limits :: "rlimits option"

record machine =
  os_environ :: "(string \<times> string) list"
  runtime_path :: string
  nproc :: int
  plan :: "string \<Rightarrow> string list \<times> string list"
  which :: "string \<Rightarrow> string option"
  spawn :: "spawned \<Rightarrow> string + child"
  exn_type :: "exn \<Rightarrow> string"
  decode :: "bytes \<Rightarrow> string"
  fresh_dir :: string
  reset_error :: "string option"
  scratch_below :: "path list"
  scratch_removed :: bool
  source_error :: "string option"
  shim_error :: "string option"
  show_path :: "path \<Rightarrow> string"
  source_name :: "string \<Rightarrow> string"
  shim_name :: string
  shim_js :: string
  t_started :: rat
  t_compiled :: rat
  t_budget :: rat
  t_run_started :: rat
  t_run_done :: rat
  t_end :: rat

definition milliseconds :: "rat \<Rightarrow> int" where
  "milliseconds t = (if t \<ge> 0 then \<lfloor>t * 1000\<rfloor> else \<lceil>t * 1000\<rceil>)"

definition SHELL_WRAPPED :: "string list" where
  "SHELL_WRAPPED = [''gleam'', ''haskell'']"

definition plan_supported :: "string \<Rightarrow> bool \<Rightarrow> bool" where
  "plan_supported name windows = (case canonical name of None \<Rightarrow> False | Some c \<Rightarrow> \<not> (windows \<and> List.member SHELL_WRAPPED c))"

definition failure :: "string \<Rightarrow> dict" where
  "failure message = [(''ok'', PBool False), (''error'', PStr message)]"

definition not_found :: "string \<Rightarrow> string" where
  "not_found cmd = ''[Errno 2] No such file or directory: '' @ repr_str cmd"

definition output_cap :: "request \<Rightarrow> nat" where
  "output_cap q = (if r_output_kb q > 0 then nat (r_output_kb q) * 1024 else MAX_OUTPUT_BYTES)"

definition node_extra_env :: "machine \<Rightarrow> string \<Rightarrow> (string \<times> string) list" where
  "node_extra_env m workdir =
    [(''NODE_OPTIONS'', ''--require='' @ show_path m [RUNNER_SCRATCH_DIRNAME, shim_name m]), (''CODECALC_WORKDIR_ROOT'', workdir)]"

text \<open>The arguments both calls of \<open>_run_step\<close> have in common.\<close>

definition spawn_step :: "host \<Rightarrow> machine \<Rightarrow> request \<Rightarrow> string \<Rightarrow> bool \<Rightarrow> string list \<Rightarrow> rat \<Rightarrow> string \<Rightarrow> spawned" where
  "spawn_step h m q workdir scratch argv budget stdin =
    \<lparr>in_scratch = scratch, sp_argv = argv, sp_budget = budget, sp_stdin = stdin,
     sp_env = env (h_windows h) (os_environ m) (runtime_path m) (Some workdir) (node_extra_env m workdir),
     sp_limits = limits (h_windows h) (nproc m) budget (r_memory_mb q) (r_cpu q)\<rparr>"

definition run_phase :: "host \<Rightarrow> machine \<Rightarrow> request \<Rightarrow> string \<Rightarrow> string \<Rightarrow> int \<Rightarrow> dict \<times> spawned list" where
  "run_phase h m q name workdir compile_ms =
    (let argv = snd (plan m name); cap = output_cap q in
     case remaining_run_budget (t_started m + of_int (r_timeout q)) (t_budget m) of
       None \<Rightarrow> (fallback_budget_exhausted h q name compile_ms (milliseconds (t_end m - t_started m)) workdir, [])
     | Some budget \<Rightarrow>
         (case which m (hd argv) of
            None \<Rightarrow> (runtime_unavailable_result h q name ''run'' argv (not_found (hd argv)) workdir (milliseconds (t_end m - t_started m)), [])
          | Some resolved \<Rightarrow>
              let sp = spawn_step h m q workdir False (resolved # tl argv) budget (r_stdin q) in
              (case spawn m sp of
                 Inl exc \<Rightarrow> (runtime_unavailable_result h q name ''run'' (sp_argv sp) exc workdir (milliseconds (t_end m - t_started m)), [sp])
               | Inr c \<Rightarrow>
                   let st = run_step (exn_type m) cap c in
                   (case capped_streams (decode m) cap (s_out st) (s_err st) of
                      (out, err, truncated) \<Rightarrow>
                        (run_result h q name st out err truncated (milliseconds (t_run_done m - t_run_started m)) compile_ms
                           (milliseconds (t_end m - t_started m)) workdir, [sp])))))"

definition compile_then_run :: "host \<Rightarrow> machine \<Rightarrow> request \<Rightarrow> string \<Rightarrow> string \<Rightarrow> dict \<times> spawned list" where
  "compile_then_run h m q name workdir =
    (let argv = fst (plan m name); cap = output_cap q; elapsed = milliseconds (t_compiled m - t_started m) in
     if argv = [] then run_phase h m q name workdir 0
     else case which m (hd argv) of
         None \<Rightarrow> (runtime_unavailable_result h q name ''compile'' argv (not_found (hd argv)) workdir elapsed, [])
       | Some resolved \<Rightarrow>
           let sp = spawn_step h m q workdir True (resolved # tl argv) (of_int (r_timeout q)) [] in
           (case spawn m sp of
              Inl exc \<Rightarrow> (runtime_unavailable_result h q name ''compile'' (sp_argv sp) exc workdir elapsed, [sp])
            | Inr c \<Rightarrow>
                let st = run_step (exn_type m) cap c in
                if s_timed_out st
                then (case capped_streams (decode m) cap [] (s_err st) of
                        (out, err, truncated) \<Rightarrow>
                          (fallback_compile_failure h q name [] err None True truncated elapsed workdir (s_error st) (s_seen st), [sp]))
                else if s_rc st \<noteq> 0
                then (case capped_streams (decode m) cap (s_out st) (s_err st) of
                        (out, err, truncated) \<Rightarrow>
                          (fallback_compile_failure h q name out err (Some (s_rc st)) False truncated elapsed workdir (s_error st) (s_seen st), [sp]))
                else (case run_phase h m q name workdir elapsed of (r, sps) \<Rightarrow> (r, sp # sps))))"

text \<open>
  The whole: the result, what was spawned, the workdir's contents once they are prepared, and whether the
  directory is handed to the checked removal at the end.
\<close>

definition prepare :: "machine \<Rightarrow> string \<Rightarrow> string \<Rightarrow> workspace \<Rightarrow> string + workspace" where
  "prepare m name code fs =
    (let src = [RUNNER_SCRATCH_DIRNAME, source_name m name]; shim = [RUNNER_SCRATCH_DIRNAME, shim_name m] in
     case reset_run_scratch_dir (show_path m) (reset_error m) (scratch_below m) (scratch_removed m) fs of
       Inl e \<Rightarrow> Inl e
     | Inr fs1 \<Rightarrow>
         (case write_scratch_nofollow (show_path m) (source_error m) src code fs1 of
            Inl e \<Rightarrow> Inl (''failed to write source to '' @ show_path m src @ '': '' @ e)
          | Inr fs2 \<Rightarrow>
              (case write_scratch_nofollow (show_path m) (shim_error m) shim (shim_js m) fs2 of
                 Inl e \<Rightarrow> Inl (''failed to write '' @ show_path m shim @ '': '' @ e)
               | Inr fs3 \<Rightarrow> Inr fs3)))"

record outcome =
  o_result :: dict
  o_spawned :: "spawned list"
  o_prepared :: "workspace option"
  o_cleanup :: bool

definition execute_python :: "host \<Rightarrow> machine \<Rightarrow> request \<Rightarrow> string \<Rightarrow> string \<Rightarrow> workspace \<Rightarrow> outcome" where
  "execute_python h m q language code fs =
    (case canonical language of
       None \<Rightarrow> \<lparr>o_result = failure (''unknown language '' @ [CHR 0x27] @ language @ [CHR 0x27] @ ''. Available: '' @ join '', '' (sorted_set LANGUAGES)),
                o_spawned = [], o_prepared = None, o_cleanup = False\<rparr>
     | Some name \<Rightarrow>
         if \<not> plan_supported name (h_windows h)
         then \<lparr>o_result = failure ([CHR 0x27] @ name @ [CHR 0x27] @ '' is unsupported on this platform: its plan needs a POSIX shell to scaffold a project''),
               o_spawned = [], o_prepared = None, o_cleanup = False\<rparr>
         else let own = (case r_workdir q of None \<Rightarrow> True | Some d \<Rightarrow> d = []); workdir = (if own then fresh_dir m else the (r_workdir q));
                  contents = (if own then Map.empty([] \<mapsto> Directory) else fs) in
           case prepare m name code contents of
             Inl e \<Rightarrow> \<lparr>o_result = failure e, o_spawned = [], o_prepared = None, o_cleanup = own\<rparr>
           | Inr fs' \<Rightarrow>
               (case compile_then_run h m q name workdir of
                  (r, sps) \<Rightarrow> \<lparr>o_result = r, o_spawned = sps, o_prepared = Some fs', o_cleanup = own\<rparr>))"

end
