(* ===== verification/Fallback_Claims.thy ===== *)
theory Fallback_Claims
  imports Fallback_Executor
begin

text \<open>What the Python backend promises: the environment a program sees, and the result it is reported with.\<close>

section \<open>The environment\<close>

lemma map_of_updates: "map_of (fold (\<lambda>(k, v) e. AList.update k v e) extra e) k = Some v \<Longrightarrow> k \<in> fst ` set extra \<or> map_of e k = Some v"
proof (induction extra arbitrary: e)
  case (Cons x extra)
  then show ?case by (cases x) (fastforce simp: update_conv' split: if_splits)
qed simp

lemma map_of_filter_key: "map_of (filter (\<lambda>(k, v). P k) al) k = (if P k then map_of al k else None)"
  by (induction al) auto

text \<open>The variables the backend sets itself.\<close>

definition own_variables :: "string list" where
  "own_variables = [''PATH'', ''PYTHONUNBUFFERED'', ''PYTHONPATH'', ''NODE_OPTIONS'', ''CODECALC_WORKDIR_ROOT'']"

lemma env_origin:
  assumes "map_of (env windows environ path pythonpath extra) k = Some v"
  shows "k \<in> {''PATH'', ''PYTHONUNBUFFERED'', ''PYTHONPATH''} \<union> fst ` set extra
    \<or> (if windows then upper k \<in> upper ` set ENV_ALLOWLIST else k \<in> set ENV_ALLOWLIST) \<and> map_of environ k = Some v"
proof -
  let ?allowed = "\<lambda>k. if windows then List.member ENV_ALLOWLIST_NT (upper k) else List.member ENV_ALLOWLIST k"
  have "k \<in> fst ` set extra \<or> k \<in> {''PATH'', ''PYTHONUNBUFFERED'', ''PYTHONPATH''} \<or> map_of (filter (\<lambda>(k, v). ?allowed k) environ) k = Some v"
    using map_of_updates [OF assms [unfolded env_def Let_def]] by (auto simp: update_conv' split: if_splits option.splits)
  then show ?thesis unfolding map_of_filter_key by (auto simp: ENV_ALLOWLIST_NT_def split: if_splits)
qed

lemma spawn_step_simps [simp]:
  "in_scratch (spawn_step h m q workdir scratch argv budget stdin) = scratch"
  "sp_argv (spawn_step h m q workdir scratch argv budget stdin) = argv"
  "sp_budget (spawn_step h m q workdir scratch argv budget stdin) = budget"
  "sp_limits (spawn_step h m q workdir scratch argv budget stdin) = limits (h_windows h) (nproc m) budget (r_memory_mb q) (r_cpu q)"
  by (simp_all add: spawn_step_def)

section \<open>The scratch directory\<close>

lemma reset_scratch:
  assumes "reset_run_scratch_dir show failing below removed fs = Inr fs'"
    "fs [RUNNER_SCRATCH_DIRNAME] = None \<longrightarrow> (\<forall>p. prefix [RUNNER_SCRATCH_DIRNAME] p \<longrightarrow> fs p = None)"
  shows "fs' p = (if p = [RUNNER_SCRATCH_DIRNAME] then Some Directory else if prefix [RUNNER_SCRATCH_DIRNAME] p then None else fs p)"
  using assms unfolding reset_run_scratch_dir_def Let_def by (auto split: if_splits option.splits entry.splits)

lemma write_scratch: "write_scratch_nofollow show failing p content fs = Inr fs' \<Longrightarrow> fs p = None \<and> fs' = fs(p \<mapsto> Regular content)"
  by (auto simp: write_scratch_nofollow_def split: if_splits option.splits)

text \<open>
  C23. A run starts in a clean scratch directory. Once the workdir is prepared, the runner's own directory
  holds the program's source and the runner's shim and nothing else, both newly created -- no entry an
  earlier program left there is written through -- and nothing outside it has changed.
\<close>

theorem scratch_is_fresh:
  assumes "prepare m name code fs = Inr fs'"
    and "fs [RUNNER_SCRATCH_DIRNAME] = None \<longrightarrow> (\<forall>p. prefix [RUNNER_SCRATCH_DIRNAME] p \<longrightarrow> fs p = None)"
  shows "fs' [RUNNER_SCRATCH_DIRNAME] = Some Directory
    \<and> fs' [RUNNER_SCRATCH_DIRNAME, source_name m name] = Some (Regular code)
    \<and> fs' [RUNNER_SCRATCH_DIRNAME, shim_name m] = Some (Regular (shim_js m))
    \<and> (\<forall>p. prefix [RUNNER_SCRATCH_DIRNAME] p \<and> fs' p \<noteq> None
        \<longrightarrow> p \<in> {[RUNNER_SCRATCH_DIRNAME], [RUNNER_SCRATCH_DIRNAME, source_name m name], [RUNNER_SCRATCH_DIRNAME, shim_name m]})
    \<and> (\<forall>p. \<not> prefix [RUNNER_SCRATCH_DIRNAME] p \<longrightarrow> fs' p = fs p)"
proof -
  obtain fs1 fs2 where steps: "reset_run_scratch_dir (show_path m) (reset_error m) (scratch_below m) (scratch_removed m) fs = Inr fs1"
    "write_scratch_nofollow (show_path m) (source_error m) [RUNNER_SCRATCH_DIRNAME, source_name m name] code fs1 = Inr fs2"
    "write_scratch_nofollow (show_path m) (shim_error m) [RUNNER_SCRATCH_DIRNAME, shim_name m] (shim_js m) fs2 = Inr fs'"
    using assms(1) unfolding prepare_def Let_def by (auto split: sum.splits)
  have shape: "fs' = fs1([RUNNER_SCRATCH_DIRNAME, source_name m name] \<mapsto> Regular code, [RUNNER_SCRATCH_DIRNAME, shim_name m] \<mapsto> Regular (shim_js m))"
    "source_name m name \<noteq> shim_name m"
    using write_scratch [OF steps(2)] write_scratch [OF steps(3)] by auto
  show ?thesis using shape reset_scratch [OF steps(1) assms(2)] by (auto split: if_splits)
qed

section \<open>Results\<close>

definition enveloped :: "dict \<Rightarrow> bool" where
  "enveloped r \<longleftrightarrow> list_all (has_key r) ENVELOPE_KEYS"

lemma result_shapes:
  "enveloped (fallback_compile_failure h q name out err rc timed_out truncated elapsed workdir x counts)"
  "enveloped (fallback_budget_exhausted h q name a b workdir)"
  "enveloped (runtime_unavailable_result h q name phase argv exc workdir elapsed)"
  "enveloped (run_result h q name st out err truncated a b c workdir)"
  unfolding enveloped_def ENVELOPE_KEYS_def has_key_def
  by (simp_all add: fallback_compile_failure_def fallback_budget_exhausted_def runtime_unavailable_result_def run_result_def Let_def)

lemma result_ok:
  "dget (fallback_compile_failure h q name out err rc timed_out truncated elapsed workdir x counts) ''ok'' = PBool False"
  "dget (fallback_budget_exhausted h q name a b workdir) ''ok'' = PBool False"
  "dget (runtime_unavailable_result h q name phase argv exc workdir elapsed) ''ok'' = PBool False"
  "dget (run_result h q name st out err truncated a b c workdir) ''ok'' = PBool (s_rc st = 0 \<and> s_error st = None)"
  by (simp_all add: fallback_compile_failure_def fallback_budget_exhausted_def runtime_unavailable_result_def run_result_def Let_def dget_def)

lemma result_verdict:
  "dget (fallback_compile_failure h q name out err rc timed_out truncated elapsed workdir x counts) ''verdict''
    = PStr (fallback_verdict (case rc of Some rc \<Rightarrow> rc | None \<Rightarrow> -1) timed_out truncated)"
  "dget (fallback_budget_exhausted h q name a b workdir) ''verdict'' = PStr ''TLE''"
  "dget (runtime_unavailable_result h q name phase argv exc workdir elapsed) ''verdict'' = PStr ''RTE''"
  "dget (run_result h q name st out err truncated a b c workdir) ''verdict'' = PStr (fallback_verdict (s_rc st) (s_timed_out st) truncated)"
  by (simp_all add: fallback_compile_failure_def fallback_budget_exhausted_def runtime_unavailable_result_def run_result_def Let_def dget_def)

lemma verdict_OK: "fallback_verdict rc timed_out truncated = ''OK'' \<longleftrightarrow> \<not> timed_out \<and> \<not> truncated \<and> rc = 0"
  by (simp add: fallback_verdict_def)

text \<open>A program that exited with status 0 in time, with both pipes read to their end without an error.\<close>

definition read_clean :: "machine \<Rightarrow> request \<Rightarrow> child \<Rightarrow> bool" where
  "read_clean m q c \<longleftrightarrow> \<not> c_timed_out c \<and> c_returncode c = 0
     \<and> d_error (drain (exn_type m) (c_out c) (new_drain (output_cap q))) = None \<and> d_error (drain (exn_type m) (c_err c) (new_drain (output_cap q))) = None"

definition within_cap :: "machine \<Rightarrow> request \<Rightarrow> child \<Rightarrow> bool" where
  "within_cap m q c \<longleftrightarrow> length (d_buf (drain (exn_type m) (c_out c) (new_drain (output_cap q))))
     + length (d_buf (drain (exn_type m) (c_err c) (new_drain (output_cap q)))) \<le> output_cap q"

lemma drain_errors_None: "drain_errors a b = None \<longleftrightarrow> a = None \<and> b = None"
  by (auto simp: drain_errors_def Let_def split: option.splits)

lemma run_step_clean: "s_rc (run_step (exn_type m) (output_cap q) c) = 0 \<and> s_error (run_step (exn_type m) (output_cap q) c) = None \<longleftrightarrow> read_clean m q c"
  by (auto simp: run_step_def Let_def read_clean_def drain_errors_None)

definition was_run :: "machine \<Rightarrow> spawned list \<Rightarrow> child \<Rightarrow> bool" where
  "was_run m sps c \<longleftrightarrow> (\<exists>sp \<in> set sps. \<not> in_scratch sp \<and> spawn m sp = Inr c)"

definition honest_run :: "machine \<Rightarrow> request \<Rightarrow> dict \<Rightarrow> spawned list \<Rightarrow> bool" where
  "honest_run m q r sps \<longleftrightarrow> enveloped r
     \<and> (\<forall>sp \<in> set sps. \<not> in_scratch sp \<longrightarrow> sp_budget sp = t_started m + of_int (r_timeout q) - t_budget m \<and> 0 < sp_budget sp)
     \<and> (dget r ''ok'' = PBool True \<longleftrightarrow> (\<exists>c. was_run m sps c \<and> read_clean m q c))
     \<and> (dget r ''verdict'' = PStr ''OK'' \<longleftrightarrow> (\<exists>c. was_run m sps c \<and> \<not> c_timed_out c \<and> c_returncode c = 0 \<and> within_cap m q c))"

lemma run_phase_honest:
  assumes "run_phase h m q name workdir ms = (r, sps)"
  shows "honest_run m q r sps \<and> (sps = [] \<or> (\<exists>sp. sps = [sp] \<and> \<not> in_scratch sp))"
proof -
  let ?argv = "snd (plan m name)"
  note run = assms [unfolded run_phase_def Let_def]
  show ?thesis
  proof (cases "remaining_run_budget (t_started m + of_int (r_timeout q)) (t_budget m)")
    case None
    then show ?thesis using run by (auto simp: honest_run_def was_run_def result_shapes result_ok result_verdict)
  next
    case (Some budget)
    then have budget: "budget = t_started m + of_int (r_timeout q) - t_budget m" "0 < budget"
      by (auto simp: remaining_run_budget_def split: if_splits)
    show ?thesis
    proof (cases "which m (hd ?argv)")
      case None
      then show ?thesis using run Some by (auto simp: honest_run_def was_run_def result_shapes result_ok result_verdict)
    next
      case (Some cmd)
      let ?sp = "spawn_step h m q workdir False (cmd # tl ?argv) budget (r_stdin q)"
      note run' = run [unfolded \<open>remaining_run_budget _ _ = _\<close> Some option.case]
      show ?thesis
      proof (cases "spawn m ?sp")
        case (Inl exc)
        then show ?thesis using run' budget by (auto simp: honest_run_def was_run_def result_shapes result_ok result_verdict)
      next
        case (Inr c)
        let ?st = "run_step (exn_type m) (output_cap q) c"
        obtain out err cut where cap: "capped_streams (decode m) (output_cap q) (s_out ?st) (s_err ?st) = (out, err, cut)" by (metis prod_cases3)
        have sps: "sps = [?sp]" and r: "\<exists>a b. r = run_result h q name ?st out err cut a ms b workdir" using run' Inr cap by auto
        have ran: "was_run m sps c' \<longleftrightarrow> c' = c" for c' using Inr sps by (auto simp: was_run_def)
        have cut: "\<not> c_timed_out c \<Longrightarrow> cut \<longleftrightarrow> \<not> within_cap m q c"
          using cap by (auto simp: capped_streams_def split_output_budget_def run_step_def Let_def within_cap_def split: if_splits)
        have timed: "s_timed_out ?st = c_timed_out c" "\<not> c_timed_out c \<Longrightarrow> s_rc ?st = c_returncode c" by (auto simp: run_step_def Let_def)
        have "dget r ''ok'' = PBool True \<longleftrightarrow> read_clean m q c" using r run_step_clean [of m q c] by (auto simp: result_ok)
        moreover have "dget r ''verdict'' = PStr ''OK'' \<longleftrightarrow> \<not> c_timed_out c \<and> c_returncode c = 0 \<and> within_cap m q c"
          using r cut timed by (auto simp: result_verdict verdict_OK)
        ultimately show ?thesis using sps r ran budget by (auto simp: honest_run_def result_shapes)
      qed
    qed
  qed
qed

lemma compile_honest:
  assumes "compile_then_run h m q name workdir = (r, sps)"
  shows "honest_run m q r sps \<and> map in_scratch sps \<in> {[], [True], [False], [True, False]}"
proof -
  let ?argv = "fst (plan m name)"
  have refused: "honest_run m q r' sps'" if "enveloped r'" "dget r' ''ok'' = PBool False" "dget r' ''verdict'' \<noteq> PStr ''OK''"
    "\<And>sp. sp \<in> set sps' \<Longrightarrow> in_scratch sp" for r' sps'
    using that by (auto simp: honest_run_def was_run_def)
  note run = assms [unfolded compile_then_run_def Let_def]
  show ?thesis
  proof (cases "?argv = []")
    case True
    then have "run_phase h m q name workdir 0 = (r, sps)" using run by simp
    from run_phase_honest [OF this] show ?thesis by auto
  next
    case False
    show ?thesis
    proof (cases "which m (hd ?argv)")
      case None
      then have "sps = []" "\<exists>exc a. r = runtime_unavailable_result h q name ''compile'' ?argv exc workdir a" using run False by auto
      then show ?thesis using refused [of r sps] by (auto simp: result_shapes result_ok result_verdict)
    next
      case (Some cmd)
      let ?sp = "spawn_step h m q workdir True (cmd # tl ?argv) (of_int (r_timeout q)) []"
      note run' = run [unfolded Some option.case, simplified False if_False]
      show ?thesis
      proof (cases "spawn m ?sp")
        case (Inl exc)
        then have "sps = [?sp]" "\<exists>a. r = runtime_unavailable_result h q name ''compile'' (cmd # tl ?argv) exc workdir a" using run' by auto
        then show ?thesis using refused [of r sps] by (auto simp: result_shapes result_ok result_verdict)
      next
        case (Inr c)
        let ?st = "run_step (exn_type m) (output_cap q) c"
        show ?thesis
        proof (cases "\<not> s_timed_out ?st \<and> s_rc ?st = 0")
          case True
          obtain r1 sps1 where one: "run_phase h m q name workdir (milliseconds (t_compiled m - t_started m)) = (r1, sps1)" by fastforce
          then have out: "r = r1" "sps = ?sp # sps1" using run' Inr True by auto
          have "was_run m (?sp # sps1) c' \<longleftrightarrow> was_run m sps1 c'" for c' by (simp add: was_run_def)
          then show ?thesis using run_phase_honest [OF one] out by (auto simp: honest_run_def)
        next
          case False
          then have "sps = [?sp] \<and> enveloped r \<and> dget r ''ok'' = PBool False \<and> dget r ''verdict'' \<noteq> PStr ''OK''"
            using run' Inr by (auto simp: result_shapes result_ok result_verdict verdict_OK split: prod.splits if_splits)
          then show ?thesis using refused [of r sps] by auto
        qed
      qed
    qed
  qed
qed

lemma failure_not_ok: "dget (failure message) ''ok'' = PBool False"
  by (simp add: failure_def dget_def)

lemma run_phase_steps:
  "(\<And>scratch argv budget stdin. P (spawn_step h m q workdir scratch argv budget stdin)) \<Longrightarrow> list_all P (snd (run_phase h m q name workdir ms))"
  by (simp add: run_phase_def Let_def case_prod_beta split: option.split sum.split)

lemma compile_steps:
  assumes "\<And>scratch argv budget stdin. P (spawn_step h m q workdir scratch argv budget stdin)"
  shows "list_all P (snd (compile_then_run h m q name workdir))"
  using assms run_phase_steps [of P h m q workdir name, OF assms]
  by (simp add: compile_then_run_def Let_def case_prod_beta split: option.split sum.split)

lemma executed_steps:
  assumes "\<And>workdir scratch argv budget stdin. P (spawn_step h m q workdir scratch argv budget stdin)"
  shows "list_all P (o_spawned (execute_python h m q language code fs))"
  using compile_steps [of P h m q, OF assms]
  by (simp add: execute_python_def Let_def case_prod_beta split: option.split sum.split)



definition quiet_child :: child where
  "quiet_child = \<lparr>c_out = [Inr []], c_err = [Inr []], c_out_busy = False, c_err_busy = False, c_returncode = 0, c_timed_out = False, c_cpu_ms = 3\<rparr>"

definition quiet_machine :: machine where
  "quiet_machine = \<lparr>os_environ = [(''HOME'', ''/root''), (''API_KEY'', ''s'')], runtime_path = ''/bin'', nproc = 4096, plan = (\<lambda>l. ([], [''python3'', ''main.py''])), which = Some, spawn = (\<lambda>sp. Inr quiet_child), exn_type = (\<lambda>x. []), decode = (\<lambda>b. []),
     fresh_dir = ''/tmp/w'', reset_error = None, scratch_below = [], scratch_removed = True, source_error = None, shim_error = None, show_path = (\<lambda>p. []),
     source_name = (\<lambda>l. ''main.py''), shim_name = ''shim.js'', shim_js = [], t_started = 0, t_compiled = 0, t_budget = 1, t_run_started = 1, t_run_done = 2, t_end = 2\<rparr>"

definition quiet_request :: request where
  "quiet_request = \<lparr>r_stdin = [], r_timeout = 10, r_workdir = None, r_memory_mb = 0, r_output_kb = 0, r_cpu = 0, r_no_net = False\<rparr>"

definition quiet_host :: host where
  "quiet_host = \<lparr>h_windows = False, h_euid = Some 1000, h_platform = ''linux''\<rparr>"

lemma quiet_spawned:
  "o_spawned (execute_python quiet_host quiet_machine quiet_request ''python'' [] Map.empty)
    = [spawn_step quiet_host quiet_machine quiet_request ''/tmp/w'' False [''python3'', ''main.py''] 9 []]"
proof -
  have python: "canonical ''python'' = Some ''python3''" "plan_supported ''python3'' False" by code_simp+
  show ?thesis
    by (simp add: execute_python_def python quiet_host_def quiet_request_def quiet_machine_def prepare_def reset_run_scratch_dir_def write_scratch_nofollow_def
        compile_then_run_def run_phase_def remaining_run_budget_def Let_def split: prod.split)
qed



theorem scratch_is_fresh_witness:
  "\<exists>fs'. prepare quiet_machine ''python3'' ''x'' (Map.empty([] \<mapsto> Directory, [''.codecalc-run''] \<mapsto> Directory, [''.codecalc-run'', ''old''] \<mapsto> Regular ''y'')) = Inr fs'
    \<and> fs' [''.codecalc-run'', ''main.py''] = Some (Regular ''x'') \<and> fs' [''.codecalc-run'', ''old''] = None"
proof -
  let ?fs = "Map.empty([] \<mapsto> Directory, [''.codecalc-run''] \<mapsto> Directory, [''.codecalc-run'', ''old''] \<mapsto> Regular ''y'')"
  obtain fs' where fs': "prepare quiet_machine ''python3'' ''x'' ?fs = Inr fs'"
    by (simp add: prepare_def quiet_machine_def reset_run_scratch_dir_def write_scratch_nofollow_def Let_def)
  have "?fs [''.codecalc-run''] \<noteq> None" by simp
  then have fresh: "fs' [''.codecalc-run'', ''main.py''] = Some (Regular ''x'')"
    "\<And>p. prefix [''.codecalc-run''] p \<Longrightarrow> fs' p \<noteq> None \<Longrightarrow> p \<in> {[''.codecalc-run''], [''.codecalc-run'', ''main.py''], [''.codecalc-run'', ''shim.js'']}"
    using scratch_is_fresh [OF fs'] by (simp_all add: quiet_machine_def)
  have "fs' [''.codecalc-run'', ''old''] = None" using fresh(2) [of "[''.codecalc-run'', ''old'']"] by (cases "fs' [''.codecalc-run'', ''old'']") auto
  with fs' fresh(1) show ?thesis by blast
qed

text \<open>A ceiling written with a superscript digit passes the test of digits and makes the conversion raise.\<close>

lemma superscript_ceiling_raises: "\<exists>message. nproc_limit (Some [char_of (178 :: nat)]) headroom tasks = Inl (Exn ValueErr message)"
  by (simp add: nproc_limit_def set_digits_def digits_value_def isdigit_char_def is_digit_def)

end
