(* ===== verification/Native_Executor.thy ===== *)
theory Native_Executor
  imports Fallback_Executor Capabilities
begin

text \<open>
  \<open>codecalc/executor.py\<close>, the front of both backends: the command line of the native binary, what is made of
  its answer before a caller sees it, the same for the streamed run, and the choice between the native binary
  and the Python backend. What the binary answers is an argument.
\<close>

section \<open>The binary\<close>

definition ceiling_flag :: "string \<Rightarrow> int \<Rightarrow> string list" where
  "ceiling_flag flag n = (if n > 0 then [flag, int_str n] else [])"

definition native_args :: "string \<Rightarrow> request \<Rightarrow> string \<Rightarrow> string option \<Rightarrow> string list" where
  "native_args rust q language stdin_path =
    [rust, ''--lang'', language, ''--timeout'', int_str (r_timeout q)]
    @ (case r_workdir q of None \<Rightarrow> [] | Some d \<Rightarrow> if d = [] then [] else [''--workdir'', d])
    @ ceiling_flag ''--max-memory-mb'' (r_memory_mb q) @ ceiling_flag ''--max-output-kb'' (r_output_kb q) @ ceiling_flag ''--max-cpu'' (r_cpu q)
    @ (if r_no_net q then [''--no-net''] else [])
    @ (case stdin_path of None \<Rightarrow> [] | Some p \<Rightarrow> [''--stdin-file'', p])"

text \<open>
  A run of the binary raises (before or while it runs, or because its output is no JSON), outlives its time and
  thirty seconds more with something on its standard error, or prints one JSON value.
\<close>

datatype reply = Raised string | Expired bytes | Replied pyval bytes

record native =
  rust_path :: string
  stdin_file :: string
  binary :: "string list \<Rightarrow> reply"
  stream_binary :: "string list \<Rightarrow> string + pyval \<times> bytes"
  decode_text :: "bytes \<Rightarrow> string"
  repr_bytes :: "bytes \<Rightarrow> string"

definition BEST_EFFORT_MARKER :: string where
  "BEST_EFFORT_MARKER = ''no_net_best_effort_shim''"

text \<open>The dash of the disclosure is \<open>-\<close> here.\<close>

definition NO_NET_BEST_EFFORT :: string where
  "NO_NET_BEST_EFFORT = ''no_net: best-effort LD_PRELOAD/dyld symbol shim - a dynamically-linked ctypes/dlsym or raw-syscall network call bypasses it, and on macOS a '' @
     ''SIP-protected or hardened interpreter drops the DYLD insert entirely so even an ordinary socket is unblocked; use the strict (gVisor) backend, or '' @
     ''run on a Linux kernel with seccomp, for a real egress block''"

section \<open>The published result\<close>

text \<open>A spawn failure as a binary reports it that does not know the key \<open>spawn_error\<close>.\<close>

definition is_minus_two :: "pyval \<Rightarrow> bool" where
  "is_minus_two v \<longleftrightarrow> (case v of PInt i \<Rightarrow> i = -2 | PFloat q r \<Rightarrow> q = -2 | _ \<Rightarrow> False)"

definition old_spawn_failure :: "dict \<Rightarrow> bool" where
  "old_spawn_failure r \<longleftrightarrow> dget r ''ok'' = PBool False \<and> \<not> truthy (dget r ''error'') \<and> has_key r ''phase'' \<and> is_minus_two (dget r ''exit_code'')
     \<and> \<not> has_key r ''spawn_error''"

definition name_spawn_failure :: "dict \<Rightarrow> dict" where
  "name_spawn_failure r =
    (if old_spawn_failure r
     then let stderr_text = (if truthy (dget r ''stderr'') then py_str (dget r ''stderr'') else []);
              message = (if stderr_text \<noteq> [] then stderr_text else ''runtime unavailable for the '' @ py_str (dget r ''phase'') @ '' phase'')
          in dset ''exit_code'' PNone (dset ''error'' (PStr message) r)
     else r)"

definition unenforced_list :: "dict \<Rightarrow> pyval list" where
  "unenforced_list r = (case dget r ''unenforced'' of PList us \<Rightarrow> us | _ \<Rightarrow> [])"

definition disclose_no_net :: "bool \<Rightarrow> dict \<Rightarrow> dict" where
  "disclose_no_net blocked r =
    (if \<not> blocked then r
     else let us = unenforced_list r in
       dset ''unenforced'' (PList (if List.member us (PStr BEST_EFFORT_MARKER)
         then filter (\<lambda>u. u \<noteq> PStr BEST_EFFORT_MARKER) us @ [PStr NO_NET_BEST_EFFORT] else us)) r)"

definition publish :: "bool \<Rightarrow> dict \<Rightarrow> dict" where
  "publish blocked r = AList.delete ''spawn_error'' (disclose_no_net blocked (name_spawn_failure (dset ''backend'' (PStr ''rust'') r)))"

definition execute_native :: "native \<Rightarrow> request \<Rightarrow> string \<Rightarrow> dict" where
  "execute_native n q language =
    (case binary n (native_args (rust_path n) q language (if r_stdin q = [] then None else Some (stdin_file n))) of
       Raised exc \<Rightarrow> failure (''executor failed: '' @ exc)
     | Expired err \<Rightarrow> [(''ok'', PBool False), (''error'', PStr ''executor timed out''), (''timed_out'', PBool True), (''exit_code'', PNone),
                      (''stderr'', PStr (take 400 (decode_text n err)))]
     | Replied v err \<Rightarrow>
         (case v of
            PDict r \<Rightarrow> if has_key r ''ok'' then publish (r_no_net q) r else failure (''executor produced invalid output: '' @ repr_bytes n (take 200 err))
          | _ \<Rightarrow> failure (''executor produced invalid output: '' @ repr_bytes n (take 200 err))))"

definition execute_uncontracted :: "native option \<Rightarrow> host \<Rightarrow> machine \<Rightarrow> request \<Rightarrow> string \<Rightarrow> string \<Rightarrow> workspace \<Rightarrow> dict" where
  "execute_uncontracted rust h m q language code fs =
    (case rust of Some n \<Rightarrow> execute_native n q language | None \<Rightarrow> o_result (execute_python h m q language code fs))"

definition CONTRACT_VERSION :: string where
  "CONTRACT_VERSION = ''1.20.0''"

definition executor_execute :: "native option \<Rightarrow> host \<Rightarrow> machine \<Rightarrow> request \<Rightarrow> string \<Rightarrow> string \<Rightarrow> workspace \<Rightarrow> dict" where
  "executor_execute rust h m q language code fs = stamp CONTRACT_VERSION (execute_uncontracted rust h m q language code fs)"

section \<open>The streamed run\<close>

text \<open>
  The run that reports progress always gives the binary a directory, its own or the caller's; \<open>partial\<close> is what
  was read of the growing output. There is no limit to the wait, so the binary raises or answers.
\<close>

definition stream_request :: "string \<Rightarrow> request \<Rightarrow> request" where
  "stream_request own q = (case r_workdir q of Some (c # d) \<Rightarrow> q | _ \<Rightarrow> q\<lparr>r_workdir := Some own\<rparr>)"

definition executor_stream :: "native option \<Rightarrow> string \<Rightarrow> string \<Rightarrow> host \<Rightarrow> machine \<Rightarrow> request \<Rightarrow> string \<Rightarrow> string \<Rightarrow> workspace \<Rightarrow> dict" where
  "executor_stream rust own partial h m q language code fs =
    (case rust of
       None \<Rightarrow> dset ''note'' (PStr ''no native executor binary; ran without streaming. Build it for progress updates.'')
                (dset ''streamed'' (PBool False) (executor_execute None h m q language code fs))
     | Some n \<Rightarrow>
         (case stream_binary n (native_args (rust_path n) (stream_request own q) language (if r_stdin q = [] then None else Some (stdin_file n))) of
            Inl exc \<Rightarrow> stamp CONTRACT_VERSION (failure (''stream failed: '' @ exc))
          | Inr (v, err) \<Rightarrow>
              (case v of
                 PDict r \<Rightarrow>
                   if has_key r ''ok''
                   then stamp CONTRACT_VERSION (AList.delete ''spawn_error''
                          (dset ''backend'' (PStr ''rust'') (dset ''streamed'' (PBool True) (dset ''streamed_partial'' (PStr partial) r))))
                   else failure (''executor invalid output: '' @ repr_bytes n (take 200 err))
               | _ \<Rightarrow> failure (''executor invalid output: '' @ repr_bytes n (take 200 err)))))"

end
