(* ===== verification/Native_Claims.thy ===== *)
theory Native_Claims
  imports Native_Executor
begin

text \<open>What a caller of the executor sees, whichever backend answered.\<close>

section \<open>Dictionaries\<close>

lemma dget_delete [simp]: "dget (AList.delete k d) k' = (if k' = k then PNone else dget d k')"
  by (simp add: dget_def delete_conv')

lemma has_key_delete [simp]: "has_key (AList.delete k d) k' \<longleftrightarrow> k' \<noteq> k \<and> has_key d k'"
  by (simp add: has_key_def delete_conv')

lemma has_key_stamp: "has_key (stamp version r) k \<longleftrightarrow> k = ''contract_version'' \<or> has_key r k"
  by (auto simp: stamp_def)

lemma stamp_get: "k \<noteq> ''contract_version'' \<Longrightarrow> dget (stamp version r) k = dget r k"
  by (simp add: stamp_def)

section \<open>The two adjustments\<close>

lemma dget_name_spawn_failure: "k \<notin> {''exit_code'', ''error''} \<Longrightarrow> dget (name_spawn_failure r) k = dget r k"
  by (simp add: name_spawn_failure_def Let_def)

lemma dget_disclose: "k \<noteq> ''unenforced'' \<Longrightarrow> dget (disclose_no_net blocked r) k = dget r k"
  by (simp add: disclose_no_net_def Let_def)

lemma old_spawn_failure_backend: "old_spawn_failure (dset ''backend'' v r) \<longleftrightarrow> old_spawn_failure r"
  by (simp add: old_spawn_failure_def)

lemma spawn_failure_named:
  "old_spawn_failure r \<Longrightarrow> dget (name_spawn_failure r) ''exit_code'' = PNone \<and> truthy (dget (name_spawn_failure r) ''error'')"
  by (simp add: name_spawn_failure_def Let_def)

lemma unenforced_cong: "dget r ''unenforced'' = dget r' ''unenforced'' \<Longrightarrow> unenforced_list r = unenforced_list r'"
  by (simp add: unenforced_list_def)

lemma disclosed:
  "unenforced_list (disclose_no_net True r) =
    (if PStr BEST_EFFORT_MARKER \<in> set (unenforced_list r)
     then filter (\<lambda>u. u \<noteq> PStr BEST_EFFORT_MARKER) (unenforced_list r) @ [PStr NO_NET_BEST_EFFORT] else unenforced_list r)"
  by (simp add: disclose_no_net_def Let_def unenforced_list_def [of "dset _ _ _"])

lemma replaced_set:
  "n \<noteq> m \<Longrightarrow> ys = (if m \<in> set xs then filter (\<lambda>u. u \<noteq> m) xs @ [n] else xs)
    \<Longrightarrow> m \<notin> set ys \<and> set ys = set xs - {m} \<union> (if m \<in> set xs then {n} else {})"
  by auto

lemma marker_is_not_disclosure: "PStr NO_NET_BEST_EFFORT \<noteq> PStr BEST_EFFORT_MARKER"
  by (simp add: NO_NET_BEST_EFFORT_def BEST_EFFORT_MARKER_def)

section \<open>No internal key\<close>

lemma fallback_keys:
  "\<not> has_key (fallback_compile_failure h q name out err rc timed_out truncated elapsed workdir x counts) ''spawn_error''"
  "\<not> has_key (fallback_budget_exhausted h q name a b workdir) ''spawn_error''"
  "\<not> has_key (runtime_unavailable_result h q name phase argv exc workdir elapsed) ''spawn_error''"
  "\<not> has_key (run_result h q name st out err truncated a b c workdir) ''spawn_error''"
  "\<not> has_key (failure message) ''spawn_error''"
  by (simp_all add: fallback_compile_failure_def fallback_budget_exhausted_def runtime_unavailable_result_def run_result_def failure_def Let_def)

lemma run_phase_keys: "\<not> has_key (fst (run_phase h m q name workdir ms)) ''spawn_error''"
  by (simp add: run_phase_def Let_def case_prod_beta fallback_keys split: option.split sum.split)

lemma compile_keys: "\<not> has_key (fst (compile_then_run h m q name workdir)) ''spawn_error''"
  by (simp add: compile_then_run_def Let_def case_prod_beta fallback_keys run_phase_keys split: option.split sum.split)

lemma python_keys: "\<not> has_key (o_result (execute_python h m q language code fs)) ''spawn_error''"
  by (simp add: execute_python_def Let_def case_prod_beta fallback_keys compile_keys split: option.split sum.split)

lemma native_keys: "\<not> has_key (execute_native n q language) ''spawn_error''"
  by (simp add: execute_native_def publish_def fallback_keys split: reply.split pyval.split)

section \<open>Claims\<close>


text \<open>A binary that knows \<open>spawn_error\<close>, a program that died of signal 2, and the shim.\<close>

definition signal_reply :: dict where
  "signal_reply = [(''ok'', PBool False), (''phase'', PStr ''run''), (''exit_code'', PInt (-2)), (''unenforced'', PList [PStr BEST_EFFORT_MARKER]),
     (''spawn_error'', PNone)]"

definition signal_native :: native where
  "signal_native = \<lparr>rust_path = ''codecalc-exec'', stdin_file = ''/tmp/i'', binary = (\<lambda>args. Replied (PDict signal_reply) []),
     stream_binary = (\<lambda>args. Inr (PList [], [])), decode_text = (\<lambda>b. []), repr_bytes = (\<lambda>b. [])\<rparr>"

definition blocked_request :: request where
  "blocked_request = \<lparr>r_stdin = [], r_timeout = 10, r_workdir = None, r_memory_mb = 0, r_output_kb = 0, r_cpu = 0, r_no_net = True\<rparr>"


text \<open>
  The streamed run makes neither adjustment: the marker reaches the caller as it is, the status \<open>-2\<close> of an old
  binary too, and an answer that is no result is passed on without the contract version.
\<close>

lemma stream_passes_marker:
  assumes "stream_binary n (native_args (rust_path n) (stream_request own q) language (if r_stdin q = [] then None else Some (stdin_file n))) = Inr (PDict d, err)"
    and "has_key d ''ok''"
  shows "dget (executor_stream (Some n) own partial h m q language code fs) ''unenforced'' = dget d ''unenforced''
    \<and> dget (executor_stream (Some n) own partial h m q language code fs) ''exit_code'' = dget d ''exit_code''"
  using assms by (simp add: executor_stream_def stamp_get)

lemma stream_unstamped:
  assumes "stream_binary n (native_args (rust_path n) (stream_request own q) language (if r_stdin q = [] then None else Some (stdin_file n))) = Inr (PList [], err)"
  shows "\<not> has_key (executor_stream (Some n) own partial h m q language code fs) ''contract_version''"
  using assms by (simp add: executor_stream_def failure_def)

end
