(* ===== verification/Packages.thy ===== *)
theory Packages
  imports Fallback_Executor Session_Quota Audit_Log
begin

text \<open>
  \<open>codecalc/packages.py\<close>: the checks of a package and its version, the operator's allowlist, the installers, the
  confinement of an installer and \<open>install\<close>. The file system, the kernel's abilities and what the installer does
  are arguments.
\<close>

section \<open>Names\<close>

definition package_char :: "char \<Rightarrow> bool" where
  "package_char c \<longleftrightarrow> (let n = of_char c :: nat in (48 \<le> n \<and> n \<le> 57) \<or> (65 \<le> n \<and> n \<le> 90) \<or> (97 \<le> n \<and> n \<le> 122)) \<or> List.member ''._@/[]+~=<>!,- '' c"

definition PACKAGE_NAME_RE :: "string \<Rightarrow> bool" where
  "PACKAGE_NAME_RE s \<longleftrightarrow> s \<noteq> [] \<and> list_all package_char s"

definition bare_name :: "string \<Rightarrow> string" where
  "bare_name package = lower (strip is_space (takeWhile (\<lambda>c. \<not> List.member ''[=<>!~, '' c) package))"

fun has_embedded_flag :: "string \<Rightarrow> bool" where
  "has_embedded_flag (a # b # s) = (is_space a \<and> b = CHR ''-'' \<or> has_embedded_flag (b # s))"
| "has_embedded_flag s = False"

fun split_commas :: "string \<Rightarrow> string \<Rightarrow> string list" where
  "split_commas acc [] = [rev acc]"
| "split_commas acc (c # cs) = (if c = CHR '','' then rev acc # split_commas [] cs else split_commas (c # acc) cs)"

definition ALLOWLIST_ENV :: string where
  "ALLOWLIST_ENV = ''CODECALC_PACKAGE_ALLOWLIST''"

definition allowlist :: "(string \<times> string) list \<Rightarrow> string list option" where
  "allowlist environ = (case map_of environ ALLOWLIST_ENV of None \<Rightarrow> None
     | Some raw \<Rightarrow> Some (map (\<lambda>e. lower (strip is_space e)) (filter (\<lambda>e. strip is_space e \<noteq> []) (split_commas [] raw))))"

definition allowlist_denial :: "(string \<times> string) list \<Rightarrow> string \<Rightarrow> string \<Rightarrow> string option" where
  "allowlist_denial environ language package =
    (case allowlist environ of
       None \<Rightarrow> None
     | Some entries \<Rightarrow>
         let bare = bare_name package in
         if List.member entries bare \<or> List.member entries (language @ '':'' @ bare) then None
         else Some (''package '' @ repr_str bare @ '' is not on the '' @ ALLOWLIST_ENV @ '' allowlist for ecosystem '' @ [CHR 0x27] @ language @ [CHR 0x27]
           @ ''; deny-by-default is active because '' @ ALLOWLIST_ENV @ '' is set''))"

section \<open>Installers\<close>

record installer_entry =
  i_bin :: string
  i_template :: "string list"
  i_env :: "(string \<times> string) list"

definition INSTALLERS :: "(string \<times> installer_entry) list" where
  "INSTALLERS =
    [(''python3'', \<lparr>i_bin = ''uv'', i_template = [''uv'', ''pip'', ''install'', ''--only-binary=:all:'', ''--target'', ''{target}'', ''{pkg}''],
        i_env = [(''UV_CACHE_DIR'', ''{target}/.cache/uv'')]\<rparr>),
     (''node'', \<lparr>i_bin = ''npm'', i_template = [''npm'', ''install'', ''{pkg}'', ''--prefix'', ''{target}'', ''--ignore-scripts'', ''--no-save'', ''--no-audit'', ''--no-fund''],
        i_env = [(''npm_config_cache'', ''{target}/.cache/npm'')]\<rparr>),
     (''bun'', \<lparr>i_bin = ''bun'', i_template = [''bun'', ''add'', ''--ignore-scripts'', ''{pkg}''], i_env = [(''BUN_INSTALL_CACHE_DIR'', ''{target}/.cache/bun'')]\<rparr>),
     (''deno'', \<lparr>i_bin = ''deno'', i_template = [''deno'', ''install'', ''{pkg}''], i_env = []\<rparr>),
     (''php'', \<lparr>i_bin = ''composer'', i_template = [''composer'', ''require'', ''--no-scripts'', ''{pkg}''],
        i_env = [(''COMPOSER_HOME'', ''{target}/.cache/composer''), (''COMPOSER_CACHE_DIR'', ''{target}/.cache/composer'')]\<rparr>),
     (''go'', \<lparr>i_bin = ''go'', i_template = [''go'', ''get'', ''{pkg}''], i_env = [(''GOMODCACHE'', ''{target}/.cache/go/mod''), (''GOPATH'', ''{target}/.cache/go'')]\<rparr>),
     (''rust'', \<lparr>i_bin = ''cargo'', i_template = [''cargo'', ''add'', ''{pkg}''], i_env = [(''CARGO_HOME'', ''{target}/.cache/cargo'')]\<rparr>)]"

definition NO_EXEC_FLAG :: "(string \<times> string) list" where
  "NO_EXEC_FLAG = [(''python3'', ''--only-binary=:all:''), (''node'', ''--ignore-scripts''), (''bun'', ''--ignore-scripts''), (''php'', ''--no-scripts'')]"

definition UNSUPPORTED :: "string list" where
  "UNSUPPORTED = [''java'', ''csharp'', ''kotlin'', ''swift'', ''zig'', ''elixir'', ''erlang'', ''gleam'', ''haskell'', ''fortran'', ''c'', ''cpp'', ''c++'', ''perl'', ''lua'',
     ''tcl'', ''bash'', ''zsh'', ''awk'', ''jq'', ''sqlite'', ''mojo'', ''typescript'', ''ruby'', ''r'']"

definition DECLINED_REASON :: "(string \<times> string) list" where
  "DECLINED_REASON =
    [(''ruby'', ''gem installs into the interpreter'' @ [CHR 0x27] @ ''s global gem directory; scoping it to a workspace needs GEM_HOME in the executor env allowlist, which is ''
        @ ''the CRITICAL-02 fix and is not widened for this''),
     (''r'', ''install.packages writes to the global R site-library; scoping it needs R_LIBS in the executor env allowlist, same reason'')]"

section \<open>Confinement\<close>

text \<open>
  The host: its environment, where commands are found, the Landlock version of its kernel (0 for none), whether
  \<open>sandbox-exec\<close> is there, and what installing meets. \<open>path_text\<close> is the text of a path with the home directory
  put in, \<open>prefixes_of\<close> the directory of a command's file and the one above.
\<close>

datatype ran = TimedOut | NotStarted string | Exited int string

record install_spawn =
  in_cmd :: "string list"
  in_cwd :: string
  in_env :: "(string \<times> string) list"
  in_rules :: "(string list \<times> string list) option"
  in_timeout :: int

record depot =
  dp_windows :: bool
  dp_darwin :: bool
  dp_environ :: "(string \<times> string) list"
  dp_runtime_path :: string
  which_runtime :: "string \<Rightarrow> string option"
  which_host :: "string \<Rightarrow> string option"
  prefixes_of :: "string \<Rightarrow> string list"
  sys_prefixes :: "string list"
  path_text :: "string \<Rightarrow> string"
  path_exists :: "string \<Rightarrow> bool"
  is_dir :: "string \<Rightarrow> bool"
  abi_version :: nat
  seatbelt :: bool
  cache_root :: string
  dir_text :: "path \<Rightarrow> string"
  installer_run :: "install_spawn \<Rightarrow> ran"

definition CONFINABLE :: "string list" where
  "CONFINABLE = [''python3'', ''node'', ''bun'', ''php'', ''go'', ''rust'', ''deno'']"

definition DEVICE_NODES :: "string list" where
  "DEVICE_NODES = [''/dev/null'', ''/dev/zero'', ''/dev/urandom'', ''/dev/random'']"

definition landlock_unenforced :: "nat \<Rightarrow> string list" where
  "landlock_unenforced abi =
    (if abi = 0 then [''package_install_not_confined_no_landlock'']
     else [''install_metadata_syscalls_unrestricted''] @ (if abi < 10 then [''install_udp_egress_unrestricted''] else [])
       @ (if abi < 4 then [''install_tcp_egress_unrestricted''] else []))"

definition seatbelt_unenforced :: "bool \<Rightarrow> string list" where
  "seatbelt_unenforced applied =
    (if \<not> applied then [''package_install_not_confined_no_sandbox_exec'']
     else [''install_metadata_syscalls_unrestricted'', ''install_tcp_egress_unrestricted'', ''install_udp_egress_unrestricted''])"

definition below_dir :: "string \<Rightarrow> string \<Rightarrow> string" where
  "below_dir d name = (if d = ''/'' then d @ name else d @ ''/'' @ name)"

definition CACHE_KEYS :: "string list" where
  "CACHE_KEYS = [''UV_CACHE_DIR'', ''npm_config_cache'', ''BUN_INSTALL_CACHE_DIR'', ''COMPOSER_HOME'', ''COMPOSER_CACHE_DIR'', ''CARGO_HOME'', ''GOMODCACHE'', ''GOPATH'']"

definition env_value :: "(string \<times> string) list \<Rightarrow> string \<Rightarrow> string list" where
  "env_value vars key = (case map_of vars key of Some v \<Rightarrow> if v = [] then [] else [v] | None \<Rightarrow> [])"

definition writable_dirs :: "depot \<Rightarrow> string \<Rightarrow> (string \<times> string) list \<Rightarrow> string list" where
  "writable_dirs dp workspace vars = [workspace] @ map (path_text dp) (concat (map (env_value vars) CACHE_KEYS)) @ [below_dir workspace ''.tmp'']"

definition setdefault_tmpdir :: "string \<Rightarrow> (string \<times> string) list \<Rightarrow> (string \<times> string) list" where
  "setdefault_tmpdir workspace vars = (if map_of vars ''TMPDIR'' \<noteq> None then vars else vars @ [(''TMPDIR'', below_dir workspace ''.tmp'')])"

definition toolchain :: "depot \<Rightarrow> string \<Rightarrow> string list" where
  "toolchain dp bin =
    (case which_runtime dp bin of Some c \<Rightarrow> prefixes_of dp c
     | None \<Rightarrow> (case which_host dp bin of Some c \<Rightarrow> prefixes_of dp c | None \<Rightarrow> [])) @ sys_prefixes dp"

type_synonym confinement = "string list \<times> (string list \<times> string list) option \<times> (string \<times> string) list \<times> string list"

definition landlock_confinement :: "depot \<Rightarrow> string \<Rightarrow> string \<Rightarrow> (string \<times> string) list \<Rightarrow> string \<Rightarrow> confinement" where
  "landlock_confinement dp bin workspace vars language =
    (if \<not> List.member CONFINABLE language then ([], None, vars, (''install_not_confined_'' @ language) # landlock_unenforced (abi_version dp))
     else if abi_version dp = 0 then ([], None, vars, landlock_unenforced (abi_version dp))
     else let writable = writable_dirs dp workspace vars @ filter (path_exists dp) DEVICE_NODES;
              stores = env_value vars ''UV_PYTHON_INSTALL_DIR'' @ map (\<lambda>x. x @ ''/uv'') (env_value vars ''XDG_DATA_HOME'') @ [''~/.local/share/uv''];
              readable = [''/usr'', ''/lib'', ''/lib64'', ''/bin'', ''/sbin'', ''/etc'', ''/proc'', ''/opt'', ''/run'', ''/var/lib'']
                @ map (path_text dp) stores @ toolchain dp bin
          in ([], Some (writable, readable), setdefault_tmpdir workspace vars, landlock_unenforced (abi_version dp)))"

definition macos_confinement :: "depot \<Rightarrow> string \<Rightarrow> string \<Rightarrow> (string \<times> string) list \<Rightarrow> string \<Rightarrow> confinement" where
  "macos_confinement dp bin workspace vars language =
    (if \<not> List.member CONFINABLE language then ([], None, vars, (''install_not_confined_'' @ language) # seatbelt_unenforced (seatbelt dp))
     else if \<not> seatbelt dp then ([], None, vars, seatbelt_unenforced False)
     else let readable = [''/usr'', ''/bin'', ''/sbin'', ''/System'', ''/Library'', ''/private/etc'', ''/dev'', ''/opt''] @ toolchain dp bin
          in ([''sandbox-exec'', ''-f'', below_dir (below_dir workspace ''.tmp'') ''install.sb''], Some (writable_dirs dp workspace vars, readable),
              setdefault_tmpdir workspace vars, seatbelt_unenforced True))"

definition confinement :: "depot \<Rightarrow> string \<Rightarrow> string \<Rightarrow> (string \<times> string) list \<Rightarrow> string \<Rightarrow> confinement" where
  "confinement dp bin workspace vars language =
    (if dp_darwin dp then macos_confinement dp bin workspace vars language
     else case landlock_confinement dp bin workspace vars language of
       (pre, rules, vars', unenf) \<Rightarrow>
         (pre, rules, vars', unenf @ (if dp_windows dp \<and> map_of (dp_environ dp) ''CODECALC_WIN_INSTALL_CONFINE'' \<noteq> None
            then [''package_install_confinement_unverified_on_windows''] else [])))"

section \<open>Installing\<close>

text \<open>The checks of what lands beside the manager's own flags: \<open>what\<close> and \<open>reads\<close> are the words of the two messages.\<close>

definition flag_refusal :: "string \<Rightarrow> string \<Rightarrow> string \<Rightarrow> dict option" where
  "flag_refusal what reads s =
    (if hd s = CHR ''-''
     then Some (failure (''invalid '' @ what @ '' '' @ repr_str s @ '': a '' @ reads @ '' starting with '' @ [CHR 0x27] @ ''-'' @ [CHR 0x27]
       @ '' would be read as a command-line flag by the package manager''))
     else if \<not> PACKAGE_NAME_RE s
     then Some (failure (''invalid '' @ what @ '' '' @ repr_str s @ '': expected letters, digits and . _ - @ / [ ] + ~ = < > ! , or spaces''))
     else None)"

definition embedded_refusal :: "string \<Rightarrow> string \<Rightarrow> dict option" where
  "embedded_refusal what s =
    (if has_embedded_flag s
     then Some (failure (''invalid '' @ what @ '' '' @ repr_str s @ '': a space followed by '' @ [CHR 0x27] @ ''-'' @ [CHR 0x27] @ '' looks like an embedded command-line flag''))
     else None)"

fun first_refusal :: "dict option list \<Rightarrow> dict option" where
  "first_refusal [] = None"
| "first_refusal (r # rs) = (case r of Some d \<Rightarrow> Some d | None \<Rightarrow> first_refusal rs)"

definition format_refusal :: "string \<Rightarrow> string option \<Rightarrow> dict option" where
  "format_refusal package version =
    (if package = [] then Some (failure ''no package name given'')
     else case flag_refusal ''package name'' ''name'' package of
       Some r \<Rightarrow> Some r
     | None \<Rightarrow>
         (case version of
            None \<Rightarrow> embedded_refusal ''package name'' package
          | Some v \<Rightarrow> if v = [] then Some (failure ''empty version given'')
              else first_refusal [flag_refusal ''version'' ''version'' v, embedded_refusal ''package name'' package, embedded_refusal ''version'' v]))"

definition package_spec :: "string \<Rightarrow> string option \<Rightarrow> string" where
  "package_spec package version = (case version of Some v \<Rightarrow> if v = [] then package else package @ ''=='' @ v | None \<Rightarrow> package)"

definition render_command :: "string \<Rightarrow> string \<Rightarrow> string list \<Rightarrow> string list" where
  "render_command cwd spec template = map (\<lambda>p. replace_all ''{pkg}'' spec (replace_all ''{target}'' cwd p)) template"

definition update_all :: "(string \<times> string) list \<Rightarrow> (string \<times> string) list \<Rightarrow> (string \<times> string) list" where
  "update_all new e = fold (\<lambda>(k, v) e. AList.update k v e) new e"

definition installer_env :: "depot \<Rightarrow> string \<Rightarrow> (string \<times> string) list \<Rightarrow> (string \<times> string) list" where
  "installer_env dp cwd hints =
    update_all (map (\<lambda>(k, v). (k, replace_all ''{target}'' cwd v)) hints) (env (dp_windows dp) (dp_environ dp) (dp_runtime_path dp) None [])"

text \<open>Where a session's files are before and after the installation; the log and the event's time.\<close>

record install_site =
  is_env :: environment
  is_site :: site
  is_disk :: disk
  is_listing :: listing
  is_disk_after :: disk
  is_listing_after :: listing
  is_audit :: "audit_log option"
  is_writable :: bool
  is_max_bytes :: nat
  is_time :: string

text \<open>\<open>quota_postcheck\<close> of a caller that took no snapshot of the workspace.\<close>

definition install_postcheck :: "install_site \<Rightarrow> string \<Rightarrow> dict \<Rightarrow> exn + dict" where
  "install_postcheck x sid result =
    (case workspace_scan (is_listing_after x) of
       (entries, usage) \<Rightarrow>
         rbind (session_disk_quota_bytes (is_env x)) (\<lambda>quota.
         rbind (total_disk_quota_bytes (is_env x)) (\<lambda>global_quota.
           let r1 = flag (usage > quota) [(''disk_quota_exceeded'', PBool True), (''disk_usage_bytes'', PInt usage), (''disk_quota_bytes'', PInt quota)] result;
               r2 = flag (global_disk_usage (is_disk_after x) > global_quota) [(''global_disk_quota_exceeded'', PBool True),
                      (''global_disk_usage_bytes'', PInt (global_disk_usage (is_disk_after x))), (''global_disk_quota_bytes'', PInt global_quota)] r1
           in Inr (flag (artifact_count_refusal (is_env x) sid entries \<noteq> None) [(''artifact_count_exceeded'', PBool True),
                     (''artifact_count'', PInt (int (length entries))), (''max_artifact_count'', PInt (max_artifact_count (is_env x)))] r2))))"

definition install_target :: "depot \<Rightarrow> install_site \<Rightarrow> string option \<Rightarrow> string option \<Rightarrow> exn + dict + string" where
  "install_target dp x session_id workdir =
    (case session_id of
       Some (c # cs) \<Rightarrow>
         (case sdir (is_site x) (c # cs) of
            Inl message \<Rightarrow> Inl (Exn ValueErr message)
          | Inr d \<Rightarrow>
              if \<not> is_dir dp (dir_text dp d) then Inr (Inl (failure (''unknown session '' @ [CHR 0x27] @ (c # cs) @ [CHR 0x27])))
              else rbind (quota_precheck (is_env x) (is_site x) (is_disk x) (c # cs) (is_listing x)) (\<lambda>refusal.
                case refusal of Some r \<Rightarrow> Inr (Inl r) | None \<Rightarrow> Inr (Inr (dir_text dp d))))
     | _ \<Rightarrow>
         (case workdir of
            Some (c # cs) \<Rightarrow> if is_dir dp (c # cs) then Inr (Inr (c # cs)) else Inr (Inl (failure (''no such workdir: '' @ (c # cs))))
          | _ \<Rightarrow> Inr (Inr (cache_root dp))))"

definition last_chars :: "nat \<Rightarrow> string \<Rightarrow> string" where
  "last_chars n s = drop (length s - n) s"

definition BUILD_MARKS :: "string list" where
  "BUILD_MARKS = [''no matching distribution'', ''sdist'', ''source distribution'', ''build'', ''wheel'', ''prepare_metadata'', ''gyp'']"

definition install_result :: "string \<Rightarrow> string \<Rightarrow> string \<Rightarrow> bool \<Rightarrow> int \<Rightarrow> ran \<Rightarrow> dict" where
  "install_result name spec cwd importable timeout r =
    (case r of
       TimedOut \<Rightarrow> failure (''package install timed out ('' @ int_str timeout @ ''s)'')
     | NotStarted exc \<Rightarrow> failure (''install failed: '' @ exc)
     | Exited rc output \<Rightarrow>
         let tail = last_chars 1200 output in
         if rc \<noteq> 0
         then [(''ok'', PBool False),
               (''error'', PStr (''install failed (rc='' @ int_str rc @ '')''
                  @ (case map_of NO_EXEC_FLAG name of
                       Some hint \<Rightarrow> if list_ex (\<lambda>m. contains m (lower tail)) BUILD_MARKS
                         then ''; note '' @ hint @ '' is passed, so a package needing a build step at install time will fail here by design'' else []
                     | None \<Rightarrow> []))),
               (''output_tail'', PStr tail)]
         else [(''ok'', PBool True), (''language'', PStr name), (''package'', PStr spec), (''target'', PStr cwd), (''importable'', PBool importable),
               (''note'', if importable then PNone
                  else PStr ''installed into the shared cache, which executed code does NOT have on its import path - pass session_id to install somewhere your code can import from''),
               (''output_tail'', PStr (last_chars 600 tail))])"

definition refuse_denied :: "install_site \<Rightarrow> string option \<Rightarrow> string \<Rightarrow> string \<Rightarrow> string \<Rightarrow> dict \<times> audit_log option" where
  "refuse_denied x session_id name package denial =
    (error_result PERMISSION_DENIED denial [],
     case is_audit x of None \<Rightarrow> None
     | Some lg \<Rightarrow> Some (snd (emit (is_writable x) (is_max_bytes x) (is_time x) lg ''install_denied''
         [(''session_id'', opt_text session_id), (''decision'', PStr ''denied''), (''reason'', PStr denial), (''language'', PStr name),
          (''package'', PStr (bare_name package))])))"

text \<open>What remains once the directory is known: one command, run once.\<close>

definition run_installer :: "depot \<Rightarrow> install_site \<Rightarrow> string \<Rightarrow> installer_entry \<Rightarrow> string \<Rightarrow> string option \<Rightarrow> string option \<Rightarrow> string \<Rightarrow> int
    \<Rightarrow> (exn + dict) \<times> install_spawn list" where
  "run_installer dp x name entry spec session_id workdir cwd timeout =
    (case confinement dp (i_bin entry) cwd (installer_env dp cwd (i_env entry)) name of
       (pre, rules, e, unenf) \<Rightarrow>
         let sp = \<lparr>in_cmd = pre @ render_command cwd spec (i_template entry), in_cwd = cwd, in_env = e, in_rules = rules, in_timeout = timeout\<rparr>;
             result = install_result name spec cwd (session_id \<noteq> None \<or> workdir \<noteq> None) timeout (installer_run dp sp);
             out = (if unenf = [] then result else dset ''unenforced'' (PList (map PStr unenf)) result)
         in (case session_id of Some (c # cs) \<Rightarrow> install_postcheck x (c # cs) out | _ \<Rightarrow> Inr out, [sp]))"

definition unsupported_install :: "string \<Rightarrow> dict" where
  "unsupported_install name =
    (let msg = ''package install not supported for '' @ [CHR 0x27] @ name @ [CHR 0x27] in
     error_result PERMISSION_DENIED (case map_of DECLINED_REASON name of Some reason \<Rightarrow> msg @ '': '' @ reason | None \<Rightarrow> msg) [])"

definition package_language :: "string \<Rightarrow> string" where
  "package_language language = (case canonical language of Some l \<Rightarrow> l | None \<Rightarrow> language)"

definition install :: "depot \<Rightarrow> install_site \<Rightarrow> string \<Rightarrow> string \<Rightarrow> string option \<Rightarrow> string option \<Rightarrow> string option \<Rightarrow> int
    \<Rightarrow> (exn + dict) \<times> install_spawn list \<times> audit_log option" where
  "install dp x language package session_id version workdir timeout =
    (let name = package_language language in
     if List.member UNSUPPORTED name then (Inr (unsupported_install name), [], is_audit x)
     else case map_of INSTALLERS name of
       None \<Rightarrow> (Inr (failure (''no installer defined for '' @ [CHR 0x27] @ name @ [CHR 0x27])), [], is_audit x)
     | Some entry \<Rightarrow>
         if which_runtime dp (i_bin entry) = None \<and> which_host dp (i_bin entry) = None
         then (Inr (failure (''package manager '' @ [CHR 0x27] @ i_bin entry @ [CHR 0x27] @ '' not found'')), [], is_audit x)
         else case format_refusal package version of
           Some r \<Rightarrow> (Inr r, [], is_audit x)
         | None \<Rightarrow>
             (case allowlist_denial (dp_environ dp) name package of
                Some denial \<Rightarrow> (case refuse_denied x session_id name package denial of (r, lg) \<Rightarrow> (Inr r, [], lg))
              | None \<Rightarrow>
                  (case install_target dp x session_id workdir of
                     Inl e \<Rightarrow> (Inl e, [], is_audit x)
                   | Inr (Inl r) \<Rightarrow> (Inr r, [], is_audit x)
                   | Inr (Inr cwd) \<Rightarrow>
                       (case run_installer dp x name entry (package_spec package version) session_id workdir cwd timeout of
                          (r, sps) \<Rightarrow> (r, sps, is_audit x)))))"

end
