(* ===== verification/Package_Claims.thy ===== *)
theory Package_Claims
  imports Packages Fallback_Claims
begin

text \<open>What is run when a package is installed, and what it may write.\<close>

section \<open>The command\<close>

lemma replace_none: "\<not> contains k s \<Longrightarrow> replace_all k w s = s"
  by (induction k w s rule: replace_all.induct) auto

lemma contains_brace: "CHR ''{'' \<notin> set s \<Longrightarrow> \<not> contains (CHR ''{'' # k) s"
  by (induction s) auto

lemma template_shape:
  assumes "map_of INSTALLERS name = Some entry" "t \<in> set (i_template entry)"
  shows "t = ''{pkg}'' \<or> t = ''{target}'' \<or> CHR ''{'' \<notin> set t"
proof -
  have "list_all (\<lambda>(n, e). list_all (\<lambda>t. t = ''{pkg}'' \<or> t = ''{target}'' \<or> \<not> List.member t (CHR ''{'')) (i_template e)) INSTALLERS" by code_simp
  then show ?thesis using map_of_SomeD [OF assms(1)] assms(2) by (fastforce simp: list_all_iff)
qed

lemma render_part:
  assumes "t = ''{pkg}'' \<or> t = ''{target}'' \<or> CHR ''{'' \<notin> set t" "\<not> contains ''{pkg}'' cwd"
  shows "replace_all ''{pkg}'' spec (replace_all ''{target}'' cwd t) = (if t = ''{pkg}'' then spec else if t = ''{target}'' then cwd else t)"
  using assms by (auto simp: replace_none contains_brace)

lemma render_command_shape:
  assumes "map_of INSTALLERS name = Some entry" "\<not> contains ''{pkg}'' cwd"
  shows "render_command cwd spec (i_template entry)
    = map (\<lambda>t. if t = ''{pkg}'' then spec else if t = ''{target}'' then cwd else t) (i_template entry)"
  unfolding render_command_def by (rule map_cong [OF refl]) (rule render_part [OF template_shape [OF assms(1)] assms(2)])

section \<open>The checks\<close>

definition well_formed :: "string \<Rightarrow> bool" where
  "well_formed s \<longleftrightarrow> PACKAGE_NAME_RE s \<and> hd s \<noteq> CHR ''-'' \<and> \<not> has_embedded_flag s"

lemma format_checked: "format_refusal package version = None \<Longrightarrow> well_formed package \<and> (\<forall>v. version = Some v \<longrightarrow> well_formed v)"
  by (auto simp: format_refusal_def flag_refusal_def embedded_refusal_def well_formed_def split: if_splits option.splits)

lemma spec_no_flag: "well_formed package \<Longrightarrow> hd (package_spec package version) = hd package"
  by (cases package) (auto simp: package_spec_def well_formed_def PACKAGE_NAME_RE_def split: option.split)

lemma run_installer_spawn:
  assumes "run_installer dp x name entry spec session_id workdir cwd timeout = (r, sps)"
  shows "\<exists>pre rules e unenf. confinement dp (i_bin entry) cwd (installer_env dp cwd (i_env entry)) name = (pre, rules, e, unenf)
    \<and> sps = [\<lparr>in_cmd = pre @ render_command cwd spec (i_template entry), in_cwd = cwd, in_env = e, in_rules = rules, in_timeout = timeout\<rparr>]"
  using assms unfolding run_installer_def Let_def by (auto split: prod.splits)

lemma target_checked:
  assumes "install_target dp x session_id workdir = Inr (Inr cwd)" "session_id = Some sid" "sid \<noteq> []"
  shows "quota_precheck (is_env x) (is_site x) (is_disk x) sid (is_listing x) = Inr None
    \<and> (\<exists>d. sdir (is_site x) sid = Inr d \<and> cwd = dir_text dp d)"
  using assms unfolding install_target_def
  by (cases sid) (auto simp: rbind_eq_Inr split: sum.splits if_splits option.splits)

lemma install_spawns:
  assumes "install dp x language package session_id version workdir timeout = (r, sps, log')" "sps \<noteq> []"
  shows "\<exists>entry cwd. map_of INSTALLERS (package_language language) = Some entry \<and> format_refusal package version = None
    \<and> allowlist_denial (dp_environ dp) (package_language language) package = None \<and> install_target dp x session_id workdir = Inr (Inr cwd)
    \<and> run_installer dp x (package_language language) entry (package_spec package version) session_id workdir cwd timeout = (r, sps)"
  using assms unfolding install_def Let_def by (auto split: if_splits option.splits sum.splits prod.splits)

lemma confinement_prefix:
  "confinement dp bin cwd e name = (pre, rules, e', unenf) \<Longrightarrow> pre = [] \<or> pre = [''sandbox-exec'', ''-f'', below_dir (below_dir cwd ''.tmp'') ''install.sb'']"
  by (auto simp: confinement_def macos_confinement_def landlock_confinement_def Let_def split: if_splits prod.splits)

section \<open>What is writable\<close>

lemma update_all_cases: "map_of (update_all new e) k = Some v \<Longrightarrow> (k, v) \<in> set new \<or> k \<notin> fst ` set new \<and> map_of e k = Some v"
proof (induction new arbitrary: e)
  case (Cons y new)
  obtain k' v' where y: "y = (k', v')" by fastforce
  from Cons.prems have "map_of (update_all new (AList.update k' v' e)) k = Some v" by (simp add: update_all_def y)
  from Cons.IH [OF this] show ?case by (auto simp: y update_conv' split: if_splits)
qed (simp add: update_all_def)

lemma hint_shape:
  assumes "map_of INSTALLERS name = Some entry" "(k, v) \<in> set (i_env entry)"
  shows "prefix cwd (replace_all ''{target}'' cwd v)"
proof -
  have "list_all (\<lambda>(n, e). list_all (\<lambda>(k, v). take 8 v = ''{target}'') (i_env e)) INSTALLERS" by code_simp
  then have "take 8 v = ''{target}''" using map_of_SomeD [OF assms(1)] assms(2) by (fastforce simp: list_all_iff)
  then obtain rest where v: "v = ''{target}'' @ rest" using append_take_drop_id [of 8 v] by metis
  have "replace_all ''{target}'' cwd (''{target}'' @ rest) = cwd @ replace_all ''{target}'' cwd rest" by simp
  then show ?thesis unfolding v by simp
qed

definition inherited_caches :: "string list" where
  "inherited_caches = [''CARGO_HOME'', ''GOMODCACHE'', ''GOPATH'']"

lemma inherited_keys:
  assumes "k \<in> set CACHE_KEYS" "map_of (env windows environ path None []) k = Some v"
  shows "k \<in> set inherited_caches \<and> map_of environ k = Some v"
proof -
  have keys: "list_all (\<lambda>k. (if List.member (map upper ENV_ALLOWLIST) (upper k) \<or> List.member ENV_ALLOWLIST k then List.member inherited_caches k else True)
      \<and> \<not> List.member [''PATH'', ''PYTHONUNBUFFERED'', ''PYTHONPATH''] k) CACHE_KEYS"
    by code_simp
  then have "upper k \<in> upper ` set ENV_ALLOWLIST \<or> k \<in> set ENV_ALLOWLIST \<Longrightarrow> k \<in> set inherited_caches" "k \<notin> {''PATH'', ''PYTHONUNBUFFERED'', ''PYTHONPATH''}"
    using assms(1) by (auto simp: list_all_iff split: if_splits)
  then show ?thesis using env_origin [OF assms(2)] by (auto split: if_splits)
qed

lemma writable_origin:
  assumes "map_of INSTALLERS name = Some entry" "p \<in> set (writable_dirs dp cwd (installer_env dp cwd (i_env entry)))" "\<And>s. path_text dp (cwd @ s) = cwd @ s"
  shows "prefix cwd p \<or> (\<exists>k v. k \<in> set inherited_caches - fst ` set (i_env entry) \<and> map_of (dp_environ dp) k = Some v \<and> p = path_text dp v)"
proof -
  let ?e = "installer_env dp cwd (i_env entry)" and ?hints = "map (\<lambda>(k, v). (k, replace_all ''{target}'' cwd v)) (i_env entry)"
  have "prefix cwd (below_dir cwd name')" for name' by (simp add: below_dir_def)
  moreover have "prefix cwd p \<or> (\<exists>k v. k \<in> set inherited_caches - fst ` set (i_env entry) \<and> map_of (dp_environ dp) k = Some v \<and> p = path_text dp v)"
    if k: "k \<in> set CACHE_KEYS" and v: "v \<in> set (env_value ?e k)" and p: "p = path_text dp v" for k v
  proof -
    have get: "map_of ?e k = Some v" using v by (auto simp: env_value_def split: option.splits if_splits)
    from update_all_cases [OF get [unfolded installer_env_def]] show ?thesis
    proof
      assume "(k, v) \<in> set ?hints"
      then have "prefix cwd v" using hint_shape [OF assms(1)] by auto
      then show ?thesis using assms(3) p by (auto simp: prefix_def)
    next
      assume base: "k \<notin> fst ` set ?hints \<and> map_of (env (dp_windows dp) (dp_environ dp) (dp_runtime_path dp) None []) k = Some v"
      have "fst ` set ?hints = fst ` set (i_env entry)" by force
      then show ?thesis using inherited_keys [OF k conjunct2 [OF base]] base p by blast
    qed
  qed
  ultimately show ?thesis using assms(2) unfolding writable_dirs_def by auto
qed

lemma confinement_rules:
  assumes "confinement dp bin cwd e name = (pre, Some (rw, ro), e', unenf)"
  shows "set rw \<subseteq> set (writable_dirs dp cwd e) \<union> set DEVICE_NODES"
  using assms by (auto simp: confinement_def macos_confinement_def landlock_confinement_def Let_def split: if_splits prod.splits)

section \<open>Claims\<close>

text \<open>
  C25. Nothing is run for a package but the language's own package manager, once, and only after every check:
  the package and the version are well-formed and cannot be read as options, the operator's allowlist -- when it
  is set, even to nothing -- has the package's bare name, and a session is within its quotas. The command is the
  template of that manager with the target directory and the one argument of the request put in their places,
  after the confinement's own prefix, if the directory's name has no placeholder in it.
\<close>

theorem install_guarded:
  assumes "install dp x language package session_id version workdir timeout = (r, sps, log')" "sps \<noteq> []"
  shows "\<exists>sp entry pre. sps = [sp] \<and> map_of INSTALLERS (package_language language) = Some entry
    \<and> well_formed package \<and> (\<forall>v. version = Some v \<longrightarrow> well_formed v) \<and> hd (package_spec package version) \<noteq> CHR ''-''
    \<and> (\<forall>entries. allowlist (dp_environ dp) = Some entries
        \<longrightarrow> bare_name package \<in> set entries \<or> package_language language @ '':'' @ bare_name package \<in> set entries)
    \<and> (\<forall>sid. session_id = Some sid \<and> sid \<noteq> []
        \<longrightarrow> quota_precheck (is_env x) (is_site x) (is_disk x) sid (is_listing x) = Inr None \<and> (\<exists>d. sdir (is_site x) sid = Inr d \<and> in_cwd sp = dir_text dp d))
    \<and> (pre = [] \<or> pre = [''sandbox-exec'', ''-f'', below_dir (below_dir (in_cwd sp) ''.tmp'') ''install.sb''])
    \<and> (\<not> contains ''{pkg}'' (in_cwd sp) \<longrightarrow> in_cmd sp
        = pre @ map (\<lambda>t. if t = ''{pkg}'' then package_spec package version else if t = ''{target}'' then in_cwd sp else t) (i_template entry))"
proof -
  obtain entry cwd where entry: "map_of INSTALLERS (package_language language) = Some entry" and format: "format_refusal package version = None"
    and allowed: "allowlist_denial (dp_environ dp) (package_language language) package = None" and target: "install_target dp x session_id workdir = Inr (Inr cwd)"
    and run: "run_installer dp x (package_language language) entry (package_spec package version) session_id workdir cwd timeout = (r, sps)"
    using install_spawns [OF assms] by blast
  obtain pre rules e unenf where conf: "confinement dp (i_bin entry) cwd (installer_env dp cwd (i_env entry)) (package_language language) = (pre, rules, e, unenf)"
    and sps: "sps = [\<lparr>in_cmd = pre @ render_command cwd (package_spec package version) (i_template entry), in_cwd = cwd, in_env = e, in_rules = rules, in_timeout = timeout\<rparr>]"
    using run_installer_spawn [OF run] by blast
  have listed: "bare_name package \<in> set entries \<or> package_language language @ '':'' @ bare_name package \<in> set entries" if "allowlist (dp_environ dp) = Some entries" for entries
    using allowed that by (auto simp: allowlist_denial_def Let_def split: if_splits)
  let ?sp = "\<lparr>in_cmd = pre @ render_command cwd (package_spec package version) (i_template entry), in_cwd = cwd, in_env = e, in_rules = rules, in_timeout = timeout\<rparr>"
  show ?thesis
  proof (intro exI [of _ ?sp] exI [of _ entry] exI [of _ pre] conjI)
    show "well_formed package" "\<forall>v. version = Some v \<longrightarrow> well_formed v" using format_checked [OF format] by blast+
    then show "hd (package_spec package version) \<noteq> CHR ''-''" using spec_no_flag by (simp add: well_formed_def)
    show "\<forall>sid. session_id = Some sid \<and> sid \<noteq> []
        \<longrightarrow> quota_precheck (is_env x) (is_site x) (is_disk x) sid (is_listing x) = Inr None \<and> (\<exists>d. sdir (is_site x) sid = Inr d \<and> in_cwd ?sp = dir_text dp d)"
      using target_checked [OF target] unfolding install_spawn.select_convs by blast
    show "pre = [] \<or> pre = [''sandbox-exec'', ''-f'', below_dir (below_dir (in_cwd ?sp) ''.tmp'') ''install.sb'']"
      using confinement_prefix [OF conf] unfolding install_spawn.select_convs .
    show "\<not> contains ''{pkg}'' (in_cwd ?sp) \<longrightarrow> in_cmd ?sp
        = pre @ map (\<lambda>t. if t = ''{pkg}'' then package_spec package version else if t = ''{target}'' then in_cwd ?sp else t) (i_template entry)"
      using render_command_shape [OF entry] unfolding install_spawn.select_convs by blast
    show "\<forall>entries. allowlist (dp_environ dp) = Some entries
        \<longrightarrow> bare_name package \<in> set entries \<or> package_language language @ '':'' @ bare_name package \<in> set entries" using listed by blast
  qed (rule sps entry)+
qed


section \<open>A host\<close>

definition sample_depot :: depot where
  "sample_depot = \<lparr>dp_windows = False, dp_darwin = False,
     dp_environ = [(''CARGO_HOME'', ''/home/u/.cargo''), (''CODECALC_PACKAGE_ALLOWLIST'', '' Requests , node:left-pad'')],
     dp_runtime_path = ''/bin'', which_runtime = Some, which_host = Some, prefixes_of = (\<lambda>c. []), sys_prefixes = [], path_text = (\<lambda>p. p), path_exists = (\<lambda>p. True),
     is_dir = (\<lambda>d. True), abi_version = 6, seatbelt = False, cache_root = ''/c'', dir_text = (\<lambda>p. []), installer_run = (\<lambda>sp. Exited 0 [])\<rparr>"

lemma sample_install:
  "\<exists>r sp. install sample_depot x ''python'' ''requests[security]'' None (Some ''2.0'') (Some ''/w'') 600 = (r, [sp], is_audit x) \<and> in_cwd sp = ''/w''
    \<and> (\<exists>rw ro. in_rules sp = Some (rw, ro) \<and> ''/home/u/.cargo'' \<in> set rw) \<and> map_of (in_env sp) ''TMPDIR'' = Some ''/w/.tmp''"
proof -
  have python: "package_language ''python'' = ''python3''" "\<not> List.member UNSUPPORTED ''python3''" by code_simp+
  define entry where "entry = the (map_of INSTALLERS ''python3'')"
  have entry: "map_of INSTALLERS ''python3'' = Some entry" by (simp add: entry_def INSTALLERS_def)
  have format: "format_refusal ''requests[security]'' (Some ''2.0'') = None" by code_simp
  have allowed: "allowlist_denial (dp_environ sample_depot) ''python3'' ''requests[security]'' = None" by code_simp
  have target: "install_target sample_depot x None (Some ''/w'') = Inr (Inr ''/w'')" by (simp add: install_target_def sample_depot_def)
  have found: "which_runtime sample_depot b = Some b" for b by (simp add: sample_depot_def)
  obtain r sps where run: "run_installer sample_depot x ''python3'' entry (package_spec ''requests[security]'' (Some ''2.0'')) None (Some ''/w'') ''/w'' 600 = (r, sps)"
    by fastforce
  have e: "installer_env sample_depot ''/w'' (i_env entry)
      = [(''CARGO_HOME'', ''/home/u/.cargo''), (''PATH'', ''/bin''), (''PYTHONUNBUFFERED'', ''1''), (''UV_CACHE_DIR'', ''/w/.cache/uv'')]"
    unfolding entry_def by code_simp
  have rules: "\<exists>rw ro e' u. confinement sample_depot (i_bin entry) ''/w'' (installer_env sample_depot ''/w'' (i_env entry)) ''python3'' = ([], Some (rw, ro), e', u)
      \<and> ''/home/u/.cargo'' \<in> set rw \<and> map_of e' ''TMPDIR'' = Some ''/w/.tmp''"
    unfolding e
    by (simp add: confinement_def landlock_confinement_def Let_def sample_depot_def CONFINABLE_def writable_dirs_def CACHE_KEYS_def env_value_def
        setdefault_tmpdir_def below_dir_def)
  have "install sample_depot x ''python'' ''requests[security]'' None (Some ''2.0'') (Some ''/w'') 600 = (r, sps, is_audit x)"
    unfolding install_def Let_def python(1) entry option.case format allowed target sum.case run prod.case using python(2) found by simp
  then show ?thesis using run_installer_spawn [OF run] rules by auto
qed

theorem install_guarded_witness:
  "\<forall>x. \<exists>r sp. install sample_depot x ''python'' ''requests[security]'' None (Some ''2.0'') (Some ''/w'') 600 = (r, [sp], is_audit x)
    \<and> last (in_cmd sp) = ''requests[security]==2.0''"
proof
  fix x
  obtain r sp where run: "install sample_depot x ''python'' ''requests[security]'' None (Some ''2.0'') (Some ''/w'') 600 = (r, [sp], is_audit x)"
    and cwd: "in_cwd sp = ''/w''" using sample_install by blast
  have python: "package_language ''python'' = ''python3''" by code_simp
  have entry: "map_of INSTALLERS ''python3'' = Some \<lparr>i_bin = ''uv'', i_template = [''uv'', ''pip'', ''install'', ''--only-binary=:all:'', ''--target'', ''{target}'', ''{pkg}''],
        i_env = [(''UV_CACHE_DIR'', ''{target}/.cache/uv'')]\<rparr>"
    by (simp add: INSTALLERS_def)
  have "\<not> contains ''{pkg}'' ''/w''" by code_simp
  then have "\<exists>pre. in_cmd sp = pre @ map (\<lambda>t. if t = ''{pkg}'' then package_spec ''requests[security]'' (Some ''2.0'') else if t = ''{target}'' then in_cwd sp else t)
      [''uv'', ''pip'', ''install'', ''--only-binary=:all:'', ''--target'', ''{target}'', ''{pkg}'']"
    using install_guarded [OF run] cwd unfolding python entry by auto
  then have "last (in_cmd sp) = ''requests[security]==2.0''" by (auto simp: package_spec_def)
  then show "\<exists>r sp. install sample_depot x ''python'' ''requests[security]'' None (Some ''2.0'') (Some ''/w'') 600 = (r, [sp], is_audit x)
    \<and> last (in_cmd sp) = ''requests[security]==2.0''" using run by blast
qed


section \<open>Divergences\<close>

text \<open>
  With \<open>CARGO_HOME\<close> in the server's environment an installer of Python packages may write in it, although the
  comment has nothing outside the workspace writable (\<open>sample_install\<close>). An empty session identity installs into
  the shared cache and calls the result importable.
\<close>

lemma empty_session_importable:
  assumes "install_target dp x (Some []) None = Inr (Inr cwd)"
  shows "cwd = cache_root dp \<and> dget (install_result name spec cwd (Some ([] :: string) \<noteq> None \<or> (None :: string option) \<noteq> None) timeout (Exited 0 out)) ''importable'' = PBool True"
  using assms by (simp add: install_target_def install_result_def Let_def)

end
