(* ===== verification/Truth_Table.thy ===== *)
theory Truth_Table
  imports Codecalc_Prelude Errors Fallback_Executor
begin

text \<open>
  \<open>codecalc/logic.py\<close>, the truth table of a boolean expression: the tokens, the recursive-descent parser, the
  evaluation and the table.
\<close>

section \<open>Tokens\<close>

text \<open>\<open>isalpha\<close> and \<open>isalnum\<close> of the code points below 256.\<close>

definition isalpha_char :: "char \<Rightarrow> bool" where
  "isalpha_char c \<longleftrightarrow> (let n = of_char c :: nat in (65 \<le> n \<and> n \<le> 90) \<or> (97 \<le> n \<and> n \<le> 122) \<or> n = 170 \<or> n = 181 \<or> n = 186
     \<or> (192 \<le> n \<and> n \<noteq> 215 \<and> n \<noteq> 247))"

definition isalnum_char :: "char \<Rightarrow> bool" where
  "isalnum_char c \<longleftrightarrow> isalpha_char c \<or> (let n = of_char c :: nat in (48 \<le> n \<and> n \<le> 57) \<or> n \<in> {178, 179, 185, 188, 189, 190})"

definition word_char :: "char \<Rightarrow> bool" where
  "word_char c \<longleftrightarrow> isalnum_char c \<or> c = CHR ''_''"

definition name_start :: "char \<Rightarrow> bool" where
  "name_start c \<longleftrightarrow> isalpha_char c \<or> c = CHR ''_''"

function (sequential) tokenize :: "nat \<Rightarrow> string \<Rightarrow> string + string list" where
  "tokenize i [] = Inr []"
| "tokenize i (c # cs) =
    (if is_space c then tokenize (Suc i) cs
     else if name_start c
     then rbind (tokenize (i + Suc (length (takeWhile word_char cs))) (dropWhile word_char cs))
            (\<lambda>ts. Inr (lower (c # takeWhile word_char cs) # ts))
     else if c = CHR ''('' \<or> c = CHR '')'' then rbind (tokenize (Suc i) cs) (\<lambda>ts. Inr ([c] # ts))
     else Inl (''unexpected character '' @ repr_str [c] @ '' at position '' @ nat_str i))"
  by pat_completeness auto
termination
proof (relation "measure (\<lambda>(i, s). length s)")
qed (auto simp: less_Suc_eq_le length_dropWhile_le)

section \<open>The parser\<close>

datatype bexpr =
    BConst bool
  | BVar string
  | BNot bexpr
  | BAnd bexpr bexpr
  | BOr bexpr bexpr
  | BXor bexpr bexpr
  | BImplies bexpr bexpr
  | BIff bexpr bexpr

definition OPS :: "string list" where
  "OPS = [''and'', ''or'', ''not'', ''xor'', ''implies'', ''iff'']"

abbreviation MAX_NESTING :: nat where "MAX_NESTING \<equiv> 100"

type_synonym parsed = "string + bexpr \<times> string list"

text \<open>
  The position is the list of tokens that remain, \<open>d\<close> the depth of parentheses. \<open>after\<close> goes on with what a
  parser left, which is always shorter than what it was given (\<open>parse_consumes\<close>): the test only makes that
  visible, so that the recursion is seen to end.
\<close>

definition after :: "string list \<Rightarrow> parsed \<Rightarrow> (bexpr \<Rightarrow> string list \<Rightarrow> parsed) \<Rightarrow> parsed" where
  "after ts r k = (case r of Inl e \<Rightarrow> Inl e | Inr (n, rest) \<Rightarrow> if length rest < length ts then k n rest else Inr (n, rest))"

lemma after_cong [fundef_cong]:
  "ts = ts' \<Longrightarrow> r = r' \<Longrightarrow> (\<And>n rest. r' = Inr (n, rest) \<Longrightarrow> length rest < length ts' \<Longrightarrow> k n rest = k' n rest) \<Longrightarrow> after ts r k = after ts' r' k'"
  by (auto simp: after_def split: sum.split)

function (sequential) parse_iff :: "nat \<Rightarrow> string list \<Rightarrow> parsed"
  and iff_loop :: "nat \<Rightarrow> bexpr \<Rightarrow> string list \<Rightarrow> parsed"
  and parse_implies :: "nat \<Rightarrow> string list \<Rightarrow> parsed"
  and parse_xor :: "nat \<Rightarrow> string list \<Rightarrow> parsed"
  and xor_loop :: "nat \<Rightarrow> bexpr \<Rightarrow> string list \<Rightarrow> parsed"
  and parse_or :: "nat \<Rightarrow> string list \<Rightarrow> parsed"
  and or_loop :: "nat \<Rightarrow> bexpr \<Rightarrow> string list \<Rightarrow> parsed"
  and parse_and :: "nat \<Rightarrow> string list \<Rightarrow> parsed"
  and and_loop :: "nat \<Rightarrow> bexpr \<Rightarrow> string list \<Rightarrow> parsed"
  and parse_not :: "nat \<Rightarrow> string list \<Rightarrow> parsed"
  and parse_primary :: "nat \<Rightarrow> string list \<Rightarrow> parsed" where
  "parse_iff d ts = after ts (parse_implies d ts) (iff_loop d)"
| "iff_loop d n [] = Inr (n, [])"
| "iff_loop d n (t # ts) = (if t = ''iff'' then after ts (parse_implies d ts) (\<lambda>m. iff_loop d (BIff n m)) else Inr (n, t # ts))"
| "parse_implies d ts = after ts (parse_xor d ts) (\<lambda>n rest.
     if rest \<noteq> [] \<and> hd rest = ''implies''
     then (case parse_implies d (tl rest) of Inl e \<Rightarrow> Inl e | Inr (m, rest') \<Rightarrow> Inr (BImplies n m, rest'))
     else Inr (n, rest))"
| "parse_xor d ts = after ts (parse_or d ts) (xor_loop d)"
| "xor_loop d n [] = Inr (n, [])"
| "xor_loop d n (t # ts) = (if t = ''xor'' then after ts (parse_or d ts) (\<lambda>m. xor_loop d (BXor n m)) else Inr (n, t # ts))"
| "parse_or d ts = after ts (parse_and d ts) (or_loop d)"
| "or_loop d n [] = Inr (n, [])"
| "or_loop d n (t # ts) = (if t = ''or'' then after ts (parse_and d ts) (\<lambda>m. or_loop d (BOr n m)) else Inr (n, t # ts))"
| "parse_and d ts = after ts (parse_not d ts) (and_loop d)"
| "and_loop d n [] = Inr (n, [])"
| "and_loop d n (t # ts) = (if t = ''and'' then after ts (parse_not d ts) (\<lambda>m. and_loop d (BAnd n m)) else Inr (n, t # ts))"
| "parse_not d [] = parse_primary d []"
| "parse_not d (t # ts) =
    (if t = ''not'' then (case parse_not d ts of Inl e \<Rightarrow> Inl e | Inr (n, rest) \<Rightarrow> Inr (BNot n, rest)) else parse_primary d (t # ts))"
| "parse_primary d [] = Inl ''unexpected token None''"
| "parse_primary d (t # ts) =
    (if t = ''('' then
       if Suc d > MAX_NESTING then Inl (''expression nesting too deep (max '' @ nat_str MAX_NESTING @ '')'')
       else (case parse_iff (Suc d) ts of
               Inl e \<Rightarrow> Inl e
             | Inr (n, rest) \<Rightarrow> if rest \<noteq> [] \<and> hd rest = '')'' then Inr (n, tl rest) else Inl ''missing closing parenthesis'')
     else if t = ''true'' then Inr (BConst True, ts)
     else if t = ''false'' then Inr (BConst False, ts)
     else if \<not> List.member OPS t then Inr (BVar t, ts)
     else Inl (''unexpected token '' @ repr_str t))"
  by pat_completeness auto
termination
  by (relation "measures [
    (case_sum (case_sum (case_sum (\<lambda>(d, ts). length ts) (\<lambda>(d, n, ts). length ts)) (case_sum (\<lambda>(d, ts). length ts) (case_sum (\<lambda>(d, ts). length ts) (\<lambda>(d, n, ts). length ts)))) (case_sum (case_sum (\<lambda>(d, ts). length ts) (case_sum (\<lambda>(d, n, ts). length ts) (\<lambda>(d, ts). length ts))) (case_sum (\<lambda>(d, n, ts). length ts) (case_sum (\<lambda>(d, ts). length ts) (\<lambda>(d, ts). length ts))))),
    (case_sum (case_sum (case_sum (\<lambda>(d, ts). 6) (\<lambda>(d, n, ts). 0)) (case_sum (\<lambda>(d, ts). 5) (case_sum (\<lambda>(d, ts). 4) (\<lambda>(d, n, ts). 0)))) (case_sum (case_sum (\<lambda>(d, ts). 3) (case_sum (\<lambda>(d, n, ts). 0) (\<lambda>(d, ts). 2))) (case_sum (\<lambda>(d, n, ts). 0) (case_sum (\<lambda>(d, ts). 1) (\<lambda>(d, ts). 0)))))]") auto

definition parse_tokens :: "string list \<Rightarrow> string + bexpr" where
  "parse_tokens ts =
    (if ts = [] then Inl ''empty expression''
     else case parse_iff 0 ts of
       Inl e \<Rightarrow> Inl e
     | Inr (n, rest) \<Rightarrow> if rest \<noteq> [] then Inl (''unexpected token '' @ repr_str (hd rest)) else Inr n)"

definition parse :: "string \<Rightarrow> string + bexpr" where
  "parse text' = (case tokenize 0 text' of Inl e \<Rightarrow> Inl e | Inr ts \<Rightarrow> parse_tokens ts)"

section \<open>Evaluation\<close>

fun eval_bool :: "bexpr \<Rightarrow> (string \<times> bool) list \<Rightarrow> string + bool" where
  "eval_bool (BConst b) e = Inr b"
| "eval_bool (BVar x) e = (case map_of e x of None \<Rightarrow> Inl (''unknown variable '' @ repr_str x) | Some b \<Rightarrow> Inr b)"
| "eval_bool (BNot a) e = rbind (eval_bool a e) (\<lambda>x. Inr (\<not> x))"
| "eval_bool (BAnd a b) e = rbind (eval_bool a e) (\<lambda>x. if x then eval_bool b e else Inr False)"
| "eval_bool (BOr a b) e = rbind (eval_bool a e) (\<lambda>x. if x then Inr True else eval_bool b e)"
| "eval_bool (BXor a b) e = rbind (eval_bool a e) (\<lambda>x. rbind (eval_bool b e) (\<lambda>y. Inr (x \<noteq> y)))"
| "eval_bool (BImplies a b) e = rbind (eval_bool a e) (\<lambda>x. if \<not> x then Inr True else eval_bool b e)"
| "eval_bool (BIff a b) e = rbind (eval_bool a e) (\<lambda>x. rbind (eval_bool b e) (\<lambda>y. Inr (x = y)))"

fun collect_vars :: "bexpr \<Rightarrow> string list" where
  "collect_vars (BConst b) = []"
| "collect_vars (BVar x) = [x]"
| "collect_vars (BNot a) = collect_vars a"
| "collect_vars (BAnd a b) = collect_vars a @ collect_vars b"
| "collect_vars (BOr a b) = collect_vars a @ collect_vars b"
| "collect_vars (BXor a b) = collect_vars a @ collect_vars b"
| "collect_vars (BImplies a b) = collect_vars a @ collect_vars b"
| "collect_vars (BIff a b) = collect_vars a @ collect_vars b"

section \<open>The table\<close>

text \<open>\<open>itertools.product([False, True], repeat=n)\<close>.\<close>

fun product_bool :: "nat \<Rightarrow> bool list list" where
  "product_bool 0 = [[]]"
| "product_bool (Suc n) = map (Cons False) (product_bool n) @ map (Cons True) (product_bool n)"

abbreviation MAX_VARS :: nat where "MAX_VARS \<equiv> 16"
abbreviation MAX_EXPR_LEN :: nat where "MAX_EXPR_LEN \<equiv> 2000"

definition table_row :: "bexpr \<Rightarrow> string list \<Rightarrow> bool list \<Rightarrow> string + dict \<times> bool" where
  "table_row tree vars combo =
    rbind (eval_bool tree (zip vars combo)) (\<lambda>v.
      Inr (dset ''result'' (PBool v) (map (\<lambda>(x, b). (x, PBool b)) (zip vars combo)), v))"

fun table_rows :: "bexpr \<Rightarrow> string list \<Rightarrow> bool list list \<Rightarrow> string + (dict \<times> bool) list" where
  "table_rows tree vars [] = Inr []"
| "table_rows tree vars (c # cs) = rbind (table_row tree vars c) (\<lambda>r. rbind (table_rows tree vars cs) (\<lambda>rs. Inr (r # rs)))"

text \<open>A \<open>ValueError\<close> of the evaluation leaves the function; the parser's is caught.\<close>

definition truth_table :: "string \<Rightarrow> string + dict" where
  "truth_table expression =
    (if length expression > MAX_EXPR_LEN then Inr (failure (''expression too long (max '' @ nat_str MAX_EXPR_LEN @ '' chars)''))
     else case parse expression of
       Inl e \<Rightarrow> Inr (failure (''parse error: '' @ e))
     | Inr tree \<Rightarrow>
         let vars = sorted_set (collect_vars tree) in
         if length vars > MAX_VARS
         then Inr (failure (''too many variables ('' @ nat_str (length vars) @ '' > '' @ nat_str MAX_VARS @ ''); table would have 2^'' @ nat_str (length vars) @ '' rows''))
         else if vars = []
         then rbind (eval_bool tree []) (\<lambda>v.
                Inr [(''ok'', PBool True), (''expression'', PStr expression), (''variables'', PList []), (''row_count'', PInt 1),
                     (''rows'', PList [PDict [(''result'', PBool v)]]), (''satisfiable'', PBool v), (''tautology'', PBool v)])
         else rbind (table_rows tree vars (product_bool (length vars))) (\<lambda>rows.
                Inr [(''ok'', PBool True), (''expression'', PStr expression), (''variables'', PList (map PStr vars)), (''row_count'', PInt (int (length rows))),
                     (''rows'', PList (map (\<lambda>(r, v). PDict r) rows)), (''satisfiable'', PBool (list_ex snd rows)), (''tautology'', PBool (list_all snd rows))]))"

end
