(* ===== verification/Logic_Claims.thy ===== *)
theory Logic_Claims
  imports Truth_Table
begin

text \<open>
  The parser of boolean expressions inverts printing with the fewest parentheses, and the truth table decides
  the expression.
\<close>

section \<open>The parser ends\<close>

declare parse_iff.simps [simp del] parse_implies.simps [simp del] parse_xor.simps [simp del] parse_or.simps [simp del] parse_and.simps [simp del]

lemma after_length:
  assumes "after ts r k = Inr (n, rest)" "\<And>m rest'. r = Inr (m, rest') \<Longrightarrow> length rest' < length ts"
    "\<And>m rest'. r = Inr (m, rest') \<Longrightarrow> length rest' < length ts \<Longrightarrow> k m rest' = Inr (n, rest) \<Longrightarrow> length rest \<le> length rest'"
  shows "length rest < length ts"
proof -
  obtain m rest' where r: "r = Inr (m, rest')" using assms(1) by (cases r) (auto simp: after_def)
  then have "k m rest' = Inr (n, rest)" using assms(1) assms(2) [OF r] by (simp add: after_def)
  then show ?thesis using assms(2,3) [OF r] by simp
qed

lemma loop_length:
  assumes "(if c then after ts r k else Inr (n0, t # ts)) = Inr (n, rest)" "\<And>m rest'. c \<Longrightarrow> r = Inr (m, rest') \<Longrightarrow> length rest' < length ts"
    "\<And>m rest'. c \<Longrightarrow> r = Inr (m, rest') \<Longrightarrow> length rest' < length ts \<Longrightarrow> k m rest' = Inr (n, rest) \<Longrightarrow> length rest \<le> length rest'"
  shows "length rest \<le> length (t # ts)"
proof (cases c)
  case True
  then have "length rest < length ts" using assms by (intro after_length [of ts r k n rest]) auto
  then show ?thesis by simp
qed (use assms(1) in auto)

lemmas parser_induct = parse_iff_iff_loop_parse_implies_parse_xor_xor_loop_parse_or_or_loop_parse_and_and_loop_parse_not_parse_primary.induct

lemma parse_consumes:
  "parse_iff d ts = Inr (n, rest) \<Longrightarrow> length rest < length ts"
  "iff_loop d n0 ts = Inr (n, rest) \<Longrightarrow> length rest \<le> length ts"
  "parse_implies d ts = Inr (n, rest) \<Longrightarrow> length rest < length ts"
  "parse_xor d ts = Inr (n, rest) \<Longrightarrow> length rest < length ts"
  "xor_loop d n0 ts = Inr (n, rest) \<Longrightarrow> length rest \<le> length ts"
  "parse_or d ts = Inr (n, rest) \<Longrightarrow> length rest < length ts"
  "or_loop d n0 ts = Inr (n, rest) \<Longrightarrow> length rest \<le> length ts"
  "parse_and d ts = Inr (n, rest) \<Longrightarrow> length rest < length ts"
  "and_loop d n0 ts = Inr (n, rest) \<Longrightarrow> length rest \<le> length ts"
  "parse_not d ts = Inr (n, rest) \<Longrightarrow> length rest < length ts"
  "parse_primary d ts = Inr (n, rest) \<Longrightarrow> length rest < length ts"
proof (induction d ts and d n0 ts and d ts and d ts and d n0 ts and d ts and d n0 ts and d ts and d n0 ts and d ts and d ts
    arbitrary: n rest and n rest and n rest and n rest and n rest and n rest and n rest and n rest and n rest and n rest and n rest rule: parser_induct)
  case (1 d ts)
  show ?case using 1(3) unfolding parse_iff.simps by (rule after_length) (use 1(1,2) in blast)+
next
  case (3 d n0 t ts)
  show ?case using 3(3) unfolding iff_loop.simps by (rule loop_length) (use 3(1,2) in blast)+
next
  case (4 d ts)
  show ?case using 4(3) unfolding parse_implies.simps [of d ts]
  proof (rule after_length)
    fix m rest'
    assume xor: "parse_xor d ts = Inr (m, rest')" "length rest' < length ts"
      and k: "(if rest' \<noteq> [] \<and> hd rest' = ''implies''
        then (case parse_implies d (tl rest') of Inl e \<Rightarrow> Inl e | Inr (l, rest2) \<Rightarrow> Inr (BImplies m l, rest2)) else Inr (m, rest')) = Inr (n, rest)"
    show "length rest \<le> length rest'"
    proof (cases "rest' \<noteq> [] \<and> hd rest' = ''implies''")
      case True
      then obtain l where "parse_implies d (tl rest') = Inr (l, rest)" using k by (auto split: sum.splits)
      then have "length rest < length (tl rest')" using 4(2) [OF xor True] by blast
      then show ?thesis by simp
    qed (use k in auto)
  qed (use 4(1) in blast)
next
  case (5 d ts)
  show ?case using 5(3) unfolding parse_xor.simps by (rule after_length) (use 5(1,2) in blast)+
next
  case (7 d n0 t ts)
  show ?case using 7(3) unfolding xor_loop.simps by (rule loop_length) (use 7(1,2) in blast)+
next
  case (8 d ts)
  show ?case using 8(3) unfolding parse_or.simps by (rule after_length) (use 8(1,2) in blast)+
next
  case (10 d n0 t ts)
  show ?case using 10(3) unfolding or_loop.simps by (rule loop_length) (use 10(1,2) in blast)+
next
  case (11 d ts)
  show ?case using 11(3) unfolding parse_and.simps by (rule after_length) (use 11(1,2) in blast)+
next
  case (13 d n0 t ts)
  show ?case using 13(3) unfolding and_loop.simps by (rule loop_length) (use 13(1,2) in blast)+
next
  case (15 d t ts)
  then show ?case by (fastforce split: if_splits sum.splits)
next
  case (17 d t ts)
  then show ?case by (fastforce split: if_splits sum.splits)
qed auto

lemma after_rbind: "(\<And>n rest. r = Inr (n, rest) \<Longrightarrow> length rest < length ts) \<Longrightarrow> after ts r k = rbind r (\<lambda>x. k (fst x) (snd x))"
  by (cases r) (auto simp: after_def)

text \<open>The equations of the source, where the loops follow without a test.\<close>

lemma parser_eqs:
  "parse_iff d ts = rbind (parse_implies d ts) (\<lambda>x. iff_loop d (fst x) (snd x))"
  "parse_xor d ts = rbind (parse_or d ts) (\<lambda>x. xor_loop d (fst x) (snd x))"
  "parse_or d ts = rbind (parse_and d ts) (\<lambda>x. or_loop d (fst x) (snd x))"
  "parse_and d ts = rbind (parse_not d ts) (\<lambda>x. and_loop d (fst x) (snd x))"
  by (rule trans [OF parse_iff.simps after_rbind], erule parse_consumes)
     (rule trans [OF parse_xor.simps after_rbind], erule parse_consumes,
      rule trans [OF parse_or.simps after_rbind], erule parse_consumes,
      rule trans [OF parse_and.simps after_rbind], erule parse_consumes)

section \<open>Levels\<close>

text \<open>The parsers by strength of binding, and what follows an operand at each level.\<close>

definition parse_at :: "nat \<Rightarrow> nat \<Rightarrow> string list \<Rightarrow> parsed" where
  "parse_at l = (if l = 0 then parse_iff else if l = 1 then parse_implies else if l = 2 then parse_xor else if l = 3 then parse_or
     else if l = 4 then parse_and else if l = 5 then parse_not else parse_primary)"

definition level_op :: "nat \<Rightarrow> string" where
  "level_op l = (if l = 0 then ''iff'' else if l = 1 then ''implies'' else if l = 2 then ''xor'' else if l = 3 then ''or'' else ''and'')"

definition mk :: "nat \<Rightarrow> bexpr \<Rightarrow> bexpr \<Rightarrow> bexpr" where
  "mk l = (if l = 0 then BIff else if l = 1 then BImplies else if l = 2 then BXor else if l = 3 then BOr else BAnd)"

definition cont :: "nat \<Rightarrow> nat \<Rightarrow> bexpr \<Rightarrow> string list \<Rightarrow> parsed" where
  "cont l d n rest =
    (if l = 0 then iff_loop d n rest
     else if l = 1 then (if rest \<noteq> [] \<and> hd rest = ''implies''
       then (case parse_implies d (tl rest) of Inl e \<Rightarrow> Inl e | Inr (m, rest') \<Rightarrow> Inr (BImplies n m, rest')) else Inr (n, rest))
     else if l = 2 then xor_loop d n rest else if l = 3 then or_loop d n rest else and_loop d n rest)"

lemma parse_at_simps [simp]:
  "parse_at 0 = parse_iff" "parse_at (Suc 0) = parse_implies" "parse_at 2 = parse_xor" "parse_at 3 = parse_or" "parse_at 4 = parse_and"
  "parse_at 5 = parse_not" "parse_at 6 = parse_primary"
  by (simp_all add: parse_at_def)

lemma cont_simps [simp]:
  "cont 0 d n rest = iff_loop d n rest" "cont 2 d n rest = xor_loop d n rest" "cont 3 d n rest = or_loop d n rest" "cont 4 d n rest = and_loop d n rest"
  "cont (Suc 0) d n rest = (if rest \<noteq> [] \<and> hd rest = ''implies''
       then (case parse_implies d (tl rest) of Inl e \<Rightarrow> Inl e | Inr (m, rest') \<Rightarrow> Inr (BImplies n m, rest')) else Inr (n, rest))"
  by (simp_all add: cont_def)

lemma level_cases:
  assumes "l \<le> 4"
  obtains "l = 0" | "l = Suc 0" | "l = 2" | "l = 3" | "l = (4 :: nat)"
  using assms by linarith

lemma parse_at_step:
  assumes "l \<le> 4"
  shows "parse_at l d ts = rbind (parse_at (Suc l) d ts) (\<lambda>x. cont l d (fst x) (snd x))"
  using assms
proof (cases rule: level_cases)
  case 2
  have "parse_implies d ts = rbind (parse_xor d ts) (\<lambda>x. cont (Suc 0) d (fst x) (snd x))"
    unfolding parse_implies.simps [of d ts] cont_simps by (rule after_rbind) (rule parse_consumes)
  then show ?thesis using 2 by (simp add: numeral_2_eq_2 [symmetric])
qed (simp_all add: parser_eqs [of d ts])

lemma cont_op:
  assumes "l \<le> 4"
  shows "cont l d n (level_op l # ts) = (if l = 1 then rbind (parse_at 1 d ts) (\<lambda>x. Inr (BImplies n (fst x), snd x))
    else rbind (parse_at (Suc l) d ts) (\<lambda>x. cont l d (mk l n (fst x)) (snd x)))"
  using assms
proof (cases rule: level_cases)
  case 2
  then show ?thesis by (cases "parse_implies d ts") (auto simp: level_op_def)
qed (simp_all add: level_op_def mk_def after_rbind parse_consumes)

definition stops :: "nat \<Rightarrow> string list \<Rightarrow> bool" where
  "stops l rest \<longleftrightarrow> rest = [] \<or> (\<forall>k. l \<le> k \<and> k \<le> 4 \<longrightarrow> hd rest \<noteq> level_op k)"

lemma stops_mono: "stops l rest \<Longrightarrow> l \<le> k \<Longrightarrow> stops k rest"
  by (auto simp: stops_def)

lemma stops_op: "l \<le> 4 \<Longrightarrow> stops (Suc l) (level_op l # ts)"
  unfolding stops_def level_op_def by (auto split: if_splits)

lemma stops_close: "stops l ('')'' # ts)"
  unfolding stops_def level_op_def by auto

lemma cont_stop: "l \<le> 4 \<Longrightarrow> stops l rest \<Longrightarrow> cont l d n rest = Inr (n, rest)"
proof -
  assume l: "l \<le> 4" and stop: "stops l rest"
  then have "rest = [] \<or> hd rest \<noteq> level_op l" by (auto simp: stops_def)
  with l show ?thesis by (cases rule: level_cases; cases rest) (auto simp: level_op_def)
qed

lemma parse_down:
  assumes "parse_at k d ts = Inr (t, rest)" "l \<le> k" "k \<le> 5" "stops l rest"
  shows "parse_at l d ts = Inr (t, rest)"
  using assms
proof (induction "k - l" arbitrary: l)
  case (Suc j)
  then have "parse_at (Suc l) d ts = Inr (t, rest)" using stops_mono [of l rest "Suc l"] by auto
  then show ?case using Suc.hyps Suc.prems parse_at_step [of l d ts] by (auto simp: cont_stop)
qed auto

lemma parse_operand: "ts \<noteq> [] \<Longrightarrow> hd ts \<noteq> ''not'' \<Longrightarrow> parse_at 5 d ts = parse_at 6 d ts"
  by (cases ts) (auto simp: parse_at_def)

section \<open>Printing\<close>

definition paren :: "nat \<Rightarrow> nat \<Rightarrow> string list \<Rightarrow> string list" where
  "paren l p ts = (if p < l then [''(''] @ ts @ ['')''] else ts)"

definition deeper :: "nat \<Rightarrow> nat \<Rightarrow> nat \<Rightarrow> nat" where
  "deeper l p d = (if p < l then Suc d else d)"

text \<open>The tokens of an expression at a level, with the parentheses it needs there, and how deep they go.\<close>

fun unparse :: "nat \<Rightarrow> bexpr \<Rightarrow> string list" where
  "unparse l (BConst b) = [if b then ''true'' else ''false'']"
| "unparse l (BVar x) = [x]"
| "unparse l (BNot a) = paren l 5 (''not'' # unparse 5 a)"
| "unparse l (BAnd a b) = paren l 4 (unparse 4 a @ ''and'' # unparse 5 b)"
| "unparse l (BOr a b) = paren l 3 (unparse 3 a @ ''or'' # unparse 4 b)"
| "unparse l (BXor a b) = paren l 2 (unparse 2 a @ ''xor'' # unparse 3 b)"
| "unparse l (BImplies a b) = paren l 1 (unparse 2 a @ ''implies'' # unparse 1 b)"
| "unparse l (BIff a b) = paren l 0 (unparse 0 a @ ''iff'' # unparse 1 b)"

fun nesting :: "nat \<Rightarrow> bexpr \<Rightarrow> nat" where
  "nesting l (BConst b) = 0"
| "nesting l (BVar x) = 0"
| "nesting l (BNot a) = deeper l 5 (nesting 5 a)"
| "nesting l (BAnd a b) = deeper l 4 (max (nesting 4 a) (nesting 5 b))"
| "nesting l (BOr a b) = deeper l 3 (max (nesting 3 a) (nesting 4 b))"
| "nesting l (BXor a b) = deeper l 2 (max (nesting 2 a) (nesting 3 b))"
| "nesting l (BImplies a b) = deeper l 1 (max (nesting 2 a) (nesting 1 b))"
| "nesting l (BIff a b) = deeper l 0 (max (nesting 0 a) (nesting 1 b))"

fun prec :: "bexpr \<Rightarrow> nat" where
  "prec (BConst b) = 6"
| "prec (BVar x) = 6"
| "prec (BNot a) = 5"
| "prec (BAnd a b) = 4"
| "prec (BOr a b) = 3"
| "prec (BXor a b) = 2"
| "prec (BImplies a b) = 1"
| "prec (BIff a b) = 0"

definition plain_name :: "string \<Rightarrow> bool" where
  "plain_name x \<longleftrightarrow> x \<notin> set OPS \<and> x \<notin> {''('', '')'', ''true'', ''false''}"

definition plain_names :: "bexpr \<Rightarrow> bool" where
  "plain_names t \<longleftrightarrow> (\<forall>x \<in> set (collect_vars t). plain_name x)"

lemma unparse_paren: "prec t < l \<Longrightarrow> l \<le> 6 \<Longrightarrow> unparse l t = ''('' # unparse 0 t @ ['')''] \<and> nesting l t = Suc (nesting 0 t)"
  by (cases t) (auto simp: paren_def deeper_def)

lemma unparse_bare: "l \<le> prec t \<Longrightarrow> unparse l t = unparse (prec t) t \<and> nesting l t = nesting (prec t) t"
  by (cases t) (auto simp: paren_def deeper_def)

text \<open>What is claimed of one expression: every level reads it back; at a level of a left-associative operator it is read as the first operand.\<close>

definition reads :: "bexpr \<Rightarrow> bool" where
  "reads t \<longleftrightarrow> (\<forall>l d rest. l \<le> 6 \<longrightarrow> stops l rest \<longrightarrow> d + nesting l t \<le> MAX_NESTING \<longrightarrow> parse_at l d (unparse l t @ rest) = Inr (t, rest))"

definition leads :: "bexpr \<Rightarrow> bool" where
  "leads t \<longleftrightarrow> (\<forall>l d rest. l \<le> 4 \<longrightarrow> l \<noteq> 1 \<longrightarrow> stops (Suc l) rest \<longrightarrow> d + nesting l t \<le> MAX_NESTING
     \<longrightarrow> parse_at l d (unparse l t @ rest) = cont l d t rest)"

lemma primary_paren:
  assumes "parse_at 0 (Suc d) (ts @ '')'' # rest) = Inr (t, '')'' # rest)" "Suc d \<le> MAX_NESTING"
  shows "parse_at 6 d (''('' # ts @ '')'' # rest) = Inr (t, rest)"
  using assms by simp

lemma reads_from_prec:
  assumes base: "\<And>d rest. stops (prec t) rest \<Longrightarrow> d + nesting (prec t) t \<le> MAX_NESTING \<Longrightarrow> parse_at (prec t) d (unparse (prec t) t @ rest) = Inr (t, rest)"
    and atom: "prec t = 6 \<Longrightarrow> unparse 6 t \<noteq> [] \<and> hd (unparse 6 t) \<noteq> ''not''"
  shows "reads t"
proof -
  have p: "prec t \<le> 6" by (cases t) auto
  have low: "parse_at l d (unparse l t @ rest) = Inr (t, rest)" if "l \<le> prec t" "stops l rest" "d + nesting l t \<le> MAX_NESTING" for l d rest
  proof -
    have at_prec: "parse_at (prec t) d (unparse l t @ rest) = Inr (t, rest)"
      using base [OF stops_mono [OF that(2,1)]] that unparse_bare [OF that(1)] by simp
    show ?thesis
    proof (cases "prec t = 6 \<and> l \<noteq> 6")
      case True
      then have "parse_at 5 d (unparse l t @ rest) = Inr (t, rest)"
        using at_prec atom unparse_bare [OF that(1)] parse_operand [of "unparse l t @ rest" d] by simp
      then show ?thesis using parse_down [of 5 d _ t rest l] that True p by simp
    next
      case False
      then show ?thesis using parse_down [OF at_prec that(1)] at_prec that p by (cases "l = 6") auto
    qed
  qed
  have "parse_at l d (unparse l t @ rest) = Inr (t, rest)" if l: "prec t < l" "l \<le> 6" and stop: "stops l rest" and depth: "d + nesting l t \<le> MAX_NESTING" for l d rest
  proof -
    note shape = unparse_paren [OF l]
    have "parse_at 0 (Suc d) (unparse 0 t @ '')'' # rest) = Inr (t, '')'' # rest)" using low [of 0] depth shape by (simp add: stops_close del: parse_at_simps)
    then have six: "parse_at 6 d (unparse l t @ rest) = Inr (t, rest)" using primary_paren [of d "unparse 0 t" rest t] depth shape by (simp del: parse_at_simps)
    moreover have "parse_at 5 d (unparse l t @ rest) = parse_at 6 d (unparse l t @ rest)" using shape by (intro parse_operand) auto
    ultimately show ?thesis using parse_down [of 5 d _ t rest l] l stop by (cases "l = 6") auto
  qed
  then show ?thesis using low unfolding reads_def by (metis linorder_not_less)
qed

lemma leads_other:
  assumes "reads t" "l \<noteq> prec t" "l \<le> 4" "stops (Suc l) rest" "d + nesting l t \<le> MAX_NESTING"
  shows "parse_at l d (unparse l t @ rest) = cont l d t rest"
proof -
  have "unparse l t = unparse (Suc l) t \<and> nesting l t = nesting (Suc l) t"
  proof (cases "prec t < l")
    case True
    then show ?thesis using unparse_paren [of t l] unparse_paren [of t "Suc l"] assms(3) by simp
  next
    case False
    then show ?thesis using unparse_bare [of l t] unparse_bare [of "Suc l" t] assms(2) by simp
  qed
  then have "parse_at (Suc l) d (unparse l t @ rest) = Inr (t, rest)" using assms unfolding reads_def by simp
  then show ?thesis using parse_at_step [OF assms(3)] by simp
qed

lemma left_operator:
  assumes l: "l \<le> 4" "l \<noteq> 1" and t: "t = mk l a b" "prec t = l" "unparse l t = unparse l a @ level_op l # unparse (Suc l) b"
    "nesting l t = max (nesting l a) (nesting (Suc l) b)" and a: "leads a" and b: "reads b"
  shows "reads t \<and> leads t"
proof -
  have spine: "parse_at l d (unparse l t @ rest) = cont l d t rest" if "stops (Suc l) rest" "d + nesting l t \<le> MAX_NESTING" for d rest
  proof -
    let ?after = "level_op l # unparse (Suc l) b @ rest"
    have "d + nesting l a \<le> MAX_NESTING" "d + nesting (Suc l) b \<le> MAX_NESTING" using that(2) t(4) by auto
    then have "parse_at l d (unparse l a @ ?after) = cont l d a ?after" "parse_at (Suc l) d (unparse (Suc l) b @ rest) = Inr (b, rest)"
      using a b l that(1) stops_op [OF l(1)] unfolding leads_def reads_def by auto
    then show ?thesis using cont_op [OF l(1)] l(2) t(1,3) by simp
  qed
  have "reads t"
  proof (rule reads_from_prec)
    show "parse_at (prec t) d (unparse (prec t) t @ rest) = Inr (t, rest)" if "stops (prec t) rest" "d + nesting (prec t) t \<le> MAX_NESTING" for d rest
      using that spine [of rest d] stops_mono [of l rest "Suc l"] cont_stop [OF l(1)] unfolding t(2) by simp
  qed (use l t(2) in auto)
  then show ?thesis using leads_other spine t(2) unfolding leads_def by metis
qed

lemma reads_implies:
  assumes "reads a" "reads b"
  shows "reads (BImplies a b)"
proof (rule reads_from_prec)
  fix d rest
  assume stop: "stops (prec (BImplies a b)) rest" and depth: "d + nesting (prec (BImplies a b)) (BImplies a b) \<le> MAX_NESTING"
  let ?after = "level_op 1 # unparse 1 b @ rest"
  have "stops 2 ?after" using stops_op [of 1] by (simp add: numeral_2_eq_2)
  moreover have "d + nesting 2 a \<le> MAX_NESTING" "d + nesting 1 b \<le> MAX_NESTING" using depth by (auto simp: deeper_def)
  ultimately have "parse_at 2 d (unparse 2 a @ ?after) = Inr (a, ?after)" "parse_at 1 d (unparse 1 b @ rest) = Inr (b, rest)"
    using assms stop unfolding reads_def by (simp_all del: parse_at_simps)
  moreover have "parse_at 1 d (unparse 2 a @ ?after) = rbind (parse_at 2 d (unparse 2 a @ ?after)) (\<lambda>x. cont 1 d (fst x) (snd x))"
    using parse_at_step [of 1] by (simp only: numeral_2_eq_2 One_nat_def)
  ultimately have "parse_at 1 d (unparse 2 a @ ?after) = Inr (BImplies a b, rest)" using cont_op [of 1 d a "unparse 1 b @ rest"] by (simp del: parse_at_simps cont_simps)
  then show "parse_at (prec (BImplies a b)) d (unparse (prec (BImplies a b)) (BImplies a b) @ rest) = Inr (BImplies a b, rest)"
    by (simp add: paren_def level_op_def)
qed simp

lemma reads_not:
  assumes "reads a"
  shows "reads (BNot a)"
proof (rule reads_from_prec)
  fix d rest
  assume "d + nesting (prec (BNot a)) (BNot a) \<le> MAX_NESTING"
  moreover have "stops 5 rest" unfolding stops_def by auto
  ultimately have "parse_at 5 d (unparse 5 a @ rest) = Inr (a, rest)" using assms unfolding reads_def by (simp add: deeper_def del: parse_at_simps)
  then show "parse_at (prec (BNot a)) d (unparse (prec (BNot a)) (BNot a) @ rest) = Inr (BNot a, rest)" by (simp add: paren_def)
qed simp

lemma reads_leads: "reads t \<Longrightarrow> prec t \<in> {1, 5, 6} \<Longrightarrow> reads t \<and> leads t"
  unfolding leads_def using leads_other by force

lemma parse_unparse: "plain_names t \<Longrightarrow> reads t \<and> leads t"
proof (induction t)
  case (BConst b)
  have "reads (BConst b)" by (rule reads_from_prec) simp_all
  then show ?case by (rule reads_leads) simp
next
  case (BVar x)
  then have x: "plain_name x" by (simp add: plain_names_def)
  then have "reads (BVar x)" by (intro reads_from_prec) (auto simp: plain_name_def OPS_def)
  then show ?case by (rule reads_leads) simp
next
  case (BNot a)
  then have "reads a" by (simp add: plain_names_def)
  then show ?case using reads_leads [OF reads_not] by simp
next
  case (BImplies a b)
  then have "reads a" "reads b" by (simp_all add: plain_names_def)
  then show ?case using reads_leads [OF reads_implies] by simp
next
  case (BAnd a b)
  then show ?case by (intro left_operator [of 4 _ a b]) (auto simp: plain_names_def mk_def level_op_def paren_def deeper_def)
next
  case (BOr a b)
  then show ?case by (intro left_operator [of 3 _ a b]) (auto simp: plain_names_def mk_def level_op_def paren_def deeper_def)
next
  case (BXor a b)
  then show ?case by (intro left_operator [of 2 _ a b]) (auto simp: plain_names_def mk_def level_op_def paren_def deeper_def)
next
  case (BIff a b)
  then show ?case by (intro left_operator [of 0 _ a b]) (auto simp: plain_names_def mk_def level_op_def paren_def deeper_def)
qed

lemma unparse_not_Nil: "unparse l t \<noteq> []"
  by (cases t) (auto simp: paren_def)

lemma parse_tokens_unparse: "plain_names t \<Longrightarrow> nesting 0 t \<le> MAX_NESTING \<Longrightarrow> parse_tokens (unparse 0 t) = Inr t"
  using parse_unparse [of t] unparse_not_Nil [of 0 t] unfolding reads_def
  by (auto simp: parse_tokens_def stops_def dest!: spec [of _ 0] spec [of _ "[]"])

section \<open>The text\<close>

text \<open>A name as the tokenizer gives it back.\<close>

definition is_name :: "string \<Rightarrow> bool" where
  "is_name w \<longleftrightarrow> w \<noteq> [] \<and> name_start (hd w) \<and> list_all word_char w \<and> lower w = w"

definition token :: "string \<Rightarrow> bool" where
  "token w \<longleftrightarrow> is_name w \<or> w = ''('' \<or> w = '')''"

lemma name_start_not_space: "name_start c \<Longrightarrow> \<not> is_space c"
  by (auto simp: name_start_def isalpha_char_def is_space_def Let_def)

lemma space_ends: "is_space (CHR '' '')" "\<not> word_char (CHR '' '')"
  by (simp_all add: is_space_def word_char_def isalnum_char_def isalpha_char_def)

lemma tokenize_word:
  assumes "is_name w" "s = [] \<or> hd s = CHR '' ''"
  shows "tokenize i (w @ s) = rbind (tokenize (i + length w) s) (\<lambda>ts. Inr (w # ts))"
proof -
  obtain c cs where w: "w = c # cs" using assms(1) by (cases w) (auto simp: is_name_def)
  have c: "name_start c" "\<not> is_space c" "list_all word_char cs" "lower (c # cs) = c # cs"
    using assms(1) name_start_not_space by (auto simp: w is_name_def)
  have "takeWhile word_char (cs @ s) = cs" "dropWhile word_char (cs @ s) = s"
    using c(3) assms(2) space_ends(2) by (cases s; simp add: list_all_iff)+
  then show ?thesis using c unfolding w by simp
qed

lemma tokenize_token:
  assumes "token w" "s = [] \<or> hd s = CHR '' ''"
  shows "tokenize i (w @ s) = rbind (tokenize (i + length w) s) (\<lambda>ts. Inr (w # ts))"
proof (cases "is_name w")
  case True
  then show ?thesis using tokenize_word assms(2) by blast
next
  case False
  then have "w = ''('' \<or> w = '')''" using assms(1) by (simp add: token_def)
  then show ?thesis by (auto simp: name_start_def isalpha_char_def is_space_def)
qed

lemma tokenize_join: "list_all token ts \<Longrightarrow> tokenize i (join '' '' ts) = Inr ts"
proof (induction ts arbitrary: i)
  case (Cons w ts)
  show ?case
  proof (cases ts)
    case Nil
    then show ?thesis using Cons.prems tokenize_token [of w "[]" i] by simp
  next
    case (Cons v vs)
    then have "join '' '' (w # ts) = w @ CHR '' '' # join '' '' ts" by simp
    then show ?thesis using Cons.IH [of "Suc (i + length w)"] Cons.prems tokenize_token [of w "CHR '' '' # join '' '' ts" i] space_ends(1) by simp
  qed
qed simp

lemma unparse_tokens:
  assumes "\<forall>x \<in> set (collect_vars t). is_name x"
  shows "list_all token (unparse l t)"
proof -
  have words: "token ''and''" "token ''or''" "token ''not''" "token ''xor''" "token ''implies''" "token ''iff''" "token ''true''" "token ''false''" "token ''(''" "token '')''"
    by code_simp+
  show ?thesis using assms words by (induction t arbitrary: l) (auto simp: paren_def token_def)
qed

section \<open>Meaning\<close>

fun holds :: "(string \<Rightarrow> bool) \<Rightarrow> bexpr \<Rightarrow> bool" where
  "holds v (BConst b) = b"
| "holds v (BVar x) = v x"
| "holds v (BNot a) = (\<not> holds v a)"
| "holds v (BAnd a b) = (holds v a \<and> holds v b)"
| "holds v (BOr a b) = (holds v a \<or> holds v b)"
| "holds v (BXor a b) = (holds v a \<noteq> holds v b)"
| "holds v (BImplies a b) = (holds v a \<longrightarrow> holds v b)"
| "holds v (BIff a b) = (holds v a \<longleftrightarrow> holds v b)"

lemma holds_cong: "(\<And>x. x \<in> set (collect_vars t) \<Longrightarrow> v x = w x) \<Longrightarrow> holds v t = holds w t"
  by (induction t) auto

definition assignment :: "string list \<Rightarrow> bool list \<Rightarrow> string \<Rightarrow> bool" where
  "assignment vs bs x \<longleftrightarrow> map_of (zip vs bs) x = Some True"

lemma eval_bool_holds: "(\<And>x. x \<in> set (collect_vars t) \<Longrightarrow> map_of e x \<noteq> None) \<Longrightarrow> eval_bool t e = Inr (holds (\<lambda>x. map_of e x = Some True) t)"
  by (induction t) (auto split: option.split)

lemma product_bool_set: "set (product_bool n) = {bs. length bs = n}"
proof (induction n)
  case (Suc n)
  then show ?case by (auto simp: length_Suc_conv)
qed simp

lemma product_bool_distinct: "distinct (product_bool n) \<and> length (product_bool n) = 2 ^ n"
  by (induction n) (auto simp: distinct_map)

lemma str_le_antisym: "str_le x y \<Longrightarrow> str_le y x \<Longrightarrow> x = y"
proof (induction x y rule: str_le.induct)
  case (1 t)
  then show ?case by (cases t) auto
qed auto

lemma str_le_total: "str_le x y \<or> str_le y x"
  by (induction x y rule: str_le.induct) auto

lemma str_le_trans: "str_le x y \<Longrightarrow> str_le y z \<Longrightarrow> str_le x z"
proof (induction x y arbitrary: z rule: str_le.induct)
  case (3 a s b t)
  then show ?case by (cases z) auto
qed auto

lemma insert_name_set [simp]: "set (insert_name x ys) = insert x (set ys)"
  by (induction ys) auto

lemma insert_name_sorted: "sorted_wrt str_le ys \<Longrightarrow> distinct ys \<Longrightarrow> sorted_wrt str_le (insert_name x ys) \<and> distinct (insert_name x ys)"
proof (induction ys)
  case (Cons y ys)
  then show ?case using str_le_total [of x y] str_le_trans [of x y] str_le_antisym [of x y] by auto
qed simp

lemma sorted_set_props: "set (sorted_set xs) = set xs \<and> sorted_wrt str_le (sorted_set xs) \<and> distinct (sorted_set xs)"
proof -
  have "set (fold insert_name xs ys) = set xs \<union> set ys \<and> (sorted_wrt str_le ys \<and> distinct ys \<longrightarrow> sorted_wrt str_le (fold insert_name xs ys) \<and> distinct (fold insert_name xs ys))" for ys
    by (induction xs arbitrary: ys) (auto simp: insert_name_sorted)
  from this [of "[]"] show ?thesis by (simp add: sorted_set_def)
qed

lemma assignment_onto: "set vs = set (collect_vars t) \<Longrightarrow> holds (assignment vs (map v vs)) t = holds v t"
  by (rule holds_cong) (auto simp: assignment_def map_of_zip_map)

lemma table_rows_eq:
  assumes "set vs = set (collect_vars t)" "\<forall>bs \<in> set combos. length bs = length vs"
  shows "table_rows t vs combos = Inr (map (\<lambda>bs. (dset ''result'' (PBool (holds (assignment vs bs) t)) (zip vs (map PBool bs)), holds (assignment vs bs) t)) combos)"
  using assms(2)
proof (induction combos)
  case (Cons bs combos)
  then have "eval_bool t (zip vs bs) = Inr (holds (assignment vs bs) t)"
    using assms(1) unfolding assignment_def by (intro eval_bool_holds) (simp add: map_of_zip_is_None)
  moreover have "map (\<lambda>(x, b). (x, PBool b)) (zip vs bs) = zip vs (map PBool bs)" by (simp add: zip_map2)
  ultimately show ?case using Cons by (simp add: table_row_def)
qed simp

text \<open>Every row, and the two verdicts, for the variables in order.\<close>

lemma table_decides:
  assumes "set vs = set (collect_vars t)" "combos = product_bool (length vs)"
  shows "list_ex (\<lambda>bs. holds (assignment vs bs) t) combos \<longleftrightarrow> (\<exists>v. holds v t)" "list_all (\<lambda>bs. holds (assignment vs bs) t) combos \<longleftrightarrow> (\<forall>v. holds v t)"
proof -
  have "map v vs \<in> set combos" for v using assms(2) by (simp add: product_bool_set)
  then show "list_ex (\<lambda>bs. holds (assignment vs bs) t) combos \<longleftrightarrow> (\<exists>v. holds v t)" "list_all (\<lambda>bs. holds (assignment vs bs) t) combos \<longleftrightarrow> (\<forall>v. holds v t)"
    using assignment_onto [OF assms(1)] unfolding list_ex_iff list_all_iff by metis+
qed

section \<open>Claims\<close>

text \<open>
  C27. What is printed with the fewest parentheses is read back: \<open>iff\<close> binds loosest, then \<open>implies\<close>, \<open>xor\<close>, \<open>or\<close>,
  \<open>and\<close>, \<open>not\<close>; \<open>implies\<close> groups to the right and the other four to the left. It holds of every expression over
  names the tokenizer gives back, as long as the parentheses go no deeper than the parser's limit.
\<close>

theorem parse_print:
  assumes "\<forall>x \<in> set (collect_vars t). is_name x \<and> plain_name x" "nesting 0 t \<le> MAX_NESTING"
  shows "parse (join '' '' (unparse 0 t)) = Inr t"
proof -
  have "tokenize 0 (join '' '' (unparse 0 t)) = Inr (unparse 0 t)" using assms(1) by (intro tokenize_join unparse_tokens) simp
  moreover have "parse_tokens (unparse 0 t) = Inr t" using assms by (intro parse_tokens_unparse) (simp_all add: plain_names_def)
  ultimately show ?thesis by (simp add: parse_def)
qed

theorem parse_print_witness:
  "parse ''a implies b implies a'' = Inr (BImplies (BVar ''a'') (BImplies (BVar ''b'') (BVar ''a'')))"
proof -
  let ?t = "BImplies (BVar ''a'') (BImplies (BVar ''b'') (BVar ''a''))"
  have "list_all (\<lambda>x. is_name x \<and> plain_name x) (collect_vars ?t)" "nesting 0 ?t \<le> MAX_NESTING" by code_simp+
  then have "parse (join '' '' (unparse 0 ?t)) = Inr ?t" by (intro parse_print) (simp_all add: list_all_iff)
  moreover have "join '' '' (unparse 0 ?t) = ''a implies b implies a''" by code_simp
  ultimately show ?thesis by simp
qed

text \<open>
  C28. The truth table decides the expression. The function always answers. When the text is within the length
  limit, parses, and has at most sixteen variables, the table has one row for each of the assignments to its
  variables, which are in order and without repetition, the row's result is the value under that assignment, and
  the expression is reported satisfiable, or a tautology, exactly when it is.
\<close>

theorem truth_table_decides:
  "(\<exists>r. truth_table expression = Inr r)
    \<and> (\<forall>t vs. length expression \<le> MAX_EXPR_LEN \<and> parse expression = Inr t \<and> vs = sorted_set (collect_vars t) \<and> length vs \<le> MAX_VARS
      \<longrightarrow> set vs = set (collect_vars t) \<and> distinct vs \<and> sorted_wrt str_le vs
        \<and> distinct (product_bool (length vs)) \<and> set (product_bool (length vs)) = {bs. length bs = length vs}
        \<and> (\<exists>r. truth_table expression = Inr r \<and> dget r ''ok'' = PBool True \<and> dget r ''variables'' = PList (map PStr vs)
          \<and> dget r ''row_count'' = PInt (2 ^ length vs)
          \<and> dget r ''rows'' = PList (map (\<lambda>bs. PDict (dset ''result'' (PBool (holds (assignment vs bs) t)) (zip vs (map PBool bs)))) (product_bool (length vs)))
          \<and> dget r ''satisfiable'' = PBool (\<exists>v. holds v t) \<and> dget r ''tautology'' = PBool (\<forall>v. holds v t)))"
proof -
  have some_table: "\<exists>r. truth_table expression = Inr r \<and> dget r ''ok'' = PBool True \<and> dget r ''variables'' = PList (map PStr vs)
          \<and> dget r ''row_count'' = PInt (2 ^ length vs)
          \<and> dget r ''rows'' = PList (map (\<lambda>bs. PDict (dset ''result'' (PBool (holds (assignment vs bs) t)) (zip vs (map PBool bs)))) (product_bool (length vs)))
          \<and> dget r ''satisfiable'' = PBool (\<exists>v. holds v t) \<and> dget r ''tautology'' = PBool (\<forall>v. holds v t)"
    if len: "length expression \<le> MAX_EXPR_LEN" and tree: "parse expression = Inr t" and vs: "vs = sorted_set (collect_vars t)" and few: "length vs \<le> MAX_VARS" for t vs
  proof -
    have names: "set vs = set (collect_vars t)" using sorted_set_props vs by blast
    note decides = table_decides [OF names refl]
    have rows: "table_rows t vs (product_bool (length vs))
        = Inr (map (\<lambda>bs. (dset ''result'' (PBool (holds (assignment vs bs) t)) (zip vs (map PBool bs)), holds (assignment vs bs) t)) (product_bool (length vs)))"
      by (rule table_rows_eq [OF names]) (simp add: product_bool_set)
    show ?thesis
    proof (cases "vs = []")
      case True
      then have "collect_vars t = []" using names by simp
      then have val: "eval_bool t [] = Inr (holds (assignment [] []) t)" unfolding assignment_def using eval_bool_holds [of t "[]"] by simp
      have fixed: "holds v t = holds (assignment [] []) t" for v by (rule holds_cong) (simp add: \<open>collect_vars t = []\<close>)
      have "dset ''result'' x [] = [(''result'', x)]" for x by (simp add: dset_def)
      moreover have "(\<exists>v. holds v t) = holds (assignment [] []) t" "(\<forall>v. holds v t) = holds (assignment [] []) t" using fixed by blast+
      ultimately show ?thesis using len tree few True by (simp add: truth_table_def val Let_def vs [symmetric])
    next
      case False
      then show ?thesis using len tree few rows decides product_bool_distinct [of "length vs"]
        by (simp add: truth_table_def Let_def vs [symmetric] list_ex_iff list_all_iff comp_def)
    qed
  qed
  have "\<exists>r. truth_table expression = Inr r"
  proof (cases "length expression \<le> MAX_EXPR_LEN")
    case True
    show ?thesis
    proof (cases "parse expression")
      case (Inr t)
      then show ?thesis using some_table [OF True Inr refl] True by (cases "length (sorted_set (collect_vars t)) \<le> MAX_VARS") (auto simp: truth_table_def Let_def)
    qed (use True in \<open>simp add: truth_table_def\<close>)
  qed (simp add: truth_table_def)
  then show ?thesis using some_table sorted_set_props product_bool_distinct product_bool_set by blast
qed

theorem truth_table_decides_witness:
  "\<exists>r. truth_table ''a implies b implies a'' = Inr r \<and> dget r ''row_count'' = PInt 4 \<and> dget r ''tautology'' = PBool True"
proof -
  let ?t = "BImplies (BVar ''a'') (BImplies (BVar ''b'') (BVar ''a''))"
  have tree: "parse ''a implies b implies a'' = Inr ?t" by code_simp
  have vs: "sorted_set (collect_vars ?t) = [''a'', ''b'']" by code_simp
  have "\<exists>r. truth_table ''a implies b implies a'' = Inr r \<and> dget r ''row_count'' = PInt (2 ^ length [''a'', ''b'']) \<and> dget r ''tautology'' = PBool (\<forall>v. holds v ?t)"
    using truth_table_decides [of "''a implies b implies a''", THEN conjunct2, rule_format, of ?t "[''a'', ''b'']"] tree vs by (auto simp del: holds.simps)
  then show ?thesis by simp
qed

section \<open>Divergences\<close>

text \<open>
  A closing parenthesis where an operand is expected is taken for a variable of that name, and a variable named
  \<open>result\<close> loses its column to the row's result.
\<close>

lemma closing_is_variable: "parse ''a and )'' = Inr (BAnd (BVar ''a'') (BVar '')''))"
  by code_simp

lemma result_column_lost:
  "table_row (BAnd (BVar ''a'') (BVar ''result'')) [''a'', ''result''] [False, True] = Inr ([(''a'', PBool False), (''result'', PBool False)], False)"
  by code_simp

end
