(* ===== verification/Spec2Isabelle.thy ===== *)
theory Spec2Isabelle
  imports Exact_Claims Programmer_Bits Radix Grades Run_Claims Optimization_Claims Service_Claims Confirmation
    Session_Claims Snapshot_Roundtrip Fallback_Claims Native_Claims Package_Claims Logic_Claims
begin

text \<open>
  A verification development for codecalc, a server that evaluates expressions exactly, executes
  programs in many languages under limits, and checks claims about them. The theories model the
  Python package under \<open>src/codecalc\<close>; names of definitions follow the names of the functions.

  \<^bold>\<open>Parts of the program and the theories that model them.\<close>

  \<^item> \<open>Codecalc_Prelude\<close>: Python values (\<open>pyval\<close>), dictionaries as association lists in insertion
    order, text operations of \<open>str\<close>, the error monad (\<open>rbind\<close>), the text of integers, and the
    interface \<open>text_codec\<close> of a printer with its reader.
  \<^item> \<open>Errors\<close> (\<open>errors.py\<close>): the closed set of error codes and their remedies, the classification
    of exceptions and of messages, \<open>error_result\<close>, \<open>ensure_code\<close> and \<open>stamp_row\<close>.
  \<^item> \<open>Guarded\<close> (\<open>guarded.py\<close>): evaluation in a forked child. What becomes of the child is an
    argument (\<open>fate\<close>). The interface \<open>error_coder\<close> is what a failure's code promises.
  \<^item> \<open>Fraction_Text\<close>, \<open>Binary64\<close>: the text of a \<open>Fraction\<close> and its reader, binary64 rounding and
    the shortest text of a float.
  \<^item> \<open>Exact_Eval\<close>, \<open>Exact_Tools\<close> (\<open>exact.py\<close>): the walk over the syntax tree, its operators,
    powers, integer functions and literals; \<open>eval_exact\<close>, \<open>compare_threshold\<close>, \<open>percentage\<close> and
    \<open>percent_change\<close>. The screen of \<open>safe_expr\<close>, \<open>ast.parse\<close> and the \<open>math\<close> module are arguments.
    \<open>Exact_Props\<close> holds the lemmas, \<open>Exact_Claims\<close> the theorems.
  \<^item> \<open>Programmer_Bits\<close>, \<open>Radix\<close> (\<open>exact.py\<close>): \<open>base_repr\<close>, \<open>int_widths\<close>, \<open>bit_analysis\<close>, \<open>bitop\<close>
    against machine words, and \<open>radix_convert\<close>.
  \<^item> \<open>Audit_Log\<close> (\<open>audit.py\<close>): the trail of events, redaction and rotation.
  \<^item> \<open>Capabilities\<close> (\<open>capabilities.py\<close>, \<open>execution_service.broker_run\<close>): policies, the broker's
    decision (interface \<open>capability_decision\<close>), its enforcement and its audit event.
  \<^item> \<open>Spec_Identity\<close> (\<open>spec_identity.py\<close>): which names carry credentials, the encoder of request
    values, canonical bytes and hashes. The interface \<open>prefix_code\<close> is a code that can be read off
    the front of a text; it is interpreted for JSON escapes and for UTF-8.
  \<^item> \<open>Providers\<close> (\<open>providers.py\<close>): the request, the provider interface and the local provider, the
    registry, and the execution receipt. The hash function and the forwarded environment are
    arguments (\<open>host\<close>).
  \<^item> \<open>Run_Supervisor\<close> (\<open>run_supervisor.py\<close>): background runs. The state has the table of runs, the
    journal files with their modification times and a log of released directories; every method
    is a function of that state. \<open>Run_Invariant\<close> has the step relation \<open>sup_step\<close> of all
    interleavings (submissions, workers settling their futures, polls, waits, the two halves of a
    cancellation, clean-ups, restarts) and the invariant; \<open>Run_Claims\<close> the theorems.
  \<^item> \<open>Translation\<close> (\<open>translation.py\<close>): the comparison of two programs and of many languages over a
    runner that may answer differently on each call.
  \<^item> \<open>Languages\<close> (\<open>registry.py\<close>): the language table, the aliases and \<open>canonical\<close>.
  \<^item> \<open>Dependencies\<close> (\<open>dependencies.py\<close>): the metadata block of a source, the merging of declared
    requirements, the refusal without a network, the installation in order under a time budget and a
    disk quota. The TOML parser, \<open>packages.install\<close>, the clock and directory sizes are arguments.
  \<^item> \<open>Execution_Service\<close> (\<open>execution_service.py\<close>, \<open>ExecutionService\<close>): \<open>execute\<close>, \<open>execute_stream\<close>,
    \<open>execute_session\<close> and \<open>verify_across_providers\<close>, each with the list of what it does to the
    outside (\<open>effect\<close>). \<open>Service_Claims\<close> has the theorems; the interface \<open>spec_runner\<close> is what the
    service relies on of its innermost call, interpreted for the managed or direct run and for the
    streamed one.
  \<^item> \<open>Confirmation\<close> (\<open>confirmation.py\<close>): the gate in front of tools with side effects, in both
    generations of the protocol; what the client sends is an argument.
  \<^item> \<open>Rank_Stats\<close> (\<open>stats.py\<close>): ranks with ties, the Mann-Whitney statistic, its exact and
    approximate p-values, the effect size and the smallest testable sample, in binary64 arithmetic
    (\<open>Binary64_Order\<close> has the order properties of rounding). \<open>Rank_Exact\<close> has the theorems. The
    normal distribution function is an argument.
  \<^item> \<open>Optimization\<close> (\<open>optimization.py\<close>, \<open>tools._measure\<close>): the timing of two programs, the
    alignment of input sizes, the ratio, the inference and the acceptance of \<open>verify_optimization\<close>;
    the executor and the clock are arguments. \<open>Optimization_Claims\<close> has the theorems.
  \<^item> \<open>Grades\<close> (\<open>grades.py\<close>): the evidence grades of translation, optimisation and solver results
    (interface \<open>verdict_grader\<close>).
  \<^item> \<open>Refusals\<close>: the shape of a coded refusal, shared by the services and the sessions.
  \<^item> \<open>Session_Paths\<close> (\<open>sessions.py\<close>): the patterns of identities, the names the runner keeps for
    itself, the two jails of a path, and the removal of one entry by a walk that follows no link. A
    workspace is a map from paths to directories, files and links.
  \<^item> \<open>Session_Life\<close> (\<open>sessions.py\<close>, \<open>executor._dir_identity\<close>, \<open>_rmtree_checked\<close>): the module's tables
    as the record \<open>sessions\<close>; start, the idle clock and expiry with its cache and marker, the lock file,
    sweep, stop and the listing. What runs under the module's lock is one function, what follows it
    another; \<open>Session_Invariant\<close> has the step relation \<open>life_step\<close> of their interleavings and the
    invariant, \<open>Session_Claims\<close> the theorems.
  \<^item> \<open>Session_Files\<close>, \<open>Session_Quota\<close> (\<open>sessions.py\<close>): deleting a file; the configured ceilings, the
    measurement of workspaces, the refusals, the checks before and after a run, and \<open>write_file\<close>.
  \<^item> \<open>Session_Archive\<close> (\<open>sessions.py\<close>): planning an archive member by member with its collisions,
    caps and budget, and extracting the plan; what \<open>tarfile\<close> answers is an argument. \<open>Archive_Claims\<close> has
    the relation between the paths a plan registers and the tree the extraction makes, and the theorems.
  \<^item> \<open>Session_Snapshot\<close> (\<open>sessions.py\<close>): saving, deleting and restoring snapshots, into a new session or
    by swapping directories; the renames, their errors and other threads are arguments.
    \<open>Snapshot_Claims\<close> and \<open>Snapshot_Roundtrip\<close> have the theorems.
  \<^item> \<open>Output_Capture\<close> (\<open>executor.py\<close>): the bounded reader of a pipe, the cut at a character boundary and
    the budget two streams share, with its theorems. The interface \<open>lead_code\<close> is what the cut relies
    on of an encoding; it is interpreted for UTF-8.
  \<^item> \<open>Fallback_Executor\<close> (\<open>executor.py\<close>): the Python backend, from the environment and the ceilings of a
    step over the scratch directory to compile and run under one budget; the record \<open>machine\<close> has what
    the operating system, the clock and the spawned programs do. \<open>Fallback_Claims\<close> has the theorems.
  \<^item> \<open>Native_Executor\<close> (\<open>executor.py\<close>): the command line of the native binary and what is made of its
    answer, plain and streamed; the binary is an argument. \<open>Native_Claims\<close> has the theorems.
  \<^item> \<open>Packages\<close> (\<open>packages.py\<close>): the checks of a package, the allowlist, the installers, the rulesets that
    confine them and \<open>install\<close>; the record \<open>depot\<close> is the host. \<open>Package_Claims\<close> has the theorems.
  \<^item> \<open>Truth_Table\<close> (\<open>logic.py\<close>): the tokenizer, the recursive-descent parser, the evaluation and the table of
    a boolean expression. \<open>Logic_Claims\<close> has the reference semantics \<open>holds\<close>, the printer and the theorems.

  \<^bold>\<open>How the parts interact.\<close> A request is a \<open>spec\<close>; the broker narrows it, the registry selects
  the provider, the supervisor runs it on a worker and attaches the receipt that names the request
  as written. The execution service composes these steps and installs dependencies between the
  broker's decision and the run; an administrative tool passes the confirmation
  gate first. Sessions keep workspaces and workers between requests; every write of the server into a
  workspace, a snapshot or a restore passes the same quotas. Verifiers run programs through the executor
  and their reports are graded. Every failing result passes through \<open>error_result\<close> or \<open>ensure_code\<close>.

  \<^bold>\<open>What the theorems show.\<close> A result labelled exact is the value of the expression; bit operations
  are those of machine words at every width; radix conversion prints the true digits; failures carry
  a code of the taxonomy; a policy never adds a capability and the disclosed network posture is the
  enforced one; canonical bytes determine the request and no credential is hashed by value; a receipt
  reports as enforced exactly what was requested and not disclosed as unenforced; the supervisor
  keeps its bound, never prunes the journal of an active run, releases each directory once, admits
  exactly when there is room, settles polled runs and never changes a result; recovery deals with
  every journal file; translation verdicts count exactly the agreeing and refuting inputs, and a
  grade is never given without that evidence. The execution service fetches nothing without a network
  the request and the policy both allow, starts at most the brokered run, removes what it made and
  answers every request with a coded refusal or a receipt; requirements are merged and installed in
  order; the confirmation gate lets a tool pass exactly when the user agreed or cannot be asked, and
  records which. The rank statistic counts pairs, its exact p-values are shares of arrangements, and
  an optimisation is accepted exactly by the stated rule over the sizes that were testable. Every worker
  of a session is accounted for in every interleaving, an expired session stays expired, a deletion
  removes one entry or nothing, a write stays within the quotas; an accepted archive is within every
  limit and extracts completely, a restore in place never loses the session's files, and what was saved
  is what a restore gives back. Captured output is that of the complete streams however it arrives and is
  cut fairly and between characters; a program sees only allowlisted variables and starts beside a fresh
  scratch directory; a result of either backend says what happened and names what was not enforced. A
  package manager is run only for a request that passed every check, with one argument from it, and a
  ruleset lets it write where the theorem says. A boolean expression is parsed as its precedences have it
  and its table decides it.

  \<^bold>\<open>Bounds and termination.\<close> All functions are total. There is no fuel: loops over digits and
  factors terminate by a measure, and the loops of the source with a fixed cap (100 radix digits,
  4096 repeating digits, the exponent and result-size limits) keep that cap in the model. Characters
  are code points below 256; the lengths and sizes the code compares are lengths of such texts.
  Times are rational numbers. The boolean parser goes on
  after each operand only with fewer tokens left, which \<open>parse_consumes\<close> shows is always so.

  \<^bold>\<open>Not modelled.\<close> The static screen \<open>safe_expr.py\<close> and everything that calls SymPy, Z3 or pint,
  whose meaning is that of the library; process creation, process groups and the polling of a growing
  output (\<open>executor.py\<close>), the native binary itself, kernel sandboxes (\<open>landlock.py\<close>, \<open>sandbox_macos.py\<close>),
  HTTP and Docker control planes (\<open>strict_service.py\<close>,
  \<open>strict_runtime.py\<close>, the remote providers), host probing and package managers, the MCP server's tool
  plumbing and the JSON schemas of \<open>contract.py\<close>. Of \<open>sessions.py\<close>: the worker process, its pipes and
  its bootstrap programs, \<open>execute\<close> with its spill files, reading files, the listing of snapshots and the
  probe of a process identifier; a file system is a map from paths to entries without permissions, and
  directories are named by their resolved path.
\<close>

end
